(* ===== verification/Prelude.thy ===== *)
theory Prelude
  imports Complex_Main
begin

text \<open>
  Shared material of the development: the error values of the code base, results as sums,
  JavaScript's BigInt and number operations, decimal digit strings, and the state-passing
  combinators in which the asynchronous code is written.
\<close>

named_theorems js_simps \<open>unfolding rules for the JavaScript primitives\<close>
named_theorems act_simps \<open>unfolding rules for the state-passing combinators\<close>

section \<open>Errors and results\<close>

text \<open>
  The code returns error objects instead of throwing them, except for the exceptions of the
  language and of the money library. Both are values of one type: \<open>Thrown\<close> marks an exception
  that propagates as a throw, every other constructor is an error class whose instance is
  returned. The message text of an error is not part of the model; the constructor
  \<open>ServiceError\<close> is an error handed back by a collaborator outside the repository and
  \<open>RepositoryError\<close> an error of the database driver as \<open>parseRepositoryError\<close> classifies it.
\<close>

datatype js_exn = RangeError | SyntaxError | TypeError | UnsafeIntegerError
  | IncompatibleCurrencyError | PlainError

datatype repository_error = CannotConnectToDbError | DbConnectionClosedError
  | InvalidDocumentIdForDbError | DuplicateKeyForPersistError | UnknownRepositoryError

datatype error =
    Thrown js_exn
  | BigIntConversionError
  | BigIntFloatConversionError
  | UnknownBigIntConversionError
  | UnsupportedCurrencyError
  | BtcAmountTooLargeError
  | UsdAmountTooLargeError
  | InvalidBtcPaymentAmountError
  | InvalidUsdPaymentAmountError
  | InvalidZeroAmountPriceRatioInputError
  | SubOneCentSatAmountForUsdSelfSendError
  | LnHashPresentInIntraLedgerFlowError
  | IntraLedgerHashPresentInLnFlowError
  | InvalidLightningPaymentFlowBuilderStateError
  | InvalidLightningPaymentFlowStateError
  | InvalidOnChainPaymentFlowBuilderStateError
  | SelfPaymentError
  | CouldNotFindWalletFromAccountIdAndCurrencyError
  | InsufficientBalanceError
  | InvalidCurrencyForWalletError
  | BadAmountForRouteError
  | MaxFeeTooLargeForRoutelessPaymentError
  | AlreadyPaidError
  | InvalidCashWalletCutoverAmountError
  | InvalidCashWalletMigrationTransitionError
  | InvalidCashWalletCutoverStateTransitionError
  | CashWalletCutoverInProgressError
  | CashWalletMigrationFailedError
  | CashWalletMissingLegacyUsdWalletError
  | CashWalletMissingUsdtWalletError
  | CashWalletCutoverPreflightError
  | InvalidWalletId
  | UnexpectedIbexResponse
  | IbexRateLimitError
  | CouldNotUpdateError
  | CacheUndefinedError
  | CacheNotAvailableError
  | UnknownCacheServiceError
  | FygaroReservationWriteError
  | FygaroSettingsQueryError
  | FygaroTopupHistoryQueryError
  | FeeDiscountQueryError
  | BridgeTransferRequestUpsertError
  | ExecutionError
  | ResourceAttemptsLockServiceError
  | UnknownLockServiceError
  | InvalidIdempotencyKeyError
  | IdempotencyKeyReuseError
  | MismatchedCurrencyForWalletError
  | InactiveAccountError
  | InsufficientIbexBalance
  | CouldNotFindAccountFromUsernameError
  | IdentifierNotFoundError
  | RepositoryError repository_error
  | ServiceError string

type_synonym 'a result = "error + 'a"

definition bindE :: "'a result \<Rightarrow> ('a \<Rightarrow> 'b result) \<Rightarrow> 'b result" where
  "bindE r k = (case r of Inl e \<Rightarrow> Inl e | Inr x \<Rightarrow> k x)"

lemma bindE_simps [simp, js_simps]:
  "bindE (Inl e) k = Inl e"
  "bindE (Inr x) k = k x"
  by (simp_all add: bindE_def)

lemma bindE_eq_Inr [js_simps]:
  "bindE r k = Inr y \<longleftrightarrow> (\<exists>x. r = Inr x \<and> k x = Inr y)"
  by (cases r) simp_all

lemma not_isl_Inr: "\<not> isl r \<longleftrightarrow> (\<exists>x. r = Inr x)"
  by (cases r) simp_all

lemma find_SomeD: "List.find P xs = Some x \<Longrightarrow> x \<in> set xs \<and> P x"
  by (auto simp: find_Some_iff)

text \<open>\<open>try { ... } catch { return handler }\<close>: only a thrown exception is caught.\<close>

definition catchE :: "'a result \<Rightarrow> error \<Rightarrow> 'a result" where
  "catchE r h = (case r of Inl (Thrown x) \<Rightarrow> Inl h | _ \<Rightarrow> r)"

lemma catchE_Inr [simp]: "catchE (Inr x) h = Inr x"
  by (simp add: catchE_def)

lemma catchE_eq_Inr: "catchE r h = Inr x \<longleftrightarrow> r = Inr x"
  by (auto simp: catchE_def split: sum.splits error.splits)

section \<open>BigInt\<close>

text \<open>
  A BigInt is an \<open>int\<close>. Division truncates towards zero, the remainder has the sign of the
  dividend, and both throw a RangeError when the divisor is zero.
\<close>

definition trunc_quot :: "int \<Rightarrow> int \<Rightarrow> int" where
  "trunc_quot a b = sgn a * sgn b * (\<bar>a\<bar> div \<bar>b\<bar>)"

definition trunc_rem :: "int \<Rightarrow> int \<Rightarrow> int" where
  "trunc_rem a b = sgn a * (\<bar>a\<bar> mod \<bar>b\<bar>)"

definition bigDiv :: "int \<Rightarrow> int \<Rightarrow> int result" where
  "bigDiv a b = (if b = 0 then Inl (Thrown RangeError) else Inr (trunc_quot a b))"

definition bigMod :: "int \<Rightarrow> int \<Rightarrow> int result" where
  "bigMod a b = (if b = 0 then Inl (Thrown RangeError) else Inr (trunc_rem a b))"

lemma trunc_quot_nonneg [simp]: "0 \<le> a \<Longrightarrow> 0 < b \<Longrightarrow> trunc_quot a b = a div b"
  by (cases "a = 0") (simp_all add: trunc_quot_def)

lemma trunc_rem_nonneg [simp]: "0 \<le> a \<Longrightarrow> 0 < b \<Longrightarrow> trunc_rem a b = a mod b"
  by (cases "a = 0") (simp_all add: trunc_rem_def)

lemma trunc_quot_rem: "b * trunc_quot a b + trunc_rem a b = a"
proof -
  have "b * trunc_quot a b + trunc_rem a b = sgn a * (\<bar>b\<bar> * (\<bar>a\<bar> div \<bar>b\<bar>) + \<bar>a\<bar> mod \<bar>b\<bar>)"
    by (simp add: trunc_quot_def trunc_rem_def algebra_simps abs_sgn)
  also have "\<dots> = a"
    by (simp add: sgn_mult_abs)
  finally show ?thesis .
qed

lemma trunc_quot_neg: "trunc_quot (- a) b = - trunc_quot a b"
  by (simp add: trunc_quot_def)

lemma trunc_rem_neg: "trunc_rem (- a) b = - trunc_rem a b"
  by (simp add: trunc_rem_def)

lemma trunc_rem_bound: "b \<noteq> 0 \<Longrightarrow> \<bar>trunc_rem a b\<bar> < \<bar>b\<bar>"
  by (cases "a = 0") (simp_all add: trunc_rem_def abs_mult)

lemma bigDiv_ok [simp, js_simps]: "b \<noteq> 0 \<Longrightarrow> bigDiv a b = Inr (trunc_quot a b)"
  by (simp add: bigDiv_def)

lemma bigMod_ok [simp, js_simps]: "b \<noteq> 0 \<Longrightarrow> bigMod a b = Inr (trunc_rem a b)"
  by (simp add: bigMod_def)

lemma bigDiv_zero [simp]: "bigDiv a 0 = Inl (Thrown RangeError)"
  by (simp add: bigDiv_def)

lemma bigMod_zero [simp]: "bigMod a 0 = Inl (Thrown RangeError)"
  by (simp add: bigMod_def)

section \<open>Numbers\<close>

text \<open>
  A JavaScript number is a double. Its finite values are rationals, and the operations the
  modelled code applies to them (comparison, \<open>Math.floor\<close>, \<open>Math.ceil\<close>, \<open>BigInt\<close>,
  \<open>Number.isSafeInteger\<close>, \<open>toFixed\<close>) are exact on them.
\<close>

datatype js_number = NaN | PosInf | NegInf | Fin rat

fun num_gt_int :: "js_number \<Rightarrow> int \<Rightarrow> bool" where
  "num_gt_int NaN n = False"
| "num_gt_int PosInf n = True"
| "num_gt_int NegInf n = False"
| "num_gt_int (Fin q) n = (q > of_int n)"

fun isInteger :: "js_number \<Rightarrow> bool" where
  "isInteger (Fin q) = (of_int \<lfloor>q\<rfloor> = q)"
| "isInteger _ = False"

definition isSafeInteger :: "js_number \<Rightarrow> bool" where
  "isSafeInteger x = (case x of Fin q \<Rightarrow> of_int \<lfloor>q\<rfloor> = q \<and> \<bar>\<lfloor>q\<rfloor>\<bar> \<le> 2 ^ 53 - 1 | _ \<Rightarrow> False)"

text \<open>\<open>BigInt(num)\<close> throws a RangeError on anything that is not an integer.\<close>

fun BigInt :: "js_number \<Rightarrow> int result" where
  "BigInt (Fin q) = (if of_int \<lfloor>q\<rfloor> = q then Inr \<lfloor>q\<rfloor> else Inl (Thrown RangeError))"
| "BigInt _ = Inl (Thrown RangeError)"

section \<open>Actions\<close>

text \<open>
  An asynchronous function that works on collaborators is a function of their state: it returns a
  result and the state after it. An error ends the sequence of calls it occurs in.
\<close>

type_synonym ('s, 'a) act = "'s \<Rightarrow> 'a result \<times> 's"

definition retA :: "'a \<Rightarrow> ('s, 'a) act" where
  "retA x = (\<lambda>s. (Inr x, s))"

definition failA :: "error \<Rightarrow> ('s, 'a) act" where
  "failA e = (\<lambda>s. (Inl e, s))"

definition liftA :: "'a result \<Rightarrow> ('s, 'a) act" where
  "liftA r = (\<lambda>s. (r, s))"

definition bindA :: "('s, 'a) act \<Rightarrow> ('a \<Rightarrow> ('s, 'b) act) \<Rightarrow> ('s, 'b) act" where
  "bindA m k = (\<lambda>s. case m s of (Inl e, s') \<Rightarrow> (Inl e, s') | (Inr x, s') \<Rightarrow> k x s')"

text \<open>A call whose error is inspected by the caller; an exception still leaves the caller.\<close>

definition thrown :: "error \<Rightarrow> bool" where
  "thrown e = (case e of Thrown x \<Rightarrow> True | _ \<Rightarrow> False)"

definition tryA :: "('s, 'a) act \<Rightarrow> ('s, 'a result) act" where
  "tryA m = (\<lambda>s. case m s of
       (Inl e, s') \<Rightarrow> (if thrown e then Inl e else Inr (Inl e), s')
     | (Inr x, s') \<Rightarrow> (Inr (Inr x), s'))"

lemma thrown_Thrown [simp]: "thrown (Thrown x)"
  by (simp add: thrown_def)

lemma tryA_cases:
  assumes "tryA m s = (r, t)"
  obtains (returned) x where "r = Inr x" "m s = (x, t)"
  | (raised) e where "r = Inl e" "thrown e" "m s = (Inl e, t)"
  using assms by (auto simp: tryA_def split: prod.splits sum.splits if_splits)

lemma act_apply [act_simps]:
  "retA x s = (Inr x, s)"
  "failA e s = (Inl e, s)"
  "liftA r s = (r, s)"
  by (simp_all add: retA_def failA_def liftA_def)

lemma bindA_simps [act_simps]:
  "bindA (retA x) k = k x"
  "bindA (failA e) k = failA e"
  "bindA (liftA (Inr x)) k = k x"
  "bindA (liftA (Inl e)) k = failA e"
  by (auto simp: bindA_def retA_def failA_def liftA_def)

lemma bindA_Inr:
  "bindA m k s = (Inr y, t) \<longleftrightarrow> (\<exists>x u. m s = (Inr x, u) \<and> k x u = (Inr y, t))"
  by (auto simp: bindA_def split: prod.splits sum.splits)

text \<open>What holds after an action, of its result and of the state, if a condition holds before.\<close>

definition valid :: "('s \<Rightarrow> bool) \<Rightarrow> ('s, 'a) act \<Rightarrow> ('a result \<Rightarrow> 's \<Rightarrow> bool) \<Rightarrow> bool" where
  "valid P m Q \<longleftrightarrow> (\<forall>s r t. P s \<longrightarrow> m s = (r, t) \<longrightarrow> Q r t)"

lemma validI: "(\<And>s r t. P s \<Longrightarrow> m s = (r, t) \<Longrightarrow> Q r t) \<Longrightarrow> valid P m Q"
  by (simp add: valid_def)

lemma validD: "valid P m Q \<Longrightarrow> P s \<Longrightarrow> m s = (r, t) \<Longrightarrow> Q r t"
  by (simp add: valid_def)

lemma valid_ret: "(\<And>s. P s \<Longrightarrow> Q (Inr x) s) \<Longrightarrow> valid P (retA x) Q"
  by (auto simp: valid_def act_simps)

lemma valid_fail: "(\<And>s. P s \<Longrightarrow> Q (Inl e) s) \<Longrightarrow> valid P (failA e) Q"
  by (auto simp: valid_def act_simps)

lemma valid_lift: "(\<And>s. P s \<Longrightarrow> Q r s) \<Longrightarrow> valid P (liftA r) Q"
  by (auto simp: valid_def act_simps)

lemma valid_bind:
  assumes "valid P m (\<lambda>r t. case r of Inl e \<Rightarrow> Q (Inl e) t | Inr x \<Rightarrow> R x t)"
    and "\<And>x. valid (R x) (k x) Q"
  shows "valid P (bindA m k) Q"
  using assms by (fastforce simp: valid_def bindA_def split: prod.splits sum.splits)

lemma valid_weaken:
  assumes "valid P m Q" "\<And>s. P' s \<Longrightarrow> P s" "\<And>r t. Q r t \<Longrightarrow> Q' r t"
  shows "valid P' m Q'"
  using assms unfolding valid_def by blast

lemma valid_if: "(b \<Longrightarrow> valid P m Q) \<Longrightarrow> (\<not> b \<Longrightarrow> valid P m' Q) \<Longrightarrow> valid P (if b then m else m') Q"
  by simp

lemma valid_conj_pre: "(B \<Longrightarrow> valid P m Q) \<Longrightarrow> valid (\<lambda>s. B \<and> P s) m Q"
  by (auto simp: valid_def)

end
