(* ===== verification/Decimal.thy ===== *)
theory Decimal
  imports Prelude
begin

text \<open>
  Decimal digit strings: what \<open>BigInt(string)\<close>, \<open>toString()\<close>, \<open>padStart\<close>, \<open>repeat\<close> and the
  regular expressions \<open>\d+\<close>, \<open>[0-9]*\<close> and \<open>\.?0+$\<close> compute on them, with the round trip
  between numbers and their digits.
\<close>

section \<open>Digits\<close>

definition is_digit :: "char \<Rightarrow> bool" where
  "is_digit c \<longleftrightarrow> c \<in> set ''0123456789''"

definition digit_val :: "char \<Rightarrow> nat" where
  "digit_val c = of_char c - 48"

definition digit_char :: "nat \<Rightarrow> char" where
  "digit_char d = (''0123456789'' ! d)"
lemma digit_cases:
  assumes "d < (10::nat)"
  shows "d = 0 \<or> d = 1 \<or> d = 2 \<or> d = 3 \<or> d = 4 \<or> d = 5 \<or> d = 6 \<or> d = 7 \<or> d = 8 \<or> d = 9"
  using assms by arith
lemma digit_val_char [simp]: "d < 10 \<Longrightarrow> digit_val (digit_char d) = d"
  by (drule digit_cases) (elim disjE; simp add: digit_val_def digit_char_def)
lemma is_digit_char [simp]: "d < 10 \<Longrightarrow> is_digit (digit_char d)"
  by (drule digit_cases) (elim disjE; simp add: is_digit_def digit_char_def)

lemma digit_val_less: "is_digit c \<Longrightarrow> digit_val c < 10"
  by (simp add: is_digit_def digit_val_def, elim disjE; simp)

lemma digit_char_val [simp]: "is_digit c \<Longrightarrow> digit_char (digit_val c) = c"
  by (simp add: is_digit_def digit_val_def, elim disjE; simp add: digit_char_def)

lemma digit_char_eq_0 [simp]: "d < 10 \<Longrightarrow> digit_char d = CHR ''0'' \<longleftrightarrow> d = 0"
  by (drule digit_cases) (elim disjE; simp add: digit_char_def)

lemma digit_val_0 [simp]: "digit_val (CHR ''0'') = 0"
  by (simp add: digit_val_def)

lemma is_digit_0 [simp]: "is_digit (CHR ''0'')"
  by (simp add: is_digit_def)

lemma not_digit [simp]: "\<not> is_digit (CHR ''.'')" "\<not> is_digit (CHR ''-'')"
  by (simp_all add: is_digit_def)

section \<open>Parsing: \<open>BigInt\<close> of a digit string\<close>

text \<open>\<open>BigInt("")\<close> is zero and leading zeros are ignored.\<close>

definition parse_nat :: "string \<Rightarrow> nat" where
  "parse_nat s = foldl (\<lambda>n c. 10 * n + digit_val c) 0 s"

definition digits :: "string \<Rightarrow> bool" where
  "digits s \<longleftrightarrow> list_all is_digit s"

lemma digits_simps [simp]:
  "digits []"
  "digits (c # s) \<longleftrightarrow> is_digit c \<and> digits s"
  "digits (s @ t) \<longleftrightarrow> digits s \<and> digits t"
  by (simp_all add: digits_def)

lemma digits_replicate [simp]: "digits (replicate n (CHR ''0''))"
  by (induction n) simp_all

lemma digits_take [simp]: "digits s \<Longrightarrow> digits (take n s)"
  by (auto simp: digits_def list_all_iff dest: in_set_takeD)

lemma digits_drop [simp]: "digits s \<Longrightarrow> digits (drop n s)"
  by (auto simp: digits_def list_all_iff dest: in_set_dropD)

lemma parse_nat_Nil [simp]: "parse_nat [] = 0"
  by (simp add: parse_nat_def)

lemma parse_nat_snoc: "parse_nat (s @ [c]) = 10 * parse_nat s + digit_val c"
  by (simp add: parse_nat_def)

lemma parse_nat_append: "parse_nat (s @ t) = parse_nat s * 10 ^ length t + parse_nat t"
proof (induction t rule: rev_induct)
  case Nil
  then show ?case by simp
next
  case (snoc c t)
  have "parse_nat (s @ t @ [c]) = 10 * parse_nat (s @ t) + digit_val c"
    using parse_nat_snoc [of "s @ t" c] by simp
  with snoc show ?case by (simp add: parse_nat_snoc)
qed

lemma parse_nat_single [simp]: "parse_nat [c] = digit_val c"
  using parse_nat_snoc [of "[]" c] by simp

lemma parse_nat_Cons: "parse_nat (c # s) = digit_val c * 10 ^ length s + parse_nat s"
  using parse_nat_append [of "[c]" s] by simp

lemma parse_nat_zeros [simp]: "parse_nat (replicate n (CHR ''0'')) = 0"
  by (induction n) (simp_all add: parse_nat_Cons)

lemma parse_nat_zeros_append [simp]: "parse_nat (replicate n (CHR ''0'') @ s) = parse_nat s"
  by (simp add: parse_nat_append)

lemma parse_nat_bound: "digits s \<Longrightarrow> parse_nat s < 10 ^ length s"
proof (induction s rule: rev_induct)
  case Nil
  then show ?case by simp
next
  case (snoc c s)
  then have "parse_nat s + 1 \<le> 10 ^ length s" and "digit_val c < 10"
    using digit_val_less by auto
  then show ?case
    by (simp add: parse_nat_snoc)
qed

section \<open>Printing: \<open>toString\<close> of a BigInt\<close>

fun show_nat :: "nat \<Rightarrow> string" where
  "show_nat n = (if n < 10 then [digit_char n] else show_nat (n div 10) @ [digit_char (n mod 10)])"

declare show_nat.simps [simp del]

definition show_int :: "int \<Rightarrow> string" where
  "show_int i = (if i < 0 then CHR ''-'' # show_nat (nat (- i)) else show_nat (nat i))"

lemma show_nat_small: "n < 10 \<Longrightarrow> show_nat n = [digit_char n]"
  by (simp add: show_nat.simps)

lemma show_nat_not_Nil [simp]: "show_nat n \<noteq> []"
  by (subst show_nat.simps) simp

lemma digits_show_nat [simp]: "digits (show_nat n)"
proof (induction n rule: show_nat.induct)
  case (1 n)
  then show ?case by (cases "n < 10") (simp_all add: show_nat.simps [of n])
qed

lemma parse_show_nat [simp]: "parse_nat (show_nat n) = n"
proof (induction n rule: show_nat.induct)
  case (1 n)
  then show ?case
    by (cases "n < 10") (simp_all add: show_nat.simps [of n] parse_nat_snoc)
qed

lemma show_nat_inj: "show_nat m = show_nat n \<Longrightarrow> m = n"
  by (metis parse_show_nat)

lemma show_nat_0: "show_nat 0 = ''0''"
  by (simp add: show_nat_small digit_char_def)

lemma show_nat_eq_0 [simp]: "show_nat n = ''0'' \<longleftrightarrow> n = 0"
  by (metis parse_show_nat show_nat_0)

lemma show_nat_length: "n < 10 ^ k \<Longrightarrow> 0 < k \<Longrightarrow> length (show_nat n) \<le> k"
proof (induction n arbitrary: k rule: show_nat.induct)
  case (1 n)
  show ?case
  proof (cases "n < 10")
    case True
    with 1 show ?thesis by (simp add: show_nat_small)
  next
    case False
    with 1 have "k \<noteq> 1" by auto
    with 1 obtain j where k: "k = Suc j" "0 < j" by (metis One_nat_def Suc_pred neq0_conv)
    with 1 have "n div 10 < 10 ^ j" by (simp add: less_mult_imp_div_less mult.commute)
    with False 1 k have "length (show_nat (n div 10)) \<le> j" by simp
    with False k show ?thesis by (simp add: show_nat.simps [of n])
  qed
qed

lemma show_nat_length_ge: "10 ^ k \<le> n \<Longrightarrow> k < length (show_nat n)"
  using parse_nat_bound [of "show_nat n"]
  by (metis digits_show_nat not_less parse_show_nat order_le_less_trans power_increasing_iff
      less_imp_le_nat numeral_le_one_iff semiring_norm(69) one_less_numeral_iff semiring_norm(76))

text \<open>No leading zero: the first digit of a positive number is not \<open>0\<close>.\<close>

lemma show_nat_hd: "0 < n \<Longrightarrow> hd (show_nat n) \<noteq> CHR ''0''"
proof (induction n rule: show_nat.induct)
  case (1 n)
  show ?case
  proof (cases "n < 10")
    case True
    with 1 show ?thesis by (simp add: show_nat_small)
  next
    case False
    then have "hd (show_nat (n div 10)) \<noteq> CHR ''0''" by (intro 1) simp_all
    with False show ?thesis by (subst show_nat.simps) simp
  qed
qed

section \<open>Evaluation\<close>

text \<open>Reading and printing over binary integers, for evaluation: a natural number is unary there.\<close>

definition read_digits :: "string \<Rightarrow> int" where
  "read_digits s = foldl (\<lambda>n c. 10 * n + int (digit_val c)) 0 s"

lemma read_digits_eq [code_unfold]: "int (parse_nat s) = read_digits s"
  by (induction s rule: rev_induct) (simp_all add: read_digits_def parse_nat_snoc)

function print_digits :: "int \<Rightarrow> string" where
  "print_digits i = (if i < 10 then [digit_char (nat i)] else print_digits (i div 10) @ [digit_char (nat (i mod 10))])"
  by auto
termination by (relation "measure nat") auto

declare print_digits.simps [simp del]

lemma print_digits_eq: "0 \<le> i \<Longrightarrow> print_digits i = show_nat (nat i)"
proof (induction i rule: print_digits.induct)
  case (1 i)
  then show ?case
    by (subst print_digits.simps, subst show_nat.simps) (auto simp: nat_div_distrib nat_mod_distrib nat_less_iff)
qed

lemma show_int_code [code]: "show_int i = (if i < 0 then CHR ''-'' # print_digits (- i) else print_digits i)"
  by (simp add: show_int_def print_digits_eq)

section \<open>Padding and stripping\<close>

definition padStart :: "nat \<Rightarrow> string \<Rightarrow> string" where
  "padStart n s = replicate (n - length s) (CHR ''0'') @ s"

lemma digits_padStart [simp]: "digits (padStart n s) \<longleftrightarrow> digits s"
  by (simp add: padStart_def)

lemma parse_padStart [simp]: "parse_nat (padStart n s) = parse_nat s"
  by (simp add: padStart_def)

lemma length_padStart [simp]: "length (padStart n s) = max n (length s)"
  by (simp add: padStart_def)

text \<open>
  \<open>s.replace(/\.?0+$/, "")\<close>: the longest run of zeros at the end goes, together with a
  dot right before it; without a zero at the end nothing matches.
\<close>

definition strip_zeros :: "string \<Rightarrow> string" where
  "strip_zeros s =
     (let r = rev s; rest = dropWhile (\<lambda>c. c = CHR ''0'') r
      in if rest = r then s
         else rev (if rest \<noteq> [] \<and> hd rest = CHR ''.'' then tl rest else rest))"

lemma takeWhile_digits: "digits w \<Longrightarrow> takeWhile is_digit (w @ CHR ''.'' # f) = w"
  by (induction w) simp_all

lemma dropWhile_digits: "digits w \<Longrightarrow> dropWhile is_digit (w @ CHR ''.'' # f) = CHR ''.'' # f"
  by (induction w) simp_all

lemma takeWhile_all_digits: "digits w \<Longrightarrow> takeWhile is_digit w = w"
  by (induction w) simp_all

lemma dropWhile_all_digits: "digits w \<Longrightarrow> dropWhile is_digit w = []"
  by (induction w) simp_all

end
