(* ===== verification/BigintMoney.thy ===== *)
theory BigintMoney
  imports Decimal
begin

text \<open>
  The money library \<open>src/domain/shared/bigint-money\<close>: fixed-point amounts with twenty decimals
  kept in one BigInt, division with a rounding mode, printing with a chosen number of decimals,
  parsing, and the operations of the class \<open>Money\<close>. A method that throws returns
  \<open>Inl (Thrown _)\<close>.
\<close>

section \<open>utils.ts\<close>

datatype Round = HALF_TO_EVEN | HALF_AWAY_FROM_0 | HALF_TOWARDS_0 | TOWARDS_0

definition PRECISION_I :: nat where
  "PRECISION_I = 20"

definition PRECISION_M :: int where
  "PRECISION_M = 10 ^ PRECISION_I"

definition divide_round :: "int \<Rightarrow> int \<Rightarrow> Round \<Rightarrow> int result" where
  "divide_round a b rnd =
     (let aAbs = (if a > 0 then a else - a);
          bAbs = (if b > 0 then b else - b)
      in bindE (bigDiv aAbs bAbs) (\<lambda>q. bindE (bigMod aAbs bAbs) (\<lambda>rem.
         let res = (if rem * 2 > bAbs then (case rnd of TOWARDS_0 \<Rightarrow> q | _ \<Rightarrow> q + 1)
                    else if rem * 2 = bAbs then
                      (case rnd of
                         HALF_TO_EVEN \<Rightarrow> (if trunc_rem q 2 = 1 then q + 1 else q)
                       | HALF_AWAY_FROM_0 \<Rightarrow> q + 1
                       | TOWARDS_0 \<Rightarrow> q
                       | HALF_TOWARDS_0 \<Rightarrow> q)
                    else q)
         in Inr (if (a > 0) \<noteq> (b > 0) then - res else res))))"

record money =
  mcurrency :: string
  mvalue :: int
  mround :: Round

datatype money_input = InMoney money | InString string | InBigint int | InNumber js_number

text \<open>
  \<open>input.match(/^(-)?([0-9]*)?(\.([0-9]*))?$/)\<close>: the sign, the whole part and the fraction.
  An empty whole part is an undefined group, an empty fraction after a dot is the empty string.
\<close>

definition match_money :: "string \<Rightarrow> (bool \<times> string option \<times> string option) option" where
  "match_money s =
     (let (sign, rest) = (case s of [] \<Rightarrow> (False, s)
                          | c # r \<Rightarrow> (if c = CHR ''-'' then (True, r) else (False, s)));
          w = takeWhile is_digit rest;
          whole = (if w = [] then None else Some w)
      in case dropWhile is_digit rest of
           [] \<Rightarrow> Some (sign, whole, None)
         | c # fracPart \<Rightarrow> (if c = CHR ''.'' \<and> digits fracPart then Some (sign, whole, Some fracPart) else None))"

definition moneyValueToBigInt :: "money_input \<Rightarrow> Round \<Rightarrow> int result" where
  "moneyValueToBigInt input rnd =
     (case input of
        InMoney m \<Rightarrow> Inr (mvalue m)
      | InString s \<Rightarrow>
          (case match_money s of
             None \<Rightarrow> Inl (Thrown TypeError)
           | Some (sign, whole, fracPart) \<Rightarrow>
               (let out0 = (case whole of None \<Rightarrow> 0 | Some w \<Rightarrow> int (parse_nat w) * PRECISION_M)
                in bindE (case fracPart of
                            None \<Rightarrow> Inr out0
                          | Some f \<Rightarrow>
                              (if length f \<le> PRECISION_I
                               then Inr (out0 + int (parse_nat f) * 10 ^ (PRECISION_I - length f))
                               else bindE (divide_round (int (parse_nat f))
                                             (10 ^ (length f - PRECISION_I)) rnd)
                                      (\<lambda>d. Inr (out0 + d))))
                     (\<lambda>out. Inr (if sign then out * (- 1) else out))))
      | InBigint n \<Rightarrow> Inr (n * PRECISION_M)
      | InNumber x \<Rightarrow>
          (if isSafeInteger x then bindE (BigInt x) (\<lambda>n. Inr (n * PRECISION_M))
           else Inl (Thrown UnsafeIntegerError)))"

definition bigintToFixed :: "int \<Rightarrow> nat \<Rightarrow> Round \<Rightarrow> string result" where
  "bigintToFixed val precision rnd =
     (if precision = 0 then bindE (divide_round val PRECISION_M rnd) (\<lambda>q. Inr (show_int q))
      else
        bindE (bigDiv val PRECISION_M) (\<lambda>wholePart.
        bindE (bigMod val PRECISION_M) (\<lambda>remainder0.
        bindE (if precision > PRECISION_I
               then Inr (remainder0 * 10 ^ (precision - PRECISION_I))
               else divide_round remainder0 (10 ^ (PRECISION_I - precision)) rnd) (\<lambda>remainder1.
        let negative = (val < 0);
            remainder = (if remainder1 < 0 then remainder1 * (- 1) else remainder1);
            remainderStr0 = padStart precision (show_int remainder);
            (whole, remainderStr) =
              (if length remainderStr0 > precision
               then (wholePart + (if negative then - 1 else 1), replicate precision (CHR ''0''))
               else (wholePart, remainderStr0));
            wholePartStr0 = show_int whole;
            wholePartStr = (if wholePartStr0 = ''0'' \<and> negative then ''-0'' else wholePartStr0)
        in Inr (wholePartStr @ ''.'' @ remainderStr)))))"

section \<open>money.ts\<close>

definition fromSource :: "int \<Rightarrow> string \<Rightarrow> Round \<Rightarrow> money" where
  "fromSource val cur rnd = \<lparr>mcurrency = cur, mvalue = val, mround = rnd\<rparr>"

definition Money :: "money_input \<Rightarrow> string \<Rightarrow> Round \<Rightarrow> money result" where
  "Money val cur rnd = bindE (moneyValueToBigInt val rnd) (\<lambda>v. Inr (fromSource v cur rnd))"

definition toSource :: "money \<Rightarrow> int" where
  "toSource m = mvalue m"

definition toFixed :: "money \<Rightarrow> nat \<Rightarrow> string result" where
  "toFixed m precision = bigintToFixed (mvalue m) precision (mround m)"

definition other_currency :: "money \<Rightarrow> money_input \<Rightarrow> bool" where
  "other_currency m val = (case val of InMoney v \<Rightarrow> mcurrency v \<noteq> mcurrency m | _ \<Rightarrow> False)"

definition money_add :: "money \<Rightarrow> money_input \<Rightarrow> money result" where
  "money_add m val =
     (if other_currency m val then Inl (Thrown IncompatibleCurrencyError)
      else bindE (moneyValueToBigInt val (mround m)) (\<lambda>addVal.
           Inr (fromSource (addVal + mvalue m) (mcurrency m) (mround m))))"

definition money_subtract :: "money \<Rightarrow> money_input \<Rightarrow> money result" where
  "money_subtract m val =
     (if other_currency m val then Inl (Thrown IncompatibleCurrencyError)
      else bindE (moneyValueToBigInt val (mround m)) (\<lambda>subVal.
           Inr (fromSource (mvalue m - subVal) (mcurrency m) (mround m))))"

definition money_divide :: "money \<Rightarrow> money_input \<Rightarrow> money result" where
  "money_divide m val =
     bindE (moneyValueToBigInt (InBigint (mvalue m)) (mround m)) (\<lambda>val1.
     bindE (moneyValueToBigInt val (mround m)) (\<lambda>val2.
     bindE (divide_round val1 val2 (mround m)) (\<lambda>q.
     Inr (fromSource q (mcurrency m) (mround m)))))"

definition money_multiply :: "money \<Rightarrow> money_input \<Rightarrow> money result" where
  "money_multiply m val =
     bindE (moneyValueToBigInt val (mround m)) (\<lambda>valBig.
     bindE (divide_round (valBig * mvalue m) PRECISION_M (mround m)) (\<lambda>q.
     Inr (fromSource q (mcurrency m) (mround m))))"

text \<open>
  The exponent of \<open>pow\<close> is a number or a BigInt. \<open>exponent === 1\<close> compares without conversion,
  so it is false for the BigInt \<open>1n\<close>.
\<close>

datatype exponent = ExpNumber js_number | ExpBigint int

definition pow_nonneg :: "money \<Rightarrow> bool \<Rightarrow> int \<Rightarrow> money result" where
  "pow_nonneg m isNumber n =
     (if n > 1 then
        bindE (divide_round (mvalue m ^ nat n) (PRECISION_M ^ nat (n - 1)) (mround m)) (\<lambda>q.
        Inr (fromSource q (mcurrency m) (mround m)))
      else if isNumber \<and> n = 1 then Inr m
      else Money (InNumber (Fin 1)) (mcurrency m) (mround m))"

definition money_pow :: "money \<Rightarrow> exponent \<Rightarrow> money result" where
  "money_pow m ex =
     (let run = (\<lambda>isNumber n.
            if n < 0 then
              bindE (Money (InNumber (Fin 1)) (mcurrency m) (mround m)) (\<lambda>one.
              bindE (pow_nonneg m isNumber (- n)) (\<lambda>p. money_divide one (InMoney p)))
            else pow_nonneg m isNumber n)
      in case ex of
           ExpNumber x \<Rightarrow>
             (if isInteger x then bindE (BigInt x) (run True) else Inl (Thrown PlainError))
         | ExpBigint n \<Rightarrow> run False n)"

definition compare :: "money \<Rightarrow> money_input \<Rightarrow> int result" where
  "compare m val =
     (if other_currency m val then Inl (Thrown IncompatibleCurrencyError)
      else bindE (moneyValueToBigInt val (mround m)) (\<lambda>bigVal.
           Inr (if bigVal = mvalue m then 0 else if mvalue m < bigVal then - 1 else 1)))"

definition money_sign :: "money \<Rightarrow> int result" where
  "money_sign m = compare m (InNumber (Fin 0))"

definition money_abs :: "money \<Rightarrow> money result" where
  "money_abs m = bindE (money_sign m) (\<lambda>s. money_multiply m (InNumber (Fin (of_int s))))"

definition isLesserThan :: "money \<Rightarrow> money_input \<Rightarrow> bool result" where
  "isLesserThan m val = bindE (compare m val) (\<lambda>c. Inr (c = - 1))"

definition isGreaterThan :: "money \<Rightarrow> money_input \<Rightarrow> bool result" where
  "isGreaterThan m val = bindE (compare m val) (\<lambda>c. Inr (c = 1))"

definition isEqual :: "money \<Rightarrow> money_input \<Rightarrow> bool result" where
  "isEqual m val = bindE (compare m val) (\<lambda>c. Inr (c = 0))"

definition isLesserThanOrEqual :: "money \<Rightarrow> money_input \<Rightarrow> bool result" where
  "isLesserThanOrEqual m val = bindE (compare m val) (\<lambda>c. Inr (c < 1))"

definition isGreaterThanOrEqual :: "money \<Rightarrow> money_input \<Rightarrow> bool result" where
  "isGreaterThanOrEqual m val = bindE (compare m val) (\<lambda>c. Inr (c > - 1))"

text \<open>
  \<open>allocate\<close>: \<open>result[i] += add\<close> past the end of the array adds a BigInt to \<open>undefined\<close>, which
  throws a TypeError; \<open>Array(parts)\<close> throws a RangeError on an invalid length and \<open>10n ** e\<close> on a
  negative exponent.
\<close>

definition spread :: "int list \<Rightarrow> int \<Rightarrow> int \<Rightarrow> int list result" where
  "spread xs n add =
     (if n > int (length xs) then Inl (Thrown TypeError)
      else Inr (map (\<lambda>x. x + add) (take (nat n) xs) @ drop (nat n) xs))"

definition allocate :: "money \<Rightarrow> int \<Rightarrow> nat \<Rightarrow> money list result" where
  "allocate m parts precision =
     bindE (bigDiv (mvalue m) parts) (\<lambda>fraction.
     bindE (bigMod (mvalue m) parts) (\<lambda>remainder.
     bindE (if precision \<le> PRECISION_I then Inr (10 ^ (PRECISION_I - precision))
            else Inl (Thrown RangeError)) (\<lambda>precisionRounder.
     bindE (bigDiv fraction precisionRounder) (\<lambda>roundedFraction.
     bindE (bigMod fraction precisionRounder) (\<lambda>roundedRemainder.
     bindE (bigDiv ((roundedRemainder + remainder) * parts) precisionRounder) (\<lambda>totalRoundedRemainder.
     bindE (if parts < 0 \<or> parts \<ge> 2 ^ 32 then Inl (Thrown RangeError)
            else Inr (replicate (nat parts) roundedFraction)) (\<lambda>arr.
     bindE (spread arr \<bar>totalRoundedRemainder\<bar> (if totalRoundedRemainder > 0 then 1 else - 1)) (\<lambda>res.
     Inr (map (\<lambda>item. fromSource (item * precisionRounder) (mcurrency m) (mround m)) res)))))))))"

definition format :: "money \<Rightarrow> string result" where
  "format m = bindE (toFixed m PRECISION_I) (\<lambda>s. Inr (strip_zeros s))"

definition toJSON :: "money \<Rightarrow> (string \<times> string) result" where
  "toJSON m = bindE (format m) (\<lambda>s. Inr (s, mcurrency m))"

section \<open>Rounded division\<close>

text \<open>The quotient of two magnitudes under a rounding mode, the sign left aside.\<close>

definition round_quot :: "Round \<Rightarrow> int \<Rightarrow> int \<Rightarrow> int" where
  "round_quot rnd n d =
     (let q = n div d; rem = n mod d
      in if rem * 2 > d then (if rnd = TOWARDS_0 then q else q + 1)
         else if rem * 2 = d then
           (case rnd of HALF_TO_EVEN \<Rightarrow> (if odd q then q + 1 else q)
            | HALF_AWAY_FROM_0 \<Rightarrow> q + 1 | _ \<Rightarrow> q)
         else q)"

lemma divide_round_eq:
  assumes "b \<noteq> 0"
  shows "divide_round a b rnd = Inr (sgn a * sgn b * round_quot rnd \<bar>a\<bar> \<bar>b\<bar>)"
proof -
  have q0: "0 \<le> \<bar>a\<bar> div \<bar>b\<bar>"
    using assms by (simp add: pos_imp_zdiv_nonneg_iff)
  have abs: "(if a > 0 then a else - a) = \<bar>a\<bar>" "(if b > 0 then b else - b) = \<bar>b\<bar>"
    by auto
  have sgn: "(if (a > 0) \<noteq> (b > 0) then - r else r) = sgn a * sgn b * r" if "a = 0 \<longrightarrow> r = 0" for r
    using assms that by (auto simp: sgn_if)
  have rem2: "trunc_rem (\<bar>a\<bar> div \<bar>b\<bar>) 2 = 1 \<longleftrightarrow> odd (\<bar>a\<bar> div \<bar>b\<bar>)"
    using q0 by (simp add: odd_iff_mod_2_eq_one)
  have "divide_round a b rnd =
      Inr (if (a > 0) \<noteq> (b > 0) then - round_quot rnd \<bar>a\<bar> \<bar>b\<bar> else round_quot rnd \<bar>a\<bar> \<bar>b\<bar>)"
    unfolding divide_round_def abs Let_def
    using assms rem2 by (cases rnd) (simp_all add: round_quot_def Let_def)
  also have "\<dots> = Inr (sgn a * sgn b * round_quot rnd \<bar>a\<bar> \<bar>b\<bar>)"
    using assms by (subst sgn) (simp_all add: round_quot_def)
  finally show ?thesis .
qed

lemma divide_round_zero [simp]: "divide_round a 0 rnd = Inl (Thrown RangeError)"
  by (simp add: divide_round_def)

lemma round_quot_shift:
  assumes "even c" "0 < d"
  shows "round_quot rnd (c * d + n) d = c + round_quot rnd n d"
  using assms by (cases rnd) (auto simp: round_quot_def Let_def)

lemma round_quot_one [simp]: "round_quot rnd n 1 = n"
  by (cases rnd) (auto simp: round_quot_def)

lemma round_quot_exact [simp]: "0 < d \<Longrightarrow> round_quot rnd (n * d) d = n"
  by (cases rnd) (auto simp: round_quot_def)

lemma round_quot_cases:
  assumes "0 < d"
  shows "round_quot rnd n d = n div d \<and> (2 * (n mod d) \<le> d \<or> rnd = TOWARDS_0) \<or>
         round_quot rnd n d = n div d + 1 \<and> d \<le> 2 * (n mod d) \<and> rnd \<noteq> TOWARDS_0"
  by (cases rnd) (auto simp: round_quot_def Let_def)

lemma round_quot_nonneg: "0 \<le> n \<Longrightarrow> 0 < d \<Longrightarrow> 0 \<le> round_quot rnd n d"
  using round_quot_cases [of d rnd n] by (auto simp: pos_imp_zdiv_nonneg_iff)

lemma round_quot_bound:
  assumes "n < d * k" "0 < d"
  shows "round_quot rnd n d \<le> k"
proof -
  have "n div d < k"
  proof (rule ccontr)
    assume "\<not> n div d < k"
    with assms(2) have "d * k \<le> d * (n div d)" by simp
    also have "\<dots> \<le> n" using assms(2) mult_div_mod_eq [of d n] pos_mod_sign [of d n] by linarith
    finally show False using assms(1) by simp
  qed
  then show ?thesis using round_quot_cases [OF assms(2), of rnd n] by auto
qed

lemma round_quot_nearest:
  assumes "0 < d" "rnd \<noteq> TOWARDS_0"
  shows "2 * \<bar>round_quot rnd n d * d - n\<bar> \<le> d"
proof -
  have n: "n = d * (n div d) + n mod d" "0 \<le> n mod d" "n mod d < d"
    using assms by simp_all
  from round_quot_cases [OF assms(1), of rnd n] show ?thesis
  proof (elim disjE)
    assume down: "round_quot rnd n d = n div d \<and> (2 * (n mod d) \<le> d \<or> rnd = TOWARDS_0)"
    have "n div d * d - n = - (n mod d)" using n(1) by (simp add: algebra_simps)
    with down n assms show ?thesis by simp
  next
    assume up: "round_quot rnd n d = n div d + 1 \<and> d \<le> 2 * (n mod d) \<and> rnd \<noteq> TOWARDS_0"
    have "(n div d + 1) * d - n = d - n mod d" using n(1) by (simp add: algebra_simps)
    with up n show ?thesis by simp
  qed
qed

lemma round_quot_even:
  assumes "0 < d" "2 * \<bar>round_quot HALF_TO_EVEN n d * d - n\<bar> = d"
  shows "even (round_quot HALF_TO_EVEN n d)"
proof -
  have n: "n = d * (n div d) + n mod d" "0 \<le> n mod d" "n mod d < d"
    using assms by simp_all
  from round_quot_cases [OF assms(1), of HALF_TO_EVEN n] have "2 * (n mod d) = d"
  proof (elim disjE)
    assume down: "round_quot HALF_TO_EVEN n d = n div d \<and> (2 * (n mod d) \<le> d \<or> HALF_TO_EVEN = TOWARDS_0)"
    have "n div d * d - n = - (n mod d)" using n(1) by (simp add: algebra_simps)
    with down n assms show ?thesis by simp
  next
    assume up: "round_quot HALF_TO_EVEN n d = n div d + 1 \<and> d \<le> 2 * (n mod d) \<and> HALF_TO_EVEN \<noteq> TOWARDS_0"
    have "(n div d + 1) * d - n = d - n mod d" using n(1) by (simp add: algebra_simps)
    moreover have "\<bar>d - n mod d\<bar> = d - n mod d" using n(3) by simp
    ultimately show ?thesis using up assms by simp
  qed
  then show ?thesis by (auto simp: round_quot_def Let_def)
qed

text \<open>
  The specification of rounding half to even: the nearest integer, and the even one of two that
  are equally near. It determines the quotient.
\<close>

definition nearest_even :: "int \<Rightarrow> int \<Rightarrow> int \<Rightarrow> bool" where
  "nearest_even a b q \<longleftrightarrow> 2 * \<bar>q * b - a\<bar> \<le> \<bar>b\<bar> \<and> (2 * \<bar>q * b - a\<bar> = \<bar>b\<bar> \<longrightarrow> even q)"

lemma sgn_quot_diff:
  assumes "a \<noteq> (0::int)"
  shows "\<bar>sgn a * sgn b * q * b - a\<bar> = \<bar>q * \<bar>b\<bar> - \<bar>a\<bar>\<bar>"
proof -
  have "sgn a * \<bar>a\<bar> = a" by (rule sgn_mult_abs)
  then have "sgn a * sgn b * q * b - a = sgn a * (q * \<bar>b\<bar> - \<bar>a\<bar>)"
    by (simp add: abs_sgn [of b] right_diff_distrib ac_simps)
  with assms show ?thesis by (simp add: abs_mult)
qed

lemma nearest_even_unique:
  assumes "b \<noteq> 0" "nearest_even a b p" "nearest_even a b q"
  shows "p = q"
proof (rule ccontr)
  assume "p \<noteq> q"
  have "\<bar>p - q\<bar> * \<bar>b\<bar> = \<bar>(p * b - a) - (q * b - a)\<bar>"
    by (simp add: abs_mult [symmetric] algebra_simps)
  also have "\<dots> \<le> \<bar>p * b - a\<bar> + \<bar>q * b - a\<bar>" by (rule abs_triangle_ineq4)
  finally have le: "\<bar>p - q\<bar> * \<bar>b\<bar> \<le> \<bar>p * b - a\<bar> + \<bar>q * b - a\<bar>" .
  have "\<bar>p * b - a\<bar> + \<bar>q * b - a\<bar> \<le> 1 * \<bar>b\<bar>" using assms by (simp add: nearest_even_def)
  with le have "\<bar>p - q\<bar> * \<bar>b\<bar> \<le> 1 * \<bar>b\<bar>" by linarith
  with assms(1) have "\<bar>p - q\<bar> \<le> 1" by (simp only: mult_le_cancel_right zero_less_abs_iff) auto
  with \<open>p \<noteq> q\<close> have one: "\<bar>p - q\<bar> = 1" by linarith
  with le assms have "2 * \<bar>p * b - a\<bar> = \<bar>b\<bar>" "2 * \<bar>q * b - a\<bar> = \<bar>b\<bar>"
    by (simp_all add: nearest_even_def)
  with assms have "even p" "even q" by (simp_all add: nearest_even_def)
  with one show False by presburger
qed

lemma divide_round_nearest_even:
  assumes "b \<noteq> 0"
  shows "divide_round a b HALF_TO_EVEN = Inr q \<longleftrightarrow> nearest_even a b q"
proof -
  let ?q = "sgn a * sgn b * round_quot HALF_TO_EVEN \<bar>a\<bar> \<bar>b\<bar>"
  have "nearest_even a b ?q"
  proof (cases "a = 0")
    case True
    then show ?thesis by (simp add: nearest_even_def assms)
  next
    case False
    have "0 < \<bar>b\<bar>" using assms by simp
    from round_quot_nearest [OF this, of HALF_TO_EVEN "\<bar>a\<bar>"] round_quot_even [OF this, of "\<bar>a\<bar>"]
    show ?thesis
      unfolding nearest_even_def sgn_quot_diff [OF False] by auto
  qed
  with divide_round_eq [OF assms] nearest_even_unique [OF assms] show ?thesis by auto
qed

section \<open>Printing and parsing\<close>

lemma PRECISION_M_pos [simp]: "0 < PRECISION_M" "PRECISION_M \<noteq> 0"
  by (simp_all add: PRECISION_M_def)

definition signed :: "bool \<Rightarrow> string \<Rightarrow> string" where
  "signed neg s = (if neg then CHR ''-'' # s else s)"

lemma signed_append: "signed neg s @ t = signed neg (s @ t)"
  by (simp add: signed_def)

lemma digits_Cons_not_minus: "digits w \<Longrightarrow> w = c # r \<Longrightarrow> c \<noteq> CHR ''-''"
  by (auto simp: is_digit_def)

lemma match_money_decimal:
  assumes "digits w" "w \<noteq> []" "digits f"
  shows "match_money (signed neg (w @ CHR ''.'' # f)) = Some (neg, Some w, Some f)"
proof (cases neg)
  case True
  with assms show ?thesis
    by (simp add: match_money_def signed_def takeWhile_digits dropWhile_digits)
next
  case False
  from assms(2) obtain c r where "w = c # r" by (cases w) auto
  with False assms digits_Cons_not_minus [of w c r] show ?thesis
    using takeWhile_digits [of w f] dropWhile_digits [of w f]
    by (simp add: match_money_def signed_def)
qed

lemma match_money_whole:
  assumes "digits w" "w \<noteq> []"
  shows "match_money (signed neg w) = Some (neg, Some w, None)"
proof (cases neg)
  case True
  with assms show ?thesis
    by (simp add: match_money_def signed_def takeWhile_all_digits dropWhile_all_digits)
next
  case False
  from assms(2) obtain c r where "w = c # r" by (cases w) auto
  with False assms digits_Cons_not_minus [of w c r] show ?thesis
    by (simp add: match_money_def signed_def takeWhile_all_digits dropWhile_all_digits)
qed

definition sign_of :: "bool \<Rightarrow> int" where
  "sign_of neg = (if neg then - 1 else 1)"

lemma parse_decimal:
  assumes "digits w" "w \<noteq> []" "digits f" "length f \<le> PRECISION_I"
  shows "moneyValueToBigInt (InString (signed neg (w @ CHR ''.'' # f))) rnd =
    Inr (sign_of neg * (int (parse_nat w) * PRECISION_M + int (parse_nat f) * 10 ^ (PRECISION_I - length f)))"
  using assms by (simp add: moneyValueToBigInt_def match_money_decimal sign_of_def)

lemma parse_whole:
  assumes "digits w" "w \<noteq> []"
  shows "moneyValueToBigInt (InString (signed neg w)) rnd =
    Inr (sign_of neg * (int (parse_nat w) * PRECISION_M))"
  using assms by (simp add: moneyValueToBigInt_def match_money_whole sign_of_def)

lemma show_int_signed: "show_int i = signed (i < 0) (show_nat (nat \<bar>i\<bar>))"
  by (simp add: show_int_def signed_def)

text \<open>
  The digits of \<open>toFixed\<close>: the magnitude, rounded to \<open>p\<close> decimals, split at the decimal point.
\<close>

lemma pow10_split: "p \<le> PRECISION_I \<Longrightarrow> 10 ^ p * 10 ^ (PRECISION_I - p) = PRECISION_M"
  by (simp add: PRECISION_M_def power_add [symmetric])

lemma round_quot_split:
  assumes "0 < p" "p \<le> PRECISION_I" "0 \<le> n"
  shows "round_quot rnd n (10 ^ (PRECISION_I - p)) =
    n div PRECISION_M * 10 ^ p + round_quot rnd (n mod PRECISION_M) (10 ^ (PRECISION_I - p))"
proof -
  let ?d = "10 ^ (PRECISION_I - p) :: int"
  have "n = (n div PRECISION_M * 10 ^ p) * ?d + n mod PRECISION_M"
    by (simp add: mult.assoc pow10_split [OF assms(2)])
  moreover have "even (n div PRECISION_M * 10 ^ p)"
    using assms(1) by simp
  ultimately show ?thesis
    using round_quot_shift [of "n div PRECISION_M * 10 ^ p" ?d rnd "n mod PRECISION_M"] by simp
qed

lemma round_quot_remainder:
  assumes "0 < p" "p \<le> PRECISION_I"
  shows "0 \<le> round_quot rnd (n mod PRECISION_M) (10 ^ (PRECISION_I - p))"
    and "round_quot rnd (n mod PRECISION_M) (10 ^ (PRECISION_I - p)) \<le> 10 ^ p"
proof -
  have "n mod PRECISION_M < 10 ^ (PRECISION_I - p) * 10 ^ p"
    using pow10_split [OF assms(2)] by (simp add: mult.commute)
  then show "round_quot rnd (n mod PRECISION_M) (10 ^ (PRECISION_I - p)) \<le> 10 ^ p"
    by (rule round_quot_bound) simp
  show "0 \<le> round_quot rnd (n mod PRECISION_M) (10 ^ (PRECISION_I - p))"
    by (rule round_quot_nonneg) simp_all
qed


lemma trunc_quot_pos: "0 < b \<Longrightarrow> trunc_quot a b = sgn a * (\<bar>a\<bar> div b)"
  by (simp add: trunc_quot_def)

lemma trunc_rem_pos: "0 < b \<Longrightarrow> trunc_rem a b = sgn a * (\<bar>a\<bar> mod b)"
  by (simp add: trunc_rem_def)

lemma divide_round_sgn:
  assumes "0 < b" "0 \<le> r"
  shows "divide_round (sgn a * r) b rnd = Inr (sgn a * round_quot rnd r b)"
  using assms by (cases "r = 0") (auto simp: divide_round_eq sgn_mult abs_mult sgn_if round_quot_def)

lemma show_whole:
  assumes "0 \<le> w" "v = 0 \<longrightarrow> w = 0"
  shows "(if show_int (sgn v * w) = ''0'' \<and> v < 0 then ''-0'' else show_int (sgn v * w)) =
    signed (v < 0) (show_nat (nat w))"
proof (cases "w = 0")
  case True
  then show ?thesis by (simp add: show_int_signed signed_def show_nat_0)
next
  case False
  then show ?thesis using assms
    by (auto simp: show_int_signed signed_def sgn_if)
qed

lemma padStart_zero: "0 < p \<Longrightarrow> padStart p (show_nat 0) = replicate p (CHR ''0'')"
  by (cases p) (simp_all add: padStart_def show_nat_0 replicate_append_same)

lemma bigintToFixed_unfold:
  assumes "0 < p"
    and "(if p > PRECISION_I then Inr (trunc_rem v PRECISION_M * 10 ^ (p - PRECISION_I))
      else divide_round (trunc_rem v PRECISION_M) (10 ^ (PRECISION_I - p)) rnd) = Inr r"
  shows "bigintToFixed v p rnd =
    (let str = padStart p (show_int \<bar>r\<bar>);
         w = (if p < length str then trunc_quot v PRECISION_M + (if v < 0 then - 1 else 1)
              else trunc_quot v PRECISION_M)
     in Inr ((if show_int w = ''0'' \<and> v < 0 then ''-0'' else show_int w) @
             CHR ''.'' # (if p < length str then replicate p (CHR ''0'') else str)))"
proof -
  have "(if r < 0 then r * - 1 else r) = \<bar>r\<bar>" by simp
  with assms show ?thesis
    unfolding bigintToFixed_def Let_def by (simp split del: if_split) simp
qed

lemma bigintToFixed_digits:
  assumes "0 < p" "p \<le> PRECISION_I"
  obtains w f where
    "bigintToFixed v p rnd = Inr (signed (v < 0) (show_nat w @ CHR ''.'' # padStart p (show_nat f)))"
    "f < 10 ^ p"
    "int w * 10 ^ p + int f = round_quot rnd \<bar>v\<bar> (10 ^ (PRECISION_I - p))"
proof -
  define r where "r = round_quot rnd (\<bar>v\<bar> mod PRECISION_M) (10 ^ (PRECISION_I - p))"
  have r: "0 \<le> r" "r \<le> 10 ^ p"
    unfolding r_def using round_quot_remainder [OF assms] by simp_all
  have wr: "\<bar>v\<bar> div PRECISION_M * 10 ^ p + r = round_quot rnd \<bar>v\<bar> (10 ^ (PRECISION_I - p))"
    unfolding r_def using round_quot_split [OF assms, of "\<bar>v\<bar>"] by simp
  have w0: "0 \<le> \<bar>v\<bar> div PRECISION_M" by (simp add: pos_imp_zdiv_nonneg_iff)
  have rem: "divide_round (trunc_rem v PRECISION_M) (10 ^ (PRECISION_I - p)) rnd = Inr (sgn v * r)"
    unfolding r_def by (simp add: trunc_rem_pos divide_round_sgn)
  have v0: "r = 0" if "v = 0" unfolding r_def that by (simp add: round_quot_def)
  then have absr: "\<bar>sgn v * r\<bar> = r" using r by (cases "v = 0") (simp_all add: abs_mult)
  have "\<not> PRECISION_I < p" using assms(2) by simp
  note unf = bigintToFixed_unfold [OF assms(1), unfolded if_not_P [OF this], OF rem, unfolded absr Let_def]
  show ?thesis
  proof (cases "r = 10 ^ p")
    case True
    have len: "p < length (padStart p (show_int r))"
      using True show_nat_length_ge [of p "nat r"] by (simp add: show_int_signed signed_def)
    have v: "v \<noteq> 0" using v0 True by auto
    then have sgn_plus: "sgn v * w + (if v < 0 then - 1 else 1) = sgn v * (w + 1)" for w
      by (simp add: sgn_if)
    show ?thesis
    proof (rule that [of "nat (\<bar>v\<bar> div PRECISION_M + 1)" 0])
      show "bigintToFixed v p rnd = Inr (signed (v < 0)
          (show_nat (nat (\<bar>v\<bar> div PRECISION_M + 1)) @ CHR ''.'' # padStart p (show_nat 0)))"
        unfolding unf if_P [OF len] trunc_quot_pos [OF PRECISION_M_pos(1)] sgn_plus
          padStart_zero [OF assms(1)] signed_append [symmetric]
        by (subst show_whole) (use w0 v in simp_all)
    qed (use True wr w0 in \<open>simp_all add: algebra_simps\<close>)
  next
    case False
    with r have "nat r < 10 ^ p" by (simp add: nat_less_iff)
    then have len: "\<not> p < length (padStart p (show_int r))"
      using show_nat_length [of "nat r" p] assms r by (simp add: show_int_signed signed_def)
    show ?thesis
    proof (rule that [of "nat (\<bar>v\<bar> div PRECISION_M)" "nat r"])
      show "bigintToFixed v p rnd = Inr (signed (v < 0)
          (show_nat (nat (\<bar>v\<bar> div PRECISION_M)) @ CHR ''.'' # padStart p (show_nat (nat r))))"
        unfolding unf if_not_P [OF len] trunc_quot_pos [OF PRECISION_M_pos(1)]
          signed_append [symmetric]
        by (subst show_whole) (use w0 r in \<open>simp_all add: show_int_def [of r]\<close>)
    qed (use \<open>nat r < 10 ^ p\<close> wr w0 r in simp_all)
  qed
qed


text \<open>Whatever \<open>toFixed\<close> prints parses back to the value rounded to that many decimals.\<close>

lemma bigintToFixed_parses:
  assumes "0 < p" "p \<le> PRECISION_I"
  shows "\<exists>s. bigintToFixed v p rnd = Inr s \<and>
    bindE (divide_round v (10 ^ (PRECISION_I - p)) rnd) (\<lambda>q. Inr (q * 10 ^ (PRECISION_I - p))) =
    moneyValueToBigInt (InString s) rnd'"
proof -
  let ?e = "10 ^ (PRECISION_I - p) :: int"
  obtain w f where s: "bigintToFixed v p rnd =
      Inr (signed (v < 0) (show_nat w @ CHR ''.'' # padStart p (show_nat f)))" (is "_ = Inr ?s")
    and f: "f < 10 ^ p" and wf: "int w * 10 ^ p + int f = round_quot rnd \<bar>v\<bar> ?e"
    using bigintToFixed_digits [OF assms] .
  have len: "length (padStart p (show_nat f)) = p"
    using show_nat_length [OF f assms(1)] by simp
  have sg: "sign_of (v < 0) * x = sgn v * x" if "v = 0 \<longrightarrow> x = 0" for x
    using that by (auto simp: sign_of_def sgn_if)
  have "moneyValueToBigInt (InString ?s) rnd' =
      Inr (sign_of (v < 0) * (int w * PRECISION_M + int f * ?e))"
    by (subst parse_decimal) (use len assms in simp_all)
  also have "int w * PRECISION_M + int f * ?e = round_quot rnd \<bar>v\<bar> ?e * ?e"
    unfolding wf [symmetric] pow10_split [OF assms(2), symmetric] by (simp add: algebra_simps)
  also have "sign_of (v < 0) * (round_quot rnd \<bar>v\<bar> ?e * ?e) = sgn v * (round_quot rnd \<bar>v\<bar> ?e * ?e)"
    by (rule sg) (simp add: round_quot_def)
  finally have "moneyValueToBigInt (InString ?s) rnd' =
      bindE (divide_round v ?e rnd) (\<lambda>q. Inr (q * ?e))"
    by (simp add: divide_round_eq mult.assoc)
  with s show ?thesis by auto
qed

text \<open>Without decimals the rounded whole number is printed, and with more than twenty every digit.\<close>

lemma parse_show_int: "moneyValueToBigInt (InString (show_int i)) rnd = Inr (i * PRECISION_M)"
  unfolding show_int_signed by (subst parse_whole) (auto simp: sign_of_def)

lemma parse_decimal_long:
  assumes "digits w" "w \<noteq> []" "digits f" "PRECISION_I < length f"
    and "parse_nat f = r * 10 ^ (length f - PRECISION_I)"
  shows "moneyValueToBigInt (InString (signed neg (w @ CHR ''.'' # f))) rnd =
    Inr (sign_of neg * (int (parse_nat w) * PRECISION_M + int r))"
proof -
  have "divide_round (int r * 10 ^ (length f - PRECISION_I)) (10 ^ (length f - PRECISION_I)) rnd = Inr (int r)"
    by (cases "r = 0") (simp_all add: divide_round_eq abs_mult)
  then show ?thesis
    using assms by (simp add: moneyValueToBigInt_def match_money_decimal sign_of_def)
qed

lemma show_int_of_nat: "show_int (int n) = show_nat n"
  by (simp add: show_int_def)

lemma bigintToFixed_long_digits:
  assumes "PRECISION_I < p"
  shows "bigintToFixed v p rnd = Inr (signed (v < 0) (show_nat (nat (\<bar>v\<bar> div PRECISION_M)) @
      CHR ''.'' # padStart p (show_nat (nat (\<bar>v\<bar> mod PRECISION_M) * 10 ^ (p - PRECISION_I)))))"
    "nat (\<bar>v\<bar> mod PRECISION_M) * 10 ^ (p - PRECISION_I) < 10 ^ p"
proof -
  define r where "r = nat (\<bar>v\<bar> mod PRECISION_M) * 10 ^ (p - PRECISION_I)"
  have "nat (\<bar>v\<bar> mod PRECISION_M) < 10 ^ PRECISION_I"
    by (simp add: nat_less_iff PRECISION_M_def)
  then have "r < 10 ^ PRECISION_I * 10 ^ (p - PRECISION_I)" by (simp add: r_def)
  then show bound: "nat (\<bar>v\<bar> mod PRECISION_M) * 10 ^ (p - PRECISION_I) < 10 ^ p"
    using assms by (simp add: r_def power_add [symmetric])
  have p: "p \<noteq> 0" using assms by simp
  then have len: "\<not> p < length (padStart p (show_nat r))"
    using show_nat_length [of r p] bound by (simp add: r_def)
  have mag: "\<bar>trunc_rem v PRECISION_M * 10 ^ (p - PRECISION_I)\<bar> = int r"
    by (cases "v = 0") (simp_all add: trunc_rem_pos r_def abs_mult)
  have whole: "(if show_int (trunc_quot v PRECISION_M) = ''0'' \<and> v < 0 then ''-0''
      else show_int (trunc_quot v PRECISION_M)) = signed (v < 0) (show_nat (nat (\<bar>v\<bar> div PRECISION_M)))"
    unfolding trunc_quot_pos [OF PRECISION_M_pos(1)] by (rule show_whole) (simp_all add: pos_imp_zdiv_nonneg_iff)
  show "bigintToFixed v p rnd = Inr (signed (v < 0) (show_nat (nat (\<bar>v\<bar> div PRECISION_M)) @
      CHR ''.'' # padStart p (show_nat (nat (\<bar>v\<bar> mod PRECISION_M) * 10 ^ (p - PRECISION_I)))))"
    using bigintToFixed_unfold [of p v rnd "trunc_rem v PRECISION_M * 10 ^ (p - PRECISION_I)"] assms p
    unfolding mag r_def [symmetric] Let_def show_int_of_nat if_not_P [OF len] whole by (simp add: signed_append)
qed

lemma bigintToFixed_long_parses:
  assumes "PRECISION_I < p"
  shows "\<exists>s. bigintToFixed v p rnd = Inr s \<and> moneyValueToBigInt (InString s) rnd' = Inr v"
proof -
  let ?f = "padStart p (show_nat (nat (\<bar>v\<bar> mod PRECISION_M) * 10 ^ (p - PRECISION_I)))"
  have len: "length ?f = p"
    using show_nat_length [OF bigintToFixed_long_digits(2) [OF assms, of v]] assms by simp
  have "moneyValueToBigInt (InString (signed (v < 0) (show_nat (nat (\<bar>v\<bar> div PRECISION_M)) @ CHR ''.'' # ?f))) rnd'
      = Inr (sign_of (v < 0) * (int (nat (\<bar>v\<bar> div PRECISION_M)) * PRECISION_M + int (nat (\<bar>v\<bar> mod PRECISION_M))))"
    by (subst parse_decimal_long [where r = "nat (\<bar>v\<bar> mod PRECISION_M)"]) (use len assms in simp_all)
  also have "sign_of (v < 0) * (int (nat (\<bar>v\<bar> div PRECISION_M)) * PRECISION_M + int (nat (\<bar>v\<bar> mod PRECISION_M))) = v"
    by (simp add: sign_of_def pos_imp_zdiv_nonneg_iff)
  finally show ?thesis using bigintToFixed_long_digits(1) [OF assms] by auto
qed

lemma strip_zeros_decimal:
  assumes "digits f"
  shows "\<exists>k g. f = g @ replicate k (CHR ''0'') \<and>
    strip_zeros (x @ CHR ''.'' # f) = (if k > 0 \<and> g = [] then x else x @ CHR ''.'' # g)"
proof -
  let ?z = "\<lambda>c. c = CHR ''0''"
  define g where "g = rev (dropWhile ?z (rev f))"
  define k where "k = length (takeWhile ?z (rev f))"
  have tw: "takeWhile ?z (rev f) = replicate k (CHR ''0'')"
    unfolding k_def by (rule replicate_eqI) (auto dest: set_takeWhileD)
  have f: "f = g @ replicate k (CHR ''0'')"
    using takeWhile_dropWhile_id [of ?z "rev f"] tw unfolding g_def
    by (metis rev_append rev_replicate rev_rev_ident)
  have drop: "dropWhile ?z (rev (x @ CHR ''.'' # f)) =
      (if g = [] then CHR ''.'' # rev x else rev g @ CHR ''.'' # rev x)"
    unfolding g_def by (auto simp: dropWhile_append)
  have hd: "g \<noteq> [] \<Longrightarrow> is_digit (hd (rev g))"
    using f assms by (simp add: digits_def list_all_iff hd_rev)
  have "strip_zeros (x @ CHR ''.'' # f) = (if k > 0 \<and> g = [] then x else x @ CHR ''.'' # g)"
  proof (cases "k = 0")
    case True
    then have "strip_zeros (x @ CHR ''.'' # f) = x @ CHR ''.'' # f"
      using f drop by (simp add: strip_zeros_def Let_def split: if_splits)
    with True f show ?thesis by simp
  next
    case False
    have "length (dropWhile ?z (rev (x @ CHR ''.'' # f))) < length (rev (x @ CHR ''.'' # f))"
      using False f unfolding drop by simp
    then have "dropWhile ?z (rev (x @ CHR ''.'' # f)) \<noteq> rev (x @ CHR ''.'' # f)"
      by (metis less_irrefl)
    then show ?thesis
      using False drop hd by (auto simp: strip_zeros_def Let_def hd_append)
  qed
  with f show ?thesis by blast
qed


text \<open>The JSON form of an amount determines it.\<close>

lemma format_parses:
  "\<exists>s. format m = Inr s \<and> moneyValueToBigInt (InString s) rnd' = Inr (mvalue m)"
proof -
  have p: "0 < PRECISION_I" "PRECISION_I \<le> PRECISION_I" by (simp_all add: PRECISION_I_def)
  obtain w f where s: "bigintToFixed (mvalue m) PRECISION_I (mround m) =
      Inr (signed (mvalue m < 0) (show_nat w @ CHR ''.'' # padStart PRECISION_I (show_nat f)))"
    and f: "f < 10 ^ PRECISION_I"
    and wf: "int w * 10 ^ PRECISION_I + int f = round_quot (mround m) \<bar>mvalue m\<bar> (10 ^ (PRECISION_I - PRECISION_I))"
    using bigintToFixed_digits [OF p] .
  define fs where "fs = padStart PRECISION_I (show_nat f)"
  have len: "length fs = PRECISION_I"
    using show_nat_length [OF f p(1)] by (simp add: fs_def)
  have fs: "digits fs" "parse_nat fs = f" by (simp_all add: fs_def)
  obtain k g where g: "fs = g @ replicate k (CHR ''0'')"
    and strip: "strip_zeros (signed (mvalue m < 0) (show_nat w) @ CHR ''.'' # fs) =
      (if k > 0 \<and> g = [] then signed (mvalue m < 0) (show_nat w)
       else signed (mvalue m < 0) (show_nat w) @ CHR ''.'' # g)"
    using strip_zeros_decimal [OF fs(1)] by blast
  have k: "PRECISION_I - length g = k" "length g \<le> PRECISION_I" using g len by auto
  have val: "int f = int (parse_nat g) * 10 ^ k"
    using fs(2) g by (auto simp: parse_nat_append)
  have whole: "sign_of (mvalue m < 0) * (int w * PRECISION_M + int f) = mvalue m"
    using wf by (simp add: PRECISION_M_def sign_of_def)
  have fmt: "format m = Inr (strip_zeros (signed (mvalue m < 0) (show_nat w) @ CHR ''.'' # fs))"
    by (simp add: format_def toFixed_def s fs_def signed_append)
  show ?thesis
  proof (cases "k > 0 \<and> g = []")
    case True
    with val whole show ?thesis
      by (simp add: fmt strip parse_whole)
  next
    case False
    have "format m = Inr (signed (mvalue m < 0) (show_nat w) @ CHR ''.'' # g)"
      using fmt strip if_not_P [OF False] by metis
    moreover have "digits g" using fs(1) g by simp
    ultimately show ?thesis
      using k val whole unfolding signed_append by (simp add: parse_decimal)
  qed
qed

section \<open>Allocation\<close>

lemma spread_ok:
  "0 \<le> n \<Longrightarrow> n \<le> int (length xs) \<Longrightarrow>
   spread xs n add = Inr (map (\<lambda>x. x + add) (take (nat n) xs) @ drop (nat n) xs)"
  by (simp add: spread_def)

text \<open>
  Splitting \<open>v\<close>, a multiple of the rounding unit \<open>u\<close>, into \<open>n\<close> parts: the spare units the code
  computes are the units the division left over, as long as \<open>(n - 1)\<^sup>2 < u\<close>.
\<close>

lemma spare_units:
  fixes v n u :: int
  assumes "0 \<le> v" "0 < n" "0 < u" "u dvd v" "(n - 1) * (n - 1) < u"
  defines "t \<equiv> ((v div n) mod u + v mod n) * n div u"
  shows "0 \<le> t" "t < n" "n * (v div n div u) + t = v div u"
proof -
  let ?q = "v div n" let ?r = "v mod n"
  have r: "0 \<le> ?r" "?r \<le> n - 1" using assms by simp_all
  have rr: "0 \<le> ?q mod u" "?q mod u < u" using assms by simp_all
  have k: "u * (v div u) = v" using assms(4) by simp
  define s where "s = v div u - n * (?q div u)"
  have "u * s = v - n * (u * (?q div u))"
    unfolding s_def right_diff_distrib k by simp
  also have "\<dots> = n * (u * (?q div u) + ?q mod u) + ?r - n * (u * (?q div u))" by simp
  finally have s: "n * (?q mod u) + ?r = u * s" by (simp only: distrib_left)
  have "(n - 1) * ?r \<le> (n - 1) * (n - 1)" using r assms(2) by (intro mult_left_mono) auto
  with assms(5) have small: "(n - 1) * ?r < u" by simp
  have "(?q mod u + ?r) * n = u * s + (n - 1) * ?r"
    using s by (simp add: algebra_simps)
  moreover have "0 \<le> (n - 1) * ?r" using r assms(2) by simp
  ultimately have t: "t = s"
    using small assms(3) unfolding t_def by (simp add: div_pos_pos_trivial)
  have "u * s < u * n"
  proof -
    have "n * (?q mod u) + ?r < n * (?q mod u) + n" using r by simp
    also have "\<dots> \<le> n * u" using rr assms(2) by (metis add.commute distrib_left mult.right_neutral mult_left_mono zless_imp_add1_zle less_imp_le)
    finally show ?thesis using s by (simp add: mult.commute)
  qed
  then show "t < n" using t assms(3) by simp
  have "0 \<le> u * s" using s rr r assms(2) by (metis add_nonneg_nonneg mult_nonneg_nonneg less_imp_le)
  then show "0 \<le> t" using t assms(3) by (simp add: zero_le_mult_iff)
  show "n * (?q div u) + t = v div u"
    unfolding t s_def by simp
qed

lemma allocate_eq:
  fixes m n p
  defines "u \<equiv> 10 ^ (PRECISION_I - p) :: int"
  assumes "0 \<le> mvalue m" "0 < n" "n < 2 ^ 32" "p \<le> PRECISION_I" "u dvd mvalue m"
    and "(n - 1) * (n - 1) < u"
  obtains c t where "0 \<le> t" "t < n" "n * c + t = mvalue m div u"
    and "allocate m n p = Inr (map (\<lambda>x. fromSource (x * u) (mcurrency m) (mround m))
           (replicate (nat t) (c + 1) @ replicate (nat n - nat t) c))"
proof -
  define t where "t = ((mvalue m div n) mod u + mvalue m mod n) * n div u"
  have u: "0 < u" by (simp add: u_def)
  note spare = spare_units [OF assms(2,3) u assms(6,7), folded t_def]
  show ?thesis
  proof (rule that [OF spare])
    have nn: "0 \<le> mvalue m div n" using assms by (simp add: pos_imp_zdiv_nonneg_iff)
    have sp: "spread (replicate (nat n) (mvalue m div n div u)) \<bar>t\<bar> (if t > 0 then 1 else - 1) =
        Inr (replicate (nat t) (mvalue m div n div u + 1) @ replicate (nat n - nat t) (mvalue m div n div u))"
      using spare(1,2) assms(3) by (cases "t = 0") (simp_all add: spread_ok min_def)
    have q: "trunc_quot ((mvalue m div n mod u + mvalue m mod n) * n) u = t"
      unfolding t_def by (rule trunc_quot_nonneg) (use nn u assms in simp_all)
    show "allocate m n p = Inr (map (\<lambda>x. fromSource (x * u) (mcurrency m) (mround m))
           (replicate (nat t) (mvalue m div n div u + 1) @ replicate (nat n - nat t) (mvalue m div n div u)))"
      using assms nn u q sp unfolding allocate_def u_def [symmetric] by simp
  qed
qed


lemma sorted_wrt_replicate: "P a a \<Longrightarrow> sorted_wrt P (replicate k a)"
  by (induction k) auto

section \<open>Properties\<close>

text \<open>
  C30: in the rounding mode the repository uses, \<open>divide\<close> returns exactly the integer nearest to
  the quotient, the even one of two equally near ones, for operands of any sign; it returns
  nothing (throws) only for a zero divisor.
\<close>

theorem divide_half_to_even:
  "divide_round a b HALF_TO_EVEN = Inr q \<longleftrightarrow> b \<noteq> 0 \<and> nearest_even a b q"
  by (cases "b = 0") (simp_all add: divide_round_nearest_even)

text \<open>
  C31: what \<open>toFixed\<close> prints, with any number of decimals, parses back under any rounding mode: with up
  to twenty decimals, none included, to the amount rounded to that many decimals in its own rounding
  mode, and with more to the very amount.
\<close>

theorem toFixed_parses_back:
  "\<exists>s. toFixed m p = Inr s \<and>
    (if p \<le> PRECISION_I
     then \<exists>q. divide_round (mvalue m) (10 ^ (PRECISION_I - p)) (mround m) = Inr q \<and>
       Money (InString s) cur rnd = Inr (fromSource (q * 10 ^ (PRECISION_I - p)) cur rnd)
     else Money (InString s) cur rnd = Inr (fromSource (mvalue m) cur rnd))"
proof (cases "p = 0 \<or> PRECISION_I < p")
  case False
  then show ?thesis
    using bigintToFixed_parses [of p "mvalue m" "mround m" rnd]
    by (auto simp: toFixed_def Money_def divide_round_eq not_less dest: sym)
next
  case True
  then show ?thesis
    using bigintToFixed_long_parses [of p "mvalue m" "mround m" rnd]
    by (auto simp: toFixed_def Money_def bigintToFixed_def divide_round_eq PRECISION_M_def parse_show_int)
qed

text \<open>
  the JSON form of an amount, the string with irrelevant zeros removed and the currency,
  constructs the same amount again.
\<close>

theorem toJSON_roundtrip:
  "\<exists>s. toJSON m = Inr (s, mcurrency m) \<and> Money (InString s) (mcurrency m) (mround m) = Inr m"
  using format_parses [of m "mround m"] by (auto simp: toJSON_def Money_def fromSource_def)

text \<open>
  The spread of an amount over its smallest units can create money: one unit at twenty decimals, in
  three parts, adds up to two units of the last decimal more.
\<close>

lemma allocate_can_create:
  "(case allocate (fromSource (10 ^ 20) ''USD'' HALF_TO_EVEN) 3 20 of
      Inl _ \<Rightarrow> False | Inr ms \<Rightarrow> sum_list (map mvalue ms) = 10 ^ 20 + 2)"
  by code_simp

text \<open>
  C32: \<open>allocate\<close> loses and creates no money for an amount that is not negative and a whole number of
  units of the requested precision, as long as \<open>(n - 1)\<^sup>2\<close> is below the unit counted in twenty
  decimals, where \<open>n < 2\<^sup>3\<^sup>2\<close> is the number of parts: it gives that many parts, which add up to the amount
  and differ by at most one unit, the larger ones first. Beyond that bound it can create money.
\<close>

theorem allocate_conserves:
  assumes "0 \<le> mvalue m" "0 < n" "n < 2 ^ 32" "p \<le> PRECISION_I"
    and "10 ^ (PRECISION_I - p) dvd mvalue m" "(n - 1) * (n - 1) < 10 ^ (PRECISION_I - p)"
  shows "\<exists>ms. allocate m n p = Inr ms \<and> length ms = nat n \<and> sum_list (map mvalue ms) = mvalue m
    \<and> sorted_wrt (\<lambda>x y. mvalue y \<le> mvalue x \<and> mvalue x \<le> mvalue y + 10 ^ (PRECISION_I - p)) ms"
proof -
  define u where "u = (10 ^ (PRECISION_I - p) :: int)"
  obtain c t where t: "0 \<le> t" "t < n" and ct: "n * c + t = mvalue m div u"
    and al: "allocate m n p = Inr (map (\<lambda>x. fromSource (x * u) (mcurrency m) (mround m))
           (replicate (nat t) (c + 1) @ replicate (nat n - nat t) c))" (is "_ = Inr ?ms")
    unfolding u_def by (rule allocate_eq [OF assms]) blast
  have "sum_list (map mvalue ?ms) = (n * c + t) * u"
    using t by (simp add: fromSource_def o_def sum_list_replicate algebra_simps)
  also have "\<dots> = mvalue m"
    using assms(5) by (simp add: ct u_def)
  finally have "sum_list (map mvalue ?ms) = mvalue m" .
  moreover have "sorted_wrt (\<lambda>x y. mvalue y \<le> mvalue x \<and> mvalue x \<le> mvalue y + u) ?ms"
    by (simp add: fromSource_def sorted_wrt_append sorted_wrt_replicate u_def algebra_simps)
  moreover have "length ?ms = nat n" using t by simp
  ultimately show ?thesis using al unfolding u_def by blast
qed

theorem allocate_conserves_witness:
  "\<exists>ms. allocate (fromSource (10 ^ 20) ''USD'' HALF_TO_EVEN) 3 2 = Inr ms \<and> length ms = 3
    \<and> sum_list (map mvalue ms) = 10 ^ 20"
  using allocate_conserves [of "fromSource (10 ^ 20) ''USD'' HALF_TO_EVEN" 3 2]
  by (auto simp: fromSource_def PRECISION_I_def)

end
