(* ===== verification/Amounts.thy ===== *)
theory Amounts
  imports BigintMoney
begin

text \<open>
  The amounts of \<open>src/domain/shared\<close>: payment amounts in the smallest unit of a wallet currency
  with their calculator (\<open>calculator.ts\<close>, \<open>amount.ts\<close>, \<open>safe.ts\<close>), and the decimal amounts of the
  classes USDAmount, JMDAmount, BtcAmount (\<open>money/\<close>) and USDTAmount (\<open>MoneyAmount.ts\<close>) built on
  the money library.
\<close>

section \<open>Currencies and payment amounts\<close>

datatype wallet_currency = Usd | Jmd | Btc | Usdt

fun currency_code :: "wallet_currency \<Rightarrow> string" where
  "currency_code Usd = ''USD''"
| "currency_code Jmd = ''JMD''"
| "currency_code Btc = ''BTC''"
| "currency_code Usdt = ''USDT''"

record payment_amount =
  pa_amount :: int
  pa_currency :: wallet_currency

abbreviation amount_of :: "int \<Rightarrow> wallet_currency \<Rightarrow> payment_amount" where
  "amount_of n c \<equiv> \<lparr>pa_amount = n, pa_currency = c\<rparr>"

section \<open>calculator.ts\<close>

definition calc_add :: "payment_amount \<Rightarrow> payment_amount \<Rightarrow> payment_amount" where
  "calc_add a b = amount_of (pa_amount a + pa_amount b) (pa_currency a)"

definition calc_sub :: "payment_amount \<Rightarrow> payment_amount \<Rightarrow> payment_amount" where
  "calc_sub a b = amount_of (pa_amount a - pa_amount b) (pa_currency a)"

definition divRound :: "payment_amount \<Rightarrow> int \<Rightarrow> payment_amount result" where
  "divRound a b =
     bindE (bigDiv (pa_amount a) b) (\<lambda>quotient.
     bindE (bigDiv b 2) (\<lambda>roundDownBound.
     bindE (bigMod (pa_amount a) b) (\<lambda>md.
     Inr (if md > roundDownBound then amount_of (quotient + 1) (pa_currency a)
          else amount_of quotient (pa_currency a)))))"

definition divFloor :: "payment_amount \<Rightarrow> int \<Rightarrow> payment_amount result" where
  "divFloor a b =
     bindE (bigDiv (pa_amount a) b) (\<lambda>quotient. Inr (amount_of quotient (pa_currency a)))"

definition divCeil :: "payment_amount \<Rightarrow> int \<Rightarrow> payment_amount result" where
  "divCeil a b =
     bindE (bigDiv (pa_amount a) b) (\<lambda>quotient.
     bindE (bigMod (pa_amount a) b) (\<lambda>md.
     Inr (if md > 0 then amount_of (quotient + 1) (pa_currency a)
          else amount_of quotient (pa_currency a))))"

definition calc_mul :: "payment_amount \<Rightarrow> int \<Rightarrow> payment_amount" where
  "calc_mul a multiplier = a\<lparr>pa_amount := pa_amount a * multiplier\<rparr>"

definition mulBasisPoints :: "payment_amount \<Rightarrow> int \<Rightarrow> payment_amount result" where
  "mulBasisPoints a basisPoints =
     divRound (amount_of (pa_amount a * basisPoints) (pa_currency a)) 10000"

text \<open>\<open>reduce\<close> without an initial value throws a TypeError on no arguments.\<close>

fun calc_min :: "payment_amount list \<Rightarrow> payment_amount result" where
  "calc_min [] = Inl (Thrown TypeError)"
| "calc_min (a # as) =
     Inr (fold (\<lambda>val mn. if pa_amount val < pa_amount mn then val else mn) as a)"

fun calc_max :: "payment_amount list \<Rightarrow> payment_amount result" where
  "calc_max [] = Inl (Thrown TypeError)"
| "calc_max (a # as) =
     Inr (fold (\<lambda>val mx. if pa_amount val > pa_amount mx then val else mx) as a)"

section \<open>safe.ts and amount.ts\<close>

definition safeBigInt :: "js_number \<Rightarrow> int result" where
  "safeBigInt num =
     (case BigInt num of
        Inr n \<Rightarrow> Inr n
      | Inl (Thrown RangeError) \<Rightarrow> Inl BigIntFloatConversionError
      | Inl _ \<Rightarrow> Inl UnknownBigIntConversionError)"

definition ZERO_SATS :: payment_amount where "ZERO_SATS = amount_of 0 Btc"

definition ZERO_CENTS :: payment_amount where "ZERO_CENTS = amount_of 0 Usd"

definition ONE_SAT :: payment_amount where "ONE_SAT = amount_of 1 Btc"

definition ONE_CENT :: payment_amount where "ONE_CENT = amount_of 1 Usd"

definition MAX_SATS :: payment_amount where "MAX_SATS = amount_of 10000000000000 Btc"

definition MAX_CENTS :: payment_amount where "MAX_CENTS = amount_of 10000000000000 Usd"

definition BtcPaymentAmount :: "int \<Rightarrow> payment_amount" where
  "BtcPaymentAmount sats = amount_of sats Btc"

definition UsdPaymentAmount :: "int \<Rightarrow> payment_amount" where
  "UsdPaymentAmount cents = amount_of cents Usd"

definition paymentAmountFromNumber :: "js_number \<Rightarrow> wallet_currency \<Rightarrow> payment_amount result" where
  "paymentAmountFromNumber amt c = bindE (safeBigInt amt) (\<lambda>n. Inr (amount_of n c))"

definition balanceAmountFromNumber :: "js_number \<Rightarrow> wallet_currency \<Rightarrow> payment_amount result" where
  "balanceAmountFromNumber amt c = bindE (safeBigInt amt) (\<lambda>n. Inr (amount_of n c))"

text \<open>\<open>Math.floor(x) == x\<close>: NaN equals nothing, an infinity is its own floor.\<close>

fun num_is_floor :: "js_number \<Rightarrow> bool" where
  "num_is_floor NaN = False"
| "num_is_floor PosInf = True"
| "num_is_floor NegInf = True"
| "num_is_floor (Fin q) = (of_int \<lfloor>q\<rfloor> = q)"

definition checkedToBtcPaymentAmount :: "js_number option \<Rightarrow> payment_amount result" where
  "checkedToBtcPaymentAmount amt =
     (case amt of
        None \<Rightarrow> Inl InvalidBtcPaymentAmountError
      | Some x \<Rightarrow>
          if num_gt_int x (pa_amount MAX_SATS) then Inl BtcAmountTooLargeError
          else if \<not> num_is_floor x then Inl InvalidBtcPaymentAmountError
          else if \<not> num_gt_int x 0 then Inl InvalidBtcPaymentAmountError
          else paymentAmountFromNumber x Btc)"

definition checkedToUsdPaymentAmount ::
    "js_number option \<Rightarrow> wallet_currency \<Rightarrow> payment_amount result" where
  "checkedToUsdPaymentAmount amt c =
     (case amt of
        None \<Rightarrow> Inl InvalidUsdPaymentAmountError
      | Some x \<Rightarrow>
          if num_gt_int x (pa_amount MAX_CENTS) then Inl UsdAmountTooLargeError
          else if \<not> num_is_floor x then Inl InvalidUsdPaymentAmountError
          else if \<not> num_gt_int x 0 then Inl InvalidUsdPaymentAmountError
          else paymentAmountFromNumber x c)"

section \<open>money/MoneyAmount.ts and its subclasses\<close>

text \<open>
  An object of a subclass of MoneyAmount is its currency code, which determines the subclass,
  and its Money. \<open>getInstance\<close> is the subclass's constructor on a Money, which it keeps as it is.
\<close>

record money_amount =
  currencyCode :: wallet_currency
  ma_money :: money

definition MoneyAmount :: "money_input \<Rightarrow> wallet_currency \<Rightarrow> money_amount result" where
  "MoneyAmount input c =
     (case input of
        InMoney m \<Rightarrow> Inr \<lparr>currencyCode = c, ma_money = m\<rparr>
      | _ \<Rightarrow> bindE (Money input (currency_code c) HALF_TO_EVEN) (\<lambda>m.
             Inr \<lparr>currencyCode = c, ma_money = m\<rparr>))"

definition getInstance :: "money_amount \<Rightarrow> money \<Rightarrow> money_amount result" where
  "getInstance a m = MoneyAmount (InMoney m) (currencyCode a)"

definition multiplyBips :: "money_amount \<Rightarrow> int \<Rightarrow> money_amount result" where
  "multiplyBips a bips =
     bindE (money_multiply (ma_money a) (InString (show_int bips))) (\<lambda>m.
     bindE (money_divide m (InNumber (Fin 10000))) (getInstance a))"

definition amount_subtract :: "money_amount \<Rightarrow> money_amount \<Rightarrow> money_amount result" where
  "amount_subtract a b =
     bindE (money_subtract (ma_money a) (InMoney (ma_money b))) (getInstance a)"

definition amount_isLesserThan :: "money_amount \<Rightarrow> money_amount \<Rightarrow> bool result" where
  "amount_isLesserThan a b = isLesserThan (ma_money a) (InMoney (ma_money b))"

definition amount_isGreaterThan :: "money_amount \<Rightarrow> money_amount \<Rightarrow> bool result" where
  "amount_isGreaterThan a b = isGreaterThan (ma_money a) (InMoney (ma_money b))"

definition isZero :: "money_amount \<Rightarrow> bool result" where
  "isZero a = isEqual (ma_money a) (InNumber (Fin 0))"

definition asPaymentAmount :: "money_amount \<Rightarrow> payment_amount result" where
  "asPaymentAmount a =
     bindE (bigDiv (toSource (ma_money a)) PRECISION_M) (\<lambda>n. Inr (amount_of n (currencyCode a)))"

definition toJson :: "money_amount \<Rightarrow> (string \<times> string) result" where
  "toJson a = toJSON (ma_money a)"

definition amount_fromSource :: "money_amount \<Rightarrow> string \<Rightarrow> wallet_currency \<Rightarrow> money_amount result" where
  "amount_fromSource a val c =
     bindE (Money (InString val) (currency_code c) HALF_TO_EVEN) (getInstance a)"

text \<open>The factory functions catch whatever the money library throws.\<close>

definition USDAmount_cents :: "money_input \<Rightarrow> money_amount result" where
  "USDAmount_cents cents = catchE (MoneyAmount cents Usd) BigIntConversionError"

text \<open>\<open>d\<close> is the string \<open>d.toString()\<close> of the argument, here and in the other factories.\<close>

definition USDAmount_dollars :: "string \<Rightarrow> money_amount result" where
  "USDAmount_dollars d =
     catchE (bindE (Money (InString d) ''USDollars'' HALF_TO_EVEN) (\<lambda>dollarAmt.
             bindE (USDAmount_cents (InBigint 100)) (\<lambda>cents.
             bindE (money_multiply (ma_money cents) (InMoney dollarAmt)) (\<lambda>m.
             bindE (toFixed m 2) (\<lambda>s. MoneyAmount (InString s) Usd)))))
       BigIntConversionError"

definition USDAmount_ZERO :: "money_amount result" where
  "USDAmount_ZERO = MoneyAmount (InNumber (Fin 0)) Usd"

definition asCents :: "money_amount \<Rightarrow> nat \<Rightarrow> string result" where
  "asCents a precision = toFixed (ma_money a) precision"

definition asDollars :: "money_amount \<Rightarrow> nat \<Rightarrow> string result" where
  "asDollars a precision =
     bindE (money_divide (ma_money a) (InNumber (Fin 100))) (\<lambda>m. toFixed m precision)"

definition convertAtRate :: "money_amount \<Rightarrow> money_amount \<Rightarrow> money_amount result" where
  "convertAtRate a rate =
     bindE (money_multiply (ma_money rate) (InMoney (ma_money a))) (\<lambda>m.
     bindE (money_divide m (InNumber (Fin 100))) (getInstance rate))"

definition JMDAmount_cents :: "string \<Rightarrow> money_amount result" where
  "JMDAmount_cents c = catchE (MoneyAmount (InString c) Jmd) BigIntConversionError"

definition JMDAmount_dollars :: "string \<Rightarrow> money_amount result" where
  "JMDAmount_dollars d =
     catchE (bindE (Money (InString d) ''JMDollars'' HALF_TO_EVEN) (\<lambda>dollarAmt.
             bindE (JMDAmount_cents ''100'') (\<lambda>cents.
             bindE (money_multiply (ma_money cents) (InMoney dollarAmt)) (\<lambda>m.
             bindE (toFixed m 2) (\<lambda>s. MoneyAmount (InString s) Jmd)))))
       BigIntConversionError"

definition BtcAmount_sats :: "string \<Rightarrow> money_amount result" where
  "BtcAmount_sats c = catchE (MoneyAmount (InString c) Btc) BigIntConversionError"

definition asSats :: "money_amount \<Rightarrow> nat \<Rightarrow> string result" where
  "asSats a precision = toFixed (ma_money a) precision"

definition toMoneyAmount :: "string \<Rightarrow> wallet_currency \<Rightarrow> money_amount result" where
  "toMoneyAmount amt c =
     (case c of
        Usd \<Rightarrow> USDAmount_cents (InString amt)
      | Jmd \<Rightarrow> JMDAmount_cents amt
      | _ \<Rightarrow> Inl UnsupportedCurrencyError)"

section \<open>USDTAmount in MoneyAmount.ts\<close>

definition USDT_MICROS_PER_MAJOR_UNIT :: int where "USDT_MICROS_PER_MAJOR_UNIT = 1000000"

definition USDT_MICROS_PER_USD_CENT :: int where "USDT_MICROS_PER_USD_CENT = 10000"

definition smallestUnits :: "money_input \<Rightarrow> money_amount result" where
  "smallestUnits units = catchE (MoneyAmount units Usdt) BigIntConversionError"

definition usdCents :: "string \<Rightarrow> money_amount result" where
  "usdCents cents =
     catchE (bindE (Money (InString cents) ''USDTUsdCents'' HALF_TO_EVEN) (\<lambda>centAmt.
             bindE (smallestUnits (InBigint USDT_MICROS_PER_USD_CENT)) (\<lambda>multiplier.
             bindE (money_multiply (ma_money multiplier) (InMoney centAmt)) (\<lambda>m.
             bindE (toFixed m 0) (\<lambda>s. MoneyAmount (InString s) Usdt)))))
       BigIntConversionError"

definition USDTAmount_fromNumber :: "string \<Rightarrow> money_amount result" where
  "USDTAmount_fromNumber d =
     catchE (bindE (Money (InString d) ''USDT'' HALF_TO_EVEN) (\<lambda>usdtAmt.
             bindE (smallestUnits (InBigint USDT_MICROS_PER_MAJOR_UNIT)) (\<lambda>multiplier.
             bindE (money_multiply (ma_money multiplier) (InMoney usdtAmt)) (\<lambda>m.
             bindE (toFixed m 0) (\<lambda>s. MoneyAmount (InString s) Usdt)))))
       BigIntConversionError"

definition asSmallestUnits :: "money_amount \<Rightarrow> nat \<Rightarrow> string result" where
  "asSmallestUnits a precision = toFixed (ma_money a) precision"

definition asUsdCents :: "money_amount \<Rightarrow> string result" where
  "asUsdCents a =
     bindE (money_divide (ma_money a) (InString (show_int USDT_MICROS_PER_USD_CENT))) (\<lambda>m. toFixed m 0)"

definition asNumber :: "money_amount \<Rightarrow> nat \<Rightarrow> string result" where
  "asNumber a precision =
     bindE (money_divide (ma_money a) (InString (show_int USDT_MICROS_PER_MAJOR_UNIT)))
       (\<lambda>m. toFixed m precision)"

definition USDTAmount_from :: "string \<Rightarrow> wallet_currency \<Rightarrow> money_amount result" where
  "USDTAmount_from amt c =
     (if c = Usdt then smallestUnits (InString amt) else Inl UnsupportedCurrencyError)"

section \<open>The calculator's divisions\<close>

text \<open>
  For a positive divisor: truncation, the nearest integer with ties towards zero for amounts
  that are not negative, and the ceiling for amounts of any sign.
\<close>

definition nearest_down :: "int \<Rightarrow> int \<Rightarrow> int \<Rightarrow> bool" where
  "nearest_down a b q \<longleftrightarrow> 2 * a - b \<le> 2 * (q * b) \<and> 2 * (q * b) < 2 * a + b"

lemma nearest_down_iff:
  assumes "0 < b"
  shows "nearest_down a b q \<longleftrightarrow> q = a div b + (if 2 * (a mod b) > b then 1 else 0)"
proof -
  have ab: "a = b * (a div b) + a mod b" "0 \<le> a mod b" "a mod b < b"
    using assms by simp_all
  have d: "q * b = b * (a div b) + b * (q - a div b)" by (simp add: algebra_simps)
  consider "q - a div b \<le> - 1" | "q - a div b = 0" | "q - a div b = 1" | "q - a div b \<ge> 2" by linarith
  then show ?thesis
  proof cases
    case 1
    then have "b * (q - a div b) \<le> b * (- 1)" using assms by (intro mult_left_mono) simp_all
    with d ab have "\<not> nearest_down a b q" unfolding nearest_down_def by linarith
    with 1 show ?thesis by simp
  next
    case 4
    then have "b * 2 \<le> b * (q - a div b)" using assms by (intro mult_left_mono) simp_all
    with d ab have "\<not> nearest_down a b q" unfolding nearest_down_def by linarith
    with 4 show ?thesis by simp
  next
    case 2
    with d have "q * b = b * (a div b)" by simp
    with ab have "nearest_down a b q \<longleftrightarrow> \<not> b < 2 * (a mod b)" unfolding nearest_down_def by linarith
    with 2 show ?thesis by simp
  next
    case 3
    with d have "q * b = b * (a div b) + b" by simp
    with ab have "nearest_down a b q \<longleftrightarrow> b < 2 * (a mod b)" unfolding nearest_down_def by linarith
    with 3 show ?thesis by auto
  qed
qed

lemma half_less_iff: "b div 2 < r \<longleftrightarrow> b < 2 * r" for b r :: int
  by linarith

lemma divRound_eq:
  assumes "0 < b" "0 \<le> pa_amount a"
  shows "divRound a b = Inr (amount_of (pa_amount a div b + (if 2 * (pa_amount a mod b) > b then 1 else 0)) (pa_currency a))"
  using assms by (simp add: divRound_def half_less_iff)

lemma divRound_neg:
  assumes "0 < b" "pa_amount a \<le> 0"
  shows "divRound a b = Inr (amount_of (- (- pa_amount a div b)) (pa_currency a))"
proof -
  have "\<not> trunc_quot b 2 < trunc_rem (pa_amount a) b"
    using assms by (auto simp: half_less_iff trunc_rem_def sgn_if) (smt (verit) pos_mod_sign)
  then show ?thesis
    using assms by (auto simp: divRound_def trunc_quot_def sgn_if)
qed

lemma divFloor_eq:
  assumes "0 < b" "0 \<le> pa_amount a"
  shows "divFloor a b = Inr (amount_of (pa_amount a div b) (pa_currency a))"
  using assms by (simp add: divFloor_def)

lemma divCeil_eq:
  assumes "0 < b"
  shows "divCeil a b = Inr (amount_of (- (- pa_amount a div b)) (pa_currency a))"
proof (cases "0 < pa_amount a")
  case True
  have "- (- pa_amount a div b) = pa_amount a div b + (if pa_amount a mod b = 0 then 0 else 1)"
    using assms by (simp add: zdiv_zminus1_eq_if)
  moreover have "0 < pa_amount a mod b \<longleftrightarrow> pa_amount a mod b \<noteq> 0"
    using assms pos_mod_sign [of b "pa_amount a"] by linarith
  ultimately show ?thesis using True assms by (simp add: divCeil_def)
next
  case False
  then have "trunc_rem (pa_amount a) b \<le> 0"
    using assms by (auto simp: trunc_rem_def sgn_if)
  with False assms show ?thesis
    by (auto simp: divCeil_def trunc_quot_def sgn_if)
qed

lemma mulBasisPoints_eq:
  assumes "0 \<le> pa_amount a" "0 \<le> bp"
  shows "mulBasisPoints a bp = Inr (amount_of (pa_amount a * bp div 10000 +
    (if 2 * (pa_amount a * bp mod 10000) > 10000 then 1 else 0)) (pa_currency a))"
  using assms by (simp add: mulBasisPoints_def divRound_eq)

lemma fold_max_ge:
  "pa_amount (fold (\<lambda>val mx. if pa_amount val > pa_amount mx then val else mx) as a)
   = Max (pa_amount ` set (a # as))"
proof (induction as arbitrary: a)
  case (Cons b as)
  let ?m = "if pa_amount b > pa_amount a then b else a"
  have "Max (pa_amount ` set (?m # as)) = Max (pa_amount ` set (a # b # as))"
    by (cases "as = []") (auto simp: max_def)
  with Cons.IH [of ?m] show ?case by simp
qed simp

lemma fold_max_mem:
  "fold (\<lambda>val mx. if pa_amount val > pa_amount mx then val else mx) as a \<in> set (a # as)"
proof (induction as arbitrary: a)
  case (Cons b as)
  from Cons.IH [of "if pa_amount b > pa_amount a then b else a"] show ?case
    by (auto split: if_splits)
qed simp

lemma calc_max_Inr: "calc_max (a # as) = Inr m \<Longrightarrow> pa_amount m = Max (pa_amount ` set (a # as)) \<and> m \<in> set (a # as)"
  using fold_max_ge fold_max_mem by fastforce

section \<open>Checked amounts\<close>

lemma paymentAmountFromNumber_int [simp]:
  "paymentAmountFromNumber (Fin (of_int n)) c = Inr (amount_of n c)"
  by (simp add: paymentAmountFromNumber_def safeBigInt_def)

lemma num_is_floor_Fin: "num_is_floor (Fin q) \<longleftrightarrow> (\<exists>n. q = of_int n)"
  by (metis num_is_floor.simps(4) of_int_floor_cancel)

text \<open>The two checks have one shape, with the bound and the errors as parameters.\<close>

lemma checked_amount_iff:
  "(case amt of None \<Rightarrow> Inl e1 | Some x \<Rightarrow>
      if num_gt_int x bound then Inl e2 else if \<not> num_is_floor x then Inl e1
      else if \<not> num_gt_int x 0 then Inl e1 else paymentAmountFromNumber x c) = Inr p
   \<longleftrightarrow> (\<exists>n. amt = Some (Fin (of_int n)) \<and> 0 < n \<and> n \<le> bound \<and> p = amount_of n c)"
proof (cases amt)
  case (Some x)
  then show ?thesis
  proof (cases x)
    case (Fin q)
    then show ?thesis
    proof (cases "num_is_floor (Fin q)")
      case True
      then obtain n where "q = of_int n" by (auto simp: num_is_floor_Fin)
      with Some Fin show ?thesis by auto
    next
      case False
      with Some Fin show ?thesis by (auto simp: num_is_floor_Fin simp del: num_is_floor.simps)
    qed
  qed auto
qed auto

lemma checkedToBtcPaymentAmount_Inr:
  "checkedToBtcPaymentAmount x = Inr p \<longleftrightarrow>
     (\<exists>n. x = Some (Fin (of_int n)) \<and> 0 < n \<and> n \<le> 10 ^ 13 \<and> p = amount_of n Btc)"
  unfolding checkedToBtcPaymentAmount_def checked_amount_iff by (simp add: MAX_SATS_def)

lemma checkedToUsdPaymentAmount_Inr:
  "checkedToUsdPaymentAmount x c = Inr p \<longleftrightarrow>
     (\<exists>n. x = Some (Fin (of_int n)) \<and> 0 < n \<and> n \<le> 10 ^ 13 \<and> p = amount_of n c)"
  unfolding checkedToUsdPaymentAmount_def checked_amount_iff by (simp add: MAX_CENTS_def)

section \<open>Decimal amounts\<close>

text \<open>Scaling, whole numbers as strings, and exact operations of the money library.\<close>

lemma round_quot_scale:
  assumes "0 < k" "0 < d"
  shows "round_quot rnd (n * k) (d * k) = round_quot rnd n d"
proof -
  have q: "n * k div (d * k) = n div d" and r: "n * k mod (d * k) = (n mod d) * k"
    using assms by (simp_all add: mult_mod_left)
  have m: "(n mod d) * k * 2 = ((n mod d) * 2) * k" by simp
  have e: "(n mod d) * k * 2 = d * k \<longleftrightarrow> (n mod d) * 2 = d"
    unfolding m using assms by (simp only: mult_cancel_right) auto
  have l: "d * k < (n mod d) * k * 2 \<longleftrightarrow> d < (n mod d) * 2"
    unfolding m using assms by (simp only: mult_less_cancel_right) auto
  show ?thesis unfolding round_quot_def q r Let_def e l ..
qed

lemma divide_round_scale:
  "0 < k \<Longrightarrow> 0 < d \<Longrightarrow> divide_round (n * k) (d * k) rnd = divide_round n d rnd"
  using round_quot_scale [of k d rnd "\<bar>n\<bar>"] by (simp add: divide_round_eq abs_mult sgn_mult)

lemma divide_round_exact: "0 < d \<Longrightarrow> divide_round (n * d) d rnd = Inr n"
  by (simp add: divide_round_eq abs_mult sgn_mult) (simp add: sgn_mult_abs)

lemma parse_number: "isSafeInteger (Fin (of_int n)) \<Longrightarrow>
    moneyValueToBigInt (InNumber (Fin (of_int n))) rnd = Inr (n * PRECISION_M)"
  by (simp add: moneyValueToBigInt_def)

lemma toFixed_0: "toFixed m 0 = bindE (divide_round (mvalue m) PRECISION_M (mround m)) (\<lambda>q. Inr (show_int q))"
  by (simp add: toFixed_def bigintToFixed_def)

lemma money_divide_whole:
  assumes "moneyValueToBigInt x (mround m) = Inr (d * PRECISION_M)" "0 < d"
  shows "money_divide m x = bindE (divide_round (mvalue m) d (mround m))
    (\<lambda>q. Inr (fromSource q (mcurrency m) (mround m)))"
  using assms divide_round_scale [of PRECISION_M d "mvalue m"]
  by (simp add: money_divide_def) (simp add: moneyValueToBigInt_def)

lemma toFixed_exact:
  assumes "0 < p" "p \<le> PRECISION_I" "mvalue m = k * 10 ^ (PRECISION_I - p)"
  shows "\<exists>s. toFixed m p = Inr s \<and> moneyValueToBigInt (InString s) rnd = Inr (mvalue m)"
  using bigintToFixed_parses [OF assms(1,2), of "mvalue m" "mround m" rnd]
    divide_round_exact [of "10 ^ (PRECISION_I - p)" k "mround m"] assms(3)
  by (auto simp: toFixed_def dest: sym)

lemma MoneyAmount_InString:
  "moneyValueToBigInt (InString s) HALF_TO_EVEN = Inr v \<Longrightarrow> MoneyAmount (InString s) c =
     Inr \<lparr>currencyCode = c, ma_money = fromSource v (currency_code c) HALF_TO_EVEN\<rparr>"
  by (simp add: MoneyAmount_def Money_def)

text \<open>The amount of \<open>n\<close> smallest units, as every factory builds it.\<close>

definition whole_amount :: "int \<Rightarrow> wallet_currency \<Rightarrow> money_amount" where
  "whole_amount n c = \<lparr>currencyCode = c, ma_money = fromSource (n * PRECISION_M) (currency_code c) HALF_TO_EVEN\<rparr>"

lemma MoneyAmount_whole:
  "MoneyAmount (InString (show_int n)) c = Inr (whole_amount n c)"
  "MoneyAmount (InBigint n) c = Inr (whole_amount n c)"
  by (simp add: MoneyAmount_def Money_def parse_show_int whole_amount_def)
     (simp add: MoneyAmount_def Money_def whole_amount_def moneyValueToBigInt_def)

lemma factory_whole [simp]:
  "USDAmount_cents (InBigint n) = Inr (whole_amount n Usd)"
  "USDAmount_cents (InString (show_int n)) = Inr (whole_amount n Usd)"
  "smallestUnits (InBigint n) = Inr (whole_amount n Usdt)"
  "smallestUnits (InString (show_int n)) = Inr (whole_amount n Usdt)"
  by (simp_all add: USDAmount_cents_def smallestUnits_def MoneyAmount_whole)

lemma whole_amount_sel [simp]:
  "currencyCode (whole_amount n c) = c"
  "mvalue (ma_money (whole_amount n c)) = n * PRECISION_M"
  "mround (ma_money (whole_amount n c)) = HALF_TO_EVEN"
  "mcurrency (ma_money (whole_amount n c)) = currency_code c"
  by (simp_all add: whole_amount_def fromSource_def)

lemma fromSource_sel [simp]:
  "mvalue (fromSource v c r) = v" "mcurrency (fromSource v c r) = c" "mround (fromSource v c r) = r"
  by (simp_all add: fromSource_def)

lemma multiply_whole_amount:
  "money_multiply (ma_money (whole_amount n c)) (InMoney m) =
   Inr (fromSource (n * mvalue m) (currency_code c) HALF_TO_EVEN)"
  using divide_round_exact [of PRECISION_M "n * mvalue m" HALF_TO_EVEN]
  by (simp add: money_multiply_def moneyValueToBigInt_def ac_simps)

text \<open>
  A conversion factory multiplies the parsed string by the number of smallest units and rounds
  half to even to a whole number of them.
\<close>

lemma usdCents_eq:
  assumes "moneyValueToBigInt (InString s) HALF_TO_EVEN = Inr v"
  shows "usdCents s = bindE (divide_round (USDT_MICROS_PER_USD_CENT * v) PRECISION_M HALF_TO_EVEN)
    (\<lambda>q. Inr (whole_amount q Usdt))"
  using assms
  by (simp add: usdCents_def Money_def multiply_whole_amount toFixed_0 divide_round_eq MoneyAmount_whole)

lemma USDTAmount_fromNumber_eq:
  assumes "moneyValueToBigInt (InString s) HALF_TO_EVEN = Inr v"
  shows "USDTAmount_fromNumber s = bindE (divide_round (USDT_MICROS_PER_MAJOR_UNIT * v) PRECISION_M HALF_TO_EVEN)
    (\<lambda>q. Inr (whole_amount q Usdt))"
  using assms
  by (simp add: USDTAmount_fromNumber_def Money_def multiply_whole_amount toFixed_0 divide_round_eq
      MoneyAmount_whole)

lemma asUsdCents_whole:
  "asUsdCents (whole_amount n Usdt) = bindE (divide_round n 10000 HALF_TO_EVEN) (\<lambda>q. Inr (show_int q))"
proof -
  have "divide_round (n * PRECISION_M) 10000 HALF_TO_EVEN = Inr (n * 10 ^ 16)"
    using divide_round_exact [of 10000 "n * 10 ^ 16" HALF_TO_EVEN]
    by (simp add: PRECISION_M_def PRECISION_I_def mult.commute)
  moreover have "divide_round (n * 10 ^ 16) PRECISION_M HALF_TO_EVEN = divide_round n 10000 HALF_TO_EVEN"
    using divide_round_scale [of "10 ^ 16" 10000 n HALF_TO_EVEN]
    by (simp add: PRECISION_M_def PRECISION_I_def)
  ultimately show ?thesis
    by (simp add: asUsdCents_def money_divide_whole [OF parse_show_int] USDT_MICROS_PER_USD_CENT_def toFixed_0)
qed

lemma asDollars_whole:
  "\<exists>s. asDollars (whole_amount n c) 2 = Inr s \<and>
     moneyValueToBigInt (InString s) rnd = Inr (n * 10 ^ 18)"
proof -
  have "divide_round (n * PRECISION_M) 100 HALF_TO_EVEN = Inr (n * 10 ^ 18)"
    using divide_round_exact [of 100 "n * 10 ^ 18" HALF_TO_EVEN]
    by (simp add: PRECISION_M_def PRECISION_I_def mult.commute)
  moreover have "moneyValueToBigInt (InNumber (Fin 100)) HALF_TO_EVEN = Inr (100 * PRECISION_M)"
    using parse_number [of 100] by (simp add: isSafeInteger_def)
  moreover have "\<exists>s. toFixed (fromSource (n * 10 ^ 18) (currency_code c) HALF_TO_EVEN) 2 = Inr s \<and>
      moneyValueToBigInt (InString s) rnd = Inr (n * 10 ^ 18)"
    using toFixed_exact [of 2 "fromSource (n * 10 ^ 18) (currency_code c) HALF_TO_EVEN" n rnd]
    by (simp add: PRECISION_I_def)
  ultimately show ?thesis
    by (simp add: asDollars_def money_divide_whole)
qed

lemma USDAmount_dollars_hundredths:
  assumes "moneyValueToBigInt (InString s) HALF_TO_EVEN = Inr (n * 10 ^ 18)"
  shows "USDAmount_dollars s = Inr (whole_amount n Usd)"
proof -
  have v: "fromSource (100 * (n * 10 ^ 18)) = fromSource (n * PRECISION_M)"
    by (simp add: PRECISION_M_def PRECISION_I_def mult.commute)
  obtain t where t: "toFixed (fromSource (n * PRECISION_M) (currency_code Usd) HALF_TO_EVEN) 2 = Inr t"
    and p: "moneyValueToBigInt (InString t) HALF_TO_EVEN = Inr (n * PRECISION_M)"
    using toFixed_exact [of 2 "fromSource (n * PRECISION_M) (currency_code Usd) HALF_TO_EVEN" "n * 100" HALF_TO_EVEN]
    by (auto simp: PRECISION_I_def PRECISION_M_def)
  from MoneyAmount_InString [OF p, of Usd] t assms show ?thesis
    by (simp add: USDAmount_dollars_def Money_def multiply_whole_amount v whole_amount_def [symmetric]
        del: currency_code.simps power_numeral)
qed

section \<open>Properties\<close>

text \<open>
  for a positive divisor and an amount that is not negative, \<open>divRound\<close> returns the nearest
  whole amount (of two equally near ones the smaller), \<open>divFloor\<close> the largest one not above the
  quotient and \<open>divCeil\<close> the smallest one not below it, all in the currency of the amount.
\<close>

theorem calculator_divisions:
  assumes "0 < b" "0 \<le> n"
  shows "(\<exists>q. divRound (amount_of n c) b = Inr (amount_of q c) \<and> nearest_down n b q)
    \<and> divFloor (amount_of n c) b = Inr (amount_of \<lfloor>of_int n / of_int b :: rat\<rfloor> c)
    \<and> divCeil (amount_of n c) b = Inr (amount_of \<lceil>of_int n / of_int b :: rat\<rceil> c)"
proof -
  have "\<lceil>of_int n / of_int b :: rat\<rceil> = - (- n div b)"
    using floor_divide_of_int_eq [of "- n" b] by (simp add: ceiling_def)
  with assms show ?thesis
    by (simp add: divRound_eq nearest_down_iff divFloor_eq divCeil_eq floor_divide_of_int_eq)
qed

theorem calculator_divisions_witness:
  "(\<exists>q. divRound (amount_of 25 Usd) 10 = Inr (amount_of q Usd) \<and> nearest_down 25 10 q)
   \<and> divFloor (amount_of 25 Usd) 10 = Inr (amount_of \<lfloor>of_int 25 / of_int 10 :: rat\<rfloor> Usd)
   \<and> divCeil (amount_of 25 Usd) 10 = Inr (amount_of \<lceil>of_int 25 / of_int 10 :: rat\<rceil> Usd)"
  using calculator_divisions [of 10 25 Usd] by simp

text \<open>
  a number is accepted as a payment amount exactly when it is a whole number from one up to
  the maximum, and then the amount is that number: null, NaN, infinities, fractions, zero and
  negative numbers are all refused, for satoshis and for cents.
\<close>

theorem checked_amounts_iff:
  "(checkedToBtcPaymentAmount x = Inr p \<longleftrightarrow>
     (\<exists>n. x = Some (Fin (of_int n)) \<and> 0 < n \<and> n \<le> 10 ^ 13 \<and> p = BtcPaymentAmount n))
   \<and> (checkedToUsdPaymentAmount x c = Inr p \<longleftrightarrow>
     (\<exists>n. x = Some (Fin (of_int n)) \<and> 0 < n \<and> n \<le> 10 ^ 13 \<and> p = amount_of n c))"
  by (simp add: checkedToBtcPaymentAmount_Inr checkedToUsdPaymentAmount_Inr BtcPaymentAmount_def)

text \<open>
  a whole number of US cents converted to USDT is that many times ten thousand micro units,
  and converting it back gives the same cents; a USDT amount of whole micro units reads as the
  nearest whole number of cents, ties to even.
\<close>

theorem usdt_cents_roundtrip:
  "usdCents (show_int n) = Inr (whole_amount (10000 * n) Usdt)
   \<and> asUsdCents (whole_amount (10000 * n) Usdt) = Inr (show_int n)
   \<and> (\<exists>q. asUsdCents (whole_amount k Usdt) = Inr (show_int q) \<and> nearest_even k 10000 q)"
proof (intro conjI)
  show "usdCents (show_int n) = Inr (whole_amount (10000 * n) Usdt)"
    using divide_round_exact [of PRECISION_M "10000 * n" HALF_TO_EVEN]
    by (simp add: usdCents_eq [OF parse_show_int] USDT_MICROS_PER_USD_CENT_def mult.assoc)
  show "asUsdCents (whole_amount (10000 * n) Usdt) = Inr (show_int n)"
    using divide_round_exact [of 10000 n HALF_TO_EVEN] by (simp add: asUsdCents_whole mult.commute)
  obtain q where "divide_round k 10000 HALF_TO_EVEN = Inr q" by (simp add: divide_round_eq)
  then show "\<exists>q. asUsdCents (whole_amount k Usdt) = Inr (show_int q) \<and> nearest_even k 10000 q"
    using divide_round_nearest_even [of 10000 k q] by (auto simp: asUsdCents_whole)
qed

text \<open>
  an amount of whole US cents printed in dollars and read back with \<open>USDAmount.dollars\<close> is the
  same amount.
\<close>

theorem usd_dollars_roundtrip:
  "\<exists>s. asDollars (whole_amount n Usd) 2 = Inr s \<and> USDAmount_dollars s = Inr (whole_amount n Usd)
    \<and> USDAmount_cents (InBigint n) = Inr (whole_amount n Usd)"
  using asDollars_whole [of n Usd HALF_TO_EVEN] USDAmount_dollars_hundredths by fastforce

end
