(* ===== verification/Doubles.thy ===== *)
theory Doubles
  imports Decimal
begin

text \<open>
  The double arithmetic the code uses through JavaScript's number type: rounding a rational to
  the nearest double (ties to even, gradual underflow, overflow to an infinity), the conversions
  \<open>Number(bigint)\<close>, \<open>Math.floor\<close>, \<open>Math.ceil\<close>, multiplication and division, and \<open>toFixed\<close>. The
  sign of a zero is not modelled: no operation used here observes it.
\<close>

section \<open>Definitions\<close>

fun bits :: "nat \<Rightarrow> nat" where
  "bits n = (if n = 0 then 0 else Suc (bits (n div 2)))"

declare bits.simps [simp del]

text \<open>The binary exponent of a positive rational: the \<open>e\<close> with \<open>2\<^sup>e \<le> q < 2\<^sup>e\<^sup>+\<^sup>1\<close>.\<close>

definition ilog2 :: "rat \<Rightarrow> int" where
  "ilog2 q = (case quotient_of q of (a, b) \<Rightarrow>
     let e = int (bits (nat a)) - int (bits (nat b))
     in if 2 powi e \<le> q then e else e - 1)"

definition round_even :: "rat \<Rightarrow> int" where
  "round_even x = (let f = \<lfloor>x\<rfloor>; r = x - of_int f
     in if r < 1 / 2 then f else if r > 1 / 2 then f + 1 else if even f then f else f + 1)"

text \<open>The spacing of the doubles around \<open>q\<close> (53 significant bits, none below \<open>2\<^sup>-\<^sup>1\<^sup>0\<^sup>7\<^sup>4\<close>).\<close>

definition ulp :: "rat \<Rightarrow> rat" where
  "ulp q = 2 powi (max (ilog2 \<bar>q\<bar>) (- 1022) - 52)"

definition fl :: "rat \<Rightarrow> rat" where
  "fl q = (if q = 0 then 0 else of_int (round_even (q / ulp q)) * ulp q)"

definition double :: "rat \<Rightarrow> js_number" where
  "double q = (let d = fl q in if d \<ge> 2 ^ 1024 then PosInf else if d \<le> - (2 ^ 1024) then NegInf else Fin d)"

definition Number_bigint :: "int \<Rightarrow> js_number" where
  "Number_bigint n = double (of_int n)"

fun Math_floor :: "js_number \<Rightarrow> js_number" where
  "Math_floor (Fin q) = Fin (of_int \<lfloor>q\<rfloor>)"
| "Math_floor x = x"

fun Math_ceil :: "js_number \<Rightarrow> js_number" where
  "Math_ceil (Fin q) = Fin (of_int \<lceil>q\<rceil>)"
| "Math_ceil x = x"

fun num_sign :: "js_number \<Rightarrow> int" where
  "num_sign (Fin q) = (if q > 0 then 1 else if q < 0 then - 1 else 0)"
| "num_sign PosInf = 1"
| "num_sign NegInf = - 1"
| "num_sign NaN = 0"

text \<open>A product with an infinite factor is an infinity of the product's sign, NaN for zero.\<close>

fun num_mul :: "js_number \<Rightarrow> js_number \<Rightarrow> js_number" where
  "num_mul (Fin a) (Fin b) = double (a * b)"
| "num_mul x y =
     (if x = NaN \<or> y = NaN \<or> num_sign x * num_sign y = 0 then NaN
      else if num_sign x * num_sign y > 0 then PosInf else NegInf)"

text \<open>Division by a number that is not zero.\<close>

fun num_div_pos :: "js_number \<Rightarrow> rat \<Rightarrow> js_number" where
  "num_div_pos (Fin a) b = double (a / b)"
| "num_div_pos x b = x"

text \<open>
  \<open>x.toFixed(f)\<close> on a finite number below \<open>10\<^sup>2\<^sup>1\<close>: the integer \<open>n\<close> with \<open>n / 10\<^sup>f\<close> nearest to the
  exact value, the larger of two, printed with \<open>f\<close> decimals.
\<close>

definition toFixed_nat :: "nat \<Rightarrow> nat \<Rightarrow> string" where
  "toFixed_nat n f =
     (if f = 0 then show_nat n
      else (let k = padStart (Suc f) (show_nat n)
            in take (length k - f) k @ CHR ''.'' # drop (length k - f) k))"

definition num_toFixed :: "rat \<Rightarrow> nat \<Rightarrow> string" where
  "num_toFixed x f =
     (let n = nat \<lfloor>\<bar>x\<bar> * 10 ^ f + 1 / 2\<rfloor>
      in (if x < 0 then ''-'' else '''') @ toFixed_nat n f)"

text \<open>Evaluation on binary numerals.\<close>

function bits_int :: "int \<Rightarrow> int" where
  "bits_int n = (if n \<le> 0 then 0 else bits_int (n div 2) + 1)"
  by auto
termination
  by (relation "measure nat") (auto simp: nat_less_iff)

declare bits_int.simps [simp del]

lemma bits_int_eq: "int (bits (nat n)) = bits_int n"
proof (induction n rule: bits_int.induct)
  case (1 n)
  show ?case
  proof (cases "n \<le> 0")
    case True
    then show ?thesis by (simp add: bits_int.simps [of n] bits.simps)
  next
    case False
    then have "bits (nat n) = Suc (bits (nat n div 2))" by (subst bits.simps) simp
    moreover have "nat n div 2 = nat (n div 2)" using False by (simp add: nat_div_distrib)
    ultimately show ?thesis using False 1 by (simp add: bits_int.simps [of n])
  qed
qed

lemma ilog2_code [code]:
  "ilog2 q = (case quotient_of q of (a, b) \<Rightarrow>
     let e = bits_int a - bits_int b in if 2 powi e \<le> q then e else e - 1)"
  by (simp add: ilog2_def bits_int_eq)

function int_pow2 :: "int \<Rightarrow> int" where
  "int_pow2 n =
     (if n \<le> 0 then 1
      else let r = int_pow2 (n div 2) in if n mod 2 = 0 then r * r else 2 * (r * r))"
  by auto
termination
  by (relation "measure nat") (auto simp: nat_less_iff)

declare int_pow2.simps [simp del]

lemma int_pow2_eq: "int_pow2 n = 2 ^ nat n"
proof (induction n rule: int_pow2.induct)
  case (1 n)
  show ?case
  proof (cases "n \<le> 0")
    case True
    then show ?thesis by (simp add: int_pow2.simps [of n])
  next
    case False
    have n: "nat n = nat (n div 2) + nat (n div 2) + nat (n mod 2)"
      using False by (simp flip: nat_add_distrib)
    have "n mod 2 = 0 \<or> n mod 2 = 1" by linarith
    then show ?thesis
      using 1 False unfolding n power_add by (auto simp: int_pow2.simps [of n] Let_def)
  qed
qed

definition two_powi :: "int \<Rightarrow> rat" where
  "two_powi e = (if 0 \<le> e then of_int (int_pow2 e) else 1 / of_int (int_pow2 (- e)))"

lemma two_powi_eq [code_unfold]: "2 powi e = two_powi e"
  by (simp add: two_powi_def int_pow2_eq power_int_def inverse_eq_divide power_one_over)

lemma double_code [code]:
  "double q = (let d = fl q; m = two_powi 1024 in if d \<ge> m then PosInf else if d \<le> - m then NegInf else Fin d)"
proof -
  have "two_powi 1024 = 2 ^ 1024" using two_powi_eq [of 1024] by (simp only: power_int_numeral)
  then show ?thesis by (simp only: double_def Let_def)
qed

lemma num_toFixed_code [code]:
  "num_toFixed x f =
     (let t = show_int \<lfloor>\<bar>x\<bar> * 10 ^ f + 1 / 2\<rfloor>; k = padStart (Suc f) t
      in (if x < 0 then ''-'' else '''') @
         (if f = 0 then t else take (length k - f) k @ CHR ''.'' # drop (length k - f) k))"
proof -
  define y where "y = \<bar>x\<bar> * 10 ^ f + 1 / 2"
  have "0 \<le> \<bar>x\<bar> * 10 ^ f" by simp
  then have "0 \<le> y" unfolding y_def by linarith
  then have "\<not> \<lfloor>y\<rfloor> < 0" by linarith
  then have "show_nat (nat \<lfloor>y\<rfloor>) = show_int \<lfloor>y\<rfloor>" unfolding show_int_def by (simp only: if_False)
  then show ?thesis by (simp only: num_toFixed_def toFixed_nat_def Let_def y_def)
qed

section \<open>Rounding\<close>

lemma bits_bounds: "0 < n \<Longrightarrow> 2 ^ (bits n - 1) \<le> n \<and> n < 2 ^ bits n \<and> 0 < bits n"
proof (induction n rule: bits.induct)
  case (1 n)
  show ?case
  proof (cases "n = 1")
    case True
    then show ?thesis by (simp add: bits.simps)
  next
    case False
    with 1 have IH: "2 ^ (bits (n div 2) - 1) \<le> n div 2" "n div 2 < 2 ^ bits (n div 2)" "0 < bits (n div 2)"
      by auto
    have b: "bits n = Suc (bits (n div 2))" using 1(2) by (subst bits.simps) simp
    obtain k where k: "bits (n div 2) = Suc k" using IH(3) by (cases "bits (n div 2)") auto
    from IH have "2 * 2 ^ k \<le> n" "n < 2 * 2 ^ Suc k" by (auto simp: k)
    then show ?thesis by (simp add: b k)
  qed
qed

lemma ilog2_bounds:
  assumes "0 < q"
  shows "2 powi ilog2 q \<le> q" "q < 2 powi (ilog2 q + 1)"
proof -
  obtain a b where ab: "quotient_of q = (a, b)" by (cases "quotient_of q")
  have b: "0 < b" using quotient_of_denom_pos [OF ab] .
  have q: "q = of_int a / of_int b" using quotient_of_div [OF ab] .
  have a: "0 < a" using assms b by (simp add: q zero_less_divide_iff)
  define i j where "i = bits (nat a)" and "j = bits (nat b)"
  have pow: "2 powi (int m - int n) = (2 ^ m / 2 ^ n :: rat)" for m n
    by (simp add: power_int_diff)
  have ai: "2 ^ (i - 1) \<le> a" "a < 2 ^ i" "0 < i" and bj: "2 ^ (j - 1) \<le> b" "b < 2 ^ j" "0 < j"
    using bits_bounds [of "nat a"] bits_bounds [of "nat b"] a b unfolding i_def j_def
    by (simp_all add: le_nat_iff nat_less_iff)
  have up: "q < 2 powi (int i - int j + 1)"
  proof -
    have "of_int a < (2 ^ i :: rat)" using ai(2) by (metis of_int_less_iff of_int_numeral of_int_power)
    moreover have "(2 ^ (j - 1) :: rat) \<le> of_int b" using bj(1) by (metis of_int_le_iff of_int_numeral of_int_power)
    ultimately have "q < 2 ^ i / 2 ^ (j - 1)"
      unfolding q using a b by (intro frac_less) simp_all
    also have "\<dots> = 2 powi (int i - int (j - 1))" by (simp add: pow)
    also have "int i - int (j - 1) = int i - int j + 1" using bj(3) by simp
    finally show ?thesis .
  qed
  have low: "2 powi (int i - int j - 1) \<le> q"
  proof -
    have "(2 ^ (i - 1) :: rat) \<le> of_int a" using ai(1) by (metis of_int_le_iff of_int_numeral of_int_power)
    moreover have "of_int b \<le> (2 ^ j :: rat)" using bj(2) by (metis less_le of_int_le_iff of_int_numeral of_int_power)
    ultimately have "2 ^ (i - 1) / 2 ^ j \<le> q"
      unfolding q using a b by (intro frac_le) simp_all
    moreover have "int (i - 1) - int j = int i - int j - 1" using ai(3) by simp
    ultimately show ?thesis using pow [of "i - 1" j] by metis
  qed
  have e: "ilog2 q = (if 2 powi (int i - int j) \<le> q then int i - int j else int i - int j - 1)"
    by (simp add: ilog2_def ab i_def j_def Let_def)
  show "2 powi ilog2 q \<le> q" using low by (simp add: e)
  show "q < 2 powi (ilog2 q + 1)" using up by (simp add: e not_le)
qed

lemma round_even_int [simp]: "round_even (of_int n) = n"
  by (simp add: round_even_def)

lemma round_even_error: "\<bar>of_int (round_even x) - x\<bar> \<le> 1 / 2"
proof -
  have "of_int \<lfloor>x\<rfloor> \<le> x" "x < of_int \<lfloor>x\<rfloor> + 1" by linarith+
  then show ?thesis by (auto simp: round_even_def Let_def abs_le_iff)
qed

lemma ulp_pos [simp]: "0 < ulp q" "ulp q \<noteq> 0" "\<bar>ulp q\<bar> = ulp q"
  by (simp_all add: ulp_def)

lemma fl_error: "\<bar>fl q - q\<bar> \<le> ulp q / 2"
proof (cases "q = 0")
  case False
  have "fl q - q = (of_int (round_even (q / ulp q)) - q / ulp q) * ulp q"
    using False by (simp add: fl_def algebra_simps)
  then have "\<bar>fl q - q\<bar> = \<bar>of_int (round_even (q / ulp q)) - q / ulp q\<bar> * ulp q"
    by (simp add: abs_mult)
  also have "\<dots> \<le> 1 / 2 * ulp q"
    by (rule mult_right_mono [OF round_even_error]) (simp add: less_imp_le)
  finally show ?thesis by simp
qed (simp add: fl_def less_imp_le)

lemma fl_exact: "q = of_int n * ulp q \<Longrightarrow> fl q = q"
  by (auto simp: fl_def)
    (metis nonzero_mult_div_cancel_right round_even_int ulp_pos less_irrefl)

lemma ilog2_le:
  assumes "0 < q" "q < 2 powi k"
  shows "ilog2 q < k"
proof (rule ccontr)
  assume "\<not> ilog2 q < k"
  then have "(2 :: rat) powi k \<le> 2 powi ilog2 q" by (intro power_int_increasing) simp_all
  with ilog2_bounds(1) [OF assms(1)] assms(2) show False by simp
qed

lemma ilog2_ge:
  assumes "2 powi k \<le> q"
  shows "k \<le> ilog2 q"
proof (rule ccontr)
  assume "\<not> k \<le> ilog2 q"
  then have "(2 :: rat) powi (ilog2 q + 1) \<le> 2 powi k" by (intro power_int_increasing) simp_all
  moreover have "0 < q" using assms by (meson less_le_trans zero_less_numeral zero_less_power_int)
  ultimately show False using ilog2_bounds(2) [of q] assms by simp
qed

lemma ulp_le:
  assumes "q \<noteq> 0" "\<bar>q\<bar> < 2 powi k" "- 1022 < k"
  shows "ulp q \<le> 2 powi (k - 53)"
proof -
  have "ilog2 \<bar>q\<bar> < k" using assms by (intro ilog2_le) simp_all
  with assms(3) show ?thesis unfolding ulp_def by (intro power_int_increasing) simp_all
qed

lemma fl_error_le:
  assumes "\<bar>q\<bar> < 2 powi k" "- 1022 < k"
  shows "\<bar>fl q - q\<bar> \<le> 2 powi (k - 54)"
proof (cases "q = 0")
  case False
  have "\<bar>fl q - q\<bar> \<le> ulp q / 2" by (rule fl_error)
  also have "\<dots> \<le> 2 powi (k - 53) / 2" using ulp_le [OF False assms] by simp
  also have "\<dots> = 2 powi (k - 54)"
    using power_int_add_1 [of "2 :: rat" "k - 54"] by simp
  finally show ?thesis .
qed (simp add: fl_def)

text \<open>Integers up to \<open>2\<^sup>5\<^sup>3\<close> in magnitude are doubles.\<close>

lemma fl_int:
  assumes "\<bar>n\<bar> \<le> 2 ^ 53"
  shows "fl (of_int n) = of_int n"
proof (cases "n = 0")
  case False
  define e where "e = ilog2 \<bar>of_int n\<bar>"
  have n1: "1 \<le> \<bar>of_int n :: rat\<bar>" using False by (metis of_int_1_le_iff of_int_abs int_one_le_iff_zero_less zero_less_abs_iff)
  have "0 \<le> e" unfolding e_def using n1 by (intro ilog2_ge) simp
  have lt: "\<bar>of_int n :: rat\<bar> < 2 powi 54"
    using assms of_int_le_iff [of "\<bar>n\<bar>" "2 ^ 53", where ?'a = rat] by simp
  have "e < 54" unfolding e_def using lt n1 by (intro ilog2_le) simp_all
  have u: "ulp (of_int n) = 2 powi (e - 52)" using \<open>0 \<le> e\<close> by (simp add: ulp_def e_def)
  show ?thesis
  proof (cases "e \<le> 52")
    case True
    have "of_int n = (of_int (n * 2 ^ nat (52 - e)) :: rat) * 2 powi (e - 52)"
      using True by (simp add: power_int_def nat_diff_distrib field_simps)
    then show ?thesis unfolding u [symmetric] by (rule fl_exact)
  next
    case False
    with \<open>e < 54\<close> have e: "e = 53" by simp
    have "2 powi e \<le> \<bar>of_int n :: rat\<bar>" unfolding e_def by (rule ilog2_bounds) (use n1 in simp)
    then have "2 ^ 53 \<le> \<bar>n\<bar>" using of_int_le_iff [of "2 ^ 53" "\<bar>n\<bar>", where ?'a = rat] by (simp add: e)
    with assms have "n = sgn n * 2 ^ 53" by (metis abs_mult_sgn antisym mult.commute)
    then have "of_int n = (of_int (sgn n * 2 ^ 52) :: rat) * ulp (of_int n)"
      by (simp add: u e)
    then show ?thesis by (rule fl_exact)
  qed
qed (simp add: fl_def)

lemma double_int: "\<bar>n\<bar> \<le> 2 ^ 53 \<Longrightarrow> double (of_int n) = Fin (of_int n)"
proof -
  assume n: "\<bar>n\<bar> \<le> 2 ^ 53"
  then have "\<bar>of_int n :: rat\<bar> \<le> 2 ^ 53"
    by (metis of_int_abs of_int_le_iff of_int_numeral of_int_power)
  moreover have "(2 :: rat) ^ 53 < 2 ^ 1024" by (rule power_strict_increasing) simp_all
  ultimately show ?thesis using n by (auto simp: double_def fl_int Let_def)
qed

text \<open>Above the underflow range the error is relative.\<close>

lemma fl_error_rel:
  assumes "2 powi (- 1022) \<le> \<bar>q\<bar>"
  shows "\<bar>fl q - q\<bar> \<le> \<bar>q\<bar> / 2 ^ 53"
proof -
  have q0: "0 < \<bar>q\<bar>" using assms by (meson less_le_trans zero_less_numeral zero_less_power_int)
  have "- 1022 \<le> ilog2 \<bar>q\<bar>" by (rule ilog2_ge [OF assms])
  then have "ulp q = 2 powi ilog2 \<bar>q\<bar> / 2 ^ 52"
    by (simp add: ulp_def max_absorb1 power_int_diff)
  also have "\<dots> \<le> \<bar>q\<bar> / 2 ^ 52"
    using ilog2_bounds(1) [OF q0] by (simp add: divide_right_mono)
  finally have "ulp q / 2 \<le> \<bar>q\<bar> / 2 ^ 53" by simp
  with fl_error [of q] show ?thesis by linarith
qed

lemma fl_sign:
  assumes "2 powi (- 1022) \<le> \<bar>q\<bar>"
  shows "fl q < 0 \<longleftrightarrow> q < 0"
proof -
  have "0 < \<bar>q\<bar>" using assms by (meson less_le_trans zero_less_numeral zero_less_power_int)
  then have "\<bar>q\<bar> / 2 ^ 53 < \<bar>q\<bar>" by simp
  with fl_error_rel [OF assms] show ?thesis by linarith
qed

text \<open>Rounding is monotone, so it never moves a value across a double.\<close>

lemma round_even_mono:
  assumes "x \<le> y"
  shows "round_even x \<le> round_even y"
proof (cases "\<lfloor>x\<rfloor> = \<lfloor>y\<rfloor>")
  case True
  with assms show ?thesis by (auto simp: round_even_def Let_def)
next
  case False
  with floor_mono [OF assms] have "\<lfloor>x\<rfloor> + 1 \<le> \<lfloor>y\<rfloor>" by simp
  moreover have "round_even x \<le> \<lfloor>x\<rfloor> + 1" "\<lfloor>y\<rfloor> \<le> round_even y"
    by (auto simp: round_even_def Let_def)
  ultimately show ?thesis by simp
qed

lemma fl_nonneg: "0 \<le> q \<Longrightarrow> 0 \<le> fl q"
  using round_even_mono [of 0 "q / ulp q"] round_even_int [of 0]
  by (simp add: fl_def less_imp_le)

lemma fl_binade:
  assumes "0 < q"
  defines "e \<equiv> max (ilog2 q) (- 1022)"
  shows "fl q \<le> 2 powi (e + 1)" "- 1022 < e \<Longrightarrow> 2 powi e \<le> fl q"
proof -
  have u: "ulp q = 2 powi (e - 52)" using assms by (simp add: ulp_def)
  have pow: "of_int (2 ^ k) * ulp q = 2 powi (e - 52 + int k)" for k
    by (simp add: u power_int_add)
  have "q \<le> 2 powi (ilog2 q + 1)" using ilog2_bounds(2) [OF assms(1)] by simp
  also have "\<dots> \<le> 2 powi (e + 1)" unfolding e_def by (intro power_int_increasing) simp_all
  also have "\<dots> = of_int (2 ^ 53) * ulp q" using pow [of 53] by (simp add: add.commute)
  finally have "q / ulp q \<le> of_int (2 ^ 53)" by (simp add: pos_divide_le_eq)
  then have "round_even (q / ulp q) \<le> 2 ^ 53" by (metis round_even_mono round_even_int)
  then have "of_int (round_even (q / ulp q)) \<le> (of_int (2 ^ 53) :: rat)" by (simp only: of_int_le_iff)
  then have "fl q \<le> of_int (2 ^ 53) * ulp q"
    using assms(1) by (simp only: fl_def) (simp add: mult_right_mono less_imp_le)
  then show "fl q \<le> 2 powi (e + 1)" using pow [of 53] by (simp add: add.commute)
  assume "- 1022 < e"
  then have "2 powi e \<le> q" using ilog2_bounds(1) [OF assms(1)] by (simp add: e_def max_def split: if_splits)
  then have "of_int (2 ^ 52) \<le> q / ulp q" using pow [of 52] by (simp add: pos_le_divide_eq)
  then have "2 ^ 52 \<le> round_even (q / ulp q)" by (metis round_even_mono round_even_int)
  then have "(of_int (2 ^ 52) :: rat) \<le> of_int (round_even (q / ulp q))" by (simp only: of_int_le_iff)
  then have "of_int (2 ^ 52) * ulp q \<le> fl q"
    using assms(1) by (simp only: fl_def) (simp add: mult_right_mono less_imp_le)
  then show "2 powi e \<le> fl q" using pow [of 52] by simp
qed

lemma fl_mono:
  assumes "0 \<le> p" "p \<le> q"
  shows "fl p \<le> fl q"
proof (cases "p = 0")
  case True
  then show ?thesis using fl_nonneg assms by (simp add: fl_def)
next
  case False
  with assms have p: "0 < p" and q: "0 < q" by simp_all
  define e f where "e = max (ilog2 p) (- 1022)" and "f = max (ilog2 q) (- 1022)"
  have "ilog2 p \<le> ilog2 q" using ilog2_bounds(1) [OF p] assms(2) by (intro ilog2_ge) simp
  then consider "e = f" | "e < f" unfolding e_def f_def by linarith
  then show ?thesis
  proof cases
    case 1
    then have "ulp p = ulp q" using p q by (simp add: ulp_def e_def f_def)
    moreover have "round_even (p / ulp q) \<le> round_even (q / ulp q)"
      using assms(2) by (intro round_even_mono divide_right_mono) (simp_all add: less_imp_le)
    ultimately show ?thesis using p q by (simp add: fl_def mult_right_mono less_imp_le)
  next
    case 2
    have "fl p \<le> 2 powi (e + 1)" using fl_binade(1) [OF p] by (simp add: e_def)
    also have "\<dots> \<le> 2 powi f" using 2 by (intro power_int_increasing) simp_all
    also have "\<dots> \<le> fl q"
    proof -
      have "- 1022 < f" using 2 by (simp add: e_def)
      then show ?thesis using fl_binade(2) [OF q] by (simp add: f_def)
    qed
    finally show ?thesis .
  qed
qed

text \<open>
  A count \<open>n\<close> of \<open>10\<^sup>-\<^sup>f\<close> units divided by \<open>10\<^sup>f\<close> in double arithmetic and printed with \<open>f\<close> decimals
  shows exactly \<open>n\<close>.
\<close>

lemma num_toFixed_units:
  assumes "\<bar>n\<bar> < 2 ^ 52" "f \<le> 20"
  shows "num_toFixed (fl (of_int n / 10 ^ f)) f = (if n < 0 then ''-'' else '''') @ toFixed_nat (nat \<bar>n\<bar>) f"
proof (cases "n = 0")
  case True
  then show ?thesis by (simp add: fl_def num_toFixed_def)
next
  case False
  define q :: rat where "q = of_int n / 10 ^ f"
  have n1: "1 \<le> \<bar>of_int n :: rat\<bar>"
    using False by (metis of_int_1_le_iff of_int_abs int_one_le_iff_zero_less zero_less_abs_iff)
  have "(2 :: rat) powi (- 1022) \<le> 2 powi (- 80)" by (rule power_int_increasing) simp_all
  also have "\<dots> \<le> 1 / 10 ^ 20" by (simp add: power_int_minus field_simps)
  also have "\<dots> \<le> 1 / 10 ^ f" using assms(2) by (intro divide_left_mono power_increasing) simp_all
  also have "\<dots> \<le> \<bar>q\<bar>" using n1 by (simp add: q_def abs_divide divide_right_mono)
  finally have big: "2 powi (- 1022) \<le> \<bar>q\<bar>" .
  have q: "\<bar>q\<bar> * 10 ^ f = \<bar>of_int n\<bar>" by (simp add: q_def abs_divide)
  have "\<bar>\<bar>fl q\<bar> - \<bar>q\<bar>\<bar> \<le> \<bar>q\<bar> / 2 ^ 53"
    using fl_error_rel [OF big] abs_triangle_ineq3 [of "fl q" q] by linarith
  then have "\<bar>\<bar>fl q\<bar> - \<bar>q\<bar>\<bar> * 10 ^ f \<le> \<bar>q\<bar> / 2 ^ 53 * 10 ^ f"
    by (rule mult_right_mono) simp
  also have "\<bar>q\<bar> / 2 ^ 53 * 10 ^ f = \<bar>of_int n\<bar> / 2 ^ 53" using q by simp
  also have "\<dots> < 1 / 2"
    using assms(1) of_int_less_iff [of "\<bar>n\<bar>" "2 ^ 52", where ?'a = rat] by (simp add: field_simps)
  finally have "\<bar>(\<bar>fl q\<bar> - \<bar>q\<bar>) * 10 ^ f\<bar> < 1 / 2" by (simp add: abs_mult)
  then have "\<bar>\<bar>fl q\<bar> * 10 ^ f - \<bar>of_int n\<bar>\<bar> < 1 / 2" using q by (simp add: left_diff_distrib)
  then have "\<lfloor>\<bar>fl q\<bar> * 10 ^ f + 1 / 2\<rfloor> = \<bar>n\<bar>" by (intro floor_unique; simp only: of_int_abs; linarith)
  moreover have "fl q < 0 \<longleftrightarrow> n < 0"
    unfolding fl_sign [OF big] by (simp add: q_def divide_less_0_iff)
  ultimately show ?thesis by (simp add: num_toFixed_def q_def)
qed

text \<open>The digits: the decimal point \<open>f\<close> places from the right.\<close>

lemma toFixed_nat_digits:
  assumes "0 < f"
  obtains w g where "toFixed_nat n f = w @ CHR ''.'' # g" "digits w" "w \<noteq> []" "digits g" "length g = f"
    "parse_nat w * 10 ^ f + parse_nat g = n"
proof
  define k where "k = padStart (Suc f) (show_nat n)"
  have len: "Suc f \<le> length k" by (simp add: k_def)
  have k: "digits k" "parse_nat k = n" by (simp_all add: k_def)
  show "toFixed_nat n f = take (length k - f) k @ CHR ''.'' # drop (length k - f) k"
    using assms by (simp add: toFixed_nat_def k_def Let_def)
  show "digits (take (length k - f) k)" "digits (drop (length k - f) k)" using k by simp_all
  show "take (length k - f) k \<noteq> []" using len by auto
  show l: "length (drop (length k - f) k) = f" using len by simp
  show "parse_nat (take (length k - f) k) * 10 ^ f + parse_nat (drop (length k - f) k) = n"
    using parse_nat_append [of "take (length k - f) k" "drop (length k - f) k"] l k(2) by simp
qed

end
