(* ===== verification/PriceRatio.thy ===== *)
theory PriceRatio
  imports Amounts Doubles
begin

text \<open>
  Price ratios and Lightning fees of \<open>src/domain/payments\<close>: \<open>price-ratio.ts\<close>, \<open>ln-fees.ts\<close> and
  \<open>route-validator.ts\<close>. A ratio object is the pair of amounts its closures capture. The number of
  decimals of a display currency (\<open>getCurrencyMajorExponent\<close>, which asks the runtime's locale data)
  and the configured \<open>RATIO_PRECISION\<close> are parameters.
\<close>

section \<open>price-ratio.ts\<close>

record price_ratio =
  pr_other :: int
  pr_walletAmount :: payment_amount

definition PriceRatio :: "int \<Rightarrow> payment_amount \<Rightarrow> price_ratio result" where
  "PriceRatio other walletAmount =
     (if other = 0 \<or> pa_amount walletAmount = 0 then Inl InvalidZeroAmountPriceRatioInputError
      else Inr \<lparr>pr_other = other, pr_walletAmount = walletAmount\<rparr>)"

definition or_one :: "int \<Rightarrow> int" where
  "or_one n = (if n = 0 then 1 else n)"

definition convertFromOther :: "price_ratio \<Rightarrow> int \<Rightarrow> payment_amount result" where
  "convertFromOther r otherToConvert =
     (let c = pa_currency (pr_walletAmount r)
      in if otherToConvert = 0 then Inr (amount_of 0 c)
         else bindE (divRound (amount_of (otherToConvert * pa_amount (pr_walletAmount r)) c) (pr_other r))
                (\<lambda>a. Inr (amount_of (or_one (pa_amount a)) c)))"

definition convertFromWallet :: "price_ratio \<Rightarrow> payment_amount \<Rightarrow> int result" where
  "convertFromWallet r a =
     (if pa_amount a = 0 then Inr 0
      else bindE (divRound (amount_of (pa_amount a * pr_other r) (pa_currency (pr_walletAmount r)))
                    (pa_amount (pr_walletAmount r)))
             (\<lambda>q. Inr (or_one (pa_amount q))))"

definition convertFromWalletToFloor :: "price_ratio \<Rightarrow> payment_amount \<Rightarrow> int result" where
  "convertFromWalletToFloor r a =
     bindE (divFloor (amount_of (pa_amount a * pr_other r) (pa_currency (pr_walletAmount r)))
              (pa_amount (pr_walletAmount r)))
       (\<lambda>q. Inr (pa_amount q))"

definition convertFromWalletToCeil :: "price_ratio \<Rightarrow> payment_amount \<Rightarrow> int result" where
  "convertFromWalletToCeil r a =
     bindE (divCeil (amount_of (pa_amount a * pr_other r) (pa_currency (pr_walletAmount r)))
              (pa_amount (pr_walletAmount r)))
       (\<lambda>q. Inr (pa_amount q))"

definition WalletPriceRatio :: "payment_amount \<Rightarrow> payment_amount \<Rightarrow> price_ratio result" where
  "WalletPriceRatio usd btc = PriceRatio (pa_amount usd) btc"

definition convertFromUsd :: "price_ratio \<Rightarrow> payment_amount \<Rightarrow> payment_amount result" where
  "convertFromUsd r usdWalletAmount = convertFromOther r (pa_amount usdWalletAmount)"

definition convertFromBtc :: "price_ratio \<Rightarrow> payment_amount \<Rightarrow> payment_amount result" where
  "convertFromBtc r btcWalletAmount =
     bindE (convertFromWallet r btcWalletAmount) (\<lambda>n. Inr (amount_of n Usd))"

definition convertFromBtcToFloor :: "price_ratio \<Rightarrow> payment_amount \<Rightarrow> payment_amount result" where
  "convertFromBtcToFloor r btcWalletAmount =
     bindE (convertFromWalletToFloor r btcWalletAmount) (\<lambda>n. Inr (amount_of n Usd))"

definition convertFromBtcToCeil :: "price_ratio \<Rightarrow> payment_amount \<Rightarrow> payment_amount result" where
  "convertFromBtcToCeil r btcWalletAmount =
     bindE (convertFromWalletToCeil r btcWalletAmount) (\<lambda>n. Inr (amount_of n Usd))"

text \<open>
  A display amount. \<open>displayInMajor\<close> is the text of the number; for magnitudes from \<open>10\<^sup>2\<^sup>1\<close> on, where
  \<open>toFixed\<close> prints an exponent, the text is not modelled (None).
\<close>

record display_amount =
  amountInMinor :: int
  displayCurrency :: string
  displayInMajor :: "string option"

definition toDisplayAmount :: "(string \<Rightarrow> nat) \<Rightarrow> int \<Rightarrow> string \<Rightarrow> display_amount" where
  "toDisplayAmount majorExponent minor c =
     (let e = majorExponent c
      in \<lparr>amountInMinor = minor, displayCurrency = c,
          displayInMajor = (case num_div_pos (Number_bigint minor) (10 ^ e) of
             Fin x \<Rightarrow> (if \<bar>x\<bar> < 10 ^ 21 then Some (num_toFixed x e) else None)
           | _ \<Rightarrow> None)\<rparr>)"

record display_price_ratio =
  dr_ratio :: price_ratio
  dr_displayCurrency :: string
  dr_walletCurrency :: wallet_currency

definition DisplayPriceRatio :: "display_amount \<Rightarrow> payment_amount \<Rightarrow> display_price_ratio result" where
  "DisplayPriceRatio displayAmount walletAmount =
     bindE (PriceRatio (amountInMinor displayAmount) walletAmount) (\<lambda>r.
     Inr \<lparr>dr_ratio = r, dr_displayCurrency = displayCurrency displayAmount,
          dr_walletCurrency = pa_currency walletAmount\<rparr>)"

definition convertFromDisplayMinorUnit ::
    "display_price_ratio \<Rightarrow> display_amount \<Rightarrow> payment_amount result" where
  "convertFromDisplayMinorUnit d a = convertFromOther (dr_ratio d) (amountInMinor a)"

definition display_convertFromWallet ::
    "(string \<Rightarrow> nat) \<Rightarrow> display_price_ratio \<Rightarrow> payment_amount \<Rightarrow> display_amount result" where
  "display_convertFromWallet majorExponent d a =
     bindE (convertFromWallet (dr_ratio d) a) (\<lambda>n.
     Inr (toDisplayAmount majorExponent n (dr_displayCurrency d)))"

definition display_convertFromWalletToFloor ::
    "(string \<Rightarrow> nat) \<Rightarrow> display_price_ratio \<Rightarrow> payment_amount \<Rightarrow> display_amount result" where
  "display_convertFromWalletToFloor majorExponent d a =
     bindE (convertFromWalletToFloor (dr_ratio d) a) (\<lambda>n.
     Inr (toDisplayAmount majorExponent n (dr_displayCurrency d)))"

definition display_convertFromWalletToCeil ::
    "(string \<Rightarrow> nat) \<Rightarrow> display_price_ratio \<Rightarrow> payment_amount \<Rightarrow> display_amount result" where
  "display_convertFromWalletToCeil majorExponent d a =
     bindE (convertFromWalletToCeil (dr_ratio d) a) (\<lambda>n.
     Inr (toDisplayAmount majorExponent n (dr_displayCurrency d)))"

text \<open>\<open>precision\<close> is the configured \<open>RATIO_PRECISION\<close>; \<open>BigInt(precision)\<close> throws if it is no integer.\<close>

definition toWalletPriceRatio :: "js_number \<Rightarrow> js_number \<Rightarrow> price_ratio result" where
  "toWalletPriceRatio precision ratio =
     bindE (safeBigInt (Math_floor (num_mul ratio precision))) (\<lambda>amt.
     bindE (BigInt precision) (\<lambda>p. WalletPriceRatio (amount_of amt Usd) (amount_of p Btc)))"

definition toDisplayPriceRatio ::
    "(string \<Rightarrow> nat) \<Rightarrow> js_number \<Rightarrow> js_number \<Rightarrow> string \<Rightarrow> wallet_currency \<Rightarrow> display_price_ratio result" where
  "toDisplayPriceRatio majorExponent precision ratio dc wc =
     bindE (safeBigInt (Math_floor (num_mul ratio precision))) (\<lambda>minor.
     bindE (BigInt precision) (\<lambda>p.
     DisplayPriceRatio (toDisplayAmount majorExponent minor dc) (amount_of p wc)))"

section \<open>ln-fees.ts\<close>

definition FEECAP_BASIS_POINTS :: int where "FEECAP_BASIS_POINTS = 50"

definition maxProtocolAndBankFee :: "payment_amount \<Rightarrow> payment_amount result" where
  "maxProtocolAndBankFee a =
     (if pa_amount a = 0 then Inr a
      else bindE (mulBasisPoints a FEECAP_BASIS_POINTS) (\<lambda>maxFee.
           Inr (amount_of (if pa_amount maxFee = 0 then 1 else pa_amount maxFee) (pa_currency a))))"

definition intraLedgerFees :: "payment_amount \<times> payment_amount" where
  "intraLedgerFees = (ZERO_SATS, ZERO_CENTS)"

definition verifyMaxFee ::
    "payment_amount \<Rightarrow> payment_amount \<Rightarrow> payment_amount \<Rightarrow> price_ratio \<Rightarrow> wallet_currency \<Rightarrow> bool \<Rightarrow> unit result" where
  "verifyMaxFee maxFeeAmount btcPaymentAmount usdPaymentAmount priceRatio senderWalletCurrency isFromNoAmountInvoice =
     bindE (maxProtocolAndBankFee btcPaymentAmount) (\<lambda>btcCalculatedMaxFeeAmount.
     bindE (if senderWalletCurrency = Usd then
              bindE (maxProtocolAndBankFee usdPaymentAmount) (\<lambda>maxFeeInUsd.
              bindE (convertFromUsd priceRatio maxFeeInUsd) (\<lambda>usdCalculatedMaxFeeAmount.
              Inr (if isFromNoAmountInvoice then usdCalculatedMaxFeeAmount
                   else if pa_amount btcCalculatedMaxFeeAmount > pa_amount usdCalculatedMaxFeeAmount
                        then btcCalculatedMaxFeeAmount else usdCalculatedMaxFeeAmount)))
            else Inr btcCalculatedMaxFeeAmount) (\<lambda>calculatedMaxFeeAmount.
     bindE (convertFromUsd priceRatio ONE_CENT) (\<lambda>calculatedMinFeeAmount.
     if (senderWalletCurrency = Btc \<or> pa_amount maxFeeAmount > pa_amount calculatedMinFeeAmount)
          \<and> pa_amount maxFeeAmount > pa_amount calculatedMaxFeeAmount
     then Inl MaxFeeTooLargeForRoutelessPaymentError
     else Inr ())))"

record raw_route =
  safe_fee :: js_number
  total_mtokens :: "string option"

definition feeFromRawRoute :: "raw_route \<Rightarrow> payment_amount result" where
  "feeFromRawRoute rawRoute = paymentAmountFromNumber (Math_ceil (safe_fee rawRoute)) Btc"

section \<open>route-validator.ts\<close>

text \<open>
  \<open>parseInt(s, 10)\<close>: leading white space is skipped, then an optional sign and the longest run of
  digits; NaN without a digit.
\<close>

definition is_space :: "char \<Rightarrow> bool" where
  "is_space c \<longleftrightarrow> c \<in> set [CHR '' '', CHR 0x09, CHR 0x0A, CHR 0x0B, CHR 0x0C, CHR 0x0D]"

definition parseInt :: "string \<Rightarrow> js_number" where
  "parseInt s =
     (let t = dropWhile is_space s;
          (neg, u) = (case t of [] \<Rightarrow> (False, t)
                      | c # r \<Rightarrow> if c = CHR ''-'' then (True, r)
                                else if c = CHR ''+'' then (False, r) else (False, t));
          ds = takeWhile is_digit u
      in if ds = [] then NaN
         else double (of_int (if neg then - int (parse_nat ds) else int (parse_nat ds))))"

definition RouteValidator_validate :: "raw_route \<Rightarrow> payment_amount \<Rightarrow> unit result" where
  "RouteValidator_validate rawRoute btcPaymentAmount =
     (let mtokens = (case total_mtokens rawRoute of None \<Rightarrow> ''0'' | Some s \<Rightarrow> if s = '''' then ''0'' else s);
          rawTokens = Math_floor (num_div_pos (parseInt mtokens) 1000);
          amt = Number_bigint (pa_amount btcPaymentAmount)
      in if rawTokens = NaN \<or> amt \<noteq> rawTokens then Inl BadAmountForRouteError else Inr ())"

section \<open>Conversions\<close>

definition wf_ratio :: "price_ratio \<Rightarrow> bool" where
  "wf_ratio r \<longleftrightarrow> 0 < pr_other r \<and> 0 < pa_amount (pr_walletAmount r)"

text \<open>The quotient to the nearest whole unit, half a unit down.\<close>

definition half_down :: "int \<Rightarrow> int \<Rightarrow> int" where
  "half_down a b = a div b + (if 2 * (a mod b) > b then 1 else 0)"

lemma nearest_down_half_down: "0 < b \<Longrightarrow> nearest_down a b q \<longleftrightarrow> q = half_down a b"
  by (simp add: nearest_down_iff half_down_def)

lemma divRound_half_down:
  "0 < b \<Longrightarrow> 0 \<le> pa_amount a \<Longrightarrow> divRound a b = Inr (amount_of (half_down (pa_amount a) b) (pa_currency a))"
  by (simp add: divRound_eq half_down_def)

lemma half_down_bounds:
  assumes "0 < b"
  shows "2 * a - b \<le> 2 * (half_down a b * b)" "2 * (half_down a b * b) < 2 * a + b"
  using nearest_down_half_down [OF assms, of a "half_down a b"] by (simp_all add: nearest_down_def)

lemma half_down_nonneg: "0 < b \<Longrightarrow> 0 \<le> a \<Longrightarrow> 0 \<le> half_down a b"
  by (simp add: half_down_def pos_imp_zdiv_nonneg_iff)

lemma half_down_mono:
  assumes "0 < b" "a \<le> a'"
  shows "half_down a b \<le> half_down a' b"
proof (rule ccontr)
  assume "\<not> half_down a b \<le> half_down a' b"
  then have "(half_down a' b + 1) * b \<le> half_down a b * b" using assms(1) by (intro mult_right_mono) simp_all
  moreover have "(half_down a' b + 1) * b = half_down a' b * b + b" by (simp add: algebra_simps)
  ultimately show False
    using half_down_bounds [OF assms(1), of a] half_down_bounds [OF assms(1), of a'] assms(2) by linarith
qed

lemma half_down_between:
  assumes "0 < b"
  shows "a div b \<le> half_down a b" "half_down a b \<le> - (- a div b)"
proof -
  have "- (- a div b) = a div b + (if a mod b = 0 then 0 else 1)"
    using assms by (simp add: zdiv_zminus1_eq_if)
  then show "a div b \<le> half_down a b" "half_down a b \<le> - (- a div b)"
    using assms by (auto simp: half_down_def)
qed

lemma or_one_ge: "0 \<le> n \<Longrightarrow> 1 \<le> or_one n"
  by (simp add: or_one_def)

lemma convertFromOther_eq:
  assumes "wf_ratio r" "0 \<le> n"
  shows "convertFromOther r n = Inr (amount_of (if n = 0 then 0 else
    or_one (half_down (n * pa_amount (pr_walletAmount r)) (pr_other r))) (pa_currency (pr_walletAmount r)))"
  using assms by (simp add: convertFromOther_def wf_ratio_def divRound_half_down)

lemma convertFromWallet_eq:
  assumes "wf_ratio r" "0 \<le> pa_amount a"
  shows "convertFromWallet r a = Inr (if pa_amount a = 0 then 0 else
    or_one (half_down (pa_amount a * pr_other r) (pa_amount (pr_walletAmount r))))"
  using assms by (simp add: convertFromWallet_def wf_ratio_def divRound_half_down)

lemma convertFromWalletToFloor_eq:
  assumes "wf_ratio r" "0 \<le> pa_amount a"
  shows "convertFromWalletToFloor r a = Inr (pa_amount a * pr_other r div pa_amount (pr_walletAmount r))"
  using assms by (simp add: convertFromWalletToFloor_def wf_ratio_def divFloor_eq)

lemma convertFromWalletToCeil_eq:
  assumes "wf_ratio r"
  shows "convertFromWalletToCeil r a = Inr (- (- (pa_amount a * pr_other r) div pa_amount (pr_walletAmount r)))"
  using assms by (simp add: convertFromWalletToCeil_def wf_ratio_def divCeil_eq)

lemma half_down_exact: "0 < b \<Longrightarrow> half_down (n * b) b = n"
  by (simp add: half_down_def)

lemma half_down_scale:
  assumes "0 < k"
  shows "half_down (n * k) (d * k) = half_down n d"
proof -
  have r: "n * k mod (d * k) = (n mod d) * k" by (simp add: mult_mod_left)
  have "d * k < 2 * ((n mod d) * k) \<longleftrightarrow> d < 2 * (n mod d)"
    unfolding mult.assoc [symmetric] using assms by (rule mult_less_cancel_right_pos)
  then show ?thesis using assms by (simp add: half_down_def r)
qed

text \<open>
  Converting to the finer unit and back loses nothing: \<open>w\<close> wallet units are worth \<open>c\<close> other units
  and \<open>c \<le> w\<close>.
\<close>

lemma half_down_inverse:
  assumes "0 < c" "c \<le> w"
  shows "half_down (half_down (x * w) c * c) w = x"
proof (cases "c = w")
  case True
  with assms show ?thesis by (simp add: half_down_exact)
next
  case False
  with assms have cw: "c < w" by simp
  let ?y = "half_down (x * w) c"
  have "2 * (x * w) - c \<le> 2 * (?y * c)" "2 * (?y * c) < 2 * (x * w) + c"
    using half_down_bounds [OF assms(1), of "x * w"] by auto
  with cw have "nearest_down (?y * c) w x" unfolding nearest_down_def by linarith
  moreover have "0 < w" using assms by linarith
  ultimately show ?thesis by (simp add: nearest_down_half_down)
qed

lemma half_down_pos:
  assumes "0 < c" "c \<le> w" "0 < x"
  shows "0 < half_down (x * w) c"
proof -
  have "1 * c \<le> x * w" using assms by (intro mult_mono) simp_all
  then have "half_down (1 * c) c \<le> half_down (x * w) c" by (rule half_down_mono [OF assms(1)])
  with half_down_exact [OF assms(1), of 1] show ?thesis by simp
qed

section \<open>Fees\<close>

definition fee_cap :: "int \<Rightarrow> int" where
  "fee_cap n = (if n = 0 then 0 else max 1 (half_down n 200))"

lemma maxProtocolAndBankFee_eq:
  assumes "0 \<le> pa_amount a"
  shows "maxProtocolAndBankFee a = Inr (amount_of (fee_cap (pa_amount a)) (pa_currency a))"
proof -
  have "half_down (pa_amount a * 50) 10000 = half_down (pa_amount a) 200"
    using half_down_scale [of 50 "pa_amount a" 200] by simp
  moreover have "0 \<le> half_down (pa_amount a) 200" using assms by (intro half_down_nonneg) simp_all
  ultimately show ?thesis
    using assms by (cases a) (auto simp: maxProtocolAndBankFee_def mulBasisPoints_def divRound_half_down
        FEECAP_BASIS_POINTS_def fee_cap_def)
qed

section \<open>Display amounts and routes\<close>

lemma double_bounded: "\<bar>fl q\<bar> < 2 ^ 1024 \<Longrightarrow> double q = Fin (fl q)"
  by (auto simp: double_def Let_def abs_less_iff)

lemma double_small:
  assumes "\<bar>q\<bar> < 2 powi k" "- 1022 < k" "k \<le> 100"
  shows "double q = Fin (fl q)"
proof (rule double_bounded)
  have "(2 :: rat) powi (k - 54) \<le> 2 powi 100" using assms by (intro power_int_increasing) simp_all
  moreover have "(2 :: rat) powi k \<le> 2 powi 100" using assms by (intro power_int_increasing) simp_all
  ultimately have "\<bar>fl q\<bar> < 2 powi 100 + 2 powi 100" using fl_error_le [OF assms(1,2)] assms(1) by linarith
  also have "\<dots> = 2 ^ 101" by simp
  also have "(2 :: rat) ^ 101 < 2 ^ 1024" by (rule power_strict_increasing) simp_all
  finally show "\<bar>fl q\<bar> < 2 ^ 1024" .
qed

lemma signed_toFixed_nat_parses:
  assumes "e \<le> PRECISION_I"
  shows "moneyValueToBigInt (InString ((if n < 0 then ''-'' else '''') @ toFixed_nat (nat \<bar>n\<bar>) e)) rnd
    = Inr (n * 10 ^ (PRECISION_I - e))"
proof -
  have sg: "(if n < 0 then ''-'' else '''') @ s = signed (n < 0) s" for s by (simp add: signed_def)
  have sn: "sign_of (n < 0) * \<bar>n\<bar> = n" by (simp add: sign_of_def)
  show ?thesis
  proof (cases "e = 0")
    case True
    have "moneyValueToBigInt (InString (signed (n < 0) (show_nat (nat \<bar>n\<bar>)))) rnd = Inr (n * PRECISION_M)"
      by (subst parse_whole) (use sn in \<open>simp_all flip: mult.assoc\<close>)
    with True show ?thesis by (simp add: sg toFixed_nat_def PRECISION_M_def)
  next
    case False
    then obtain w g where s: "toFixed_nat (nat \<bar>n\<bar>) e = w @ CHR ''.'' # g"
      and d: "digits w" "w \<noteq> []" "digits g" "length g = e"
      and v: "parse_nat w * 10 ^ e + parse_nat g = nat \<bar>n\<bar>"
      using toFixed_nat_digits [of e "nat \<bar>n\<bar>"] by auto
    have "int (parse_nat w) * PRECISION_M + int (parse_nat g) * 10 ^ (PRECISION_I - e)
        = int (parse_nat w * 10 ^ e + parse_nat g) * 10 ^ (PRECISION_I - e)"
      unfolding pow10_split [OF assms, symmetric] by (simp add: algebra_simps)
    also have "\<dots> = \<bar>n\<bar> * 10 ^ (PRECISION_I - e)" by (simp only: v) simp
    finally show ?thesis
      using parse_decimal [of w g "n < 0" rnd] d assms sn
      by (simp add: s sg flip: mult.assoc)
  qed
qed

lemma floor_thousandths:
  assumes "\<bar>n\<bar> \<le> 2 ^ 53"
  shows "\<lfloor>fl (of_int n / 1000)\<rfloor> = n div 1000"
proof -
  define q :: rat where "q = of_int n / 1000"
  define k where "k = n div 1000"
  have n: "n = 1000 * k + n mod 1000" "0 \<le> n mod 1000" "n mod 1000 \<le> 999" by (simp_all add: k_def)
  have qk: "1000 * q = 1000 * of_int k + of_int (n mod 1000)"
    using arg_cong [OF n(1), of "of_int :: int \<Rightarrow> rat"] by (simp add: q_def)
  have "\<bar>of_int n :: rat\<bar> \<le> 2 ^ 53" using assms by (metis of_int_abs of_int_le_iff of_int_numeral of_int_power)
  then have "\<bar>q\<bar> < 2 powi 44" by (simp add: q_def abs_divide field_simps)
  from fl_error_le [OF this] have err: "\<bar>fl q - q\<bar> \<le> 1 / 1024" by (simp add: power_int_minus)
  have "\<lfloor>fl q\<rfloor> = k"
  proof (cases "n mod 1000 = 0")
    case True
    with qk have "q = of_int k" by simp
    moreover have "\<bar>k\<bar> \<le> 2 ^ 53" using assms n True by linarith
    ultimately show ?thesis by (simp add: fl_int)
  next
    case False
    then have "(1 :: rat) \<le> of_int (n mod 1000)" "of_int (n mod 1000) \<le> (999 :: rat)"
      using n(2,3) by (metis int_one_le_iff_zero_less less_le of_int_1_le_iff) (use n(3) of_int_le_iff [of _ 999, where ?'a = rat] in simp)
    with err qk show ?thesis by (intro floor_unique; linarith)
  qed
  then show ?thesis by (simp add: q_def k_def)
qed

lemma parseInt_digits:
  assumes "digits s" "s \<noteq> []" "int (parse_nat s) \<le> 2 ^ 53"
  shows "parseInt s = Fin (of_int (int (parse_nat s)))"
proof -
  obtain c r where s: "s = c # r" and c: "is_digit c" using assms by (cases s) auto
  have "\<not> is_space c" "c \<noteq> CHR ''-''" "c \<noteq> CHR ''+''"
    using c by (auto simp: is_space_def is_digit_def)
  then have "dropWhile is_space s = s" by (simp add: s)
  with \<open>c \<noteq> CHR ''-''\<close> \<open>c \<noteq> CHR ''+''\<close> show ?thesis
    using assms double_int [of "int (parse_nat s)"]
    by (simp add: parseInt_def s takeWhile_all_digits)
qed

section \<open>Properties\<close>

lemma or_one_half_down:
  assumes "0 < b" "0 < a"
  shows "1 \<le> or_one (half_down a b)"
    "nearest_down a b (or_one (half_down a b)) \<or> or_one (half_down a b) = 1 \<and> 2 * a \<le> b"
  using half_down_nonneg [of b a] half_down_bounds(1) [of b a] nearest_down_half_down [of b a "half_down a b"] assms
  by (auto simp: or_one_def)

text \<open>
  C33: with positive amounts of both currencies, the ratio converts a positive number of satoshis to
  exactly the quotient rounded down and rounded up, and to the nearest cent, the lower one of two
  equally near, but to one cent where the nearest is none; these are in order and at most one cent apart.
  A positive number of cents is likewise converted to the nearest satoshi, but at least one. The ratio
  converts its own two amounts into each other.
\<close>

theorem ratio_conversions:
  assumes "0 < u" "0 < b" "0 < x" "0 < y"
  shows "\<exists>r lo md hi sat. WalletPriceRatio (amount_of u Usd) (amount_of b Btc) = Inr r
    \<and> convertFromBtcToFloor r (amount_of x Btc) = Inr (amount_of lo Usd)
    \<and> convertFromBtc r (amount_of x Btc) = Inr (amount_of md Usd)
    \<and> convertFromBtcToCeil r (amount_of x Btc) = Inr (amount_of hi Usd)
    \<and> convertFromUsd r (amount_of y Usd) = Inr (amount_of sat Btc)
    \<and> lo * b \<le> x * u \<and> x * u < (lo + 1) * b
    \<and> (hi - 1) * b < x * u \<and> x * u \<le> hi * b
    \<and> (nearest_down (x * u) b md \<or> md = 1 \<and> 2 * (x * u) \<le> b)
    \<and> (nearest_down (y * b) u sat \<or> sat = 1 \<and> 2 * (y * b) \<le> u)
    \<and> lo \<le> md \<and> 1 \<le> md \<and> md \<le> hi \<and> hi \<le> lo + 1 \<and> 1 \<le> sat
    \<and> convertFromUsd r (amount_of u Usd) = Inr (amount_of b Btc)
    \<and> convertFromBtc r (amount_of b Btc) = Inr (amount_of u Usd)"
proof -
  define r where "r = \<lparr>pr_other = u, pr_walletAmount = amount_of b Btc\<rparr>"
  have wf: "wf_ratio r" and r: "pr_other r = u" "pr_walletAmount r = amount_of b Btc"
    using assms by (simp_all add: r_def wf_ratio_def)
  have ok: "WalletPriceRatio (amount_of u Usd) (amount_of b Btc) = Inr r"
    using assms by (simp add: WalletPriceRatio_def PriceRatio_def r_def)
  define lo hi md sat where "lo = x * u div b" and "hi = - (- (x * u) div b)"
    and "md = or_one (half_down (x * u) b)" and "sat = or_one (half_down (y * b) u)"
  have pos: "0 < x * u" "0 < y * b" using assms by simp_all
  have hi: "hi = lo + (if x * u mod b = 0 then 0 else 1)"
    unfolding hi_def lo_def using assms by (simp add: zdiv_zminus1_eq_if)
  have "x * u = lo * b + x * u mod b" "0 \<le> x * u mod b" "x * u mod b < b"
    using assms by (simp_all add: lo_def)
  moreover have "(lo + 1) * b = lo * b + b" "(hi - 1) * b = hi * b - b" "hi * b = lo * b + (if x * u mod b = 0 then 0 else b)"
    by (simp_all add: hi algebra_simps)
  ultimately have bounds: "lo * b \<le> x * u" "x * u < (lo + 1) * b" "(hi - 1) * b < x * u" "x * u \<le> hi * b"
    using assms(2) by (smt (verit))+
  have hi1: "1 \<le> hi"
    using bounds(4) pos(1) assms(2) by (smt (verit) mult_nonneg_nonpos2)
  note bt = half_down_between [OF assms(2), of "x * u"] half_down_nonneg [OF assms(2), of "x * u"]
  have md: "lo \<le> md" "md \<le> hi"
    using bt hi1 pos unfolding lo_def hi_def md_def by (auto simp: or_one_def)
  have self: "or_one (half_down (u * b) u) = b" "or_one (half_down (b * u) b) = u"
    using assms half_down_exact [of u b] half_down_exact [of b u] by (simp_all add: or_one_def mult.commute)
  have near: "1 \<le> md" "nearest_down (x * u) b md \<or> md = 1 \<and> 2 * (x * u) \<le> b"
    "1 \<le> sat" "nearest_down (y * b) u sat \<or> sat = 1 \<and> 2 * (y * b) \<le> u"
    unfolding md_def sat_def using or_one_half_down pos assms by blast+
  have conv: "convertFromBtcToFloor r (amount_of x Btc) = Inr (amount_of lo Usd)"
    "convertFromBtc r (amount_of x Btc) = Inr (amount_of md Usd)"
    "convertFromBtcToCeil r (amount_of x Btc) = Inr (amount_of hi Usd)"
    "convertFromUsd r (amount_of y Usd) = Inr (amount_of sat Btc)"
    "convertFromUsd r (amount_of u Usd) = Inr (amount_of b Btc)"
    "convertFromBtc r (amount_of b Btc) = Inr (amount_of u Usd)"
    using assms self by (simp_all add: convertFromBtcToFloor_def convertFromBtc_def convertFromBtcToCeil_def
        convertFromUsd_def convertFromWalletToFloor_eq [OF wf] convertFromWallet_eq [OF wf]
        convertFromWalletToCeil_eq [OF wf] convertFromOther_eq [OF wf] r lo_def hi_def md_def sat_def)
  have "hi \<le> lo + 1" using hi by simp
  with ok conv bounds near md show ?thesis by blast
qed

theorem ratio_conversions_witness:
  "\<exists>r lo md hi. WalletPriceRatio (amount_of 30 Usd) (amount_of 1000 Btc) = Inr r
    \<and> convertFromBtcToFloor r (amount_of 50 Btc) = Inr (amount_of lo Usd)
    \<and> convertFromBtc r (amount_of 50 Btc) = Inr (amount_of md Usd)
    \<and> convertFromBtcToCeil r (amount_of 50 Btc) = Inr (amount_of hi Usd)
    \<and> lo = 1 \<and> md = 1 \<and> hi = 2"
proof -
  obtain r lo md hi where "WalletPriceRatio (amount_of 30 Usd) (amount_of 1000 Btc) = Inr r"
    "convertFromBtcToFloor r (amount_of 50 Btc) = Inr (amount_of lo Usd)"
    "convertFromBtc r (amount_of 50 Btc) = Inr (amount_of md Usd)"
    "convertFromBtcToCeil r (amount_of 50 Btc) = Inr (amount_of hi Usd)"
    "lo * 1000 \<le> 50 * 30" "50 * 30 < (lo + 1) * 1000" "(hi - 1) * 1000 < 50 * 30" "50 * 30 \<le> hi * 1000"
    "nearest_down (50 * 30) 1000 md \<or> md = 1 \<and> 2 * (50 * 30) \<le> (1000 :: int)"
    using ratio_conversions [of 30 1000 50 1] by auto
  moreover from this have "lo = 1" "hi = 2" by simp_all
  moreover from calculation have "md = 1" by (auto simp: nearest_down_def)
  ultimately show ?thesis by blast
qed

text \<open>
  while a cent buys at least one satoshi, an amount of cents converted to satoshis and back
  is unchanged.
\<close>

theorem ratio_roundtrip:
  assumes "0 < u" "u \<le> b" "0 \<le> x" "WalletPriceRatio (amount_of u Usd) (amount_of b Btc) = Inr r"
  shows "\<exists>s. convertFromUsd r (amount_of x Usd) = Inr s \<and> convertFromBtc r s = Inr (amount_of x Usd)"
proof -
  have r: "r = \<lparr>pr_other = u, pr_walletAmount = amount_of b Btc\<rparr>"
    using assms by (auto simp: WalletPriceRatio_def PriceRatio_def split: if_splits)
  have wf: "wf_ratio r" and sel: "pr_other r = u" "pr_walletAmount r = amount_of b Btc"
    using assms by (simp_all add: r wf_ratio_def)
  show ?thesis
  proof (cases "x = 0")
    case True
    then show ?thesis
      by (simp add: convertFromUsd_def convertFromBtc_def convertFromOther_eq [OF wf] convertFromWallet_eq [OF wf])
  next
    case False
    with assms have "0 < half_down (x * b) u" by (intro half_down_pos) simp_all
    with False assms half_down_inverse [of u b x] show ?thesis
      by (simp add: convertFromUsd_def convertFromBtc_def convertFromOther_eq [OF wf]
          convertFromWallet_eq [OF wf] sel or_one_def)
  qed
qed

theorem ratio_roundtrip_witness:
  "\<exists>s. convertFromUsd \<lparr>pr_other = 30, pr_walletAmount = amount_of 1000 Btc\<rparr> (amount_of 7 Usd) = Inr s
    \<and> convertFromBtc \<lparr>pr_other = 30, pr_walletAmount = amount_of 1000 Btc\<rparr> s = Inr (amount_of 7 Usd)"
  using ratio_roundtrip [of 30 1000 7 "\<lparr>pr_other = 30, pr_walletAmount = amount_of 1000 Btc\<rparr>"]
  by (simp add: WalletPriceRatio_def PriceRatio_def)

text \<open>
  C34: for a sender paying from a BTC wallet, \<open>verifyMaxFee\<close> accepts a fee exactly up to half a
  percent of the amount (at least one satoshi); for a USD sender it accepts it exactly up to the
  largest of one cent in satoshis, half a percent of the cents (at least one cent) converted to
  satoshis and, for an invoice with an amount, the cap of the satoshi amount.
\<close>

theorem verify_max_fee_iff:
  assumes "wf_ratio r" "0 < s" "0 < c"
  shows "(verifyMaxFee (amount_of f Btc) (amount_of s Btc) (amount_of c Usd) r Btc noAmt = Inr ()
      \<longleftrightarrow> f \<le> max 1 (half_down s 200))
    \<and> (\<exists>cent cap. convertFromUsd r ONE_CENT = Inr cent
      \<and> convertFromUsd r (amount_of (max 1 (half_down c 200)) Usd) = Inr cap
      \<and> (verifyMaxFee (amount_of f Btc) (amount_of s Btc) (amount_of c Usd) r Usd noAmt = Inr ()
          \<longleftrightarrow> f \<le> pa_amount cent \<or> f \<le> pa_amount cap \<or> \<not> noAmt \<and> f \<le> max 1 (half_down s 200)))"
proof -
  obtain cent where cent: "convertFromUsd r ONE_CENT = Inr cent"
    using assms(1) by (simp add: convertFromUsd_def convertFromOther_eq ONE_CENT_def)
  obtain cap where cap: "convertFromUsd r (amount_of (max 1 (half_down c 200)) Usd) = Inr cap"
    using assms(1) by (simp add: convertFromUsd_def convertFromOther_eq)
  show ?thesis
    using assms cent cap
    by (simp add: verifyMaxFee_def maxProtocolAndBankFee_eq fee_cap_def) (auto simp: not_less)
qed

theorem verify_max_fee_iff_witness:
  "verifyMaxFee (amount_of 51 Btc) (amount_of 10000 Btc) (amount_of 300 Usd)
      \<lparr>pr_other = 300, pr_walletAmount = amount_of 10000 Btc\<rparr> Btc False \<noteq> Inr ()
   \<and> verifyMaxFee (amount_of 50 Btc) (amount_of 10000 Btc) (amount_of 300 Usd)
      \<lparr>pr_other = 300, pr_walletAmount = amount_of 10000 Btc\<rparr> Btc False = Inr ()"
  using verify_max_fee_iff [of "\<lparr>pr_other = 300, pr_walletAmount = amount_of 10000 Btc\<rparr>" 10000 300 51 False]
    verify_max_fee_iff [of "\<lparr>pr_other = 300, pr_walletAmount = amount_of 10000 Btc\<rparr>" 10000 300 50 False]
  by (simp add: wf_ratio_def half_down_def)

text \<open>
  C35: the text of a display amount is exact: for magnitudes below \<open>2\<^sup>5\<^sup>2\<close> minor units and at most
  four decimals, read as a decimal number it is the number of minor units divided by the power
  of ten, in spite of the division in double arithmetic.
\<close>

theorem display_amount_exact:
  assumes "\<bar>n\<bar> < 2 ^ 52" "majorExponent c \<le> 4"
  shows "\<exists>s. displayInMajor (toDisplayAmount majorExponent n c) = Some s
    \<and> moneyValueToBigInt (InString s) rnd = Inr (n * 10 ^ (PRECISION_I - majorExponent c))"
proof -
  let ?e = "majorExponent c" and ?q = "of_int n / 10 ^ majorExponent c :: rat"
  have N: "Number_bigint n = Fin (of_int n)" unfolding Number_bigint_def using assms(1) by (intro double_int) simp
  have "\<bar>of_int n :: rat\<bar> < 2 ^ 52" using assms(1) by (metis of_int_abs of_int_less_iff of_int_numeral of_int_power)
  moreover have "\<bar>?q\<bar> \<le> \<bar>of_int n\<bar>" by (simp add: abs_divide divide_le_eq mult_le_cancel_left1)
  ultimately have q: "\<bar>?q\<bar> < 2 powi 52" by simp
  have "\<bar>fl ?q - ?q\<bar> \<le> 1" using fl_error_le [OF q] by (simp add: power_int_minus)
  moreover have "(2 :: rat) powi 52 + 1 \<le> 10 ^ 21" by simp
  ultimately have "\<bar>fl ?q\<bar> < 10 ^ 21" using q by linarith
  moreover have "double ?q = Fin (fl ?q)" using q by (rule double_small) simp_all
  ultimately have "displayInMajor (toDisplayAmount majorExponent n c) = Some (num_toFixed (fl ?q) ?e)"
    by (simp add: toDisplayAmount_def N Let_def)
  then show ?thesis
    using num_toFixed_units [OF assms(1), of ?e] signed_toFixed_nat_parses [of ?e n rnd] assms(2)
    by (simp add: PRECISION_I_def)
qed

theorem display_amount_exact_witness:
  "\<exists>s. displayInMajor (toDisplayAmount (\<lambda>_. 2) (- 1999) ''USD'') = Some s
    \<and> moneyValueToBigInt (InString s) HALF_TO_EVEN = Inr (- 1999 * 10 ^ 18)"
  using display_amount_exact [of "- 1999" "\<lambda>_. 2" "''USD''" HALF_TO_EVEN] by (simp add: PRECISION_I_def)

text \<open>
  C36: a cached route whose total is a digit string of up to \<open>2\<^sup>5\<^sup>3\<close> millisatoshis is accepted for a
  payment exactly when the whole satoshis in it are the payment's amount; the division and the
  rounding in double arithmetic never change the answer.
\<close>

theorem route_validator_iff:
  assumes "digits s" "s \<noteq> []" "int (parse_nat s) \<le> 2 ^ 53" "\<bar>n\<bar> \<le> 2 ^ 53"
  shows "RouteValidator_validate \<lparr>safe_fee = fee, total_mtokens = Some s\<rparr> (amount_of n Btc) = Inr ()
    \<longleftrightarrow> n = int (parse_nat s) div 1000"
proof -
  let ?m = "int (parse_nat s)"
  have "\<bar>of_int ?m :: rat\<bar> \<le> 2 ^ 53" using assms(3) by (metis abs_of_nat of_int_abs of_int_le_iff of_int_numeral of_int_power)
  then have "\<bar>of_int ?m / 1000 :: rat\<bar> < 2 powi 54" by simp
  then have "double (of_int ?m / 1000) = Fin (fl (of_int ?m / 1000))" by (rule double_small) simp_all
  then have "Math_floor (num_div_pos (parseInt s) 1000) = Fin (of_int (?m div 1000))"
    using parseInt_digits [OF assms(1-3)] floor_thousandths [of ?m] assms(3) by simp
  moreover have "Number_bigint n = Fin (of_int n)" unfolding Number_bigint_def by (rule double_int [OF assms(4)])
  ultimately show ?thesis using assms(2) by (simp add: RouteValidator_validate_def)
qed

theorem route_validator_iff_witness:
  "RouteValidator_validate \<lparr>safe_fee = Fin 1, total_mtokens = Some ''25999''\<rparr> (amount_of 25 Btc) = Inr ()"
  using route_validator_iff [of "''25999''" 25 "Fin 1"]
  by (simp add: parse_nat_Cons digit_val_def is_digit_def digits_def)

end
