(* ===== verification/PaymentFlow.thy ===== *)
theory PaymentFlow
  imports PriceRatio
begin

text \<open>
  The payment flow objects of \<open>src/domain/payments/payment-flow.ts\<close>: the state shared by Lightning
  and on-chain payments, its accessors and the balance check.
\<close>

section \<open>Types\<close>

datatype settlement_method = SM_IntraLedger | SM_OnChain | SM_Lightning

datatype payment_initiation_method = PI_IntraLedger | PI_OnChain | PI_Lightning

record wallet_descriptor =
  wd_id :: string
  wd_currency :: wallet_currency
  wd_accountId :: string

text \<open>An optional string is used as a condition: undefined and the empty string are false.\<close>

definition truthy :: "string option \<Rightarrow> bool" where
  "truthy s = (case s of None \<Rightarrow> False | Some t \<Rightarrow> t \<noteq> '''')"

record payment_flow_common =
  btcPaymentAmount :: payment_amount
  btcProtocolAndBankFee :: payment_amount
  usdPaymentAmount :: payment_amount
  usdProtocolAndBankFee :: payment_amount
  senderWalletId :: string
  senderWalletCurrency :: wallet_currency
  senderAccountId :: string
  settlementMethod :: settlement_method
  paymentInitiationMethod :: payment_initiation_method
  createdAt :: int
  paymentSentAndPending :: bool
  inputAmount :: int
  recipientWalletId :: "string option"
  recipientWalletCurrency :: "wallet_currency option"
  recipientAccountId :: "string option"
  recipientPubkey :: "string option"
  recipientUsername :: "string option"
  recipientUserId :: "string option"
  outgoingNodePubkey :: "string option"
  cachedRoute :: "raw_route option"

record payment_flow = payment_flow_common +
  paymentHash :: "string option"
  intraLedgerHash :: "string option"
  descriptionFromInvoice :: string
  skipProbeForDestination :: bool

record onchain_payment_flow = payment_flow_common +
  address :: "string option"
  btcBankFee :: payment_amount
  usdBankFee :: payment_amount
  btcMinerFee :: "payment_amount option"

section \<open>PaymentFlowCommon\<close>

definition protocolAndBankFeeInSenderWalletCurrency :: "'a payment_flow_common_scheme \<Rightarrow> payment_amount" where
  "protocolAndBankFeeInSenderWalletCurrency state =
     (if senderWalletCurrency state = Btc then btcProtocolAndBankFee state else usdProtocolAndBankFee state)"

definition paymentAmounts :: "'a payment_flow_common_scheme \<Rightarrow> payment_amount \<times> payment_amount" where
  "paymentAmounts state = (btcPaymentAmount state, usdPaymentAmount state)"

definition totalAmountsForPayment :: "'a payment_flow_common_scheme \<Rightarrow> payment_amount \<times> payment_amount" where
  "totalAmountsForPayment state =
     (calc_add (btcPaymentAmount state) (btcProtocolAndBankFee state),
      calc_add (usdPaymentAmount state) (usdProtocolAndBankFee state))"

definition routeDetails :: "'a payment_flow_common_scheme \<Rightarrow> raw_route option \<times> string option" where
  "routeDetails state =
     (let rawRoute = (case cachedRoute state of
            None \<Rightarrow> None
          | Some rt \<Rightarrow> (case RouteValidator_validate rt (btcPaymentAmount state) of
              Inl _ \<Rightarrow> None | Inr _ \<Rightarrow> Some rt))
      in (rawRoute, if rawRoute = None then None else outgoingNodePubkey state))"

definition recipientWalletDescriptor :: "'a payment_flow_common_scheme \<Rightarrow> wallet_descriptor option" where
  "recipientWalletDescriptor state =
     (case (recipientWalletId state, recipientWalletCurrency state, recipientAccountId state) of
        (Some i, Some c, Some a) \<Rightarrow>
          (if i \<noteq> '''' \<and> a \<noteq> '''' then Some \<lparr>wd_id = i, wd_currency = c, wd_accountId = a\<rparr> else None)
      | _ \<Rightarrow> None)"

definition recipientDetails ::
    "'a payment_flow_common_scheme \<Rightarrow> wallet_descriptor option \<times> string option \<times> string option \<times> string option" where
  "recipientDetails state =
     (recipientWalletDescriptor state, recipientPubkey state, recipientUsername state, recipientUserId state)"

definition senderWalletDescriptor :: "'a payment_flow_common_scheme \<Rightarrow> wallet_descriptor" where
  "senderWalletDescriptor state =
     \<lparr>wd_id = senderWalletId state, wd_currency = senderWalletCurrency state, wd_accountId = senderAccountId state\<rparr>"

definition checkBalanceForSend :: "'a payment_flow_common_scheme \<Rightarrow> payment_amount \<Rightarrow> unit result" where
  "checkBalanceForSend state balanceAmount =
     (if senderWalletCurrency state \<noteq> pa_currency balanceAmount then Inl InvalidCurrencyForWalletError
      else
        let (amt, fee) = (if pa_currency balanceAmount = Btc
                          then (btcPaymentAmount state, btcProtocolAndBankFee state)
                          else (usdPaymentAmount state, usdProtocolAndBankFee state));
            totalSendAmount = calc_add amt fee
        in if pa_amount balanceAmount < pa_amount totalSendAmount then Inl InsufficientBalanceError
           else Inr ())"

section \<open>PaymentFlow and OnChainPaymentFlow\<close>

definition paymentHashForFlow :: "payment_flow \<Rightarrow> string result" where
  "paymentHashForFlow state =
     (if truthy (paymentHash state) = truthy (intraLedgerHash state)
      then Inl InvalidLightningPaymentFlowBuilderStateError
      else if \<not> truthy (paymentHash state) then Inl IntraLedgerHashPresentInLnFlowError
      else Inr (the (paymentHash state)))"

definition intraLedgerHashForFlow :: "payment_flow \<Rightarrow> string result" where
  "intraLedgerHashForFlow state =
     (if truthy (paymentHash state) = truthy (intraLedgerHash state)
      then Inl InvalidLightningPaymentFlowBuilderStateError
      else if \<not> truthy (intraLedgerHash state) then Inl LnHashPresentInIntraLedgerFlowError
      else Inr (the (intraLedgerHash state)))"

definition addressForFlow :: "onchain_payment_flow \<Rightarrow> string result" where
  "addressForFlow state =
     (case address state of None \<Rightarrow> Inl InvalidOnChainPaymentFlowBuilderStateError | Some a \<Rightarrow> Inr a)"

definition bankFees :: "onchain_payment_flow \<Rightarrow> payment_amount \<times> payment_amount" where
  "bankFees state = (btcBankFee state, usdBankFee state)"

end
