(* ===== verification/PaymentFlowBuilder.thy ===== *)
theory PaymentFlowBuilder
  imports PaymentFlow
begin

text \<open>
  The Lightning payment flow builder of \<open>src/domain/payments/payment-flow-builder.ts\<close>. A builder
  object is the state its closures capture, a builder in error (\<open>LPFBWithError\<close>), whose every method
  hands the error on, is \<open>Inl\<close>, and a chain of builder calls is a chain of \<open>bindE\<close>. The dealer's
  price functions, the clock and the random hash of an intra-ledger payment are arguments.
\<close>

section \<open>Types\<close>

record hop =
  nodePubkey :: string
  channel :: "string option"

record ln_invoice =
  inv_destination :: string
  inv_paymentHash :: string
  inv_description :: string
  inv_paymentAmount :: "payment_amount option"
  routeHints :: "hop list list"

record lpfb_config =
  localNodeIds :: "string list"
  skipProbe_pubkey :: "string list"
  skipProbe_chanId :: "string list"

record lpfb_invoice_state = lpfb_config +
  lp_settlementMethod :: settlement_method
  lp_paymentInitiationMethod :: payment_initiation_method
  lp_paymentHash :: "string option"
  lp_intraLedgerHash :: "string option"
  lp_descriptionFromInvoice :: string
  lp_btcPaymentAmount :: "payment_amount option"
  lp_inputAmount :: "int option"
  lp_uncheckedAmount :: "js_number option"
  lp_btcProtocolAndBankFee :: "payment_amount option"
  lp_usdProtocolAndBankFee :: "payment_amount option"
  lp_skipProbeForDestination :: bool

record lpfb_sender_state = lpfb_invoice_state +
  lp_senderWalletId :: string
  lp_senderWalletCurrency :: wallet_currency
  lp_senderAccountId :: string
  lp_usdPaymentAmount :: "payment_amount option"

record lpfb_recipient_state = lpfb_sender_state +
  lp_recipientWalletId :: "string option"
  lp_recipientWalletCurrency :: "wallet_currency option"
  lp_recipientPubkey :: "string option"
  lp_recipientUsername :: "string option"
  lp_recipientUserId :: "string option"
  lp_recipientAccountId :: "string option"
  lp_recipientWalletDescriptorsForAccount :: "wallet_descriptor list option"

text \<open>After the conversion all four amounts are present and the creation time is known.\<close>

record lpfb_conversion_state =
  cv_state :: lpfb_recipient_state
  cv_createdAt :: int
  cv_btcPaymentAmount :: payment_amount
  cv_btcProtocolAndBankFee :: payment_amount
  cv_usdPaymentAmount :: payment_amount
  cv_usdProtocolAndBankFee :: payment_amount

record recipient_args =
  ra_recipientWalletDescriptor :: wallet_descriptor
  ra_recipientWalletDescriptorsForAccount :: "wallet_descriptor list"
  ra_userId :: string
  ra_pubkey :: "string option"
  ra_usdPaymentAmount :: "payment_amount option"
  ra_username :: "string option"

record conversion_fns =
  usdFromBtc :: "payment_amount \<Rightarrow> payment_amount result"
  btcFromUsd :: "payment_amount \<Rightarrow> payment_amount result"

record conversion_args =
  hedgeBuyUsd :: conversion_fns
  hedgeSellUsd :: conversion_fns
  mid :: conversion_fns

section \<open>LightningPaymentFlowBuilder\<close>

definition settlementMethodFromDestination ::
    "'a lpfb_config_scheme \<Rightarrow> string option \<Rightarrow> settlement_method \<times> payment_amount option \<times> payment_amount option" where
  "settlementMethodFromDestination config destination =
     (let m = (case destination of
            None \<Rightarrow> SM_IntraLedger
          | Some d \<Rightarrow> if d \<in> set (localNodeIds config) then SM_IntraLedger else SM_Lightning)
      in (m, if m = SM_IntraLedger then Some (fst intraLedgerFees) else None,
             if m = SM_IntraLedger then Some (snd intraLedgerFees) else None))"

text \<open>A route hint without hops makes \<open>route[-1]\<close> undefined, and reading a field of it throws.\<close>

definition parseFinalHopsFromInvoice :: "ln_invoice \<Rightarrow> string list result" where
  "parseFinalHopsFromInvoice invoice =
     (if [] \<in> set (routeHints invoice) then Inl (Thrown TypeError)
      else Inr (remdups (map (\<lambda>route.
             let lastIdx = length route - 1;
                 penUltIndex = (if length route > 1 then lastIdx - 1 else lastIdx)
             in nodePubkey (route ! penUltIndex)) (routeHints invoice))))"

definition parseFinalChanIdFromInvoice :: "ln_invoice \<Rightarrow> string list result" where
  "parseFinalChanIdFromInvoice invoice =
     (if [] \<in> set (routeHints invoice) then Inl (Thrown TypeError)
      else Inr (remdups (List.map_filter (\<lambda>route. channel (last route)) (routeHints invoice))))"

definition skipProbeFromInvoice :: "'a lpfb_config_scheme \<Rightarrow> ln_invoice \<Rightarrow> bool result" where
  "skipProbeFromInvoice config invoice =
     bindE (parseFinalHopsFromInvoice invoice) (\<lambda>pubkeys.
     bindE (parseFinalChanIdFromInvoice invoice) (\<lambda>chanIds.
     Inr ((\<exists>k \<in> set pubkeys. k \<in> set (skipProbe_pubkey config)) \<or>
          (\<exists>c \<in> set chanIds. c \<in> set (skipProbe_chanId config)))))"

definition LPFBWithInvoice ::
    "lpfb_config \<Rightarrow> settlement_method \<times> payment_amount option \<times> payment_amount option \<Rightarrow>
     payment_initiation_method \<Rightarrow> string option \<Rightarrow> string option \<Rightarrow> string \<Rightarrow> payment_amount option \<Rightarrow>
     int option \<Rightarrow> js_number option \<Rightarrow> bool \<Rightarrow> lpfb_invoice_state" where
  "LPFBWithInvoice config settlement initiation hash intraHash description btcAmount input unchecked skip =
     (case settlement of (m, btcFee, usdFee) \<Rightarrow>
        lpfb_config.extend config
          (lpfb_invoice_state.fields m initiation hash intraHash description btcAmount input unchecked
             btcFee usdFee skip))"

definition withInvoice :: "lpfb_config \<Rightarrow> ln_invoice \<Rightarrow> lpfb_invoice_state result" where
  "withInvoice config invoice =
     (case inv_paymentAmount invoice of
        None \<Rightarrow> Inl InvalidLightningPaymentFlowBuilderStateError
      | Some paymentAmount \<Rightarrow>
          bindE (skipProbeFromInvoice config invoice) (\<lambda>skip.
          Inr (LPFBWithInvoice config (settlementMethodFromDestination config (Some (inv_destination invoice)))
                 PI_Lightning (Some (inv_paymentHash invoice)) None (inv_description invoice)
                 (Some paymentAmount) (Some (pa_amount paymentAmount)) None skip)))"

definition withNoAmountInvoice :: "lpfb_config \<Rightarrow> ln_invoice \<Rightarrow> js_number \<Rightarrow> lpfb_invoice_state result" where
  "withNoAmountInvoice config invoice uncheckedAmount =
     bindE (skipProbeFromInvoice config invoice) (\<lambda>skip.
     Inr (LPFBWithInvoice config (settlementMethodFromDestination config (Some (inv_destination invoice)))
            PI_Lightning (Some (inv_paymentHash invoice)) None (inv_description invoice)
            None None (Some uncheckedAmount) skip))"

definition withoutInvoice :: "lpfb_config \<Rightarrow> string \<Rightarrow> js_number \<Rightarrow> string \<Rightarrow> lpfb_invoice_state result" where
  "withoutInvoice config generatedHash uncheckedAmount description =
     Inr (LPFBWithInvoice config (settlementMethodFromDestination config None)
            PI_IntraLedger None (Some generatedHash) description None None (Some uncheckedAmount) False)"

section \<open>LPFBWithInvoice\<close>

definition LPFBWithSenderWallet ::
    "lpfb_invoice_state \<Rightarrow> wallet_descriptor \<Rightarrow> payment_amount option \<Rightarrow> lpfb_sender_state" where
  "LPFBWithSenderWallet state senderWallet usdAmount =
     lpfb_invoice_state.extend state
       (lpfb_sender_state.fields (wd_id senderWallet) (wd_currency senderWallet) (wd_accountId senderWallet) usdAmount)"

definition or_maxFee :: "payment_amount option \<Rightarrow> payment_amount \<Rightarrow> payment_amount result" where
  "or_maxFee fee paymentAmount = (case fee of Some f \<Rightarrow> Inr f | None \<Rightarrow> maxProtocolAndBankFee paymentAmount)"

definition withSenderWallet :: "lpfb_invoice_state \<Rightarrow> wallet_descriptor \<Rightarrow> lpfb_sender_state result" where
  "withSenderWallet state senderWallet =
     (case lp_uncheckedAmount state of
        Some unchecked \<Rightarrow>
          (if wd_currency senderWallet = Btc then
             bindE (checkedToBtcPaymentAmount (Some unchecked)) (\<lambda>paymentAmount.
             bindE (or_maxFee (lp_btcProtocolAndBankFee state) paymentAmount) (\<lambda>fee.
             Inr (LPFBWithSenderWallet
                    (state\<lparr>lp_btcPaymentAmount := Some paymentAmount,
                           lp_inputAmount := Some (pa_amount paymentAmount),
                           lp_btcProtocolAndBankFee := Some fee\<rparr>) senderWallet None)))
           else
             bindE (checkedToUsdPaymentAmount (Some unchecked) Usd) (\<lambda>paymentAmount.
             bindE (or_maxFee (lp_usdProtocolAndBankFee state) paymentAmount) (\<lambda>fee.
             Inr (LPFBWithSenderWallet
                    (state\<lparr>lp_inputAmount := Some (pa_amount paymentAmount),
                           lp_usdProtocolAndBankFee := Some fee\<rparr>) senderWallet (Some paymentAmount)))))
      | None \<Rightarrow>
          (case (lp_inputAmount state, lp_btcPaymentAmount state) of
             (Some input, Some btcAmount) \<Rightarrow>
               (if input \<noteq> 0 then
                  bindE (or_maxFee (lp_btcProtocolAndBankFee state) btcAmount) (\<lambda>fee.
                  Inr (LPFBWithSenderWallet (state\<lparr>lp_btcProtocolAndBankFee := Some fee\<rparr>) senderWallet None))
                else Inl (Thrown PlainError))
           | _ \<Rightarrow> Inl (Thrown PlainError)))"

section \<open>LPFBWithSenderWallet\<close>

definition withoutRecipientWallet :: "lpfb_sender_state \<Rightarrow> lpfb_recipient_state result" where
  "withoutRecipientWallet state =
     (if lp_settlementMethod state = SM_IntraLedger then Inl InvalidLightningPaymentFlowBuilderStateError
      else Inr (lpfb_sender_state.extend state (lpfb_recipient_state.fields None None None None None None None)))"

text \<open>\<open>!!state.uncheckedAmount\<close>: a number is true unless it is zero or NaN.\<close>

definition truthy_num :: "js_number option \<Rightarrow> bool" where
  "truthy_num x = (case x of None \<Rightarrow> False | Some n \<Rightarrow> n \<noteq> NaN \<and> n \<noteq> Fin 0)"

definition withRecipientWallet :: "lpfb_sender_state \<Rightarrow> recipient_args \<Rightarrow> lpfb_recipient_state result" where
  "withRecipientWallet state args =
     (let d = ra_recipientWalletDescriptor args
      in if wd_id d = lp_senderWalletId state then Inl SelfPaymentError
         else if wd_currency d = Usd \<and> (ra_usdPaymentAmount args \<noteq> None) = truthy_num (lp_uncheckedAmount state)
         then Inl InvalidLightningPaymentFlowBuilderStateError
         else
           let usd = (case ra_usdPaymentAmount args of Some a \<Rightarrow> Some a | None \<Rightarrow> lp_usdPaymentAmount state)
           in Inr (lpfb_sender_state.extend (state\<lparr>lp_usdPaymentAmount := usd\<rparr>)
                (lpfb_recipient_state.fields (Some (wd_id d)) (Some (wd_currency d)) (ra_pubkey args)
                   (ra_username args) (Some (ra_userId args)) (Some (wd_accountId d))
                   (Some (ra_recipientWalletDescriptorsForAccount args)))))"

definition sender_isIntraLedger :: "lpfb_sender_state \<Rightarrow> bool" where
  "sender_isIntraLedger state \<longleftrightarrow> lp_settlementMethod state = SM_IntraLedger"

section \<open>LPFBWithRecipientWallet\<close>

definition noConversionRequired :: "lpfb_recipient_state \<Rightarrow> bool" where
  "noConversionRequired state \<longleftrightarrow>
     (lp_senderWalletCurrency state = Btc \<and> lp_settlementMethod state = SM_Lightning) \<or>
     Some (lp_senderWalletCurrency state) = lp_recipientWalletCurrency state"

definition convertedState ::
    "lpfb_recipient_state \<Rightarrow> int \<Rightarrow> payment_amount \<Rightarrow> payment_amount \<Rightarrow> payment_amount \<Rightarrow> payment_amount \<Rightarrow>
     lpfb_conversion_state" where
  "convertedState state now btcAmount btcFee usdAmount usdFee =
     \<lparr>cv_state = state, cv_createdAt = now, cv_btcPaymentAmount = btcAmount, cv_btcProtocolAndBankFee = btcFee,
      cv_usdPaymentAmount = usdAmount, cv_usdProtocolAndBankFee = usdFee\<rparr>"

definition updatedStateFromBtcPaymentAmountMid ::
    "conversion_args \<Rightarrow> lpfb_recipient_state \<Rightarrow> int \<Rightarrow> payment_amount \<Rightarrow> payment_amount \<Rightarrow>
     wallet_descriptor option \<Rightarrow> lpfb_conversion_state result" where
  "updatedStateFromBtcPaymentAmountMid conv state now btcAmount btcFee recipient =
     bindE (usdFromBtc (mid conv) btcAmount) (\<lambda>convertedAmount.
     bindE (WalletPriceRatio convertedAmount btcAmount) (\<lambda>priceRatio.
     bindE (convertFromBtcToCeil priceRatio btcFee) (\<lambda>usdFee.
     let state' = (case recipient of
            None \<Rightarrow> state
          | Some d \<Rightarrow> state\<lparr>lp_recipientWalletId := Some (wd_id d), lp_recipientWalletCurrency := Some (wd_currency d)\<rparr>)
     in Inr (convertedState state' now btcAmount btcFee convertedAmount usdFee))))"

definition updatedStateFromBtcPaymentAmountDealer ::
    "conversion_args \<Rightarrow> lpfb_recipient_state \<Rightarrow> int \<Rightarrow> payment_amount \<Rightarrow> payment_amount \<Rightarrow>
     lpfb_conversion_state result" where
  "updatedStateFromBtcPaymentAmountDealer conv state now btcAmount btcFee =
     bindE (usdFromBtc (if lp_senderWalletCurrency state = Btc then hedgeBuyUsd conv else hedgeSellUsd conv) btcAmount)
       (\<lambda>convertedAmount.
     bindE (WalletPriceRatio convertedAmount btcAmount) (\<lambda>priceRatio.
     bindE (convertFromBtcToCeil priceRatio btcFee) (\<lambda>usdFee.
     Inr (convertedState state now btcAmount btcFee convertedAmount usdFee))))"

definition updatedStateFromUsdPaymentAmountMid ::
    "conversion_args \<Rightarrow> lpfb_recipient_state \<Rightarrow> int \<Rightarrow> payment_amount \<Rightarrow> payment_amount \<Rightarrow>
     lpfb_conversion_state result" where
  "updatedStateFromUsdPaymentAmountMid conv state now usdAmount usdFee =
     bindE (btcFromUsd (mid conv) usdAmount) (\<lambda>convertedAmount.
     bindE (WalletPriceRatio usdAmount convertedAmount) (\<lambda>priceRatio.
     bindE (convertFromUsd priceRatio usdFee) (\<lambda>btcFee.
     Inr (convertedState state now convertedAmount btcFee usdAmount usdFee))))"

definition updatedStateFromUsdPaymentAmountDealer ::
    "conversion_args \<Rightarrow> lpfb_recipient_state \<Rightarrow> int \<Rightarrow> payment_amount \<Rightarrow> payment_amount \<Rightarrow>
     lpfb_conversion_state result" where
  "updatedStateFromUsdPaymentAmountDealer conv state now usdAmount usdFee =
     bindE (btcFromUsd (if lp_senderWalletCurrency state = Btc then hedgeBuyUsd conv else hedgeSellUsd conv) usdAmount)
       (\<lambda>convertedAmount.
     bindE (WalletPriceRatio usdAmount convertedAmount) (\<lambda>priceRatio.
     bindE (convertFromUsd priceRatio usdFee) (\<lambda>btcFee.
     Inr (convertedState state now convertedAmount btcFee usdAmount usdFee))))"

definition dealerFallbackMid ::
    "conversion_args \<Rightarrow> lpfb_recipient_state \<Rightarrow> int \<Rightarrow> payment_amount \<Rightarrow> payment_amount \<Rightarrow>
     lpfb_conversion_state result" where
  "dealerFallbackMid conv state now btcAmount btcFee =
     (let updatedState = updatedStateFromBtcPaymentAmountDealer conv state now btcAmount btcFee
      in if updatedState \<noteq> Inl InvalidZeroAmountPriceRatioInputError then updatedState
         else
           case List.find (\<lambda>w. wd_currency w = Btc)
                  (case lp_recipientWalletDescriptorsForAccount state of None \<Rightarrow> [] | Some ws \<Rightarrow> ws) of
             None \<Rightarrow> Inl CouldNotFindWalletFromAccountIdAndCurrencyError
           | Some d \<Rightarrow>
               (if wd_id d = lp_senderWalletId state then Inl SubOneCentSatAmountForUsdSelfSendError
                else updatedStateFromBtcPaymentAmountMid conv state now btcAmount btcFee (Some d)))"

definition withConversion ::
    "conversion_args \<Rightarrow> int \<Rightarrow> lpfb_recipient_state \<Rightarrow> lpfb_conversion_state result" where
  "withConversion conv now state =
     (case (lp_btcPaymentAmount state, lp_btcProtocolAndBankFee state,
            lp_usdPaymentAmount state, lp_usdProtocolAndBankFee state) of
        (Some btcAmount, Some btcFee, Some usdAmount, Some usdFee) \<Rightarrow>
          (if noConversionRequired state \<or> lp_recipientWalletCurrency state = Some Usd
           then Inr (convertedState state now btcAmount btcFee usdAmount usdFee)
           else dealerFallbackMid conv state now btcAmount btcFee)
      | (Some btcAmount, Some btcFee, _, _) \<Rightarrow>
          (if noConversionRequired state
           then updatedStateFromBtcPaymentAmountMid conv state now btcAmount btcFee None
           else dealerFallbackMid conv state now btcAmount btcFee)
      | (_, _, Some usdAmount, Some usdFee) \<Rightarrow>
          (if noConversionRequired state
           then updatedStateFromUsdPaymentAmountMid conv state now usdAmount usdFee
           else updatedStateFromUsdPaymentAmountDealer conv state now usdAmount usdFee)
      | _ \<Rightarrow> Inl InvalidLightningPaymentFlowBuilderStateError)"

section \<open>LPFBWithConversion\<close>

definition paymentFromState ::
    "lpfb_conversion_state \<Rightarrow> string option \<Rightarrow> raw_route option \<Rightarrow> payment_flow result" where
  "paymentFromState cv outgoingPubkey checkedRoute =
     (let s = cv_state cv
      in bindE (if truthy (lp_paymentHash s) then Inr (lp_paymentHash s, None)
                else if truthy (lp_intraLedgerHash s) then Inr (None, lp_intraLedgerHash s)
                else Inl InvalidLightningPaymentFlowStateError) (\<lambda>(ph, ih).
         Inr \<lparr>btcPaymentAmount = cv_btcPaymentAmount cv, btcProtocolAndBankFee = cv_btcProtocolAndBankFee cv,
              usdPaymentAmount = cv_usdPaymentAmount cv, usdProtocolAndBankFee = cv_usdProtocolAndBankFee cv,
              senderWalletId = lp_senderWalletId s, senderWalletCurrency = lp_senderWalletCurrency s,
              senderAccountId = lp_senderAccountId s, settlementMethod = lp_settlementMethod s,
              paymentInitiationMethod = lp_paymentInitiationMethod s, createdAt = cv_createdAt cv,
              paymentSentAndPending = False,
              inputAmount = (case lp_inputAmount s of Some n \<Rightarrow> n | None \<Rightarrow> 0),
              recipientWalletId = lp_recipientWalletId s, recipientWalletCurrency = lp_recipientWalletCurrency s,
              recipientAccountId = lp_recipientAccountId s, recipientPubkey = lp_recipientPubkey s,
              recipientUsername = lp_recipientUsername s, recipientUserId = lp_recipientUserId s,
              outgoingNodePubkey = outgoingPubkey, cachedRoute = checkedRoute,
              paymentHash = ph, intraLedgerHash = ih,
              descriptionFromInvoice = lp_descriptionFromInvoice s,
              skipProbeForDestination = lp_skipProbeForDestination s\<rparr>))"

definition withoutRoute :: "lpfb_conversion_state \<Rightarrow> payment_flow result" where
  "withoutRoute cv = paymentFromState cv None None"

definition withRoute :: "lpfb_conversion_state \<Rightarrow> string \<Rightarrow> raw_route \<Rightarrow> payment_flow result" where
  "withRoute cv pubkey rawRoute =
     bindE (WalletPriceRatio (cv_usdPaymentAmount cv) (cv_btcPaymentAmount cv)) (\<lambda>priceRatio.
     bindE (feeFromRawRoute rawRoute) (\<lambda>btcFee.
     bindE (convertFromBtcToCeil priceRatio btcFee) (\<lambda>usdFee.
     paymentFromState (cv\<lparr>cv_btcProtocolAndBankFee := btcFee, cv_usdProtocolAndBankFee := usdFee\<rparr>)
       (Some pubkey) (Some rawRoute))))"

definition conversion_isIntraLedger :: "lpfb_conversion_state \<Rightarrow> bool" where
  "conversion_isIntraLedger cv \<longleftrightarrow> lp_settlementMethod (cv_state cv) = SM_IntraLedger"

definition isTradeIntraAccount :: "lpfb_conversion_state \<Rightarrow> bool" where
  "isTradeIntraAccount cv \<longleftrightarrow>
     (let s = cv_state cv
      in Some (lp_senderAccountId s) = lp_recipientAccountId s \<and>
         Some (lp_senderWalletCurrency s) \<noteq> lp_recipientWalletCurrency s)"

section \<open>app/payments/helpers.ts\<close>

record wallet_invoice =
  wi_paymentHash :: string
  wi_paid :: bool
  wi_recipientWalletId :: string
  wi_recipientWalletCurrency :: wallet_currency
  wi_pubkey :: string
  wi_usdAmount :: "payment_amount option"

record payments_repos =
  findInvoiceByPaymentHash :: "string \<Rightarrow> wallet_invoice result"
  findWalletById :: "string \<Rightarrow> wallet_descriptor result"
  listWalletsByAccountId :: "string \<Rightarrow> wallet_descriptor list result"
  findAccountById :: "string \<Rightarrow> (string \<times> string option \<times> string) result"

text \<open>An account is read for its id, its username and its Kratos user id.\<close>

definition recipientDetailsFromInvoice :: "payments_repos \<Rightarrow> ln_invoice \<Rightarrow> recipient_args result" where
  "recipientDetailsFromInvoice repos invoice =
     bindE (findInvoiceByPaymentHash repos (inv_paymentHash invoice)) (\<lambda>walletInvoice.
     if wi_paid walletInvoice then Inl AlreadyPaidError
     else
       bindE (findWalletById repos (wi_recipientWalletId walletInvoice)) (\<lambda>recipientWallet.
       bindE (listWalletsByAccountId repos (wd_accountId recipientWallet)) (\<lambda>wallets.
       bindE (findAccountById repos (wd_accountId recipientWallet)) (\<lambda>(accountId, username, userId).
       Inr \<lparr>ra_recipientWalletDescriptor =
              \<lparr>wd_id = wi_recipientWalletId walletInvoice, wd_currency = wi_recipientWalletCurrency walletInvoice,
               wd_accountId = accountId\<rparr>,
            ra_recipientWalletDescriptorsForAccount = wallets, ra_userId = userId,
            ra_pubkey = Some (wi_pubkey walletInvoice), ra_usdPaymentAmount = wi_usdAmount walletInvoice,
            ra_username = username\<rparr>))))"

text \<open>
  A builder in error answers \<open>isIntraLedger()\<close> with a promise, which is true as a condition: the
  recipient is looked up first, and an error of the lookup is returned instead of the builder's.
\<close>

definition constructPaymentFlowBuilder ::
    "payments_repos \<Rightarrow> lpfb_config \<Rightarrow> conversion_args \<Rightarrow> int \<Rightarrow> wallet_descriptor \<Rightarrow> ln_invoice \<Rightarrow>
     js_number option \<Rightarrow> lpfb_conversion_state result" where
  "constructPaymentFlowBuilder repos config conv now senderWallet invoice uncheckedAmount =
     (let builderWithInvoice =
            (if truthy_num uncheckedAmount then withNoAmountInvoice config invoice (the uncheckedAmount)
             else withInvoice config invoice)
      in case bindE builderWithInvoice (\<lambda>s. withSenderWallet s senderWallet) of
           Inl e \<Rightarrow>
             (case e of
                Thrown x \<Rightarrow> Inl (Thrown x)
              | _ \<Rightarrow> bindE (recipientDetailsFromInvoice repos invoice) (\<lambda>_. Inl e))
         | Inr s \<Rightarrow>
             bindE (if sender_isIntraLedger s
                    then bindE (recipientDetailsFromInvoice repos invoice) (withRecipientWallet s)
                    else withoutRecipientWallet s) (withConversion conv now))"

definition MIN_SATS_FOR_PRICE_RATIO_PRECISION :: int where "MIN_SATS_FOR_PRICE_RATIO_PRECISION = 5000"

definition getPriceRatioForLimits ::
    "(payment_amount \<Rightarrow> payment_amount result) \<Rightarrow> payment_amount \<times> payment_amount \<Rightarrow> price_ratio result" where
  "getPriceRatioForLimits usdFromBtcMid = (\<lambda>(btc, usd).
     if pa_amount btc < MIN_SATS_FOR_PRICE_RATIO_PRECISION then
       bindE (usdFromBtcMid (amount_of MIN_SATS_FOR_PRICE_RATIO_PRECISION Btc)) (\<lambda>usdForRatio.
       WalletPriceRatio usdForRatio (amount_of MIN_SATS_FOR_PRICE_RATIO_PRECISION Btc))
     else WalletPriceRatio usd btc)"

section \<open>Invariants of the builder\<close>

text \<open>An intra-ledger payment carries the zero fees from the first step on.\<close>

definition fees_match :: "'a lpfb_invoice_state_scheme \<Rightarrow> bool" where
  "fees_match s \<longleftrightarrow> (lp_settlementMethod s = SM_IntraLedger \<longrightarrow>
     lp_btcProtocolAndBankFee s = Some ZERO_SATS \<and> lp_usdProtocolAndBankFee s = Some ZERO_CENTS)"

definition one_hash :: "'a lpfb_invoice_state_scheme \<Rightarrow> bool" where
  "one_hash s \<longleftrightarrow> (lp_paymentHash s = None) \<noteq> (lp_intraLedgerHash s = None)"

text \<open>
  The amount the payment was entered with, in satoshis for an invoice with an amount and for a
  BTC sender, in cents otherwise.
\<close>

definition in_sats :: "'a lpfb_sender_state_scheme \<Rightarrow> bool" where
  "in_sats s \<longleftrightarrow> lp_uncheckedAmount s = None \<or> lp_senderWalletCurrency s = Btc"

definition entered :: "'a lpfb_sender_state_scheme \<Rightarrow> int \<Rightarrow> bool" where
  "entered s n \<longleftrightarrow> lp_inputAmount s = Some n \<and> n \<noteq> 0 \<and>
     (if in_sats s
      then lp_btcProtocolAndBankFee s \<noteq> None \<and> (\<exists>a. lp_btcPaymentAmount s = Some a \<and> pa_amount a = n)
      else lp_usdProtocolAndBankFee s \<noteq> None \<and> lp_btcPaymentAmount s = None \<and>
           lp_usdPaymentAmount s = Some (amount_of n Usd))"

lemmas lpfb_defs = lpfb_config.defs lpfb_invoice_state.defs lpfb_sender_state.defs lpfb_recipient_state.defs

lemma LPFBWithInvoice_sel [simp]:
  "lp_settlementMethod (LPFBWithInvoice c (m, bf, uf) i h ih d b inp u sk) = m"
  "lp_btcProtocolAndBankFee (LPFBWithInvoice c (m, bf, uf) i h ih d b inp u sk) = bf"
  "lp_usdProtocolAndBankFee (LPFBWithInvoice c (m, bf, uf) i h ih d b inp u sk) = uf"
  "lp_paymentHash (LPFBWithInvoice c (m, bf, uf) i h ih d b inp u sk) = h"
  "lp_intraLedgerHash (LPFBWithInvoice c (m, bf, uf) i h ih d b inp u sk) = ih"
  "lp_btcPaymentAmount (LPFBWithInvoice c (m, bf, uf) i h ih d b inp u sk) = b"
  "lp_inputAmount (LPFBWithInvoice c (m, bf, uf) i h ih d b inp u sk) = inp"
  "lp_uncheckedAmount (LPFBWithInvoice c (m, bf, uf) i h ih d b inp u sk) = u"
  by (simp_all add: LPFBWithInvoice_def lpfb_defs)

lemma LPFBWithSenderWallet_sel [simp]:
  "lp_settlementMethod (LPFBWithSenderWallet s w usd) = lp_settlementMethod s"
  "lp_btcProtocolAndBankFee (LPFBWithSenderWallet s w usd) = lp_btcProtocolAndBankFee s"
  "lp_usdProtocolAndBankFee (LPFBWithSenderWallet s w usd) = lp_usdProtocolAndBankFee s"
  "lp_paymentHash (LPFBWithSenderWallet s w usd) = lp_paymentHash s"
  "lp_intraLedgerHash (LPFBWithSenderWallet s w usd) = lp_intraLedgerHash s"
  "lp_btcPaymentAmount (LPFBWithSenderWallet s w usd) = lp_btcPaymentAmount s"
  "lp_inputAmount (LPFBWithSenderWallet s w usd) = lp_inputAmount s"
  "lp_uncheckedAmount (LPFBWithSenderWallet s w usd) = lp_uncheckedAmount s"
  "lp_senderWalletId (LPFBWithSenderWallet s w usd) = wd_id w"
  "lp_senderWalletCurrency (LPFBWithSenderWallet s w usd) = wd_currency w"
  "lp_usdPaymentAmount (LPFBWithSenderWallet s w usd) = usd"
  by (simp_all add: LPFBWithSenderWallet_def lpfb_defs)

lemma withInvoice_wf:
  assumes "withInvoice config invoice = Inr s"
  shows "fees_match s" "one_hash s" "lp_uncheckedAmount s = None"
    "lp_inputAmount s = map_option pa_amount (lp_btcPaymentAmount s)"
  using assms
  by (auto simp: withInvoice_def bindE_eq_Inr fees_match_def one_hash_def settlementMethodFromDestination_def
      intraLedgerFees_def Let_def split: option.splits)

lemma withNoAmountInvoice_wf:
  assumes "withNoAmountInvoice config invoice x = Inr s"
  shows "fees_match s" "one_hash s" "lp_uncheckedAmount s = Some x"
    "lp_inputAmount s = None" "lp_btcPaymentAmount s = None"
  using assms
  by (auto simp: withNoAmountInvoice_def bindE_eq_Inr fees_match_def one_hash_def
      settlementMethodFromDestination_def intraLedgerFees_def Let_def)

lemma or_maxFee_Some [simp]: "or_maxFee (Some f) a = Inr f"
  by (simp add: or_maxFee_def)

lemma withSenderWallet_wf:
  assumes "withSenderWallet s w = Inr t" "fees_match s" "one_hash s"
    and "lp_uncheckedAmount s = None \<Longrightarrow> lp_inputAmount s = map_option pa_amount (lp_btcPaymentAmount s)"
    and "lp_uncheckedAmount s \<noteq> None \<Longrightarrow> lp_btcPaymentAmount s = None"
  shows "fees_match t" "one_hash t" "lp_senderWalletId t = wd_id w" "lp_senderWalletCurrency t = wd_currency w"
    "lp_uncheckedAmount t = lp_uncheckedAmount s" "\<exists>n. entered t n"
proof -
  have "fees_match t \<and> one_hash t \<and> lp_senderWalletId t = wd_id w \<and> lp_senderWalletCurrency t = wd_currency w
    \<and> lp_uncheckedAmount t = lp_uncheckedAmount s \<and> (\<exists>n. entered t n)"
  proof (cases "lp_uncheckedAmount s")
    case None
    with assms show ?thesis
      by (auto simp: withSenderWallet_def bindE_eq_Inr fees_match_def one_hash_def entered_def in_sats_def
          split: option.splits if_splits)
  next
    case (Some x)
    show ?thesis
    proof (cases "wd_currency w = Btc")
      case True
      with Some assms show ?thesis
        by (auto simp: withSenderWallet_def bindE_eq_Inr fees_match_def one_hash_def entered_def in_sats_def
            checkedToBtcPaymentAmount_Inr)
    next
      case False
      with Some assms show ?thesis
        by (auto simp: withSenderWallet_def bindE_eq_Inr fees_match_def one_hash_def entered_def in_sats_def
            checkedToUsdPaymentAmount_Inr)
    qed
  qed
  then show "fees_match t" "one_hash t" "lp_senderWalletId t = wd_id w" "lp_senderWalletCurrency t = wd_currency w"
    "lp_uncheckedAmount t = lp_uncheckedAmount s" "\<exists>n. entered t n" by blast+
qed

text \<open>What the steps after the sender's wallet keep of the state.\<close>

definition keeps :: "lpfb_sender_state \<Rightarrow> lpfb_recipient_state \<Rightarrow> bool" where
  "keeps s t \<longleftrightarrow> lp_settlementMethod t = lp_settlementMethod s
     \<and> lp_btcProtocolAndBankFee t = lp_btcProtocolAndBankFee s
     \<and> lp_usdProtocolAndBankFee t = lp_usdProtocolAndBankFee s
     \<and> lp_paymentHash t = lp_paymentHash s \<and> lp_intraLedgerHash t = lp_intraLedgerHash s
     \<and> lp_btcPaymentAmount t = lp_btcPaymentAmount s \<and> lp_inputAmount t = lp_inputAmount s
     \<and> lp_uncheckedAmount t = lp_uncheckedAmount s \<and> lp_senderWalletId t = lp_senderWalletId s
     \<and> lp_senderWalletCurrency t = lp_senderWalletCurrency s"

lemma keeps_wf: "keeps s t \<Longrightarrow> fees_match s \<Longrightarrow> fees_match t" "keeps s t \<Longrightarrow> one_hash s \<Longrightarrow> one_hash t"
  by (simp_all add: keeps_def fees_match_def one_hash_def)

lemma withoutRecipientWallet_keeps:
  assumes "withoutRecipientWallet s = Inr t"
  shows "keeps s t" "lp_usdPaymentAmount t = lp_usdPaymentAmount s" "lp_recipientWalletId t = None"
    "lp_settlementMethod s \<noteq> SM_IntraLedger"
  using assms by (auto simp: withoutRecipientWallet_def keeps_def lpfb_defs split: if_splits)

lemma withRecipientWallet_keeps:
  assumes "withRecipientWallet s args = Inr t"
  shows "keeps s t"
    "lp_usdPaymentAmount t = (case ra_usdPaymentAmount args of Some a \<Rightarrow> Some a | None \<Rightarrow> lp_usdPaymentAmount s)"
    "lp_recipientWalletId t = Some (wd_id (ra_recipientWalletDescriptor args))"
    "wd_id (ra_recipientWalletDescriptor args) \<noteq> lp_senderWalletId s"
    "wd_currency (ra_recipientWalletDescriptor args) = Usd \<Longrightarrow>
       (ra_usdPaymentAmount args = None) = truthy_num (lp_uncheckedAmount s)"
  using assms by (auto simp: withRecipientWallet_def Let_def keeps_def lpfb_defs split: if_splits)

lemma entered_keeps:
  assumes "entered s n" "keeps s t" "in_sats s \<or> lp_usdPaymentAmount t = lp_usdPaymentAmount s"
  shows "entered t n"
  using assms by (auto simp: entered_def keeps_def in_sats_def)

text \<open>The conversion keeps the entered amount, and zero fees stay zero.\<close>

lemma WalletPriceRatio_Inr: "WalletPriceRatio u b = Inr r \<longleftrightarrow>
    pa_amount u \<noteq> 0 \<and> pa_amount b \<noteq> 0 \<and> r = \<lparr>pr_other = pa_amount u, pr_walletAmount = b\<rparr>"
  by (auto simp: WalletPriceRatio_def PriceRatio_def)

lemma convertFromBtcToCeil_zero: "pa_amount f = 0 \<Longrightarrow> pa_amount b \<noteq> 0 \<Longrightarrow>
    convertFromBtcToCeil \<lparr>pr_other = u, pr_walletAmount = b\<rparr> f = Inr (amount_of 0 Usd)"
  by (simp add: convertFromBtcToCeil_def convertFromWalletToCeil_def divCeil_def trunc_quot_def trunc_rem_def)

lemma convertFromUsd_zero: "pa_amount f = 0 \<Longrightarrow> convertFromUsd r f = Inr (amount_of 0 (pa_currency (pr_walletAmount r)))"
  by (simp add: convertFromUsd_def convertFromOther_def Let_def)

definition zero_fees :: "lpfb_conversion_state \<Rightarrow> bool" where
  "zero_fees cv \<longleftrightarrow> pa_amount (cv_btcProtocolAndBankFee cv) = 0 \<and> pa_amount (cv_usdProtocolAndBankFee cv) = 0"

lemma fromBtcMid:
  assumes "updatedStateFromBtcPaymentAmountMid conv s now a f d = Inr cv"
  shows "cv_btcPaymentAmount cv = a" "cv_btcProtocolAndBankFee cv = f" "pa_amount f = 0 \<Longrightarrow> zero_fees cv"
    "cv_state cv = (case d of None \<Rightarrow> s | Some w \<Rightarrow>
       s\<lparr>lp_recipientWalletId := Some (wd_id w), lp_recipientWalletCurrency := Some (wd_currency w)\<rparr>)"
    "pa_amount (cv_usdPaymentAmount cv) \<noteq> 0 \<and> pa_amount a \<noteq> 0"
  using assms
  by (auto simp: updatedStateFromBtcPaymentAmountMid_def bindE_eq_Inr convertedState_def zero_fees_def Let_def
      WalletPriceRatio_Inr convertFromBtcToCeil_zero split: option.splits)

lemma fromBtcDealer:
  assumes "updatedStateFromBtcPaymentAmountDealer conv s now a f = Inr cv"
  shows "cv_btcPaymentAmount cv = a" "cv_btcProtocolAndBankFee cv = f" "pa_amount f = 0 \<Longrightarrow> zero_fees cv"
    "cv_state cv = s" "pa_amount (cv_usdPaymentAmount cv) \<noteq> 0 \<and> pa_amount a \<noteq> 0"
  using assms
  by (auto simp: updatedStateFromBtcPaymentAmountDealer_def bindE_eq_Inr convertedState_def zero_fees_def
      WalletPriceRatio_Inr convertFromBtcToCeil_zero)

lemma fromUsd:
  assumes "updatedStateFromUsdPaymentAmountMid conv s now a f = Inr cv \<or>
    updatedStateFromUsdPaymentAmountDealer conv s now a f = Inr cv"
  shows "cv_usdPaymentAmount cv = a" "cv_usdProtocolAndBankFee cv = f" "pa_amount f = 0 \<Longrightarrow> zero_fees cv"
    "cv_state cv = s" "pa_amount (cv_btcPaymentAmount cv) \<noteq> 0 \<and> pa_amount a \<noteq> 0"
  using assms
  by (auto simp: updatedStateFromUsdPaymentAmountMid_def updatedStateFromUsdPaymentAmountDealer_def bindE_eq_Inr
      convertedState_def zero_fees_def WalletPriceRatio_Inr convertFromUsd_zero)

text \<open>The converted state differs from the one before at most in the recipient's wallet.\<close>

definition same_sender :: "lpfb_recipient_state \<Rightarrow> lpfb_recipient_state \<Rightarrow> bool" where
  "same_sender s t \<longleftrightarrow> lp_senderWalletId t = lp_senderWalletId s \<and> lp_settlementMethod t = lp_settlementMethod s
     \<and> lp_paymentHash t = lp_paymentHash s \<and> lp_intraLedgerHash t = lp_intraLedgerHash s
     \<and> lp_inputAmount t = lp_inputAmount s"

definition not_to_self :: "lpfb_recipient_state \<Rightarrow> bool" where
  "not_to_self s \<longleftrightarrow> lp_recipientWalletId s \<noteq> Some (lp_senderWalletId s)"

lemma dealerFallbackMid_cases:
  assumes "dealerFallbackMid conv s now a f = Inr cv"
  obtains "updatedStateFromBtcPaymentAmountDealer conv s now a f = Inr cv"
  | d where "updatedStateFromBtcPaymentAmountMid conv s now a f (Some d) = Inr cv"
      "wd_id d \<noteq> lp_senderWalletId s" "wd_currency d = Btc"
  using assms
  by (auto simp: dealerFallbackMid_def Let_def find_Some_iff split: if_splits option.splits)

lemma dealerFallbackMid_wf:
  assumes "dealerFallbackMid conv s now a f = Inr cv"
  shows "cv_btcPaymentAmount cv = a" "pa_amount f = 0 \<Longrightarrow> zero_fees cv"
    "not_to_self s \<Longrightarrow> not_to_self (cv_state cv)" "same_sender s (cv_state cv)"
  using assms
  by (cases rule: dealerFallbackMid_cases [OF assms];
      use fromBtcMid fromBtcDealer in \<open>fastforce simp: not_to_self_def same_sender_def\<close>)+

lemma withConversion_wf:
  assumes "withConversion conv now s = Inr cv" "entered s n" "fees_match s" "not_to_self s"
  shows "if in_sats s then pa_amount (cv_btcPaymentAmount cv) = n else cv_usdPaymentAmount cv = amount_of n Usd"
    "lp_settlementMethod s = SM_IntraLedger \<Longrightarrow> zero_fees cv"
    "not_to_self (cv_state cv)" "same_sender s (cv_state cv)"
proof -
  have "(if in_sats s then pa_amount (cv_btcPaymentAmount cv) = n else cv_usdPaymentAmount cv = amount_of n Usd)
    \<and> (lp_settlementMethod s = SM_IntraLedger \<longrightarrow> zero_fees cv) \<and> not_to_self (cv_state cv) \<and> same_sender s (cv_state cv)"
  proof (cases "in_sats s")
    case True
    then obtain a f where a: "lp_btcPaymentAmount s = Some a" "pa_amount a = n" "lp_btcProtocolAndBankFee s = Some f"
      using assms(2) by (auto simp: entered_def)
    have f0: "pa_amount f = 0" if "lp_settlementMethod s = SM_IntraLedger"
      using assms(3) a that by (simp add: fees_match_def ZERO_SATS_def)
    consider usd uf where "lp_usdPaymentAmount s = Some usd" "lp_usdProtocolAndBankFee s = Some uf"
        "cv = convertedState s now a f usd uf"
      | "updatedStateFromBtcPaymentAmountMid conv s now a f None = Inr cv"
      | "dealerFallbackMid conv s now a f = Inr cv"
      using assms(1) a by (auto simp: withConversion_def split: option.splits if_splits)
    then show ?thesis
    proof cases
      case 1
      with True a f0 assms(3,4) show ?thesis
        by (auto simp: convertedState_def zero_fees_def fees_match_def same_sender_def ZERO_CENTS_def)
    next
      case 2
      from fromBtcMid [OF this] True a f0 assms(4) show ?thesis by (auto simp: same_sender_def)
    next
      case 3
      from dealerFallbackMid_wf [OF this] True a f0 assms(4) show ?thesis by auto
    qed
  next
    case False
    then obtain f where f: "lp_usdPaymentAmount s = Some (amount_of n Usd)" "lp_usdProtocolAndBankFee s = Some f"
        "lp_btcPaymentAmount s = None"
      using assms(2) by (auto simp: entered_def)
    have f0: "pa_amount f = 0" if "lp_settlementMethod s = SM_IntraLedger"
      using assms(3) f that by (simp add: fees_match_def ZERO_CENTS_def)
    have "updatedStateFromUsdPaymentAmountMid conv s now (amount_of n Usd) f = Inr cv \<or>
        updatedStateFromUsdPaymentAmountDealer conv s now (amount_of n Usd) f = Inr cv"
      using assms(1) f by (auto simp: withConversion_def split: if_splits)
    from fromUsd [OF this] False f0 assms(4) show ?thesis by (auto simp: same_sender_def)
  qed
  then show "if in_sats s then pa_amount (cv_btcPaymentAmount cv) = n else cv_usdPaymentAmount cv = amount_of n Usd"
    "lp_settlementMethod s = SM_IntraLedger \<Longrightarrow> zero_fees cv"
    "not_to_self (cv_state cv)" "same_sender s (cv_state cv)" by blast+
qed

text \<open>The stages of a successful construction.\<close>

lemma construct_stages:
  assumes "constructPaymentFlowBuilder repos config conv now w invoice unchecked = Inr cv"
  obtains s1 s2 s3 where
    "if truthy_num unchecked then withNoAmountInvoice config invoice (the unchecked) = Inr s1
     else withInvoice config invoice = Inr s1"
    "withSenderWallet s1 w = Inr s2"
    "if lp_settlementMethod s2 = SM_IntraLedger
     then \<exists>args. recipientDetailsFromInvoice repos invoice = Inr args \<and> withRecipientWallet s2 args = Inr s3
     else withoutRecipientWallet s2 = Inr s3"
    "withConversion conv now s3 = Inr cv"
  using assms
  by (auto simp: constructPaymentFlowBuilder_def Let_def bindE_eq_Inr sender_isIntraLedger_def
      split: sum.splits error.splits if_splits)

lemma invoice_state_wf:
  assumes "if truthy_num unchecked then withNoAmountInvoice config invoice (the unchecked) = Inr s
     else withInvoice config invoice = Inr s"
  shows "fees_match s" "one_hash s" "lp_uncheckedAmount s = (if truthy_num unchecked then unchecked else None)"
    "lp_uncheckedAmount s = None \<Longrightarrow> lp_inputAmount s = map_option pa_amount (lp_btcPaymentAmount s)"
    "lp_uncheckedAmount s \<noteq> None \<Longrightarrow> lp_btcPaymentAmount s = None"
  using assms withNoAmountInvoice_wf [of config invoice "the unchecked" s] withInvoice_wf [of config invoice s]
  by (auto simp: truthy_num_def split: if_splits option.splits)

lemma construct_wf:
  assumes "constructPaymentFlowBuilder repos config conv now w invoice unchecked = Inr cv"
    and "\<And>args. recipientDetailsFromInvoice repos invoice = Inr args \<Longrightarrow> truthy_num unchecked \<Longrightarrow>
      ra_usdPaymentAmount args = None"
  obtains s n where "entered s n" "fees_match s" "one_hash s"
    "lp_uncheckedAmount s = (if truthy_num unchecked then unchecked else None)"
    "lp_senderWalletId s = wd_id w" "lp_senderWalletCurrency s = wd_currency w" "not_to_self s"
    "withConversion conv now s = Inr cv"
    "\<exists>s1. (if truthy_num unchecked then withNoAmountInvoice config invoice (the unchecked) = Inr s1
       else withInvoice config invoice = Inr s1) \<and> (\<exists>s2. withSenderWallet s1 w = Inr s2 \<and> keeps s2 s)"
proof -
  from assms(1) obtain s1 s2 s3 where
    s1: "if truthy_num unchecked then withNoAmountInvoice config invoice (the unchecked) = Inr s1
       else withInvoice config invoice = Inr s1"
    and s2: "withSenderWallet s1 w = Inr s2"
    and s3: "if lp_settlementMethod s2 = SM_IntraLedger
       then \<exists>args. recipientDetailsFromInvoice repos invoice = Inr args \<and> withRecipientWallet s2 args = Inr s3
       else withoutRecipientWallet s2 = Inr s3"
    and cv: "withConversion conv now s3 = Inr cv"
    by (rule construct_stages)
  note w1 = invoice_state_wf [OF s1]
  note w2 = withSenderWallet_wf [OF s2 w1(1,2,4,5)]
  obtain n where n: "entered s2 n" using w2(6) by blast
  have k: "keeps s2 s3 \<and> (in_sats s2 \<or> lp_usdPaymentAmount s3 = lp_usdPaymentAmount s2) \<and> not_to_self s3"
  proof (cases "lp_settlementMethod s2 = SM_IntraLedger")
    case True
    with s3 obtain args where a: "recipientDetailsFromInvoice repos invoice = Inr args" "withRecipientWallet s2 args = Inr s3"
      by auto
    from withRecipientWallet_keeps [OF a(2)] assms(2) [OF a(1)] w1(3) w2(5) show ?thesis
      by (auto simp: not_to_self_def keeps_def in_sats_def split: if_splits)
  next
    case False
    with s3 have "withoutRecipientWallet s2 = Inr s3" by simp
    from withoutRecipientWallet_keeps [OF this] show ?thesis by (simp add: not_to_self_def)
  qed
  show ?thesis
  proof (rule that [of s3 n])
    show "entered s3 n" using entered_keeps [OF n] k by blast
    show "fees_match s3" "one_hash s3" using keeps_wf k w2 by blast+
    show "lp_uncheckedAmount s3 = (if truthy_num unchecked then unchecked else None)"
      using k w1(3) w2(5) by (simp add: keeps_def)
    show "lp_senderWalletId s3 = wd_id w" "lp_senderWalletCurrency s3 = wd_currency w"
      using k w2 by (simp_all add: keeps_def)
  qed (use s1 s2 k cv in auto)
qed

lemma withoutRoute_sel:
  assumes "withoutRoute cv = Inr p"
  shows "btcPaymentAmount p = cv_btcPaymentAmount cv" "usdPaymentAmount p = cv_usdPaymentAmount cv"
    "btcProtocolAndBankFee p = cv_btcProtocolAndBankFee cv" "usdProtocolAndBankFee p = cv_usdProtocolAndBankFee cv"
    "senderWalletId p = lp_senderWalletId (cv_state cv)" "recipientWalletId p = lp_recipientWalletId (cv_state cv)"
    "settlementMethod p = lp_settlementMethod (cv_state cv)"
    "inputAmount p = (case lp_inputAmount (cv_state cv) of Some n \<Rightarrow> n | None \<Rightarrow> 0)"
    "paymentHashForFlow p = Inr h \<longleftrightarrow> lp_paymentHash (cv_state cv) = Some h \<and> h \<noteq> ''''"
  using assms
  by (auto simp: withoutRoute_def paymentFromState_def Let_def bindE_eq_Inr paymentHashForFlow_def truthy_def
      split: if_splits option.splits)

lemma invoice_state_fields:
  assumes "if truthy_num unchecked then withNoAmountInvoice config invoice (the unchecked) = Inr s
     else withInvoice config invoice = Inr s"
  shows "lp_paymentHash s = Some (inv_paymentHash invoice)"
    "lp_settlementMethod s = (if inv_destination invoice \<in> set (localNodeIds config) then SM_IntraLedger else SM_Lightning)"
    "\<not> truthy_num unchecked \<Longrightarrow> lp_btcPaymentAmount s = inv_paymentAmount invoice"
  using assms
  by (auto simp: withInvoice_def withNoAmountInvoice_def settlementMethodFromDestination_def Let_def bindE_eq_Inr
      split: if_splits option.splits)

lemma withSenderWallet_fields:
  assumes "withSenderWallet s w = Inr t"
  shows "lp_paymentHash t = lp_paymentHash s" "lp_settlementMethod t = lp_settlementMethod s"
    "lp_uncheckedAmount s = None \<Longrightarrow> lp_btcPaymentAmount t = lp_btcPaymentAmount s"
    "lp_uncheckedAmount s \<noteq> None \<Longrightarrow>
       \<exists>n. lp_uncheckedAmount s = Some (Fin (of_int n)) \<and> lp_inputAmount t = Some n \<and> 0 < n \<and> n \<le> 10 ^ 13"
  using assms
  by (auto simp: withSenderWallet_def bindE_eq_Inr checkedToBtcPaymentAmount_Inr checkedToUsdPaymentAmount_Inr
      split: option.splits if_splits)

text \<open>A concrete node, a wallet, an invoice and price functions, for the instances below.\<close>

definition ex_wallet :: wallet_descriptor where
  "ex_wallet = \<lparr>wd_id = ''alice-btc'', wd_currency = Btc, wd_accountId = ''alice''\<rparr>"

definition ex_config :: lpfb_config where
  "ex_config = \<lparr>localNodeIds = [''node''], skipProbe_pubkey = [], skipProbe_chanId = []\<rparr>"

definition ex_invoice :: ln_invoice where
  "ex_invoice = \<lparr>inv_destination = ''node'', inv_paymentHash = ''hash'', inv_description = ''coffee'',
     inv_paymentAmount = Some (amount_of 1000 Btc), routeHints = []\<rparr>"

definition ex_repos :: payments_repos where
  "ex_repos = \<lparr>
     findInvoiceByPaymentHash = (\<lambda>h. if h = ''hash'' then Inr \<lparr>wi_paymentHash = ''hash'', wi_paid = False,
        wi_recipientWalletId = ''bob-btc'', wi_recipientWalletCurrency = Btc, wi_pubkey = ''node'',
        wi_usdAmount = None\<rparr> else Inl (ServiceError ''CouldNotFindWalletInvoice'')),
     findWalletById = (\<lambda>i. Inr \<lparr>wd_id = i, wd_currency = Btc, wd_accountId = ''bob''\<rparr>),
     listWalletsByAccountId = (\<lambda>_. Inr [\<lparr>wd_id = ''bob-btc'', wd_currency = Btc, wd_accountId = ''bob''\<rparr>]),
     findAccountById = (\<lambda>a. Inr (a, Some ''bob'', ''user-bob''))\<rparr>"

definition ex_fns :: conversion_fns where
  "ex_fns = \<lparr>usdFromBtc = (\<lambda>a. Inr (amount_of (pa_amount a * 3 div 100) Usd)),
     btcFromUsd = (\<lambda>a. Inr (amount_of (pa_amount a * 100 div 3) Btc))\<rparr>"

definition ex_conv :: conversion_args where
  "ex_conv = \<lparr>hedgeBuyUsd = ex_fns, hedgeSellUsd = ex_fns, mid = ex_fns\<rparr>"

lemmas ex_defs = ex_wallet_def ex_config_def ex_invoice_def ex_repos_def ex_fns_def ex_conv_def

lemma ex_flow:
  "\<not> isl (bindE (constructPaymentFlowBuilder ex_repos ex_config ex_conv 0 ex_wallet ex_invoice None) withoutRoute)"
  "\<not> isl (bindE (constructPaymentFlowBuilder ex_repos ex_config ex_conv 0 ex_wallet
      (ex_invoice\<lparr>inv_destination := ''far''\<rparr>) (Some (Fin 1000))) withoutRoute)"
  by code_simp+

section \<open>Properties\<close>

text \<open>
  C37: the payment flow built for an invoice pays from the given wallet and never to that same
  wallet, even when the recipient's USD wallet is replaced by their BTC wallet; it is settled
  inside the ledger exactly when the invoice's destination is one of the operator's nodes, then
  with zero fees in both currencies; and it is filed under the invoice's payment hash.
\<close>

theorem lightning_flow_parties:
  assumes "bindE (constructPaymentFlowBuilder repos config conv now w invoice unchecked) withoutRoute = Inr p"
    and "\<And>args. recipientDetailsFromInvoice repos invoice = Inr args \<Longrightarrow> truthy_num unchecked \<Longrightarrow>
      ra_usdPaymentAmount args = None"
  shows "senderWalletId p = wd_id w \<and> recipientWalletId p \<noteq> Some (wd_id w)
    \<and> (settlementMethod p = SM_IntraLedger \<longleftrightarrow> inv_destination invoice \<in> set (localNodeIds config))
    \<and> (settlementMethod p = SM_IntraLedger \<longrightarrow>
         pa_amount (btcProtocolAndBankFee p) = 0 \<and> pa_amount (usdProtocolAndBankFee p) = 0)
    \<and> paymentHashForFlow p = Inr (inv_paymentHash invoice)"
proof -
  from assms(1) obtain cv where cv: "constructPaymentFlowBuilder repos config conv now w invoice unchecked = Inr cv"
    and p: "withoutRoute cv = Inr p" by (auto simp: bindE_eq_Inr)
  obtain s n s1 s2 where s: "entered s n" "fees_match s" "lp_senderWalletId s = wd_id w" "not_to_self s"
      "withConversion conv now s = Inr cv" "one_hash s"
    and s1: "if truthy_num unchecked then withNoAmountInvoice config invoice (the unchecked) = Inr s1
       else withInvoice config invoice = Inr s1"
    and s2: "withSenderWallet s1 w = Inr s2" "keeps s2 s"
    using construct_wf [OF cv assms(2)] by metis
  note c = withConversion_wf [OF s(5,1,2,4)]
  note f = invoice_state_fields [OF s1] withSenderWallet_fields(1,2) [OF s2(1)]
  have "paymentHashForFlow p = Inr (inv_paymentHash invoice)"
    using p c(4) f s2(2) s(6) unfolding withoutRoute_sel(9) [OF p]
    by (auto simp: withoutRoute_def paymentFromState_def Let_def bindE_eq_Inr truthy_def same_sender_def keeps_def
        one_hash_def split: if_splits option.splits)
  then show ?thesis
    using c f s2(2) s(3) withoutRoute_sel [OF p]
    by (auto simp: same_sender_def keeps_def not_to_self_def zero_fees_def)
qed

theorem lightning_flow_parties_witness:
  "\<exists>p. bindE (constructPaymentFlowBuilder ex_repos ex_config ex_conv 0 ex_wallet ex_invoice None) withoutRoute = Inr p
    \<and> recipientWalletId p \<noteq> Some ''alice-btc'' \<and> settlementMethod p = SM_IntraLedger
    \<and> pa_amount (usdProtocolAndBankFee p) = 0 \<and> paymentHashForFlow p = Inr ''hash''"
proof -
  obtain p where p: "bindE (constructPaymentFlowBuilder ex_repos ex_config ex_conv 0 ex_wallet ex_invoice None) withoutRoute = Inr p"
    using ex_flow(1) unfolding not_isl_Inr by blast
  from lightning_flow_parties [OF p] have "recipientWalletId p \<noteq> Some ''alice-btc'' \<and> settlementMethod p = SM_IntraLedger
    \<and> pa_amount (usdProtocolAndBankFee p) = 0 \<and> paymentHashForFlow p = Inr ''hash''"
    by (simp add: truthy_num_def ex_defs)
  with p show ?thesis by blast
qed

text \<open>
  C38: the conversion never changes the amount a payment was entered with. For an invoice with an
  amount the flow's satoshi amount is the invoice's; for an invoice without one the entered number
  is a whole number from one to \<open>10\<^sup>1\<^sup>3\<close>, and it is the flow's satoshi amount for a BTC sender and its
  cent amount for any other.
\<close>

theorem lightning_flow_amount:
  assumes "bindE (constructPaymentFlowBuilder repos config conv now w invoice unchecked) withoutRoute = Inr p"
    and "\<And>args. recipientDetailsFromInvoice repos invoice = Inr args \<Longrightarrow> truthy_num unchecked \<Longrightarrow>
      ra_usdPaymentAmount args = None"
  shows "if truthy_num unchecked
    then unchecked = Some (Fin (of_int (inputAmount p))) \<and> 0 < inputAmount p \<and> inputAmount p \<le> 10 ^ 13
      \<and> (if wd_currency w = Btc then pa_amount (btcPaymentAmount p) = inputAmount p
          else usdPaymentAmount p = UsdPaymentAmount (inputAmount p))
    else (\<exists>a. inv_paymentAmount invoice = Some a \<and> inputAmount p = pa_amount a
      \<and> pa_amount (btcPaymentAmount p) = pa_amount a)"
proof -
  from assms(1) obtain cv where cv: "constructPaymentFlowBuilder repos config conv now w invoice unchecked = Inr cv"
    and p: "withoutRoute cv = Inr p" by (auto simp: bindE_eq_Inr)
  obtain s n s1 s2 where s: "entered s n" "fees_match s" "lp_senderWalletCurrency s = wd_currency w" "not_to_self s"
      "withConversion conv now s = Inr cv" "lp_uncheckedAmount s = (if truthy_num unchecked then unchecked else None)"
    and s1: "if truthy_num unchecked then withNoAmountInvoice config invoice (the unchecked) = Inr s1
       else withInvoice config invoice = Inr s1"
    and s2: "withSenderWallet s1 w = Inr s2" "keeps s2 s"
    using construct_wf [OF cv assms(2)] by metis
  note c = withConversion_wf [OF s(5,1,2,4)]
  note f = invoice_state_fields [OF s1] withSenderWallet_fields [OF s2(1)] invoice_state_wf(3) [OF s1]
  have n: "lp_inputAmount s = Some n" "inputAmount p = n"
    using s(1) c(4) withoutRoute_sel(8) [OF p] by (simp_all add: entered_def same_sender_def)
  show ?thesis
  proof (cases "truthy_num unchecked")
    case True
    then have "unchecked \<noteq> None" by (cases "unchecked") (auto simp: truthy_num_def)
    with True f(7,8) s2(2) n have "unchecked = Some (Fin (of_int n))" "0 < n" "n \<le> 10 ^ 13"
      by (auto simp: keeps_def)
    with True c(1) n s(3,6) withoutRoute_sel [OF p] \<open>unchecked \<noteq> None\<close> show ?thesis
      by (auto simp: in_sats_def UsdPaymentAmount_def split: if_splits)
  next
    case False
    with f s2(2) have "lp_btcPaymentAmount s = inv_paymentAmount invoice" by (simp add: keeps_def)
    with False s(1,6) c(1) n withoutRoute_sel(1) [OF p] show ?thesis
      by (auto simp: entered_def in_sats_def)
  qed
qed

theorem lightning_flow_amount_witness:
  "\<exists>p. bindE (constructPaymentFlowBuilder ex_repos ex_config ex_conv 0 ex_wallet
        (ex_invoice\<lparr>inv_destination := ''far''\<rparr>) (Some (Fin 1000))) withoutRoute = Inr p
    \<and> pa_amount (btcPaymentAmount p) = inputAmount p \<and> 0 < inputAmount p"
proof -
  obtain p where p: "bindE (constructPaymentFlowBuilder ex_repos ex_config ex_conv 0 ex_wallet
      (ex_invoice\<lparr>inv_destination := ''far''\<rparr>) (Some (Fin 1000))) withoutRoute = Inr p"
    using ex_flow(2) unfolding not_isl_Inr by blast
  from lightning_flow_amount [OF p] have "pa_amount (btcPaymentAmount p) = inputAmount p \<and> 0 < inputAmount p"
    by (simp add: truthy_num_def ex_defs recipientDetailsFromInvoice_def)
  with p show ?thesis by blast
qed

text \<open>
  C39: with a probed route, the flow's satoshi fee is the route's fee rounded up to a whole satoshi
  and its cent fee is that fee at the payment's own price, rounded up: the sender is never charged
  less than the route costs, and less than one unit more.
\<close>

theorem route_fee_rounded_up:
  assumes "withRoute cv pubkey rawRoute = Inr p"
    and "0 < pa_amount (cv_usdPaymentAmount cv)" "0 < pa_amount (cv_btcPaymentAmount cv)"
  shows "\<exists>q. safe_fee rawRoute = Fin q
    \<and> btcProtocolAndBankFee p = BtcPaymentAmount \<lceil>q\<rceil>
    \<and> usdProtocolAndBankFee p = UsdPaymentAmount
        \<lceil>of_int (\<lceil>q\<rceil> * pa_amount (cv_usdPaymentAmount cv)) / of_int (pa_amount (cv_btcPaymentAmount cv)) :: rat\<rceil>
    \<and> btcPaymentAmount p = cv_btcPaymentAmount cv \<and> usdPaymentAmount p = cv_usdPaymentAmount cv"
proof -
  let ?u = "pa_amount (cv_usdPaymentAmount cv)" and ?b = "cv_btcPaymentAmount cv"
  let ?r = "\<lparr>pr_other = ?u, pr_walletAmount = ?b\<rparr>"
  have wf: "wf_ratio ?r" using assms by (simp add: wf_ratio_def)
  from assms(1) obtain f uf where f: "feeFromRawRoute rawRoute = Inr f" "convertFromBtcToCeil ?r f = Inr uf"
    and p: "btcProtocolAndBankFee p = f" "usdProtocolAndBankFee p = uf" "btcPaymentAmount p = ?b"
      "usdPaymentAmount p = cv_usdPaymentAmount cv"
    by (auto simp: withRoute_def bindE_eq_Inr WalletPriceRatio_Inr paymentFromState_def Let_def split: if_splits)
  from f(1) obtain q where q: "safe_fee rawRoute = Fin q" "f = amount_of \<lceil>q\<rceil> Btc"
    by (cases "safe_fee rawRoute")
      (auto simp: feeFromRawRoute_def paymentAmountFromNumber_def safeBigInt_def bindE_eq_Inr split: sum.splits)
  have "uf = amount_of (- (- (\<lceil>q\<rceil> * ?u) div pa_amount ?b)) Usd"
    using f(2) q by (simp add: convertFromBtcToCeil_def convertFromWalletToCeil_eq [OF wf])
  moreover have "- (- (\<lceil>q\<rceil> * ?u) div pa_amount ?b) = \<lceil>of_int (\<lceil>q\<rceil> * ?u) / of_int (pa_amount ?b) :: rat\<rceil>"
    using floor_divide_of_int_eq [of "- (\<lceil>q\<rceil> * ?u)" "pa_amount ?b", where ?'a = rat] by (simp add: ceiling_def)
  ultimately show ?thesis using p q by (simp add: BtcPaymentAmount_def UsdPaymentAmount_def)
qed

definition ex_converted :: lpfb_conversion_state where
  "ex_converted = (case constructPaymentFlowBuilder ex_repos ex_config ex_conv 0 ex_wallet
      (ex_invoice\<lparr>inv_destination := ''far''\<rparr>) None of Inr cv \<Rightarrow> cv)"

lemma ex_converted_amounts:
  "pa_amount (cv_usdPaymentAmount ex_converted) = 30" "pa_amount (cv_btcPaymentAmount ex_converted) = 1000"
  "\<not> isl (withRoute ex_converted ''hub'' \<lparr>safe_fee = Fin 3, total_mtokens = None\<rparr>)"
  by code_simp+

theorem route_fee_rounded_up_witness:
  "\<exists>p. withRoute ex_converted ''hub'' \<lparr>safe_fee = Fin 3, total_mtokens = None\<rparr> = Inr p
    \<and> btcProtocolAndBankFee p = BtcPaymentAmount 3 \<and> usdProtocolAndBankFee p = UsdPaymentAmount 1"
proof -
  obtain p where p: "withRoute ex_converted ''hub'' \<lparr>safe_fee = Fin 3, total_mtokens = None\<rparr> = Inr p"
    using ex_converted_amounts(3) unfolding not_isl_Inr by blast
  have "\<lceil>9 / 100 :: rat\<rceil> = 1" by (simp add: ceiling_unique)
  with p route_fee_rounded_up [OF p] show ?thesis
    by (simp add: ex_converted_amounts)
qed

text \<open>
  C40: when the dealer values the satoshis of a payment at zero cents, the payment to a USD wallet
  goes to the recipient's BTC wallet instead, at the mid price and with the satoshi amount
  unchanged; it fails if the recipient has no BTC wallet or it is the sender's own.
\<close>

theorem subcent_goes_to_btc_wallet:
  assumes "withConversion conv now s = Inr cv" "\<not> noConversionRequired s"
    and "lp_btcPaymentAmount s = Some a" "lp_btcProtocolAndBankFee s = Some f" "lp_usdPaymentAmount s = None"
    and "usdFromBtc (if lp_senderWalletCurrency s = Btc then hedgeBuyUsd conv else hedgeSellUsd conv) a = Inr (amount_of 0 Usd)"
  shows "\<exists>ws d. lp_recipientWalletDescriptorsForAccount s = Some ws \<and> d \<in> set ws \<and> wd_currency d = Btc
    \<and> wd_id d \<noteq> lp_senderWalletId s
    \<and> lp_recipientWalletId (cv_state cv) = Some (wd_id d) \<and> lp_recipientWalletCurrency (cv_state cv) = Some Btc
    \<and> cv_btcPaymentAmount cv = a \<and> usdFromBtc (mid conv) a = Inr (cv_usdPaymentAmount cv)"
proof -
  have "updatedStateFromBtcPaymentAmountDealer conv s now a f = Inl InvalidZeroAmountPriceRatioInputError"
    using assms(6) by (simp add: updatedStateFromBtcPaymentAmountDealer_def WalletPriceRatio_def PriceRatio_def)
  moreover have "dealerFallbackMid conv s now a f = Inr cv"
    using assms by (auto simp: withConversion_def split: option.splits)
  ultimately obtain ws d where d: "lp_recipientWalletDescriptorsForAccount s = Some ws" "d \<in> set ws" "wd_currency d = Btc"
      "wd_id d \<noteq> lp_senderWalletId s" "updatedStateFromBtcPaymentAmountMid conv s now a f (Some d) = Inr cv"
    by (auto simp: dealerFallbackMid_def dest!: find_SomeD split: if_splits option.splits)
  moreover have "usdFromBtc (mid conv) a = Inr (cv_usdPaymentAmount cv)"
    using d(5) by (auto simp: updatedStateFromBtcPaymentAmountMid_def bindE_eq_Inr convertedState_def)
  ultimately show ?thesis using fromBtcMid [OF d(5)] by auto
qed

definition ex_subcent :: lpfb_recipient_state where
  "ex_subcent = \<lparr>localNodeIds = [''node''], skipProbe_pubkey = [], skipProbe_chanId = [],
     lp_settlementMethod = SM_IntraLedger, lp_paymentInitiationMethod = PI_Lightning, lp_paymentHash = Some ''hash'',
     lp_intraLedgerHash = None, lp_descriptionFromInvoice = '''', lp_btcPaymentAmount = Some (amount_of 7 Btc),
     lp_inputAmount = Some 7, lp_uncheckedAmount = Some (Fin 7), lp_btcProtocolAndBankFee = Some ZERO_SATS,
     lp_usdProtocolAndBankFee = Some ZERO_CENTS, lp_skipProbeForDestination = False, lp_senderWalletId = ''alice-btc'',
     lp_senderWalletCurrency = Btc, lp_senderAccountId = ''alice'', lp_usdPaymentAmount = None,
     lp_recipientWalletId = Some ''bob-usd'', lp_recipientWalletCurrency = Some Usd, lp_recipientPubkey = None,
     lp_recipientUsername = None, lp_recipientUserId = None, lp_recipientAccountId = Some ''bob'',
     lp_recipientWalletDescriptorsForAccount = Some [\<lparr>wd_id = ''bob-btc'', wd_currency = Btc, wd_accountId = ''bob''\<rparr>]\<rparr>"

definition ex_floor_conv :: conversion_args where
  "ex_floor_conv = ex_conv\<lparr>mid := ex_fns\<lparr>usdFromBtc := \<lambda>_. Inr (amount_of 1 Usd)\<rparr>\<rparr>"

lemma ex_subcent_converts: "\<not> isl (withConversion ex_floor_conv 0 ex_subcent)"
  by code_simp

theorem subcent_goes_to_btc_wallet_witness:
  "\<exists>cv. withConversion ex_floor_conv 0 ex_subcent = Inr cv \<and> lp_recipientWalletCurrency (cv_state cv) = Some Btc"
proof -
  obtain cv where cv: "withConversion ex_floor_conv 0 ex_subcent = Inr cv"
    using ex_subcent_converts unfolding not_isl_Inr by blast
  from subcent_goes_to_btc_wallet [OF cv, of "amount_of 7 Btc" ZERO_SATS]
  have "lp_recipientWalletCurrency (cv_state cv) = Some Btc"
    by (auto simp: ex_subcent_def ex_floor_conv_def ex_defs noConversionRequired_def)
  with cv show ?thesis by blast
qed

end
