(* ===== verification/CutoverTypes.thy ===== *)
theory CutoverTypes
  imports Prelude
begin

text \<open>
  The records of the cash wallet cutover (\<open>src/app/cash-wallet-cutover/index.types.d.ts\<close>), its
  status machine (\<open>state-machine.ts\<close>) and the interfaces its components use each other through.
  Dates are milliseconds, identifiers and amounts are strings as in the code.
\<close>

section \<open>Records\<close>

datatype cutover_state = Pre | In_progress | Cutover_complete | Cutover_rolled_back

datatype migration_status =
    Not_started | Started | Provisioned | Balance_read | Invoice_created | Balance_move_sending
  | Balance_move_sent | Balance_move_verified | Fee_reimbursement_invoice_created
  | Fee_reimbursement_sending | Fee_reimbursed | Pointer_flipped | Legacy_zero_verified | Complete
  | Failed | Requires_operator_review | Skipped_already_migrated | Rollback_started | Rolled_back

record cutover_config =
  cc_state :: cutover_state
  cc_scheduledAt :: "int option"
  cc_startedAt :: "int option"
  cc_completedAt :: "int option"
  cc_pausedAt :: "int option"
  cc_pauseReason :: "string option"
  cc_updatedBy :: "string option"
  cc_cutoverVersion :: int
  cc_runId :: "string option"
  cc_updatedAt :: int

record migration =
  mg_id :: string
  mg_accountId :: string
  mg_accountUuid :: "string option"
  mg_legacyUsdWalletId :: string
  mg_destinationUsdtWalletId :: string
  mg_previousDefaultWalletId :: "string option"
  mg_cutoverVersion :: int
  mg_runId :: string
  mg_status :: migration_status
  mg_sourceBalanceUsdCents :: "string option"
  mg_destinationAmountUsdtMicros :: "string option"
  mg_destinationStartingBalanceUsdtMicros :: "string option"
  mg_feeAmountUsdCents :: "string option"
  mg_feeAmountUsdtMicros :: "string option"
  mg_balanceMoveInvoicePaymentRequest :: "string option"
  mg_balanceMoveInvoicePaymentHash :: "string option"
  mg_balanceMovePaymentTransactionId :: "string option"
  mg_feeReimbursementInvoicePaymentRequest :: "string option"
  mg_feeReimbursementInvoicePaymentHash :: "string option"
  mg_feeReimbursementPaymentTransactionId :: "string option"
  mg_estimatedFee :: "bool option"
  mg_idempotencyKey :: string
  mg_attempts :: int
  mg_lastError :: "error option"
  mg_lockedAt :: "int option"
  mg_lockedBy :: "string option"
  mg_startedAt :: "int option"
  mg_completedAt :: "int option"
  mg_updatedAt :: int
  mg_rollbackRequestedAt :: "int option"
  mg_rollbackRequestedBy :: "string option"
  mg_rollbackReason :: "string option"
  mg_rollbackFromStatus :: "migration_status option"
  mg_rollbackPointerRestoredAt :: "int option"
  mg_rollbackInvoicePaymentRequest :: "string option"
  mg_rollbackInvoicePaymentHash :: "string option"
  mg_rollbackPaymentTransactionId :: "string option"
  mg_rollbackShortfallUsdtMicros :: "string option"
  mg_rollbackShortfallInvoicePaymentRequest :: "string option"
  mg_rollbackShortfallInvoicePaymentHash :: "string option"
  mg_rollbackShortfallPaymentTransactionId :: "string option"
  mg_rolledBackAt :: "int option"

section \<open>state-machine.ts\<close>

definition ROLLBACKABLE_STATUSES :: "migration_status list" where
  "ROLLBACKABLE_STATUSES =
     [Not_started, Started, Provisioned, Balance_read, Invoice_created, Balance_move_sending,
      Balance_move_sent, Balance_move_verified, Fee_reimbursement_invoice_created,
      Fee_reimbursement_sending, Fee_reimbursed, Pointer_flipped, Legacy_zero_verified, Complete,
      Failed, Requires_operator_review]"

fun transitions :: "migration_status \<Rightarrow> migration_status list" where
  "transitions Not_started = [Started, Rollback_started]"
| "transitions Started = [Provisioned, Failed, Rollback_started]"
| "transitions Provisioned = [Balance_read, Failed, Skipped_already_migrated, Rollback_started]"
| "transitions Balance_read = [Invoice_created, Pointer_flipped, Failed, Rollback_started]"
| "transitions Invoice_created =
     [Invoice_created, Balance_move_sending, Failed, Requires_operator_review, Rollback_started]"
| "transitions Balance_move_sending =
     [Balance_move_sent, Failed, Requires_operator_review, Rollback_started]"
| "transitions Balance_move_sent =
     [Balance_move_verified, Failed, Requires_operator_review, Rollback_started]"
| "transitions Balance_move_verified =
     [Fee_reimbursement_invoice_created, Fee_reimbursed, Failed, Requires_operator_review, Rollback_started]"
| "transitions Fee_reimbursement_invoice_created =
     [Fee_reimbursement_invoice_created, Fee_reimbursement_sending, Failed, Requires_operator_review,
      Rollback_started]"
| "transitions Fee_reimbursement_sending =
     [Fee_reimbursed, Failed, Requires_operator_review, Rollback_started]"
| "transitions Fee_reimbursed = [Pointer_flipped, Failed, Rollback_started]"
| "transitions Pointer_flipped = [Legacy_zero_verified, Failed, Rollback_started]"
| "transitions Legacy_zero_verified = [Complete, Failed, Rollback_started]"
| "transitions Complete = [Rollback_started]"
| "transitions Failed = [Rollback_started, Not_started, Pointer_flipped]"
| "transitions Requires_operator_review = [Rollback_started]"
| "transitions Rollback_started = [Rollback_started, Rolled_back, Failed, Requires_operator_review]"
| "transitions Skipped_already_migrated = []"
| "transitions Rolled_back = []"

definition assertCanTransition :: "migration_status \<Rightarrow> migration_status \<Rightarrow> unit result" where
  "assertCanTransition from to =
     (if to \<in> set (transitions from) then Inr () else Inl InvalidCashWalletMigrationTransitionError)"

lemma assertCanTransition_Inr [simp]: "assertCanTransition f t = Inr x \<longleftrightarrow> t \<in> set (transitions f)"
  by (simp add: assertCanTransition_def)

definition nextResumeStatus :: "migration_status \<Rightarrow> migration_status" where
  "nextResumeStatus status = status"

section \<open>The repository interface\<close>

text \<open>
  \<open>patch\<close> is the object spread into \<open>$set\<close>, as the update it makes; \<open>clear\<close> are the fields of
  \<open>$unset\<close>.
\<close>

datatype migration_field =
    F_lastError | F_sourceBalanceUsdCents | F_destinationAmountUsdtMicros
  | F_destinationStartingBalanceUsdtMicros | F_feeAmountUsdCents | F_feeAmountUsdtMicros
  | F_balanceMoveInvoicePaymentRequest | F_balanceMoveInvoicePaymentHash
  | F_feeReimbursementInvoicePaymentRequest | F_feeReimbursementInvoicePaymentHash

fun unset_field :: "migration_field \<Rightarrow> migration \<Rightarrow> migration" where
  "unset_field F_lastError m = m\<lparr>mg_lastError := None\<rparr>"
| "unset_field F_sourceBalanceUsdCents m = m\<lparr>mg_sourceBalanceUsdCents := None\<rparr>"
| "unset_field F_destinationAmountUsdtMicros m = m\<lparr>mg_destinationAmountUsdtMicros := None\<rparr>"
| "unset_field F_destinationStartingBalanceUsdtMicros m = m\<lparr>mg_destinationStartingBalanceUsdtMicros := None\<rparr>"
| "unset_field F_feeAmountUsdCents m = m\<lparr>mg_feeAmountUsdCents := None\<rparr>"
| "unset_field F_feeAmountUsdtMicros m = m\<lparr>mg_feeAmountUsdtMicros := None\<rparr>"
| "unset_field F_balanceMoveInvoicePaymentRequest m = m\<lparr>mg_balanceMoveInvoicePaymentRequest := None\<rparr>"
| "unset_field F_balanceMoveInvoicePaymentHash m = m\<lparr>mg_balanceMoveInvoicePaymentHash := None\<rparr>"
| "unset_field F_feeReimbursementInvoicePaymentRequest m = m\<lparr>mg_feeReimbursementInvoicePaymentRequest := None\<rparr>"
| "unset_field F_feeReimbursementInvoicePaymentHash m = m\<lparr>mg_feeReimbursementInvoicePaymentHash := None\<rparr>"

record upsert_args =
  ua_accountId :: string
  ua_accountUuid :: "string option"
  ua_legacyUsdWalletId :: string
  ua_destinationUsdtWalletId :: string
  ua_previousDefaultWalletId :: "string option"
  ua_cutoverVersion :: int
  ua_runId :: string
  ua_idempotencyKey :: string

record transition_args =
  ta_id :: string
  ta_from :: migration_status
  ta_to :: migration_status
  ta_cutoverVersion :: int
  ta_runId :: string
  ta_patch :: "migration \<Rightarrow> migration"
  ta_clear :: "migration_field list"

record lock_args =
  la_id :: string
  la_workerId :: string
  la_staleBefore :: int
  la_cutoverVersion :: int
  la_runId :: string

record release_args =
  rl_id :: string
  rl_workerId :: string
  rl_cutoverVersion :: int
  rl_runId :: string

record mark_failed_args =
  fa_id :: string
  fa_workerId :: string
  fa_cutoverVersion :: int
  fa_runId :: string
  fa_error :: error
  fa_status :: migration_status

record 's migrations_repo =
  getConfig :: "('s, cutover_config) act"
  updateConfig :: "(cutover_config \<Rightarrow> cutover_config) \<Rightarrow> string \<Rightarrow> ('s, cutover_config) act"
  upsertMigration :: "upsert_args \<Rightarrow> ('s, migration) act"
  findMigrationByAccountId :: "string \<Rightarrow> int \<Rightarrow> string \<Rightarrow> ('s, migration option) act"
  transitionMigration :: "transition_args \<Rightarrow> ('s, migration) act"
  acquireMigrationLock :: "lock_args \<Rightarrow> ('s, migration) act"
  releaseMigrationLock :: "release_args \<Rightarrow> ('s, migration) act"
  markMigrationFailed :: "mark_failed_args \<Rightarrow> ('s, migration) act"
  listRunnableMigrations :: "int \<Rightarrow> string \<Rightarrow> nat option \<Rightarrow> ('s, migration list) act"
  listMigrationsByStatuses :: "int \<Rightarrow> string \<Rightarrow> migration_status list \<Rightarrow> nat option \<Rightarrow> ('s, migration list) act"
  countByStatus :: "int \<Rightarrow> string \<Rightarrow> migration_status \<Rightarrow> ('s, nat) act"

section \<open>The services interface\<close>

record created_invoice =
  ci_paymentRequest :: string
  ci_paymentHash :: string

text \<open>
  \<open>decodedExpiresAt\<close> is the expiry of a payment request as \<open>decodeInvoice\<close> (the invoice library)
  decodes it, None where it returns an error.
\<close>

record 's cutover_services =
  sv_now :: "'s \<Rightarrow> int"
  decodedExpiresAt :: "string \<Rightarrow> int option"
  getDefaultWalletId :: "string \<Rightarrow> ('s, string) act"
  ensureDestinationWallet :: "string \<Rightarrow> string \<Rightarrow> ('s, unit) act"
  readSourceBalanceUsdCents :: "migration \<Rightarrow> ('s, string) act"
  readDestinationBalanceUsdtMicros :: "migration \<Rightarrow> ('s, string) act"
  readDestinationSpendableUsdtMicros :: "migration \<Rightarrow> ('s, string) act"
  createInvoice :: "string \<Rightarrow> string \<Rightarrow> string \<Rightarrow> ('s, created_invoice) act"
  createNoAmountInvoice :: "string \<Rightarrow> string \<Rightarrow> ('s, created_invoice) act"
  payInvoice :: "string \<Rightarrow> string \<Rightarrow> string option \<Rightarrow> string option \<Rightarrow> ('s, string) act"
  verifyBalanceMove :: "string \<Rightarrow> string \<Rightarrow> string option \<Rightarrow> string option \<Rightarrow> string \<Rightarrow> ('s, unit) act"
  readFeeAmountUsdtMicros :: "migration \<Rightarrow> ('s, string) act"
  getTreasuryWalletId :: "('s, string) act"
  flipDefaultWallet :: "string \<Rightarrow> string \<Rightarrow> ('s, string) act"
  verifyLegacyWalletZero :: "string \<Rightarrow> ('s, unit) act"

end
