(* ===== verification/CutoverRepository.thy ===== *)
theory CutoverRepository
  imports CutoverTypes Decimal
begin

text \<open>
  The database side of the cutover (\<open>src/services/mongoose/cash-wallet-cutover.ts\<close>, its schemas in
  \<open>schema.ts\<close> and \<open>parseRepositoryError\<close> in \<open>utils.ts\<close>) and the contract the other components
  rely on, the locale \<open>migration_store\<close>.

  The state holds the two collections and the behaviour of the driver: each call of the driver takes
  the next event of \<open>upcoming\<close>, which says when the call is made and whether it raises, before or
  after the database has executed it. What the rest of the system does is the extension of the
  record, which the repository does not touch.
\<close>

section \<open>Driver errors\<close>

fun contains :: "string \<Rightarrow> string \<Rightarrow> bool" where
  "contains p [] = (p = [])"
| "contains p (c # s) = (take (length p) (c # s) = p \<or> contains p s)"

text \<open>The rests of a text after \<open>.+\<close>, and after an occurrence of a fixed text.\<close>

fun after_dots :: "string \<Rightarrow> string list" where
  "after_dots [] = []"
| "after_dots (c # s) = (if c = CHR 0x0A then [] else s # after_dots s)"

definition after_prefix :: "string \<Rightarrow> string \<Rightarrow> string list" where
  "after_prefix p s = (if take (length p) s = p then [drop (length p) s] else [])"

fun after_match :: "string \<Rightarrow> string \<Rightarrow> string list" where
  "after_match p [] = after_prefix p []"
| "after_match p (c # s) = after_prefix p (c # s) @ after_match p s"

definition MongoConnectionClosed :: "string \<Rightarrow> bool" where
  "MongoConnectionClosed s =
     list_ex (\<lambda>a. list_ex (\<lambda>b. list_ex (\<lambda>c.
        list_ex (\<lambda>d. after_prefix '' closed'' d \<noteq> []) (after_dots c)) (after_prefix '' to '' b))
        (after_dots a))
       (after_match ''connection '' s)"

definition parseRepositoryError :: "string \<Rightarrow> repository_error" where
  "parseRepositoryError errMsg =
     (if contains ''MongoNetworkTimeoutError: connection timed out'' errMsg
       \<or> contains ''MongooseServerSelectionError: connection timed out'' errMsg
       \<or> contains ''MongooseServerSelectionError: getaddrinfo ENOTFOUND'' errMsg
       \<or> contains ''MongooseServerSelectionError: connect ECONNREFUSED'' errMsg
      then CannotConnectToDbError
      else if MongoConnectionClosed errMsg then DbConnectionClosedError
      else if contains ''Argument passed in must be a string of 12 bytes or a string of 24 hex characters or an integer'' errMsg
      then InvalidDocumentIdForDbError
      else if contains ''E11000 duplicate key error collection'' errMsg then DuplicateKeyForPersistError
      else UnknownRepositoryError)"

definition repositoryError :: "string \<Rightarrow> error" where
  "repositoryError errMsg = RepositoryError (parseRepositoryError errMsg)"

section \<open>The collections and the driver\<close>

datatype fault = NoFault | FaultBefore string | FaultAfter string

record mongo =
  config_doc :: "cutover_config option"
  migration_docs :: "migration list"
  now_ms :: int
  upcoming :: "(int \<times> fault) list"
  uuids :: nat

definition on_driver :: "(string \<Rightarrow> error) \<Rightarrow> ('w mongo_scheme, 'a) act \<Rightarrow> ('w mongo_scheme, 'a) act" where
  "on_driver err op = (\<lambda>s. case upcoming s of
       [] \<Rightarrow> op s
     | (t, f) # es \<Rightarrow>
        (let s' = s\<lparr>now_ms := t, upcoming := es\<rparr> in
         case f of
           NoFault \<Rightarrow> op s'
         | FaultBefore e \<Rightarrow> (Inl (err e), s')
         | FaultAfter e \<Rightarrow> (Inl (err e), snd (op s'))))"

fun update_first :: "('a \<Rightarrow> bool) \<Rightarrow> ('a \<Rightarrow> 'a) \<Rightarrow> 'a list \<Rightarrow> ('a \<times> 'a list) option" where
  "update_first P f [] = None"
| "update_first P f (x # xs) =
     (if P x then Some (f x, f x # xs)
      else map_option (\<lambda>(y, ys). (y, x # ys)) (update_first P f xs))"

text \<open>\<open>findOneAndUpdate\<close> with \<open>new: true\<close>, and the check that a document was found.\<close>

definition findOneAndUpdate ::
  "(migration \<Rightarrow> bool) \<Rightarrow> (int \<Rightarrow> migration \<Rightarrow> migration) \<Rightarrow> ('w mongo_scheme, migration) act"
where
  "findOneAndUpdate P f = on_driver repositoryError (\<lambda>s.
     case update_first P (f (now_ms s)) (migration_docs s) of
       None \<Rightarrow> (Inl CouldNotUpdateError, s)
     | Some (m, ms) \<Rightarrow> (Inr m, s\<lparr>migration_docs := ms\<rparr>))"

text \<open>\<open>find(...).sort({ updatedAt: 1 }).limit(limit ?? 0)\<close>, where a limit of 0 is none.\<close>

definition find_sorted :: "(migration \<Rightarrow> bool) \<Rightarrow> nat option \<Rightarrow> ('w mongo_scheme, migration list) act" where
  "find_sorted P limit = on_driver repositoryError (\<lambda>s.
     let ms = sort_key mg_updatedAt (filter P (migration_docs s)) in
     (Inr (case limit of None \<Rightarrow> ms | Some n \<Rightarrow> if n = 0 then ms else take n ms), s))"

section \<open>The repository\<close>

definition TERMINAL_STATUSES :: "migration_status list" where
  "TERMINAL_STATUSES =
     [Complete, Failed, Requires_operator_review, Skipped_already_migrated, Rollback_started, Rolled_back]"

definition defaultConfig :: cutover_config where
  "defaultConfig = \<lparr>cc_state = Pre, cc_scheduledAt = None, cc_startedAt = None, cc_completedAt = None,
     cc_pausedAt = None, cc_pauseReason = None, cc_updatedBy = None, cc_cutoverVersion = 1,
     cc_runId = None, cc_updatedAt = 0\<rparr>"

definition db_getConfig :: "('w mongo_scheme, cutover_config) act" where
  "db_getConfig = on_driver repositoryError (\<lambda>s.
     (Inr (case config_doc s of None \<Rightarrow> defaultConfig | Some c \<Rightarrow> c), s))"

text \<open>
  A missing document is inserted with the defaults of the schema; every caller's patch has the
  state, which the schema requires. A key of the patch whose value is undefined is unset.
\<close>

definition db_updateConfig ::
  "(cutover_config \<Rightarrow> cutover_config) \<Rightarrow> string \<Rightarrow> ('w mongo_scheme, cutover_config) act"
where
  "db_updateConfig patch actor = on_driver repositoryError (\<lambda>s.
     let c = (case config_doc s of None \<Rightarrow> defaultConfig | Some c \<Rightarrow> c);
         c' = patch (c\<lparr>cc_updatedBy := Some actor, cc_updatedAt := now_ms s\<rparr>)
     in (Inr c', s\<lparr>config_doc := Some c'\<rparr>))"

text \<open>The values of \<open>randomUUID\<close> are modelled as pairwise different texts.\<close>

definition randomUUID :: "nat \<Rightarrow> string" where
  "randomUUID n = ''uuid-'' @ replicate n CHR ''x''"

definition new_migration :: "upsert_args \<Rightarrow> string \<Rightarrow> int \<Rightarrow> migration" where
  "new_migration a i t = \<lparr>mg_id = i, mg_accountId = ua_accountId a, mg_accountUuid = ua_accountUuid a,
     mg_legacyUsdWalletId = ua_legacyUsdWalletId a,
     mg_destinationUsdtWalletId = ua_destinationUsdtWalletId a,
     mg_previousDefaultWalletId = ua_previousDefaultWalletId a,
     mg_cutoverVersion = ua_cutoverVersion a, mg_runId = ua_runId a, mg_status = Not_started,
     mg_sourceBalanceUsdCents = None, mg_destinationAmountUsdtMicros = None,
     mg_destinationStartingBalanceUsdtMicros = None, mg_feeAmountUsdCents = None,
     mg_feeAmountUsdtMicros = None, mg_balanceMoveInvoicePaymentRequest = None,
     mg_balanceMoveInvoicePaymentHash = None, mg_balanceMovePaymentTransactionId = None,
     mg_feeReimbursementInvoicePaymentRequest = None, mg_feeReimbursementInvoicePaymentHash = None,
     mg_feeReimbursementPaymentTransactionId = None, mg_estimatedFee = None,
     mg_idempotencyKey = ua_idempotencyKey a, mg_attempts = 0, mg_lastError = None,
     mg_lockedAt = None, mg_lockedBy = None, mg_startedAt = None, mg_completedAt = None,
     mg_updatedAt = t, mg_rollbackRequestedAt = None, mg_rollbackRequestedBy = None,
     mg_rollbackReason = None, mg_rollbackFromStatus = None, mg_rollbackPointerRestoredAt = None,
     mg_rollbackInvoicePaymentRequest = None, mg_rollbackInvoicePaymentHash = None,
     mg_rollbackPaymentTransactionId = None, mg_rollbackShortfallUsdtMicros = None,
     mg_rollbackShortfallInvoicePaymentRequest = None, mg_rollbackShortfallInvoicePaymentHash = None,
     mg_rollbackShortfallPaymentTransactionId = None, mg_rolledBackAt = None\<rparr>"

text \<open>Both unique indexes are enforced: a second document with the key of another is refused.\<close>

definition db_upsertMigration :: "upsert_args \<Rightarrow> ('w mongo_scheme, migration) act" where
  "db_upsertMigration a = on_driver repositoryError (\<lambda>s.
     case find (\<lambda>m. mg_accountId m = ua_accountId a \<and> mg_runId m = ua_runId a) (migration_docs s) of
       Some m \<Rightarrow> (Inr m, s\<lparr>uuids := Suc (uuids s)\<rparr>)
     | None \<Rightarrow>
        if list_ex (\<lambda>m. mg_idempotencyKey m = ua_idempotencyKey a) (migration_docs s)
        then (Inl (RepositoryError DuplicateKeyForPersistError), s\<lparr>uuids := Suc (uuids s)\<rparr>)
        else (let m = new_migration a (randomUUID (uuids s)) (now_ms s) in
              (Inr m, s\<lparr>migration_docs := migration_docs s @ [m], uuids := Suc (uuids s)\<rparr>)))"

definition db_findMigrationByAccountId ::
  "string \<Rightarrow> int \<Rightarrow> string \<Rightarrow> ('w mongo_scheme, migration option) act"
where
  "db_findMigrationByAccountId accountId cutoverVersion runId = on_driver repositoryError (\<lambda>s.
     (Inr (find (\<lambda>m. mg_accountId m = accountId \<and> mg_cutoverVersion m = cutoverVersion
                   \<and> mg_runId m = runId) (migration_docs s)), s))"

definition in_run :: "string \<Rightarrow> int \<Rightarrow> string \<Rightarrow> migration \<Rightarrow> bool" where
  "in_run i v r m \<longleftrightarrow> mg_id m = i \<and> mg_cutoverVersion m = v \<and> mg_runId m = r"

definition transition_filter :: "transition_args \<Rightarrow> migration \<Rightarrow> bool" where
  "transition_filter a m \<longleftrightarrow>
     in_run (ta_id a) (ta_cutoverVersion a) (ta_runId a) m \<and> mg_status m = ta_from a"

definition transition_update :: "transition_args \<Rightarrow> int \<Rightarrow> migration \<Rightarrow> migration" where
  "transition_update a t m =
     fold unset_field (ta_clear a) ((ta_patch a m)\<lparr>mg_status := ta_to a, mg_updatedAt := t\<rparr>)"

definition db_transitionMigration :: "transition_args \<Rightarrow> ('w mongo_scheme, migration) act" where
  "db_transitionMigration a = findOneAndUpdate (transition_filter a) (transition_update a)"

definition lock_filter :: "lock_args \<Rightarrow> migration \<Rightarrow> bool" where
  "lock_filter a m \<longleftrightarrow> in_run (la_id a) (la_cutoverVersion a) (la_runId a) m
     \<and> (case mg_lockedAt m of None \<Rightarrow> True | Some t \<Rightarrow> t < la_staleBefore a)"

definition lock_update :: "lock_args \<Rightarrow> int \<Rightarrow> migration \<Rightarrow> migration" where
  "lock_update a t m = m\<lparr>mg_lockedAt := Some t, mg_lockedBy := Some (la_workerId a), mg_updatedAt := t\<rparr>"

definition db_acquireMigrationLock :: "lock_args \<Rightarrow> ('w mongo_scheme, migration) act" where
  "db_acquireMigrationLock a = findOneAndUpdate (lock_filter a) (lock_update a)"

definition release_filter :: "release_args \<Rightarrow> migration \<Rightarrow> bool" where
  "release_filter a m \<longleftrightarrow> in_run (rl_id a) (rl_cutoverVersion a) (rl_runId a) m
     \<and> mg_lockedBy m = Some (rl_workerId a)"

definition release_update :: "int \<Rightarrow> migration \<Rightarrow> migration" where
  "release_update t m = m\<lparr>mg_lockedAt := None, mg_lockedBy := None, mg_updatedAt := t\<rparr>"

definition db_releaseMigrationLock :: "release_args \<Rightarrow> ('w mongo_scheme, migration) act" where
  "db_releaseMigrationLock a = findOneAndUpdate (release_filter a) release_update"

definition failed_filter :: "mark_failed_args \<Rightarrow> migration \<Rightarrow> bool" where
  "failed_filter a m \<longleftrightarrow> in_run (fa_id a) (fa_cutoverVersion a) (fa_runId a) m
     \<and> mg_lockedBy m = Some (fa_workerId a)"

definition failed_update :: "mark_failed_args \<Rightarrow> int \<Rightarrow> migration \<Rightarrow> migration" where
  "failed_update a t m = m\<lparr>mg_status := fa_status a, mg_lastError := Some (fa_error a),
     mg_lockedAt := None, mg_lockedBy := None, mg_updatedAt := t, mg_attempts := mg_attempts m + 1\<rparr>"

definition db_markMigrationFailed :: "mark_failed_args \<Rightarrow> ('w mongo_scheme, migration) act" where
  "db_markMigrationFailed a = findOneAndUpdate (failed_filter a) (failed_update a)"

definition of_run :: "int \<Rightarrow> string \<Rightarrow> migration \<Rightarrow> bool" where
  "of_run v r m \<longleftrightarrow> mg_cutoverVersion m = v \<and> mg_runId m = r"

definition db_listRunnableMigrations ::
  "int \<Rightarrow> string \<Rightarrow> nat option \<Rightarrow> ('w mongo_scheme, migration list) act"
where
  "db_listRunnableMigrations v r limit =
     find_sorted (\<lambda>m. of_run v r m \<and> mg_status m \<notin> set TERMINAL_STATUSES) limit"

definition db_listMigrationsByStatuses ::
  "int \<Rightarrow> string \<Rightarrow> migration_status list \<Rightarrow> nat option \<Rightarrow> ('w mongo_scheme, migration list) act"
where
  "db_listMigrationsByStatuses v r statuses limit =
     find_sorted (\<lambda>m. of_run v r m \<and> mg_status m \<in> set statuses) limit"

text \<open>
  The promise of \<open>countDocuments\<close> is returned without being awaited, so the \<open>catch\<close> around it does
  not see its rejection: the driver's error reaches the caller as an exception.
\<close>

definition db_countByStatus :: "int \<Rightarrow> string \<Rightarrow> migration_status \<Rightarrow> ('w mongo_scheme, nat) act" where
  "db_countByStatus v r status = on_driver (\<lambda>_. Thrown PlainError) (\<lambda>s.
     (Inr (length (filter (\<lambda>m. of_run v r m \<and> mg_status m = status) (migration_docs s))), s))"

definition CashWalletCutoverRepository :: "('w mongo_scheme) migrations_repo" where
  "CashWalletCutoverRepository =
     \<lparr>getConfig = db_getConfig,
      updateConfig = db_updateConfig,
      upsertMigration = db_upsertMigration,
      findMigrationByAccountId = db_findMigrationByAccountId,
      transitionMigration = db_transitionMigration,
      acquireMigrationLock = db_acquireMigrationLock,
      releaseMigrationLock = db_releaseMigrationLock,
      markMigrationFailed = db_markMigrationFailed,
      listRunnableMigrations = db_listRunnableMigrations,
      listMigrationsByStatuses = db_listMigrationsByStatuses,
      countByStatus = db_countByStatus\<rparr>"

lemma repo_fields [simp]:
  "getConfig CashWalletCutoverRepository = db_getConfig"
  "updateConfig CashWalletCutoverRepository = db_updateConfig"
  "upsertMigration CashWalletCutoverRepository = db_upsertMigration"
  "findMigrationByAccountId CashWalletCutoverRepository = db_findMigrationByAccountId"
  "transitionMigration CashWalletCutoverRepository = db_transitionMigration"
  "acquireMigrationLock CashWalletCutoverRepository = db_acquireMigrationLock"
  "releaseMigrationLock CashWalletCutoverRepository = db_releaseMigrationLock"
  "markMigrationFailed CashWalletCutoverRepository = db_markMigrationFailed"
  "listRunnableMigrations CashWalletCutoverRepository = db_listRunnableMigrations"
  "listMigrationsByStatuses CashWalletCutoverRepository = db_listMigrationsByStatuses"
  "countByStatus CashWalletCutoverRepository = db_countByStatus"
  by (simp_all add: CashWalletCutoverRepository_def)

section \<open>Invariant of the collection\<close>

text \<open>What identifies a migration; no operation of the code writes these fields after insertion.\<close>

definition mg_key :: "migration \<Rightarrow> string \<times> string \<times> string \<times> string \<times> int \<times> string \<times> string" where
  "mg_key m = (mg_id m, mg_accountId m, mg_legacyUsdWalletId m, mg_destinationUsdtWalletId m,
     mg_cutoverVersion m, mg_runId m, mg_idempotencyKey m)"

definition keeps_key :: "(migration \<Rightarrow> migration) \<Rightarrow> bool" where
  "keeps_key f \<longleftrightarrow> (\<forall>m. mg_key (f m) = mg_key m)"

definition docs_ok :: "'w mongo_scheme \<Rightarrow> bool" where
  "docs_ok s \<longleftrightarrow> distinct (map mg_id (migration_docs s))
     \<and> distinct (map (\<lambda>m. (mg_accountId m, mg_runId m)) (migration_docs s))
     \<and> distinct (map mg_idempotencyKey (migration_docs s))
     \<and> (\<forall>m \<in> set (migration_docs s). \<exists>n < uuids s. mg_id m = randomUUID n)"

definition find_doc :: "'w mongo_scheme \<Rightarrow> string \<Rightarrow> migration option" where
  "find_doc s i = find (\<lambda>m. mg_id m = i) (migration_docs s)"

text \<open>
  The contract of an update of one document: it is made or not, a successful result is the updated
  document of a document that passed the filter, and an error leaves open whether the update was
  made, since the driver may fail after it. Repository calls never throw.
\<close>

definition updates_one ::
  "('s \<Rightarrow> bool) \<Rightarrow> ('s \<Rightarrow> string \<Rightarrow> migration option) \<Rightarrow> string \<Rightarrow> (migration \<Rightarrow> bool)
   \<Rightarrow> (int \<Rightarrow> migration \<Rightarrow> migration) \<Rightarrow> ('s, migration) act \<Rightarrow> bool"
where
  "updates_one ok look i P f act \<longleftrightarrow>
     (\<forall>s r t. ok s \<longrightarrow> act s = (r, t) \<longrightarrow> ok t
        \<and> ((\<exists>e. r = Inl e \<and> \<not> thrown e \<and> look t = look s)
         \<or> (\<exists>m n. look s i = Some m \<and> P m \<and> look t = (look s)(i \<mapsto> f n m)
              \<and> (r = Inr (f n m) \<or> (\<exists>e. r = Inl e \<and> \<not> thrown e)))))"

text \<open>The contract of a call that leaves the collection as it is.\<close>

definition leaves_docs ::
  "('s \<Rightarrow> bool) \<Rightarrow> ('s \<Rightarrow> string \<Rightarrow> migration option) \<Rightarrow> ('s, 'a) act \<Rightarrow> bool"
where
  "leaves_docs ok look act \<longleftrightarrow> (\<forall>s r t. ok s \<longrightarrow> act s = (r, t) \<longrightarrow> ok t \<and> look t = look s)"

text \<open>The contract of a query: it lists stored migrations, none twice.\<close>

definition lists_docs ::
  "('s \<Rightarrow> bool) \<Rightarrow> ('s \<Rightarrow> string \<Rightarrow> migration option) \<Rightarrow> (migration \<Rightarrow> bool) \<Rightarrow> ('s, migration list) act \<Rightarrow> bool"
where
  "lists_docs ok look P act \<longleftrightarrow> leaves_docs ok look act
     \<and> (\<forall>s ms t. ok s \<longrightarrow> act s = (Inr ms, t) \<longrightarrow> distinct (map mg_id ms)
          \<and> (\<forall>m \<in> set ms. look s (mg_id m) = Some m \<and> P m))"

locale migration_store =
  fixes repo :: "'s migrations_repo"
    and ok :: "'s \<Rightarrow> bool"
    and look :: "'s \<Rightarrow> string \<Rightarrow> migration option"
  assumes transition: "keeps_key (ta_patch a) \<Longrightarrow>
      updates_one ok look (ta_id a) (transition_filter a) (transition_update a) (transitionMigration repo a)"
    and acquire: "updates_one ok look (la_id l) (lock_filter l) (lock_update l) (acquireMigrationLock repo l)"
    and release: "updates_one ok look (rl_id u) (release_filter u) release_update (releaseMigrationLock repo u)"
    and mark: "updates_one ok look (fa_id f) (failed_filter f) (failed_update f) (markMigrationFailed repo f)"
    and runnable: "lists_docs ok look (\<lambda>m. of_run v r m \<and> mg_status m \<notin> set TERMINAL_STATUSES)
      (listRunnableMigrations repo v r limit)"
    and by_statuses: "lists_docs ok look (\<lambda>m. of_run v r m \<and> mg_status m \<in> set statuses)
      (listMigrationsByStatuses repo v r statuses limit)"
    and by_account: "leaves_docs ok look (findMigrationByAccountId repo acc v r)"
    and by_account_found: "ok s \<Longrightarrow> findMigrationByAccountId repo acc v r s = (Inr (Some m), t) \<Longrightarrow>
      look s (mg_id m) = Some m \<and> of_run v r m \<and> mg_accountId m = acc"
    and look_id: "ok s \<Longrightarrow> look s i = Some m \<Longrightarrow> mg_id m = i"
begin

lemma updated_cases:
  assumes "updates_one ok look i P f act" "ok s" "act s = (r, t)"
  obtains (unchanged) e where "ok t" "r = Inl e" "\<not> thrown e" "look t = look s"
  | (updated) m n where "ok t" "look s i = Some m" "P m" "look t = (look s)(i \<mapsto> f n m)" "r = Inr (f n m)"
  | (unknown) m n e where "ok t" "look s i = Some m" "P m" "look t = (look s)(i \<mapsto> f n m)" "r = Inl e"
      "\<not> thrown e"
  using assms unfolding updates_one_def by metis

end

section \<open>The repository keeps the contract\<close>

lemma on_driver_cases:
  assumes "on_driver err op s = (r, t)"
  obtains (run) u where "migration_docs u = migration_docs s" "uuids u = uuids s" "config_doc u = config_doc s"
      "mongo.more u = mongo.more s" "op u = (r, t)"
  | (before) e where "migration_docs t = migration_docs s" "uuids t = uuids s" "config_doc t = config_doc s"
      "mongo.more t = mongo.more s" "r = Inl (err e)"
  | (after) u e where "migration_docs u = migration_docs s" "uuids u = uuids s" "config_doc u = config_doc s"
      "mongo.more u = mongo.more s" "t = snd (op u)" "r = Inl (err e)"
proof (cases "upcoming s")
  case Nil
  with assms show thesis by (intro run [of s]) (simp_all add: on_driver_def)
next
  case (Cons ev es)
  obtain n f where ev: "ev = (n, f)" by (cases ev)
  let ?u = "s\<lparr>now_ms := n, upcoming := es\<rparr>"
  show thesis
  proof (cases f)
    case NoFault
    with Cons ev assms show thesis by (intro run [of ?u]) (simp_all add: on_driver_def)
  next
    case (FaultBefore e)
    with Cons ev assms show thesis by (intro before [of e]) (auto simp: on_driver_def)
  next
    case (FaultAfter e)
    with Cons ev assms show thesis by (intro after [of ?u e]) (auto simp: on_driver_def)
  qed
qed

lemma returned_errors [simp]: "\<not> thrown (repositoryError e)" "\<not> thrown CouldNotUpdateError"
  by (simp_all add: repositoryError_def thrown_def)

lemma update_first_None: "update_first P f xs = None \<longleftrightarrow> (\<forall>x \<in> set xs. \<not> P x)"
  by (induction xs) auto

lemma update_first_Some:
  "update_first P f xs = Some (y, ys) \<Longrightarrow>
   \<exists>as x bs. xs = as @ x # bs \<and> (\<forall>a \<in> set as. \<not> P a) \<and> P x \<and> y = f x \<and> ys = as @ f x # bs"
proof (induction xs arbitrary: ys)
  case (Cons z zs)
  show ?case
  proof (cases "P z")
    case True
    with Cons.prems have "z # zs = [] @ z # zs \<and> (\<forall>a \<in> set []. \<not> P a) \<and> P z \<and> y = f z \<and> ys = [] @ f z # zs"
      by auto
    then show ?thesis by blast
  next
    case False
    with Cons.prems obtain us where us: "update_first P f zs = Some (y, us)" "ys = z # us" by auto
    with Cons.IH obtain as x bs where "zs = as @ x # bs" "\<forall>a \<in> set as. \<not> P a" "P x" "y = f x" "us = as @ f x # bs"
      by blast
    with False us have "z # zs = (z # as) @ x # bs \<and> (\<forall>a \<in> set (z # as). \<not> P a) \<and> P x \<and> y = f x
        \<and> ys = (z # as) @ f x # bs"
      by simp
    then show ?thesis by blast
  qed
qed simp

lemma find_id_Some_iff:
  "distinct (map mg_id ms) \<Longrightarrow> find (\<lambda>m. mg_id m = i) ms = Some m \<longleftrightarrow> m \<in> set ms \<and> mg_id m = i"
  by (induction ms) auto

lemma find_doc_Some_iff:
  "docs_ok s \<Longrightarrow> find_doc s i = Some m \<longleftrightarrow> m \<in> set (migration_docs s) \<and> mg_id m = i"
  by (simp add: find_doc_def docs_ok_def find_id_Some_iff)

lemma find_doc_cong: "migration_docs t = migration_docs s \<Longrightarrow> find_doc t = find_doc s"
  by (simp add: find_doc_def fun_eq_iff)

lemma docs_ok_cong: "migration_docs t = migration_docs s \<Longrightarrow> uuids t = uuids s \<Longrightarrow> docs_ok t = docs_ok s"
  by (simp add: docs_ok_def)

lemma key_fields:
  assumes "mg_key m' = mg_key m"
  shows "mg_id m' = mg_id m" "mg_accountId m' = mg_accountId m" "mg_runId m' = mg_runId m"
    "mg_idempotencyKey m' = mg_idempotencyKey m" "mg_cutoverVersion m' = mg_cutoverVersion m"
    "mg_legacyUsdWalletId m' = mg_legacyUsdWalletId m"
    "mg_destinationUsdtWalletId m' = mg_destinationUsdtWalletId m"
  using assms by (simp_all add: mg_key_def)

lemma replace_doc:
  assumes ok: "docs_ok s" and docs: "migration_docs s = as @ m # bs" and key: "mg_key m' = mg_key m"
  shows "docs_ok (s\<lparr>migration_docs := as @ m' # bs\<rparr>)"
    and "find_doc (s\<lparr>migration_docs := as @ m' # bs\<rparr>) = (find_doc s)(mg_id m \<mapsto> m')"
proof -
  note k = key_fields [OF key]
  show "docs_ok (s\<lparr>migration_docs := as @ m' # bs\<rparr>)"
    using ok docs k by (auto simp: docs_ok_def)
  have "distinct (map mg_id (as @ m # bs))" using ok docs by (simp add: docs_ok_def)
  then show "find_doc (s\<lparr>migration_docs := as @ m' # bs\<rparr>) = (find_doc s)(mg_id m \<mapsto> m')"
    unfolding find_doc_def docs using k by (induction as) (auto simp: fun_eq_iff docs)
qed

lemma findOneAndUpdate_updates_one:
  fixes P :: "migration \<Rightarrow> bool"
  assumes P: "\<And>m. P m \<Longrightarrow> mg_id m = i" and f: "\<And>n. keeps_key (f n)"
  shows "updates_one docs_ok find_doc i P f (findOneAndUpdate P f :: ('w mongo_scheme, migration) act)"
proof -
  have op: "docs_ok t \<and> (r = Inl CouldNotUpdateError \<and> find_doc t = find_doc u
      \<or> (\<exists>m n. find_doc u i = Some m \<and> P m \<and> find_doc t = (find_doc u)(i \<mapsto> f n m) \<and> r = Inr (f n m)))"
    if ok: "docs_ok u" and run: "(case update_first P (f (now_ms u)) (migration_docs u) of
       None \<Rightarrow> (Inl CouldNotUpdateError, u) | Some (m, ms) \<Rightarrow> (Inr m, u\<lparr>migration_docs := ms\<rparr>)) = (r, t)"
    for u t :: "'w mongo_scheme" and r
  proof (cases "update_first P (f (now_ms u)) (migration_docs u)")
    case None
    with ok run show ?thesis by auto
  next
    case (Some p)
    obtain y ys where p: "p = (y, ys)" by (cases p)
    obtain as m bs where m: "migration_docs u = as @ m # bs" "P m" "y = f (now_ms u) m"
      "ys = as @ f (now_ms u) m # bs"
      using update_first_Some [OF Some [unfolded p]] by blast
    have "mg_key (f (now_ms u) m) = mg_key m" using f by (simp add: keeps_key_def)
    note rep = replace_doc [OF ok m(1) this]
    have "find_doc u i = Some m" using ok m P by (auto simp: find_doc_Some_iff)
    then show ?thesis using rep run Some p m P by auto
  qed
  show ?thesis
    unfolding updates_one_def
  proof (intro allI impI)
    fix s t :: "'w mongo_scheme" and r
    assume s: "docs_ok s" and run: "findOneAndUpdate P f s = (r, t)"
    from run [unfolded findOneAndUpdate_def]
    show "docs_ok t \<and> ((\<exists>e. r = Inl e \<and> \<not> thrown e \<and> find_doc t = find_doc s)
       \<or> (\<exists>m n. find_doc s i = Some m \<and> P m \<and> find_doc t = (find_doc s)(i \<mapsto> f n m)
            \<and> (r = Inr (f n m) \<or> (\<exists>e. r = Inl e \<and> \<not> thrown e))))"
    proof (cases rule: on_driver_cases)
      case (run u)
      then have "docs_ok u" "find_doc u = find_doc s" using s by (auto simp: docs_ok_def find_doc_def)
      with op [OF _ run(5)] show ?thesis by auto
    next
      case (before e)
      then show ?thesis using s by (auto simp: docs_ok_def find_doc_def)
    next
      case (after u e)
      then have u: "docs_ok u" "find_doc u = find_doc s" using s by (auto simp: docs_ok_def find_doc_def)
      obtain r' t' where "(case update_first P (f (now_ms u)) (migration_docs u) of
         None \<Rightarrow> (Inl CouldNotUpdateError, u) | Some (m, ms) \<Rightarrow> (Inr m, u\<lparr>migration_docs := ms\<rparr>)) = (r', t')"
        by (cases "update_first P (f (now_ms u)) (migration_docs u)") auto
      with op [OF u(1) this] after(5,6) u(2) show ?thesis by auto
    qed
  qed
qed

lemma query_leaves_docs:
  assumes "\<And>s. snd (op s) = s"
  shows "leaves_docs docs_ok find_doc (on_driver err op)"
  unfolding leaves_docs_def
proof (intro allI impI)
  fix s t r
  assume "docs_ok s" and "on_driver err op s = (r, t)"
  then show "docs_ok t \<and> find_doc t = find_doc s"
    by (elim on_driver_cases) (metis assms docs_ok_cong find_doc_cong snd_conv)+
qed

lemma find_sorted_lists_docs: "lists_docs docs_ok find_doc P (find_sorted P limit)"
  unfolding lists_docs_def
proof (intro conjI allI impI)
  show "leaves_docs docs_ok find_doc (find_sorted P limit)"
    unfolding find_sorted_def by (rule query_leaves_docs) (simp add: Let_def)
next
  fix s t :: "'w mongo_scheme" and ms
  assume ok: "docs_ok s" and run: "find_sorted P limit s = (Inr ms, t)"
  from run [unfolded find_sorted_def] obtain u :: "'w mongo_scheme" where u: "migration_docs u = migration_docs s"
    and ms: "ms = (let l = sort_key mg_updatedAt (filter P (migration_docs u)) in
       case limit of None \<Rightarrow> l | Some n \<Rightarrow> if n = 0 then l else take n l)"
    by (elim on_driver_cases) (auto simp: Let_def)
  have "distinct (map mg_id (filter P (migration_docs s)))"
    using ok by (simp add: docs_ok_def distinct_map_filter)
  then have d: "distinct (map mg_id (sort_key mg_updatedAt (filter P (migration_docs s))))"
    by (simp add: distinct_map)
  then show "distinct (map mg_id ms)"
    unfolding ms u by (auto simp: Let_def take_map [symmetric] split: option.splits)
  have "set ms \<subseteq> set (filter P (migration_docs s))"
    unfolding ms u by (auto simp: Let_def dest: in_set_takeD split: option.splits)
  then show "\<forall>m \<in> set ms. find_doc s (mg_id m) = Some m \<and> P m"
    using ok by (auto simp: find_doc_Some_iff)
qed

lemma unset_field_key [simp]: "mg_key (unset_field x m) = mg_key m"
  by (cases x) (simp_all add: mg_key_def)

lemma unset_fields_key [simp]: "mg_key (fold unset_field xs m) = mg_key m"
  by (induction xs arbitrary: m) simp_all

lemma updates_keep_key:
  "keeps_key (ta_patch a) \<Longrightarrow> keeps_key (transition_update a n)"
  "keeps_key (lock_update l n)" "keeps_key (release_update n)" "keeps_key (failed_update f n)"
  by (simp_all add: keeps_key_def transition_update_def lock_update_def release_update_def
      failed_update_def) (simp_all add: mg_key_def)

lemma filters_id:
  "transition_filter a m \<Longrightarrow> mg_id m = ta_id a" "lock_filter l m \<Longrightarrow> mg_id m = la_id l"
  "release_filter u m \<Longrightarrow> mg_id m = rl_id u" "failed_filter f m \<Longrightarrow> mg_id m = fa_id f"
  by (simp_all add: transition_filter_def lock_filter_def release_filter_def failed_filter_def in_run_def)

interpretation cutover_repository:
  migration_store CashWalletCutoverRepository docs_ok "find_doc :: 'w mongo_scheme \<Rightarrow> string \<Rightarrow> migration option"
proof
  fix s :: "'w mongo_scheme" and acc v r m t
  assume ok: "docs_ok s" and "findMigrationByAccountId CashWalletCutoverRepository acc v r s = (Inr (Some m), t)"
  then have "find (\<lambda>m. mg_accountId m = acc \<and> mg_cutoverVersion m = v \<and> mg_runId m = r) (migration_docs s) = Some m"
    by (auto simp: db_findMigrationByAccountId_def elim!: on_driver_cases)
  then show "find_doc s (mg_id m) = Some m \<and> of_run v r m \<and> mg_accountId m = acc"
    using ok find_SomeD [of _ "migration_docs s" m] by (auto simp: find_doc_Some_iff of_run_def)
next
  fix s :: "'w mongo_scheme" and i m
  assume "docs_ok s" "find_doc s i = Some m"
  then show "mg_id m = i" by (simp add: find_doc_Some_iff)
next
  fix acc v r
  show "leaves_docs docs_ok (find_doc :: 'w mongo_scheme \<Rightarrow> _)
      (findMigrationByAccountId CashWalletCutoverRepository acc v r)"
    unfolding repo_fields db_findMigrationByAccountId_def by (rule query_leaves_docs) simp
qed (simp_all add: db_transitionMigration_def db_acquireMigrationLock_def db_releaseMigrationLock_def
    db_markMigrationFailed_def db_listRunnableMigrations_def db_listMigrationsByStatuses_def
    findOneAndUpdate_updates_one find_sorted_lists_docs updates_keep_key filters_id)

text \<open>The calls that work on the configuration or insert a migration keep the collection well formed.\<close>

lemma config_calls_leave_docs:
  "leaves_docs docs_ok find_doc db_getConfig"
  "leaves_docs docs_ok find_doc (db_countByStatus v r status)"
  by (simp_all add: db_getConfig_def db_countByStatus_def query_leaves_docs)

lemma updateConfig_leaves_docs: "leaves_docs docs_ok find_doc (db_updateConfig patch actor)"
  by (auto simp: leaves_docs_def db_updateConfig_def Let_def docs_ok_def find_doc_def fun_eq_iff
      elim!: on_driver_cases)

lemma randomUUID_inj: "randomUUID m = randomUUID n \<longleftrightarrow> m = n"
  by (simp add: randomUUID_def)

lemma find_id_snoc:
  "find (\<lambda>m. mg_id m = i) (ms @ [d]) =
     (case find (\<lambda>m. mg_id m = i) ms of None \<Rightarrow> if mg_id d = i then Some d else None | Some m \<Rightarrow> Some m)"
  by (induction ms) auto

definition inserts_one :: "upsert_args \<Rightarrow> 'w mongo_scheme \<Rightarrow> 'w mongo_scheme \<Rightarrow> bool" where
  "inserts_one a s t \<longleftrightarrow> (\<exists>i n. find_doc s i = None \<and> find_doc t = (find_doc s)(i \<mapsto> new_migration a i n))"

lemma insert_doc:
  assumes ok: "docs_ok s"
    and new: "find (\<lambda>m. mg_accountId m = ua_accountId a \<and> mg_runId m = ua_runId a) (migration_docs s) = None"
    and key: "\<not> list_ex (\<lambda>m. mg_idempotencyKey m = ua_idempotencyKey a) (migration_docs s)"
    and t: "t = s\<lparr>migration_docs := migration_docs s @ [new_migration a (randomUUID (uuids s)) n],
                   uuids := Suc (uuids s)\<rparr>"
  shows "docs_ok t" "inserts_one a s t"
proof -
  let ?d = "new_migration a (randomUUID (uuids s)) n"
  have d: "mg_id ?d = randomUUID (uuids s)" "mg_accountId ?d = ua_accountId a" "mg_runId ?d = ua_runId a"
    "mg_idempotencyKey ?d = ua_idempotencyKey a"
    by (simp_all add: new_migration_def)
  have fresh: "\<forall>m \<in> set (migration_docs s). mg_id m \<noteq> randomUUID (uuids s)"
    using ok by (auto simp: docs_ok_def randomUUID_inj)
  have ids: "\<forall>m \<in> set (migration_docs t). \<exists>n < uuids t. mg_id m = randomUUID n"
    using ok unfolding docs_ok_def t by (auto simp: d intro: less_SucI)
  show "docs_ok t"
    using ok new key fresh ids unfolding docs_ok_def
    by (auto simp: t d find_None_iff list_ex_iff)
  have "find_doc s (randomUUID (uuids s)) = None"
    using fresh by (auto simp: find_doc_def find_None_iff)
  moreover have "find_doc t = (find_doc s)(randomUUID (uuids s) \<mapsto> ?d)"
    using calculation unfolding t find_doc_def
    by (simp add: find_id_snoc fun_eq_iff d split: option.split)
  ultimately show "inserts_one a s t" by (auto simp: inserts_one_def)
qed

lemma upsertMigration_docs:
  assumes ok: "docs_ok s" and run: "db_upsertMigration a s = (r, t)"
  shows "docs_ok t \<and> (find_doc t = find_doc s \<or> inserts_one a s t)"
proof -
  let ?op = "\<lambda>s :: 'a mongo_scheme.
     case find (\<lambda>m. mg_accountId m = ua_accountId a \<and> mg_runId m = ua_runId a) (migration_docs s) of
       Some m \<Rightarrow> (Inr m, s\<lparr>uuids := Suc (uuids s)\<rparr>)
     | None \<Rightarrow>
        if list_ex (\<lambda>m. mg_idempotencyKey m = ua_idempotencyKey a) (migration_docs s)
        then (Inl (RepositoryError DuplicateKeyForPersistError), s\<lparr>uuids := Suc (uuids s)\<rparr>)
        else (let m = new_migration a (randomUUID (uuids s)) (now_ms s) in
              (Inr m, s\<lparr>migration_docs := migration_docs s @ [m], uuids := Suc (uuids s)\<rparr>))"
  have op: "docs_ok t \<and> (find_doc t = find_doc u \<or> inserts_one a u t)"
    if u: "docs_ok u" and r: "?op u = (r, t)" for u t r
  proof (cases "migration_docs t = migration_docs u")
    case True
    have "uuids t = Suc (uuids u)" using r by (auto simp: Let_def split: option.splits if_splits)
    then have "docs_ok t" using True u unfolding docs_ok_def by (metis less_SucI)
    with find_doc_cong [OF True] show ?thesis by blast
  next
    case False
    have new: "find (\<lambda>m. mg_accountId m = ua_accountId a \<and> mg_runId m = ua_runId a) (migration_docs u) = None"
      using False r by (cases "find (\<lambda>m. mg_accountId m = ua_accountId a \<and> mg_runId m = ua_runId a) (migration_docs u)") auto
    then have key: "\<not> list_ex (\<lambda>m. mg_idempotencyKey m = ua_idempotencyKey a) (migration_docs u)"
      using False r by (auto split: if_splits)
    with new r show ?thesis
      using insert_doc [OF u new key refl, of "now_ms u"] by (auto simp: Let_def)
  qed
  from run [unfolded db_upsertMigration_def] show ?thesis
  proof (cases rule: on_driver_cases)
    case (run u)
    then have "docs_ok u" "find_doc u = find_doc s" using ok by (auto simp: docs_ok_def find_doc_def)
    with op [OF _ run(5)] show ?thesis by (simp add: inserts_one_def)
  next
    case (before e)
    then show ?thesis using ok by (auto simp: docs_ok_def find_doc_def)
  next
    case (after u e)
    then have u: "docs_ok u" "find_doc u = find_doc s" using ok by (auto simp: docs_ok_def find_doc_def)
    obtain r' t' where "?op u = (r', t')" by (cases "?op u")
    with op [OF u(1) this] after(5) u(2) show ?thesis by (simp add: inserts_one_def)
  qed
qed

end
