(* ===== verification/JsText.thy ===== *)
theory JsText
  imports Doubles
begin

text \<open>
  What the code uses of JavaScript's strings: \<open>trim\<close>, \<open>split\<close>, \<open>join\<close>, \<open>includes\<close>, case mapping, and the
  conversions \<open>BigInt(text)\<close> and \<open>Number(text)\<close>, with \<open>Math.round\<close> and the comparisons of the numbers
  read. A text is its sequence of bytes: case mapping and white space are those of ASCII and of the
  no-break space, and the byte length of a text is its length.
\<close>

section \<open>White space, case and parts\<close>

definition js_space :: "char \<Rightarrow> bool" where
  "js_space c \<longleftrightarrow> of_char c \<in> set [9, 10, 11, 12, 13, 32, 160 :: nat]"

definition js_trim :: "string \<Rightarrow> string" where
  "js_trim s = rev (dropWhile js_space (rev (dropWhile js_space s)))"

definition to_lower :: "char \<Rightarrow> char" where
  "to_lower c = (if 65 \<le> (of_char c :: nat) \<and> (of_char c :: nat) \<le> 90 then char_of ((of_char c :: nat) + 32) else c)"

definition toLowerCase :: "string \<Rightarrow> string" where
  "toLowerCase s = map to_lower s"

primrec js_includes :: "string \<Rightarrow> string \<Rightarrow> bool" where
  "js_includes [] t \<longleftrightarrow> t = []"
| "js_includes (c # s) t \<longleftrightarrow> take (length t) (c # s) = t \<or> js_includes s t"

definition to_upper :: "char \<Rightarrow> char" where
  "to_upper c = (if 97 \<le> (of_char c :: nat) \<and> (of_char c :: nat) \<le> 122 then char_of ((of_char c :: nat) - 32) else c)"

definition toUpperCase :: "string \<Rightarrow> string" where
  "toUpperCase s = map to_upper s"

text \<open>\<open>value.split(separator)\<close>: the empty string splits into one empty part.\<close>

fun js_split :: "char \<Rightarrow> string \<Rightarrow> string list" where
  "js_split sep [] = [[]]"
| "js_split sep (c # s) =
     (if c = sep then [] # js_split sep s
      else case js_split sep s of [] \<Rightarrow> [[c]] | p # ps \<Rightarrow> (c # p) # ps)"

fun js_join :: "char \<Rightarrow> string list \<Rightarrow> string" where
  "js_join sep [] = []"
| "js_join sep [p] = p"
| "js_join sep (p # ps) = p @ sep # js_join sep ps"

section \<open>Numbers from text\<close>

text \<open>
  \<open>BigInt(s)\<close> of a text: white space is trimmed, nothing is 0, a radix prefix takes no sign, and any
  other text is a SyntaxError.
\<close>

definition radix_digit :: "char \<Rightarrow> nat option" where
  "radix_digit c =
     (let n = of_char c :: nat in
      if is_digit c then Some (digit_val c)
      else if 97 \<le> n \<and> n \<le> 102 then Some (n - 87)
      else if 65 \<le> n \<and> n \<le> 70 then Some (n - 55)
      else None)"

definition radix_value :: "nat \<Rightarrow> string \<Rightarrow> int result" where
  "radix_value b s =
     (if s \<noteq> [] \<and> list_all (\<lambda>c. case radix_digit c of None \<Rightarrow> False | Some d \<Rightarrow> d < b) s
      then Inr (int (foldl (\<lambda>n c. b * n + the (radix_digit c)) 0 s))
      else Inl (Thrown SyntaxError))"

definition signed_value :: "int \<Rightarrow> string \<Rightarrow> int result" where
  "signed_value sign s =
     (if s \<noteq> [] \<and> digits s then Inr (sign * int (parse_nat s)) else Inl (Thrown SyntaxError))"

definition BigInt_string :: "string \<Rightarrow> int result" where
  "BigInt_string s =
     (let t = js_trim s in
      if t = [] then Inr 0
      else if take 2 t \<in> set [''0x'', ''0X''] then radix_value 16 (drop 2 t)
      else if take 2 t \<in> set [''0o'', ''0O''] then radix_value 8 (drop 2 t)
      else if take 2 t \<in> set [''0b'', ''0B''] then radix_value 2 (drop 2 t)
      else if hd t = CHR ''-'' then signed_value (- 1) (tl t)
      else if hd t = CHR ''+'' then signed_value 1 (tl t)
      else signed_value 1 t)"

text \<open>\<open>Number(text)\<close>: white space, a radix literal, or a signed decimal with an exponent.\<close>

definition span_digits :: "string \<Rightarrow> string \<times> string" where
  "span_digits s = (takeWhile is_digit s, dropWhile is_digit s)"

definition exponent_part :: "string \<Rightarrow> int option" where
  "exponent_part s =
     (case s of
        [] \<Rightarrow> Some 0
      | c # t \<Rightarrow>
          if c \<noteq> CHR ''e'' \<and> c \<noteq> CHR ''E'' then None
          else (case t of
                  [] \<Rightarrow> None
                | d # u \<Rightarrow>
                    let (sign, ds) = (if d = CHR ''-'' then (- 1, u) else if d = CHR ''+'' then (1, u) else (1, t))
                    in if ds \<noteq> [] \<and> digits ds then Some (sign * int (parse_nat ds)) else None))"

definition unsigned_decimal :: "string \<Rightarrow> rat option" where
  "unsigned_decimal s =
     (let (whole, rest) = span_digits s;
          (fraction, rest') = (case rest of
             CHR ''.'' # r \<Rightarrow> span_digits r | _ \<Rightarrow> ([], rest))
      in if whole = [] \<and> fraction = [] then None
         else map_option (\<lambda>e. of_int (int (parse_nat (whole @ fraction))) * 10 powi (e - int (length fraction)))
                (exponent_part rest'))"

definition signed_decimal :: "string \<Rightarrow> js_number" where
  "signed_decimal s =
     (let (sign, u) = (case s of
            c # t \<Rightarrow> if c = CHR ''-'' then (- 1, t) else if c = CHR ''+'' then (1, t) else (1, s)
          | [] \<Rightarrow> (1, s))
      in if u = ''Infinity'' then (if sign = 1 then PosInf else NegInf)
         else (case unsigned_decimal u of None \<Rightarrow> NaN | Some q \<Rightarrow> double (of_int sign * q)))"

definition Number_string :: "string \<Rightarrow> js_number" where
  "Number_string s =
     (let t = js_trim s in
      if t = [] then Fin 0
      else if take 2 t \<in> set [''0x'', ''0X'', ''0o'', ''0O'', ''0b'', ''0B'']
      then (case BigInt_string t of Inl _ \<Rightarrow> NaN | Inr n \<Rightarrow> Number_bigint n)
      else signed_decimal t)"

fun num_less :: "js_number \<Rightarrow> rat \<Rightarrow> bool" where
  "num_less (Fin q) r \<longleftrightarrow> q < r"
| "num_less NegInf r \<longleftrightarrow> True"
| "num_less _ r \<longleftrightarrow> False"

text \<open>\<open>Math.round\<close>: the nearest integer, the larger of two.\<close>

definition round_half_up :: "rat \<Rightarrow> int" where
  "round_half_up q = \<lfloor>q + 1 / 2\<rfloor>"

section \<open>Lemmas\<close>

lemma show_int_nonneg: "0 \<le> n \<Longrightarrow> show_int n = show_nat (nat n)"
  by (simp add: show_int_def)

lemma digit_not_space: "is_digit c \<Longrightarrow> \<not> js_space c"
  by (auto simp: js_space_def is_digit_def)

lemma dropWhile_space_digits: "digits s \<Longrightarrow> dropWhile js_space s = s"
  by (cases s) (simp_all add: digit_not_space)

lemma digits_rev: "digits (rev s) = digits s"
  by (simp add: digits_def)

lemma js_trim_digits: "digits s \<Longrightarrow> js_trim s = s"
  by (simp add: js_trim_def dropWhile_space_digits digits_rev)

lemma digits_no_prefix:
  assumes "digits s" "\<not> is_digit b"
  shows "take 2 s \<noteq> [a, b]"
proof
  assume "take 2 s = [a, b]"
  moreover have "digits (take 2 s)" using assms(1) by simp
  ultimately show False using assms(2) by simp
qed

lemma not_digit_radix: "\<not> is_digit c" if "c \<in> set ''xXoObB+-''" for c
  using that by (auto simp: is_digit_def)

lemma BigInt_string_digits: "digits s \<Longrightarrow> BigInt_string s = Inr (int (parse_nat s))"
proof (cases s)
  case (Cons c t)
  assume d: "digits s"
  then have "is_digit c" using Cons by simp
  then have "c \<noteq> CHR ''-''" "c \<noteq> CHR ''+''" using not_digit_radix by fastforce+
  then have "hd s \<noteq> CHR ''-''" "hd s \<noteq> CHR ''+''" using Cons by simp_all
  moreover have "take 2 s \<notin> set [''0x'', ''0X'']" "take 2 s \<notin> set [''0o'', ''0O'']"
    "take 2 s \<notin> set [''0b'', ''0B'']"
    using digits_no_prefix [OF d not_digit_radix] by simp_all
  moreover have "s \<noteq> []" using Cons by simp
  ultimately show ?thesis
    using d unfolding BigInt_string_def js_trim_digits [OF d] Let_def
    by (simp only: if_False signed_value_def) simp
qed (simp add: BigInt_string_def js_trim_def)

lemma BigInt_string_show [simp]: "0 \<le> n \<Longrightarrow> BigInt_string (show_int n) = Inr n"
  by (simp add: BigInt_string_digits show_int_nonneg)

lemma signed_decimal_digit:
  assumes "is_digit c" "unsigned_decimal (c # q) = Some v"
  shows "signed_decimal (c # q) = double v"
proof -
  have "c \<noteq> CHR ''-''" "c \<noteq> CHR ''+''" "c \<noteq> CHR ''I''" using assms(1) by (auto simp: is_digit_def)
  then show ?thesis using assms(2) by (simp add: signed_decimal_def)
qed

lemma round_half_up_int [simp]: "round_half_up (of_int n) = n"
proof -
  have "\<lfloor>of_int n + (1 / 2 :: rat)\<rfloor> = n" by (simp add: floor_eq_iff)
  then show ?thesis by (simp add: round_half_up_def)
qed

lemma round_half_up_error: "\<bar>of_int (round_half_up q) - q\<bar> \<le> 1 / 2"
proof -
  have "of_int \<lfloor>q + 1 / 2\<rfloor> \<le> q + 1 / 2" "q + 1 / 2 < of_int \<lfloor>q + 1 / 2\<rfloor> + 1"
    using floor_correct [of "q + 1 / 2"] by simp_all
  then show ?thesis unfolding round_half_up_def abs_le_iff by linarith
qed

lemma round_half_up_mono: "p \<le> q \<Longrightarrow> round_half_up p \<le> round_half_up q"
  unfolding round_half_up_def by (intro floor_mono) simp

lemma round_half_up_nonneg: "0 \<le> q \<Longrightarrow> 0 \<le> round_half_up q"
  using round_half_up_mono [of 0 q] round_half_up_int [of 0] by simp

lemma Number_string_digits:
  assumes "digits s" "s \<noteq> []"
  shows "Number_string s = double (of_nat (parse_nat s))"
proof -
  obtain c r where s: "s = c # r" using assms(2) by (cases s) auto
  have "unsigned_decimal s = Some (of_nat (parse_nat s))"
    using assms by (simp add: unsigned_decimal_def span_digits_def exponent_part_def
        takeWhile_all_digits dropWhile_all_digits)
  then have "signed_decimal s = double (of_nat (parse_nat s))"
    using signed_decimal_digit assms(1) unfolding s by simp
  moreover have "take 2 s \<notin> set [''0x'', ''0X'', ''0o'', ''0O'', ''0b'', ''0B'']"
    using digits_no_prefix [OF assms(1) not_digit_radix] by simp
  ultimately show ?thesis
    unfolding Number_string_def js_trim_digits [OF assms(1)] Let_def by (simp add: assms(2))
qed

lemma Number_string_point:
  assumes "digits w" "w \<noteq> []" "digits f" "f \<noteq> []"
  shows "Number_string (w @ CHR ''.'' # f) = double (of_nat (parse_nat (w @ f)) / 10 ^ length f)"
proof -
  let ?s = "w @ CHR ''.'' # f"
  obtain c r where w: "w = c # r" using assms(2) by (cases w) auto
  have "js_trim ?s = ?s"
  proof -
    have "dropWhile js_space (x @ CHR ''.'' # y) = x @ CHR ''.'' # y" if "digits x" "x \<noteq> []" for x y
      using that by (cases x) (simp_all add: digit_not_space)
    then show ?thesis using assms by (simp add: js_trim_def digits_rev)
  qed
  moreover have "unsigned_decimal ?s = Some (of_nat (parse_nat (w @ f)) / 10 ^ length f)"
    using assms by (simp add: unsigned_decimal_def span_digits_def exponent_part_def takeWhile_digits dropWhile_digits
        takeWhile_all_digits dropWhile_all_digits power_int_minus_divide)
  then have "signed_decimal ?s = double (of_nat (parse_nat (w @ f)) / 10 ^ length f)"
    using signed_decimal_digit [of c "r @ CHR ''.'' # f"] assms(1) by (simp add: w)
  moreover have "take 2 ?s \<noteq> [a, b]" if "b \<in> set ''xXoObB''" for a b
  proof
    assume "take 2 ?s = [a, b]"
    then have "b \<in> set ?s" using in_set_takeD [of b 2 ?s] by simp
    then have "is_digit b \<or> b = CHR ''.''" using assms(1,3) by (auto simp: digits_def list_all_iff)
    then show False using that by (auto simp: is_digit_def)
  qed
  ultimately show ?thesis by (simp add: Number_string_def Let_def)
qed

lemma Number_string_show:
  assumes "0 \<le> n" "n \<le> 2 ^ 53"
  shows "Number_string (show_int n) = Fin (of_int n)"
proof -
  have "Number_string (show_int n) = double (of_nat (nat n))"
    using Number_string_digits [of "show_nat (nat n)"] assms(1) by (simp add: show_int_nonneg)
  also have "\<dots> = double (of_int n)" using assms(1) by (simp add: of_nat_nat)
  finally show ?thesis using assms by (simp add: double_int)
qed

lemma js_split_not_Nil [simp]: "js_split sep s \<noteq> []"
  by (induction s) (auto split: list.splits)

lemma js_split_none: "sep \<notin> set s \<Longrightarrow> js_split sep s = [s]"
  by (induction s) auto

lemma js_split_append: "sep \<notin> set s \<Longrightarrow> js_split sep (s @ sep # t) = s # js_split sep t"
  by (induction s) (auto split: list.splits)

end
