(* ===== verification/CutoverAmounts.thy ===== *)
theory CutoverAmounts
  imports PriceRatio JsText
begin

text \<open>
  The decimal-string arithmetic of the cash wallet cutover: \<open>amount-conversion.ts\<close>, the amount
  checks of \<open>worker.ts\<close> and the decimal helpers of \<open>runtime-services.ts\<close> in
  \<open>src/app/cash-wallet-cutover\<close>. Amounts travel as strings, as they do in the code.
\<close>

section \<open>amount-conversion.ts\<close>

definition parseNonNegativeInteger :: "string \<Rightarrow> int result" where
  "parseNonNegativeInteger value =
     (if value = [] \<or> \<not> digits value then Inl InvalidCashWalletCutoverAmountError
      else Inr (int (parse_nat value)))"

text \<open>\<open>/^\d+(\.\d+)?$/\<close>: the whole part and the fraction, empty without a decimal point.\<close>

definition match_decimal :: "string \<Rightarrow> (string \<times> string) option" where
  "match_decimal value =
     (let whole = takeWhile is_digit value
      in if whole = [] then None
         else case dropWhile is_digit value of
                [] \<Rightarrow> Some (whole, [])
              | c # fraction \<Rightarrow>
                  (if c = CHR ''.'' \<and> fraction \<noteq> [] \<and> digits fraction then Some (whole, fraction) else None))"

definition scale_digits :: "string \<Rightarrow> string \<Rightarrow> nat \<Rightarrow> bool \<Rightarrow> string" where
  "scale_digits whole fraction scale rounding =
     (let paddedFraction = take (scale + 1) (fraction @ replicate (scale + 1) (CHR ''0''));
          scaledFraction = take scale paddedFraction;
          roundingDigit = digit_val (paddedFraction ! scale);
          scaled = int (parse_nat whole) * 10 ^ scale + int (parse_nat scaledFraction)
      in show_int (scaled + (if rounding \<and> roundingDigit \<ge> 5 then 1 else 0)))"

definition decimalToScaledInteger :: "string \<Rightarrow> nat \<Rightarrow> string result" where
  "decimalToScaledInteger value scale =
     (case match_decimal value of
        None \<Rightarrow> Inl InvalidCashWalletCutoverAmountError
      | Some (whole, fraction) \<Rightarrow> Inr (scale_digits whole fraction scale True))"

definition usdCentsToUsdtMicros :: "string \<Rightarrow> string result" where
  "usdCentsToUsdtMicros cents = decimalToScaledInteger cents 4"

definition num_negate :: "js_number \<Rightarrow> js_number" where
  "num_negate x = (case x of NaN \<Rightarrow> NaN | PosInf \<Rightarrow> NegInf | NegInf \<Rightarrow> PosInf | Fin q \<Rightarrow> Fin (- q))"

text \<open>The argument is the text \<open>usdtMicros.toString()\<close>; the result is the number read from the cents text.\<close>

definition usdtMicrosToUsdCents :: "string \<Rightarrow> js_number result" where
  "usdtMicrosToUsdCents usdtMicros =
     (let wholeMicros = takeWhile (\<lambda>c. c \<noteq> CHR ''.'') usdtMicros;
          fractionalMicros = takeWhile (\<lambda>c. c \<noteq> CHR ''.'') (drop (length wholeMicros + 1) usdtMicros)
      in if fractionalMicros \<noteq> [] \<and> \<not> list_all (\<lambda>c. c = CHR ''0'') fractionalMicros
         then Inl InvalidCashWalletCutoverAmountError
         else
           let negative = (case wholeMicros of [] \<Rightarrow> False | c # _ \<Rightarrow> c = CHR ''-'')
           in bindE (parseNonNegativeInteger (if negative then drop 1 wholeMicros else wholeMicros)) (\<lambda>magnitude.
              bindE (bigDiv magnitude USDT_MICROS_PER_USD_CENT) (\<lambda>wholeCents.
              bindE (bigMod magnitude USDT_MICROS_PER_USD_CENT) (\<lambda>fracMicros.
              let cents = double (of_int wholeCents + of_int fracMicros / 10000)
              in Inr (if negative \<and> cents \<noteq> Fin 0 then num_negate cents else cents)))))"

definition usdtMicrosToUsdCentsCeil :: "string \<Rightarrow> string result" where
  "usdtMicrosToUsdCentsCeil usdtMicros =
     bindE (parseNonNegativeInteger usdtMicros) (\<lambda>parsed.
     if parsed = 0 then Inr ''0''
     else bindE (bigDiv (parsed + USDT_MICROS_PER_USD_CENT - 1) USDT_MICROS_PER_USD_CENT) (\<lambda>q. Inr (show_int q)))"

definition legacyShortfallUsdtMicros :: "string \<Rightarrow> string \<Rightarrow> string result" where
  "legacyShortfallUsdtMicros sourceUsdCents currentUsdCents =
     bindE (usdCentsToUsdtMicros sourceUsdCents) (\<lambda>source.
     bindE (usdCentsToUsdtMicros currentUsdCents) (\<lambda>current.
     bindE (BigInt_string source) (\<lambda>sourceMicros.
     bindE (BigInt_string current) (\<lambda>currentMicros.
     if currentMicros \<ge> sourceMicros then Inr ''0'' else Inr (show_int (sourceMicros - currentMicros))))))"

definition destinationShortfallUsdtMicros :: "string \<Rightarrow> string \<Rightarrow> string \<Rightarrow> string result" where
  "destinationShortfallUsdtMicros targetUsdtMicros startingUsdtMicros currentUsdtMicros =
     bindE (parseNonNegativeInteger targetUsdtMicros) (\<lambda>target.
     bindE (parseNonNegativeInteger startingUsdtMicros) (\<lambda>starting.
     bindE (parseNonNegativeInteger currentUsdtMicros) (\<lambda>current.
     let received = (if current > starting then current - starting else 0)
     in if received \<ge> target then Inr ''0'' else Inr (show_int (target - received)))))"

section \<open>The amount checks of worker.ts\<close>

definition CUTOVER_MIN_FIXED_USDT_INVOICE_MICROS :: int where "CUTOVER_MIN_FIXED_USDT_INVOICE_MICROS = 10000"

definition CUTOVER_MIN_PAYABLE_USDT_MICROS :: int where "CUTOVER_MIN_PAYABLE_USDT_MICROS = 2500"

definition usesNoAmountFeeReimbursementInvoice :: "string \<Rightarrow> bool result" where
  "usesNoAmountFeeReimbursementInvoice feeAmountUsdtMicros =
     (if feeAmountUsdtMicros = [] \<or> \<not> digits feeAmountUsdtMicros then Inl InvalidCashWalletCutoverAmountError
      else Inr (int (parse_nat feeAmountUsdtMicros) < CUTOVER_MIN_FIXED_USDT_INVOICE_MICROS))"

definition isSubMinimumFeeReimbursementAmount :: "string \<Rightarrow> bool result" where
  "isSubMinimumFeeReimbursementAmount feeAmountUsdtMicros =
     (if feeAmountUsdtMicros = [] \<or> \<not> digits feeAmountUsdtMicros then Inl InvalidCashWalletCutoverAmountError
      else Inr (int (parse_nat feeAmountUsdtMicros) < CUTOVER_MIN_PAYABLE_USDT_MICROS))"

section \<open>The decimal helpers of runtime-services.ts\<close>

datatype balance_input = NumberBalance js_number | StringBalance string

text \<open>
  The text of a number is its \<open>toFixed(12)\<close>. For a number that is not finite or whose magnitude is
  \<open>10\<^sup>2\<^sup>1\<close> or more it is a word or in exponent notation, which no later step accepts: None.
\<close>

definition normalizeDecimalString :: "balance_input \<Rightarrow> string option" where
  "normalizeDecimalString amt =
     map_option (\<lambda>text. let s = strip_zeros text in if s = [] then ''0'' else s)
       (case amt of
          StringBalance s \<Rightarrow> Some s
        | NumberBalance (Fin x) \<Rightarrow> (if \<bar>x\<bar> < 10 ^ 21 then Some (num_toFixed x 12) else None)
        | NumberBalance _ \<Rightarrow> None)"

definition rs_decimalToScaledInteger :: "balance_input \<Rightarrow> nat \<Rightarrow> bool \<Rightarrow> string result" where
  "rs_decimalToScaledInteger amt scale rounding =
     (case normalizeDecimalString amt of
        None \<Rightarrow> Inl InvalidCashWalletCutoverAmountError
      | Some normalized \<Rightarrow>
          (case match_decimal normalized of
             None \<Rightarrow> Inl InvalidCashWalletCutoverAmountError
           | Some (whole, fraction) \<Rightarrow> Inr (scale_digits whole fraction scale rounding)))"

definition rstrip_zeros :: "string \<Rightarrow> string" where
  "rstrip_zeros s = rev (dropWhile (\<lambda>c. c = CHR ''0'') (rev s))"

definition scaledIntegerToDecimal :: "string \<Rightarrow> nat \<Rightarrow> string" where
  "scaledIntegerToDecimal amt scale =
     (if scale = 0 then amt
      else
        let padded = padStart (scale + 1) amt;
            whole = take (length padded - scale) padded;
            fraction = rstrip_zeros (drop (length padded - scale) padded)
        in if fraction \<noteq> [] then whole @ CHR ''.'' # fraction else whole)"

definition ibexUsdDollarsToPreciseCents :: "balance_input \<Rightarrow> string result" where
  "ibexUsdDollarsToPreciseCents amt =
     bindE (rs_decimalToScaledInteger amt 8 False) (\<lambda>d. Inr (scaledIntegerToDecimal d 6))"

definition ibexMajorUnitsToUsdtMicros :: "balance_input \<Rightarrow> string result" where
  "ibexMajorUnitsToUsdtMicros amt = rs_decimalToScaledInteger amt 6 True"

section \<open>Reading and scaling decimals\<close>

text \<open>The number a matched decimal string denotes.\<close>

definition dec_value :: "string \<Rightarrow> string \<Rightarrow> rat" where
  "dec_value whole fraction = of_nat (parse_nat whole) + of_nat (parse_nat fraction) / 10 ^ length fraction"

definition decimal_value :: "string \<Rightarrow> rat option" where
  "decimal_value s = map_option (\<lambda>(w, f). dec_value w f) (match_decimal s)"

lemma match_decimal_Some:
  assumes "match_decimal s = Some (w, f)"
  shows "digits w" "w \<noteq> []" "digits f" "s = (if f = [] then w else w @ CHR ''.'' # f)"
proof -
  have dw: "digits (takeWhile is_digit s)" for s by (induction s) auto
  have s: "takeWhile is_digit s @ dropWhile is_digit s = s" by simp
  have "digits w \<and> w \<noteq> [] \<and> digits f \<and> s = (if f = [] then w else w @ CHR ''.'' # f)"
  proof (cases "dropWhile is_digit s")
    case Nil
    have "match_decimal s = (if takeWhile is_digit s = [] then None else Some (takeWhile is_digit s, []))"
      unfolding match_decimal_def Let_def Nil by simp
    with assms have "w = takeWhile is_digit s" "f = []" "w \<noteq> []" by (auto split: if_splits)
    moreover have "takeWhile is_digit s = s" using s unfolding Nil by simp
    ultimately show ?thesis using dw [of s] by (simp only: digits_simps simp_thms if_True)
  next
    case (Cons c r)
    have "match_decimal s = (if takeWhile is_digit s = [] then None
        else if c = CHR ''.'' \<and> r \<noteq> [] \<and> digits r then Some (takeWhile is_digit s, r) else None)"
      unfolding match_decimal_def Let_def Cons by simp
    with assms have w: "w = takeWhile is_digit s" and f: "w \<noteq> []" "f = r" "c = CHR ''.''" "f \<noteq> []" "digits f"
      by (auto split: if_splits)
    from s have "s = w @ CHR ''.'' # f" unfolding Cons w f(2,3) by (rule sym)
    moreover have "digits w" unfolding w by (rule dw)
    ultimately show ?thesis using f by simp
  qed
  then show "digits w" "w \<noteq> []" "digits f" "s = (if f = [] then w else w @ CHR ''.'' # f)" by auto
qed

lemma match_decimal_intro:
  assumes "digits w" "w \<noteq> []"
  shows "match_decimal w = Some (w, [])"
    "digits f \<Longrightarrow> f \<noteq> [] \<Longrightarrow> match_decimal (w @ CHR ''.'' # f) = Some (w, f)"
  using assms
  by (simp_all add: match_decimal_def takeWhile_digits dropWhile_digits takeWhile_all_digits dropWhile_all_digits)

lemma floor_of_digits:
  assumes "digits f"
  shows "\<lfloor>of_nat (parse_nat f) / 10 ^ length f * 10 ^ k :: rat\<rfloor> = int (parse_nat (take k (f @ replicate k (CHR ''0''))))"
proof (cases "length f \<le> k")
  case True
  then have "int (parse_nat (take k (f @ replicate k (CHR ''0'')))) = int (parse_nat f) * 10 ^ (k - length f)"
    by (simp add: parse_nat_append)
  moreover have "(10 :: rat) ^ k = 10 ^ length f * 10 ^ (k - length f)"
    using True by (simp add: power_add [symmetric])
  then have "of_nat (parse_nat f) / 10 ^ length f * 10 ^ k = (of_int (int (parse_nat f) * 10 ^ (k - length f)) :: rat)"
    by simp
  ultimately show ?thesis by (simp only: floor_of_int)
next
  case False
  define r where "r = length f - k"
  have len: "length f = k + r" using False by (simp add: r_def)
  have f: "parse_nat f = parse_nat (take k f) * 10 ^ r + parse_nat (drop k f)"
    using parse_nat_append [of "take k f" "drop k f"] by (simp add: len)
  have b: "parse_nat (drop k f) < 10 ^ r"
    using parse_nat_bound [of "drop k f"] assms len by simp
  have "of_nat (parse_nat f) / 10 ^ length f * 10 ^ k = (of_nat (parse_nat f) / 10 ^ r :: rat)"
    by (simp add: len power_add)
  also have "\<lfloor>\<dots>\<rfloor> = int (parse_nat f) div 10 ^ r"
    using floor_divide_of_int_eq [of "int (parse_nat f)" "10 ^ r", where ?'a = rat] by simp
  also have "\<dots> = int (parse_nat (take k f))"
  proof (rule int_div_pos_eq)
    show "int (parse_nat f) = 10 ^ r * int (parse_nat (take k f)) + int (parse_nat (drop k f))" by (simp add: f)
    show "int (parse_nat (drop k f)) < 10 ^ r" using b by (metis of_nat_less_iff of_nat_numeral of_nat_power)
  qed simp
  finally show ?thesis using False by simp
qed

lemma digits_padded: "digits f \<Longrightarrow> digits (take k (f @ replicate k (CHR ''0'')))"
  by simp

lemma floor_int_add: "\<lfloor>of_int n + (y :: rat)\<rfloor> = n + \<lfloor>y\<rfloor>"
  by simp

text \<open>Scaling rounds down, or half up where rounding is asked for.\<close>

lemma scale_digits_eq:
  assumes "digits f"
  shows "scale_digits w f scale rounding =
    show_int \<lfloor>dec_value w f * 10 ^ scale + (if rounding then 1 / 2 else 0)\<rfloor>"
proof -
  define p where "p = take (scale + 1) (f @ replicate (scale + 1) (CHR ''0''))"
  define d where "d = digit_val (p ! scale)"
  have len: "length p = scale + 1" by (simp add: p_def)
  have p: "p = take scale p @ [p ! scale]" using len by (simp add: take_Suc_conv_app_nth [symmetric])
  have dp: "digits p" unfolding p_def by (rule digits_padded [OF assms])
  have d9: "d < 10" unfolding d_def by (rule digit_val_less) (use dp len in \<open>simp add: digits_def list_all_length\<close>)
  have tk: "take scale p = take scale (f @ replicate scale (CHR ''0''))"
    by (simp add: p_def del: replicate_Suc)
  define x :: rat where "x = of_nat (parse_nat f) / 10 ^ length f * 10 ^ scale"
  have fx: "\<lfloor>x\<rfloor> = int (parse_nat (take scale p))"
    unfolding x_def tk by (rule floor_of_digits [OF assms])
  have "x * 10 = of_nat (parse_nat f) / 10 ^ length f * 10 ^ (scale + 1)" by (simp add: x_def)
  then have "\<lfloor>x * 10\<rfloor> = int (parse_nat p)"
    unfolding p_def using floor_of_digits [OF assms, of "scale + 1"] by simp
  also have "int (parse_nat p) = 10 * \<lfloor>x\<rfloor> + int d"
    using arg_cong [OF p, of "\<lambda>s. int (parse_nat s)"] by (simp add: fx d_def parse_nat_snoc)
  finally have x10: "\<lfloor>x * 10\<rfloor> = 10 * \<lfloor>x\<rfloor> + int d" .
  have lo: "of_int (10 * \<lfloor>x\<rfloor> + int d) \<le> x * 10" and up: "x * 10 < of_int (10 * \<lfloor>x\<rfloor> + int d) + 1"
    unfolding x10 [symmetric] by linarith+
  have half: "\<lfloor>x + 1 / 2\<rfloor> = \<lfloor>x\<rfloor> + (if d \<ge> 5 then 1 else 0)"
  proof (cases "d \<ge> 5")
    case True
    then have "(5 :: rat) \<le> of_nat d" by simp
    with lo have "of_int \<lfloor>x\<rfloor> + 1 \<le> x + 1 / 2" by simp
    with True show ?thesis by (intro floor_unique) (simp_all, linarith)
  next
    case False
    then have "of_nat d \<le> (4 :: rat)" by simp
    with up have "x + 1 / 2 < of_int \<lfloor>x\<rfloor> + 1" by simp
    with False show ?thesis by (intro floor_unique) (simp_all, linarith)
  qed
  have v: "dec_value w f * 10 ^ scale = of_int (int (parse_nat w) * 10 ^ scale) + x"
    by (simp add: dec_value_def x_def algebra_simps)
  have "\<lfloor>dec_value w f * 10 ^ scale + (if rounding then 1 / 2 else 0)\<rfloor>
      = int (parse_nat w) * 10 ^ scale + \<lfloor>x + (if rounding then 1 / 2 else 0)\<rfloor>"
    unfolding v add.assoc by (rule floor_int_add)
  then show ?thesis
    using half fx unfolding scale_digits_def Let_def p_def [symmetric] d_def [symmetric] by (simp add: add.assoc)
qed

lemma decimalToScaledInteger_eq:
  "decimalToScaledInteger s k = (case decimal_value s of
     None \<Rightarrow> Inl InvalidCashWalletCutoverAmountError
   | Some v \<Rightarrow> Inr (show_int \<lfloor>v * 10 ^ k + 1 / 2\<rfloor>))"
proof (cases "match_decimal s")
  case (Some wf)
  obtain w f where "wf = (w, f)" by (cases wf)
  with Some match_decimal_Some(3) [of s w f] show ?thesis
    by (simp add: decimalToScaledInteger_def decimal_value_def scale_digits_eq)
qed (simp add: decimalToScaledInteger_def decimal_value_def)

lemma decimal_value_nonneg: "decimal_value s = Some v \<Longrightarrow> 0 \<le> v"
  by (auto simp: decimal_value_def dec_value_def)

lemma parseNonNegativeInteger_show [simp]: "0 \<le> n \<Longrightarrow> parseNonNegativeInteger (show_int n) = Inr n"
  by (simp add: parseNonNegativeInteger_def show_int_nonneg)

lemma scaled_nonneg: "decimal_value s = Some v \<Longrightarrow> 0 \<le> \<lfloor>v * 10 ^ k + 1 / 2\<rfloor>"
  using decimal_value_nonneg [of s v] by (simp add: add_nonneg_nonneg)

lemma decimal_value_digits:
  assumes "digits w" "w \<noteq> []"
  shows "decimal_value w = Some (of_nat (parse_nat w))"
    "digits f \<Longrightarrow> f \<noteq> [] \<Longrightarrow> decimal_value (w @ CHR ''.'' # f) = Some (dec_value w f)"
  using assms by (simp_all add: decimal_value_def match_decimal_intro dec_value_def)

text \<open>Zeros at the end of the fraction do not change the value.\<close>

lemma dec_value_strip: "dec_value w (g @ replicate k (CHR ''0'')) = dec_value w g"
  by (simp add: dec_value_def parse_nat_append power_add)

lemma rstrip_zeros_eq: "\<exists>k. s = rstrip_zeros s @ replicate k (CHR ''0'')"
proof -
  let ?z = "\<lambda>c. c = CHR ''0''"
  have "takeWhile ?z (rev s) = replicate (length (takeWhile ?z (rev s))) (CHR ''0'')"
    by (rule replicate_eqI) (auto dest: set_takeWhileD)
  moreover have "s = rev (dropWhile ?z (rev s)) @ rev (takeWhile ?z (rev s))"
    by (metis rev_append rev_rev_ident takeWhile_dropWhile_id)
  ultimately show ?thesis unfolding rstrip_zeros_def by (metis rev_replicate)
qed

lemma scaledIntegerToDecimal_value:
  "decimal_value (scaledIntegerToDecimal (show_nat n) k) = Some (of_nat n / 10 ^ k)"
proof (cases "k = 0")
  case True
  then show ?thesis by (simp add: scaledIntegerToDecimal_def decimal_value_digits)
next
  case False
  define p where "p = padStart (k + 1) (show_nat n)"
  define w f where "w = take (length p - k) p" and "f = drop (length p - k) p"
  have len: "k + 1 \<le> length p" by (simp add: p_def)
  have d: "digits w" "digits f" by (simp_all add: w_def f_def p_def)
  have w0: "w \<noteq> []" using len by (auto simp: w_def)
  have lf: "length f = k" using len by (simp add: f_def)
  have "parse_nat w * 10 ^ k + parse_nat f = parse_nat p"
    using parse_nat_append [of w f] lf by (simp add: w_def f_def)
  then have n: "parse_nat w * 10 ^ k + parse_nat f = n" by (simp add: p_def)
  obtain j where j: "f = rstrip_zeros f @ replicate j (CHR ''0'')" using rstrip_zeros_eq by blast
  have g: "digits (rstrip_zeros f)" using d(2) j by (metis digits_simps(3))
  have "of_nat n / 10 ^ k = dec_value w f"
    unfolding dec_value_def lf n [symmetric] by (simp add: field_simps)
  also have "\<dots> = dec_value w (rstrip_zeros f)" by (subst j) (rule dec_value_strip)
  finally have v: "of_nat n / 10 ^ k = dec_value w (rstrip_zeros f)" .
  have "scaledIntegerToDecimal (show_nat n) k = (if rstrip_zeros f \<noteq> [] then w @ CHR ''.'' # rstrip_zeros f else w)"
    using False by (simp add: scaledIntegerToDecimal_def Let_def w_def f_def p_def)
  then show ?thesis
    using decimal_value_digits [OF d(1) w0] g v by (auto simp: dec_value_def)
qed

text \<open>A number balance is read to twelve decimals.\<close>

definition picos :: "rat \<Rightarrow> int" where
  "picos x = \<lfloor>x * 10 ^ 12 + 1 / 2\<rfloor>"

lemma normalize_number:
  assumes "0 \<le> x" "x < 10 ^ 21"
  shows "\<exists>s. normalizeDecimalString (NumberBalance (Fin x)) = Some s \<and> decimal_value s = Some (of_int (picos x) / 10 ^ 12)"
proof -
  define n where "n = nat (picos x)"
  have n: "of_nat n = (of_int (picos x) :: rat)"
    using assms by (simp add: n_def picos_def add_nonneg_nonneg)
  obtain w g where s: "toFixed_nat n 12 = w @ CHR ''.'' # g" and d: "digits w" "w \<noteq> []" "digits g" "length g = 12"
    and v: "parse_nat w * 10 ^ 12 + parse_nat g = n"
    using toFixed_nat_digits [of 12 n] by auto
  have val: "dec_value w g = of_int (picos x) / 10 ^ 12"
    unfolding dec_value_def d(4) n [symmetric] v [symmetric] by (simp add: field_simps)
  obtain k h where h: "g = h @ replicate k (CHR ''0'')"
    and st: "strip_zeros (w @ CHR ''.'' # g) = (if k > 0 \<and> h = [] then w else w @ CHR ''.'' # h)"
    using strip_zeros_decimal [OF d(3)] by blast
  have vh: "dec_value w h = of_int (picos x) / 10 ^ 12" using val unfolding h dec_value_strip .
  have "num_toFixed x 12 = toFixed_nat n 12"
    using assms by (simp add: num_toFixed_def n_def picos_def)
  then have nrm: "normalizeDecimalString (NumberBalance (Fin x)) =
      Some (if k > 0 \<and> h = [] then w else w @ CHR ''.'' # h)"
    using assms d(2) st by (simp add: normalizeDecimalString_def s Let_def)
  show ?thesis
  proof (cases "h = []")
    case True
    then have "k > 0" using h d(4) by (cases k) auto
    with True nrm vh decimal_value_digits(1) [OF d(1,2)] show ?thesis by (simp add: dec_value_def)
  next
    case False
    have "digits h" using d(3) h by simp
    with False nrm vh decimal_value_digits(2) [OF d(1,2)] show ?thesis by simp
  qed
qed

lemma rs_decimalToScaledInteger_eq:
  "rs_decimalToScaledInteger amt k rounding = (case normalizeDecimalString amt of
     None \<Rightarrow> Inl InvalidCashWalletCutoverAmountError
   | Some s \<Rightarrow> (case decimal_value s of
       None \<Rightarrow> Inl InvalidCashWalletCutoverAmountError
     | Some v \<Rightarrow> Inr (show_int \<lfloor>v * 10 ^ k + (if rounding then 1 / 2 else 0)\<rfloor>)))"
proof (cases "normalizeDecimalString amt")
  case (Some s)
  show ?thesis
  proof (cases "match_decimal s")
    case None
    with Some show ?thesis by (simp add: rs_decimalToScaledInteger_def decimal_value_def)
  next
    case m: (Some wf)
    obtain w f where wf: "wf = (w, f)" by (cases wf)
    with m match_decimal_Some(3) [of s w f] Some show ?thesis
      by (simp add: rs_decimalToScaledInteger_def decimal_value_def scale_digits_eq)
  qed
qed (simp add: rs_decimalToScaledInteger_def)

lemma floor_ratio: "\<lfloor>of_int a / 10 ^ 12 * 10 ^ 8 :: rat\<rfloor> = a div 10 ^ 4" "\<lfloor>of_int a / 10 ^ 12 * 10 ^ 6 :: rat\<rfloor> = a div 10 ^ 6"
  using floor_divide_of_int_eq [of a "10 ^ 4", where ?'a = rat] floor_divide_of_int_eq [of a "10 ^ 6", where ?'a = rat]
  by simp_all

section \<open>Properties\<close>

text \<open>
  a decimal number of cents converts to micro units by multiplying with ten thousand and
  rounding half up; any other string is refused.
\<close>

theorem usd_cents_to_usdt_micros:
  "usdCentsToUsdtMicros s = (case decimal_value s of
     None \<Rightarrow> Inl InvalidCashWalletCutoverAmountError
   | Some v \<Rightarrow> Inr (show_int \<lfloor>10000 * v + 1 / 2\<rfloor>))"
  by (simp add: usdCentsToUsdtMicros_def decimalToScaledInteger_eq mult.commute split: option.split)

text \<open>
  the shortfall of the legacy wallet is what is missing of the original balance, both in
  rounded micro units, never negative; the fee to reimburse is what is missing of the target
  after what the destination wallet gained over its starting balance, between zero and the target.
\<close>

theorem shortfalls:
  assumes "decimal_value source = Some v" "decimal_value current = Some c" "0 \<le> t" "0 \<le> a" "0 \<le> b"
  shows "legacyShortfallUsdtMicros source current =
      Inr (show_int (max 0 (\<lfloor>10000 * v + 1 / 2\<rfloor> - \<lfloor>10000 * c + 1 / 2\<rfloor>)))
    \<and> destinationShortfallUsdtMicros (show_int t) (show_int a) (show_int b) =
      Inr (show_int (max 0 (t - max 0 (b - a))))"
proof -
  have "0 \<le> \<lfloor>10000 * v + 1 / 2\<rfloor>" "0 \<le> \<lfloor>10000 * c + 1 / 2\<rfloor>"
    using scaled_nonneg [OF assms(1), of 4] scaled_nonneg [OF assms(2), of 4] by (simp_all add: mult.commute)
  moreover have "show_int 0 = ''0''" by (simp add: show_int_def show_nat_0)
  ultimately show ?thesis
    using assms by (auto simp: legacyShortfallUsdtMicros_def destinationShortfallUsdtMicros_def
        usdCentsToUsdtMicros_def decimalToScaledInteger_eq mult.commute max_def Let_def)
qed

theorem shortfalls_witness:
  "legacyShortfallUsdtMicros ''12.50'' ''12.44'' = Inr ''600''
   \<and> destinationShortfallUsdtMicros ''90'' ''7'' ''57'' = Inr ''40''"
proof -
  have v: "decimal_value ''12.50'' = Some (25 / 2)" "decimal_value ''12.44'' = Some (311 / 25)" by code_simp+
  have s: "show_int 600 = ''600''" "show_int 90 = ''90''" "show_int 7 = ''7''" "show_int 57 = ''57''"
    "show_int 40 = ''40''" by code_simp+
  have "\<lfloor>10000 * (25 / 2) + 1 / 2 :: rat\<rfloor> = 125000" "\<lfloor>10000 * (311 / 25) + 1 / 2 :: rat\<rfloor> = 124400"
    by (simp_all add: floor_unique)
  with shortfalls [OF v, of 90 7 57] show ?thesis by (simp add: s)
qed

text \<open>
  a balance reported as a number of dollars is read to twelve decimals, and then only ever
  rounded down: the recorded cents are the dollars to eight decimals, and the spendable USDT micro
  units never exceed what was read and miss less than one unit of it.
\<close>

theorem ibex_balances_rounded_down:
  assumes "0 \<le> x" "x < 10 ^ 21"
  shows "\<exists>s. ibexUsdDollarsToPreciseCents (NumberBalance (Fin x)) = Inr s
      \<and> decimal_value s = Some (of_int (picos x div 10 ^ 4) / 10 ^ 6)
    \<and> rs_decimalToScaledInteger (NumberBalance (Fin x)) 6 False = Inr (show_int (picos x div 10 ^ 6))
    \<and> picos x div 10 ^ 6 * 10 ^ 6 \<le> picos x \<and> picos x < (picos x div 10 ^ 6 + 1) * 10 ^ 6"
proof -
  obtain t where t: "normalizeDecimalString (NumberBalance (Fin x)) = Some t"
      "decimal_value t = Some (of_int (picos x) / 10 ^ 12)"
    using normalize_number [OF assms] by blast
  have p0: "0 \<le> picos x div 10 ^ 4" using assms by (simp add: picos_def add_nonneg_nonneg pos_imp_zdiv_nonneg_iff)
  have "ibexUsdDollarsToPreciseCents (NumberBalance (Fin x)) =
      Inr (scaledIntegerToDecimal (show_nat (nat (picos x div 10 ^ 4))) 6)"
    using t floor_ratio p0
    by (simp add: ibexUsdDollarsToPreciseCents_def rs_decimalToScaledInteger_eq show_int_nonneg)
  moreover have "rs_decimalToScaledInteger (NumberBalance (Fin x)) 6 False = Inr (show_int (picos x div 10 ^ 6))"
    using t floor_ratio by (simp add: rs_decimalToScaledInteger_eq)
  moreover have "picos x div 10 ^ 6 * 10 ^ 6 \<le> picos x" by simp
  moreover have "picos x < (picos x div 10 ^ 6 + 1) * 10 ^ 6" by simp
  ultimately show ?thesis
    using scaledIntegerToDecimal_value [of "nat (picos x div 10 ^ 4)" 6] p0 by simp
qed

theorem ibex_balances_rounded_down_witness:
  "\<exists>s. ibexUsdDollarsToPreciseCents (NumberBalance (Fin (3 / 2))) = Inr s
      \<and> decimal_value s = Some (of_int (picos (3 / 2) div 10 ^ 4) / 10 ^ 6)"
  using ibex_balances_rounded_down [of "3 / 2"] by auto

end
