(* ===== verification/CutoverWorker.thy ===== *)
theory CutoverWorker
  imports CutoverRepository CutoverAmounts
begin

text \<open>
  The forward pipeline of the cutover: the steps of one migration (\<open>worker.ts\<close>, \<open>handlers.ts\<close>,
  \<open>executor.ts\<close>), the locked batch over the migrations of a run (\<open>runner.ts\<close>) and its entry point
  (\<open>orchestrator.ts\<close>), all under \<open>src/app/cash-wallet-cutover/\<close>. The repository and the services
  are arguments, as they are in the code.
\<close>

section \<open>worker.ts\<close>

definition CUTOVER_INVOICE_PAYMENT_SAFETY_WINDOW_MS :: int where
  "CUTOVER_INVOICE_PAYMENT_SAFETY_WINDOW_MS = 30 * 1000"

definition isInvoicePaymentRequestStale :: "'s cutover_services \<Rightarrow> string \<Rightarrow> int \<Rightarrow> int \<Rightarrow> bool" where
  "isInvoicePaymentRequestStale svc paymentRequest nowMs safetyWindowMs =
     (case decodedExpiresAt svc paymentRequest of
        None \<Rightarrow> True
      | Some expiresAt \<Rightarrow> expiresAt \<le> nowMs + safetyWindowMs)"

text \<open>The arguments of a transition out of the migration's own status.\<close>

definition move_to :: "migration \<Rightarrow> migration_status \<Rightarrow> (migration \<Rightarrow> migration) \<Rightarrow> transition_args" where
  "move_to m to patch = \<lparr>ta_id = mg_id m, ta_from = mg_status m, ta_to = to,
     ta_cutoverVersion = mg_cutoverVersion m, ta_runId = mg_runId m, ta_patch = patch, ta_clear = []\<rparr>"

definition can_move :: "migration \<Rightarrow> migration_status \<Rightarrow> ('s, unit) act" where
  "can_move m to = liftA (assertCanTransition (mg_status m) to)"

definition startCashWalletMigration :: "'s migrations_repo \<Rightarrow> migration \<Rightarrow> int \<Rightarrow> ('s, migration) act" where
  "startCashWalletMigration repo m startedAt =
     bindA (can_move m Started) (\<lambda>_.
     transitionMigration repo (move_to m Started (\<lambda>d. d\<lparr>mg_startedAt := Some startedAt\<rparr>)))"

definition provisionCashWalletMigrationDestination ::
  "'s migrations_repo \<Rightarrow> 's cutover_services \<Rightarrow> migration \<Rightarrow> ('s, migration) act"
where
  "provisionCashWalletMigrationDestination repo svc m =
     bindA (can_move m Provisioned) (\<lambda>_.
     bindA (ensureDestinationWallet svc (mg_accountId m) (mg_destinationUsdtWalletId m)) (\<lambda>_.
     transitionMigration repo (move_to m Provisioned id)))"

definition recordCashWalletMigrationBalance ::
  "'s migrations_repo \<Rightarrow> migration \<Rightarrow> string \<Rightarrow> string \<Rightarrow> ('s, migration) act"
where
  "recordCashWalletMigrationBalance repo m sourceBalanceUsdCents destinationStartingBalanceUsdtMicros =
     bindA (liftA (usdCentsToUsdtMicros sourceBalanceUsdCents)) (\<lambda>destinationAmountUsdtMicros.
     bindA (can_move m Balance_read) (\<lambda>_.
     transitionMigration repo (move_to m Balance_read (\<lambda>d. d\<lparr>
       mg_sourceBalanceUsdCents := Some sourceBalanceUsdCents,
       mg_destinationAmountUsdtMicros := Some destinationAmountUsdtMicros,
       mg_destinationStartingBalanceUsdtMicros := Some destinationStartingBalanceUsdtMicros\<rparr>))))"

definition createCashWalletMigrationBalanceMoveInvoice ::
  "'s migrations_repo \<Rightarrow> 's cutover_services \<Rightarrow> migration \<Rightarrow> ('s, migration) act"
where
  "createCashWalletMigrationBalanceMoveInvoice repo svc m =
     bindA (can_move m Invoice_created) (\<lambda>_.
     if mg_destinationAmountUsdtMicros m = None then failA InvalidCashWalletCutoverAmountError
     else
       bindA (createNoAmountInvoice svc (mg_destinationUsdtWalletId m)
                (''cwco:'' @ mg_runId m @ '':'' @ mg_id m @ '':move'')) (\<lambda>invoice.
       transitionMigration repo (move_to m Invoice_created (\<lambda>d. d\<lparr>
         mg_balanceMoveInvoicePaymentRequest := Some (ci_paymentRequest invoice),
         mg_balanceMoveInvoicePaymentHash := Some (ci_paymentHash invoice)\<rparr>))))"

text \<open>\<open>invoiceService\<close> says whether the optional argument of that name is given.\<close>

definition sendCashWalletMigrationBalanceMovePayment ::
  "'s migrations_repo \<Rightarrow> 's cutover_services \<Rightarrow> bool \<Rightarrow> int \<Rightarrow> migration \<Rightarrow> ('s, migration) act"
where
  "sendCashWalletMigrationBalanceMovePayment repo svc invoiceService safetyWindowMs m =
     bindA (can_move m Balance_move_sending) (\<lambda>_.
     case mg_balanceMoveInvoicePaymentRequest m of
       None \<Rightarrow> failA InvalidCashWalletMigrationTransitionError
     | Some paymentRequest \<Rightarrow>
     if mg_sourceBalanceUsdCents m = None then failA InvalidCashWalletMigrationTransitionError
     else
       bindA (\<lambda>s. if invoiceService
                     \<and> isInvoicePaymentRequestStale svc paymentRequest (sv_now svc s) safetyWindowMs
                  then createCashWalletMigrationBalanceMoveInvoice repo svc m s
                  else retA m s) (\<lambda>payable.
       case mg_balanceMoveInvoicePaymentRequest payable of
         None \<Rightarrow> failA InvalidCashWalletMigrationTransitionError
       | Some payableRequest \<Rightarrow>
       case mg_sourceBalanceUsdCents payable of
         None \<Rightarrow> failA InvalidCashWalletMigrationTransitionError
       | Some senderAmountUsdCents \<Rightarrow>
       bindA (payInvoice svc (mg_legacyUsdWalletId payable) payableRequest
                (Some senderAmountUsdCents) None) (\<lambda>transactionId.
       transitionMigration repo (move_to payable Balance_move_sending (\<lambda>d. d\<lparr>
         mg_balanceMovePaymentTransactionId := Some transactionId\<rparr>)))))"

definition markCashWalletMigrationBalanceMoveSent ::
  "'s migrations_repo \<Rightarrow> migration \<Rightarrow> ('s, migration) act"
where
  "markCashWalletMigrationBalanceMoveSent repo m =
     bindA (can_move m Balance_move_sent) (\<lambda>_.
     if mg_balanceMovePaymentTransactionId m = None then failA InvalidCashWalletMigrationTransitionError
     else transitionMigration repo (move_to m Balance_move_sent id))"

definition verifyCashWalletMigrationBalanceMove ::
  "'s migrations_repo \<Rightarrow> 's cutover_services \<Rightarrow> migration \<Rightarrow> ('s, migration) act"
where
  "verifyCashWalletMigrationBalanceMove repo svc m =
     bindA (can_move m Balance_move_verified) (\<lambda>_.
     case mg_balanceMovePaymentTransactionId m of
       None \<Rightarrow> failA InvalidCashWalletMigrationTransitionError
     | Some transactionId \<Rightarrow>
       bindA (verifyBalanceMove svc (mg_legacyUsdWalletId m) (mg_destinationUsdtWalletId m)
                (mg_sourceBalanceUsdCents m) (mg_destinationAmountUsdtMicros m) transactionId) (\<lambda>_.
       transitionMigration repo (move_to m Balance_move_verified id)))"

definition createCashWalletMigrationFeeReimbursementInvoice ::
  "'s migrations_repo \<Rightarrow> 's cutover_services \<Rightarrow> migration \<Rightarrow> string \<Rightarrow> ('s, migration) act"
where
  "createCashWalletMigrationFeeReimbursementInvoice repo svc m feeAmountUsdtMicros =
     bindA (liftA (usdtMicrosToUsdCentsCeil feeAmountUsdtMicros)) (\<lambda>feeAmountUsdCents.
     bindA (can_move m Fee_reimbursement_invoice_created) (\<lambda>_.
     bindA (liftA (usesNoAmountFeeReimbursementInvoice feeAmountUsdtMicros)) (\<lambda>useNoAmountInvoice.
     let invoiceMemo = ''cwco:'' @ mg_runId m @ '':'' @ mg_id m @ '':fee'' in
     bindA (if useNoAmountInvoice
            then createNoAmountInvoice svc (mg_destinationUsdtWalletId m) invoiceMemo
            else createInvoice svc (mg_destinationUsdtWalletId m) feeAmountUsdtMicros invoiceMemo) (\<lambda>invoice.
     transitionMigration repo (move_to m Fee_reimbursement_invoice_created (\<lambda>d. d\<lparr>
       mg_feeAmountUsdCents := Some feeAmountUsdCents,
       mg_feeAmountUsdtMicros := Some feeAmountUsdtMicros,
       mg_feeReimbursementInvoicePaymentRequest := Some (ci_paymentRequest invoice),
       mg_feeReimbursementInvoicePaymentHash := Some (ci_paymentHash invoice)\<rparr>))))))"

definition skipCashWalletMigrationFeeReimbursement ::
  "'s migrations_repo \<Rightarrow> migration \<Rightarrow> string \<Rightarrow> ('s, migration) act"
where
  "skipCashWalletMigrationFeeReimbursement repo m feeAmountUsdtMicros =
     bindA (can_move m Fee_reimbursed) (\<lambda>_.
     transitionMigration repo (move_to m Fee_reimbursed (\<lambda>d. d\<lparr>
       mg_feeAmountUsdCents := Some ''0'', mg_feeAmountUsdtMicros := Some feeAmountUsdtMicros\<rparr>)))"

definition sendCashWalletMigrationFeeReimbursementPayment ::
  "'s migrations_repo \<Rightarrow> 's cutover_services \<Rightarrow> bool \<Rightarrow> int \<Rightarrow> string \<Rightarrow> migration \<Rightarrow> ('s, migration) act"
where
  "sendCashWalletMigrationFeeReimbursementPayment repo svc invoiceService safetyWindowMs treasuryWalletId m =
     bindA (can_move m Fee_reimbursement_sending) (\<lambda>_.
     case mg_feeReimbursementInvoicePaymentRequest m of
       None \<Rightarrow> failA InvalidCashWalletMigrationTransitionError
     | Some paymentRequest \<Rightarrow>
       bindA (\<lambda>s. if invoiceService
                     \<and> isInvoicePaymentRequestStale svc paymentRequest (sv_now svc s) safetyWindowMs
                  then (case mg_feeAmountUsdtMicros m of
                          None \<Rightarrow> failA InvalidCashWalletMigrationTransitionError s
                        | Some feeAmount \<Rightarrow>
                            createCashWalletMigrationFeeReimbursementInvoice repo svc m feeAmount s)
                  else retA m s) (\<lambda>payable.
       case mg_feeReimbursementInvoicePaymentRequest payable of
         None \<Rightarrow> failA InvalidCashWalletMigrationTransitionError
       | Some payableRequest \<Rightarrow>
       case mg_feeAmountUsdtMicros payable of
         None \<Rightarrow> failA InvalidCashWalletMigrationTransitionError
       | Some feeAmountUsdtMicros \<Rightarrow>
       bindA (liftA (usesNoAmountFeeReimbursementInvoice feeAmountUsdtMicros)) (\<lambda>useNoAmountInvoice.
       bindA (payInvoice svc treasuryWalletId payableRequest None
                (if useNoAmountInvoice then Some feeAmountUsdtMicros else None)) (\<lambda>transactionId.
       transitionMigration repo (move_to payable Fee_reimbursement_sending (\<lambda>d. d\<lparr>
         mg_feeReimbursementPaymentTransactionId := Some transactionId\<rparr>))))))"

definition markCashWalletMigrationFeeReimbursed ::
  "'s migrations_repo \<Rightarrow> migration \<Rightarrow> ('s, migration) act"
where
  "markCashWalletMigrationFeeReimbursed repo m =
     bindA (can_move m Fee_reimbursed) (\<lambda>_.
     if mg_feeReimbursementPaymentTransactionId m = None
     then failA InvalidCashWalletMigrationTransitionError
     else transitionMigration repo (move_to m Fee_reimbursed id))"

definition flipCashWalletMigrationDefaultPointer ::
  "'s migrations_repo \<Rightarrow> 's cutover_services \<Rightarrow> migration \<Rightarrow> ('s, migration) act"
where
  "flipCashWalletMigrationDefaultPointer repo svc m =
     bindA (can_move m Pointer_flipped) (\<lambda>_.
     bindA (flipDefaultWallet svc (mg_accountId m) (mg_destinationUsdtWalletId m)) (\<lambda>previousDefaultWalletId.
     transitionMigration repo (move_to m Pointer_flipped (\<lambda>d. d\<lparr>
       mg_previousDefaultWalletId := Some previousDefaultWalletId\<rparr>))))"

definition verifyCashWalletMigrationLegacyZero ::
  "'s migrations_repo \<Rightarrow> 's cutover_services \<Rightarrow> migration \<Rightarrow> ('s, migration) act"
where
  "verifyCashWalletMigrationLegacyZero repo svc m =
     bindA (can_move m Legacy_zero_verified) (\<lambda>_.
     bindA (verifyLegacyWalletZero svc (mg_legacyUsdWalletId m)) (\<lambda>_.
     transitionMigration repo (move_to m Legacy_zero_verified id)))"

definition completeCashWalletMigration :: "'s migrations_repo \<Rightarrow> migration \<Rightarrow> int \<Rightarrow> ('s, migration) act" where
  "completeCashWalletMigration repo m completedAt =
     bindA (can_move m Complete) (\<lambda>_.
     transitionMigration repo (move_to m Complete (\<lambda>d. d\<lparr>mg_completedAt := Some completedAt\<rparr>)))"

section \<open>handlers.ts and executor.ts\<close>

text \<open>The record of handlers, by status; the statuses without one are terminal.\<close>

fun createCashWalletMigrationStepHandlers ::
  "'s migrations_repo \<Rightarrow> 's cutover_services \<Rightarrow> migration_status \<Rightarrow> (migration \<Rightarrow> ('s, migration) act) option"
where
  "createCashWalletMigrationStepHandlers repo svc Not_started =
     Some (\<lambda>m s. startCashWalletMigration repo m (sv_now svc s) s)"
| "createCashWalletMigrationStepHandlers repo svc Started =
     Some (provisionCashWalletMigrationDestination repo svc)"
| "createCashWalletMigrationStepHandlers repo svc Provisioned = Some (\<lambda>m.
     bindA (readSourceBalanceUsdCents svc m) (\<lambda>sourceBalanceUsdCents.
     bindA (readDestinationBalanceUsdtMicros svc m) (\<lambda>destinationStartingBalanceUsdtMicros.
     recordCashWalletMigrationBalance repo m sourceBalanceUsdCents destinationStartingBalanceUsdtMicros)))"
| "createCashWalletMigrationStepHandlers repo svc Balance_read = Some (\<lambda>m.
     if mg_destinationAmountUsdtMicros m = Some ''0'' then flipCashWalletMigrationDefaultPointer repo svc m
     else createCashWalletMigrationBalanceMoveInvoice repo svc m)"
| "createCashWalletMigrationStepHandlers repo svc Invoice_created =
     Some (sendCashWalletMigrationBalanceMovePayment repo svc True CUTOVER_INVOICE_PAYMENT_SAFETY_WINDOW_MS)"
| "createCashWalletMigrationStepHandlers repo svc Balance_move_sending =
     Some (markCashWalletMigrationBalanceMoveSent repo)"
| "createCashWalletMigrationStepHandlers repo svc Balance_move_sent =
     Some (verifyCashWalletMigrationBalanceMove repo svc)"
| "createCashWalletMigrationStepHandlers repo svc Balance_move_verified = Some (\<lambda>m.
     bindA (readFeeAmountUsdtMicros svc m) (\<lambda>feeAmountUsdtMicros.
     bindA (liftA (isSubMinimumFeeReimbursementAmount feeAmountUsdtMicros)) (\<lambda>subMinimum.
     if subMinimum then skipCashWalletMigrationFeeReimbursement repo m feeAmountUsdtMicros
     else createCashWalletMigrationFeeReimbursementInvoice repo svc m feeAmountUsdtMicros)))"
| "createCashWalletMigrationStepHandlers repo svc Fee_reimbursement_invoice_created = Some (\<lambda>m.
     bindA (getTreasuryWalletId svc) (\<lambda>treasuryWalletId.
     sendCashWalletMigrationFeeReimbursementPayment repo svc True CUTOVER_INVOICE_PAYMENT_SAFETY_WINDOW_MS
       treasuryWalletId m))"
| "createCashWalletMigrationStepHandlers repo svc Fee_reimbursement_sending =
     Some (markCashWalletMigrationFeeReimbursed repo)"
| "createCashWalletMigrationStepHandlers repo svc Fee_reimbursed =
     Some (flipCashWalletMigrationDefaultPointer repo svc)"
| "createCashWalletMigrationStepHandlers repo svc Pointer_flipped =
     Some (verifyCashWalletMigrationLegacyZero repo svc)"
| "createCashWalletMigrationStepHandlers repo svc Legacy_zero_verified =
     Some (\<lambda>m s. completeCashWalletMigration repo m (sv_now svc s) s)"
| "createCashWalletMigrationStepHandlers repo svc _ = None"

definition terminalStatuses :: "migration_status list" where
  "terminalStatuses =
     [Complete, Failed, Requires_operator_review, Skipped_already_migrated, Rollback_started, Rolled_back]"

definition executeCashWalletMigrationStep ::
  "(migration_status \<Rightarrow> (migration \<Rightarrow> ('s, migration) act) option) \<Rightarrow> migration \<Rightarrow> ('s, migration) act"
where
  "executeCashWalletMigrationStep handlers m =
     (if mg_status m \<in> set terminalStatuses then retA m
      else case handlers (mg_status m) of
             None \<Rightarrow> failA (Thrown TypeError)
           | Some handler \<Rightarrow> handler m)"

section \<open>runner.ts and orchestrator.ts\<close>

record batch_result =
  br_attempted :: nat
  br_advanced :: nat
  br_failed :: nat
  br_skipped :: nat

definition AMBIGUOUS_SIDE_EFFECT_STATUSES :: "migration_status list" where
  "AMBIGUOUS_SIDE_EFFECT_STATUSES =
     [Invoice_created, Balance_move_sending, Balance_move_sent, Balance_move_verified,
      Fee_reimbursement_invoice_created, Fee_reimbursement_sending, Fee_reimbursed, Pointer_flipped]"

definition failureStatusForMigration :: "migration_status \<Rightarrow> migration_status" where
  "failureStatusForMigration status =
     (if status \<in> set AMBIGUOUS_SIDE_EFFECT_STATUSES then Requires_operator_review else Failed)"

record batch_args =
  ba_cutoverVersion :: int
  ba_runId :: string
  ba_workerId :: string
  ba_limit :: "nat option"
  ba_lockStaleBefore :: int
  ba_stepDelayMs :: int

definition batch_lock :: "batch_args \<Rightarrow> migration \<Rightarrow> lock_args" where
  "batch_lock a m = \<lparr>la_id = mg_id m, la_workerId = ba_workerId a, la_staleBefore = ba_lockStaleBefore a,
     la_cutoverVersion = ba_cutoverVersion a, la_runId = ba_runId a\<rparr>"

definition batch_unlock :: "batch_args \<Rightarrow> migration \<Rightarrow> release_args" where
  "batch_unlock a m = \<lparr>rl_id = mg_id m, rl_workerId = ba_workerId a,
     rl_cutoverVersion = ba_cutoverVersion a, rl_runId = ba_runId a\<rparr>"

definition batch_failure :: "batch_args \<Rightarrow> migration \<Rightarrow> error \<Rightarrow> mark_failed_args" where
  "batch_failure a m e = \<lparr>fa_id = mg_id m, fa_workerId = ba_workerId a,
     fa_cutoverVersion = ba_cutoverVersion a, fa_runId = ba_runId a, fa_error = e,
     fa_status = failureStatusForMigration (mg_status m)\<rparr>"

text \<open>
  One migration of the loop. An exception of the executor is not caught: it leaves the loop, and the
  migration stays locked. The result of releasing the lock is ignored.
\<close>

definition batch_step_done ::
  "'s migrations_repo \<Rightarrow> (int \<Rightarrow> 's \<Rightarrow> 's) \<Rightarrow> batch_args \<Rightarrow> bool \<Rightarrow> migration \<Rightarrow> batch_result
   \<Rightarrow> migration result \<Rightarrow> ('s, batch_result) act"
where
  "batch_step_done repo sleepFn a isLast locked result step =
     (case step of
        Inl e \<Rightarrow>
          bindA (markMigrationFailed repo (batch_failure a locked e)) (\<lambda>_.
          retA (result\<lparr>br_failed := br_failed result + 1\<rparr>))
      | Inr _ \<Rightarrow>
          bindA (tryA (releaseMigrationLock repo (batch_unlock a locked))) (\<lambda>_ s.
          (Inr (result\<lparr>br_advanced := br_advanced result + 1\<rparr>),
           if ba_stepDelayMs a > 0 \<and> \<not> isLast then sleepFn (ba_stepDelayMs a) s else s)))"

definition batch_locked ::
  "'s migrations_repo \<Rightarrow> (int \<Rightarrow> 's \<Rightarrow> 's) \<Rightarrow> (migration \<Rightarrow> ('s, migration) act) \<Rightarrow> batch_args \<Rightarrow> bool
   \<Rightarrow> batch_result \<Rightarrow> migration result \<Rightarrow> ('s, batch_result) act"
where
  "batch_locked repo sleepFn executor a isLast result got =
     (case got of
        Inl _ \<Rightarrow> retA (result\<lparr>br_skipped := br_skipped result + 1\<rparr>)
      | Inr locked \<Rightarrow>
          bindA (tryA (executor locked)) (batch_step_done repo sleepFn a isLast locked result))"

definition batch_one ::
  "'s migrations_repo \<Rightarrow> (int \<Rightarrow> 's \<Rightarrow> 's) \<Rightarrow> (migration \<Rightarrow> ('s, migration) act) \<Rightarrow> batch_args \<Rightarrow> bool
   \<Rightarrow> migration \<Rightarrow> batch_result \<Rightarrow> ('s, batch_result) act"
where
  "batch_one repo sleepFn executor a isLast m result =
     bindA (tryA (acquireMigrationLock repo (batch_lock a m)))
       (batch_locked repo sleepFn executor a isLast (result\<lparr>br_attempted := br_attempted result + 1\<rparr>))"

primrec batch_loop ::
  "'s migrations_repo \<Rightarrow> (int \<Rightarrow> 's \<Rightarrow> 's) \<Rightarrow> (migration \<Rightarrow> ('s, migration) act) \<Rightarrow> batch_args
   \<Rightarrow> migration list \<Rightarrow> batch_result \<Rightarrow> ('s, batch_result) act"
where
  "batch_loop repo sleepFn executor a [] result = retA result"
| "batch_loop repo sleepFn executor a (m # ms) result =
     bindA (batch_one repo sleepFn executor a (ms = []) m result) (\<lambda>result.
     batch_loop repo sleepFn executor a ms result)"

definition runCashWalletMigrationBatch ::
  "'s migrations_repo \<Rightarrow> (int \<Rightarrow> 's \<Rightarrow> 's) \<Rightarrow> (migration \<Rightarrow> ('s, migration) act) \<Rightarrow> batch_args
   \<Rightarrow> ('s, batch_result) act"
where
  "runCashWalletMigrationBatch repo sleepFn executor a =
     bindA (listRunnableMigrations repo (ba_cutoverVersion a) (ba_runId a) (ba_limit a)) (\<lambda>migrations.
     batch_loop repo sleepFn executor a migrations
       \<lparr>br_attempted = 0, br_advanced = 0, br_failed = 0, br_skipped = 0\<rparr>)"

definition runPrimaryCashWalletCutoverBatch ::
  "'s migrations_repo \<Rightarrow> 's cutover_services \<Rightarrow> (int \<Rightarrow> 's \<Rightarrow> 's) \<Rightarrow> batch_args \<Rightarrow> ('s, batch_result) act"
where
  "runPrimaryCashWalletCutoverBatch repo svc sleepFn a =
     runCashWalletMigrationBatch repo sleepFn
       (executeCashWalletMigrationStep (createCashWalletMigrationStepHandlers repo svc)) a"

end
