(* ===== verification/CutoverRollback.thy ===== *)
theory CutoverRollback
  imports CutoverWorker
begin

text \<open>
  The operator's side of the cutover: rolling migrations back (\<open>rollback-worker.ts\<close>,
  \<open>rollback.ts\<close>), retrying failed ones (\<open>retry-failed.ts\<close>) and starting, completing and
  reporting a run (\<open>lifecycle.ts\<close>), all under \<open>src/app/cash-wallet-cutover/\<close>.
\<close>

section \<open>rollback-worker.ts\<close>

definition ROLLBACK_SHORTFALL_TOLERANCE_USDT_MICROS :: int where
  "ROLLBACK_SHORTFALL_TOLERANCE_USDT_MICROS = 10000"

definition isRollbackableCashWalletMigrationStatus :: "migration_status \<Rightarrow> bool" where
  "isRollbackableCashWalletMigrationStatus status \<longleftrightarrow> status \<in> set ROLLBACKABLE_STATUSES"

definition requestCashWalletMigrationRollback ::
  "'s migrations_repo \<Rightarrow> string \<Rightarrow> string \<Rightarrow> int \<Rightarrow> migration \<Rightarrow> ('s, migration) act"
where
  "requestCashWalletMigrationRollback repo requestedBy reason requestedAt m =
     bindA (can_move m Rollback_started) (\<lambda>_.
     transitionMigration repo (move_to m Rollback_started (\<lambda>d. d\<lparr>
       mg_rollbackRequestedAt := Some requestedAt,
       mg_rollbackRequestedBy := Some requestedBy,
       mg_rollbackReason := Some reason,
       mg_rollbackFromStatus := Some (mg_status m)\<rparr>)))"

definition rollback_args :: "migration \<Rightarrow> migration_status \<Rightarrow> (migration \<Rightarrow> migration) \<Rightarrow> transition_args" where
  "rollback_args m to patch = \<lparr>ta_id = mg_id m, ta_from = Rollback_started, ta_to = to,
     ta_cutoverVersion = mg_cutoverVersion m, ta_runId = mg_runId m, ta_patch = patch, ta_clear = []\<rparr>"

definition patchRollbackProgress ::
  "'s migrations_repo \<Rightarrow> migration \<Rightarrow> (migration \<Rightarrow> migration) \<Rightarrow> ('s, migration) act"
where
  "patchRollbackProgress repo m patch =
     transitionMigration repo (rollback_args m Rollback_started patch)"

text \<open>
  The four numbered parts of \<open>executeCashWalletMigrationRollbackStep\<close>. An invoice is refreshed when
  it is missing or stale at the time of the clock.
\<close>

definition restore_pointer ::
  "'s migrations_repo \<Rightarrow> 's cutover_services \<Rightarrow> migration \<Rightarrow> ('s, migration) act"
where
  "restore_pointer repo svc current =
     (if mg_rollbackPointerRestoredAt current \<noteq> None then retA current
      else
        bindA (case mg_previousDefaultWalletId current of
                 None \<Rightarrow> retA ()
               | Some previousDefaultWalletId \<Rightarrow>
                 bindA (getDefaultWalletId svc (mg_accountId current)) (\<lambda>defaultWalletId.
                 if defaultWalletId = mg_destinationUsdtWalletId current
                 then bindA (flipDefaultWallet svc (mg_accountId current) previousDefaultWalletId)
                        (\<lambda>_. retA ())
                 else retA ())) (\<lambda>_ s.
        patchRollbackProgress repo current
          (\<lambda>d. d\<lparr>mg_rollbackPointerRestoredAt := Some (sv_now svc s)\<rparr>) s))"

definition rollback_invoice ::
  "'s migrations_repo \<Rightarrow> 's cutover_services \<Rightarrow> (migration \<Rightarrow> string option) \<Rightarrow> string
   \<Rightarrow> (created_invoice \<Rightarrow> migration \<Rightarrow> migration) \<Rightarrow> migration \<Rightarrow> ('s, migration) act"
where
  "rollback_invoice repo svc request memoSuffix patch current = (\<lambda>s.
     if (case request current of
           None \<Rightarrow> True
         | Some paymentRequest \<Rightarrow>
             isInvoicePaymentRequestStale svc paymentRequest (sv_now svc s)
               CUTOVER_INVOICE_PAYMENT_SAFETY_WINDOW_MS)
     then
       bindA (createNoAmountInvoice svc (mg_legacyUsdWalletId current)
                (''cwco-rb:'' @ mg_runId current @ '':'' @ mg_id current @ memoSuffix)) (\<lambda>invoice.
       patchRollbackProgress repo current (patch invoice)) s
     else retA current s)"

definition reverse_balance_move ::
  "'s migrations_repo \<Rightarrow> 's cutover_services \<Rightarrow> migration \<Rightarrow> ('s, migration) act"
where
  "reverse_balance_move repo svc current =
     (if mg_balanceMovePaymentTransactionId current = None
       \<or> mg_rollbackPaymentTransactionId current \<noteq> None then retA current
      else case mg_destinationAmountUsdtMicros current of
        None \<Rightarrow> failA InvalidCashWalletMigrationTransitionError
      | Some destinationAmountUsdtMicros \<Rightarrow>
        if destinationAmountUsdtMicros = ''0'' then retA current
        else
          bindA (liftA (BigInt_string destinationAmountUsdtMicros)) (\<lambda>target.
          bindA (readDestinationSpendableUsdtMicros svc current) (\<lambda>spendableStr.
          bindA (liftA (BigInt_string spendableStr)) (\<lambda>spendable.
          let reverseAmount = (if spendable < target then spendable else target);
              shortfall = target - reverseAmount
          in if shortfall > ROLLBACK_SHORTFALL_TOLERANCE_USDT_MICROS then failA CashWalletMigrationFailedError
             else if reverseAmount < CUTOVER_MIN_PAYABLE_USDT_MICROS then failA CashWalletMigrationFailedError
             else
               bindA (rollback_invoice repo svc mg_rollbackInvoicePaymentRequest '':move''
                        (\<lambda>invoice d. d\<lparr>
                           mg_rollbackInvoicePaymentRequest := Some (ci_paymentRequest invoice),
                           mg_rollbackInvoicePaymentHash := Some (ci_paymentHash invoice)\<rparr>) current) (\<lambda>current.
               case mg_rollbackInvoicePaymentRequest current of
                 None \<Rightarrow> failA InvalidCashWalletMigrationTransitionError
               | Some paymentRequest \<Rightarrow>
                 bindA (payInvoice svc (mg_destinationUsdtWalletId current) paymentRequest None
                          (Some (show_int reverseAmount))) (\<lambda>transactionId.
                 patchRollbackProgress repo current
                   (\<lambda>d. d\<lparr>mg_rollbackPaymentTransactionId := Some transactionId\<rparr>)))))))"

text \<open>The top-up of a shortfall: the step ends here, still in \<open>rollback_started\<close>.\<close>

definition top_up_shortfall ::
  "'s migrations_repo \<Rightarrow> 's cutover_services \<Rightarrow> string \<Rightarrow> migration \<Rightarrow> ('s, migration) act"
where
  "top_up_shortfall repo svc shortfall current =
     (if mg_rollbackShortfallPaymentTransactionId current \<noteq> None then failA CashWalletMigrationFailedError
      else
        bindA (getTreasuryWalletId svc) (\<lambda>treasuryWalletId.
        bindA (rollback_invoice repo svc mg_rollbackShortfallInvoicePaymentRequest '':shortfall''
                 (\<lambda>invoice d. d\<lparr>
                    mg_rollbackShortfallUsdtMicros := Some shortfall,
                    mg_rollbackShortfallInvoicePaymentRequest := Some (ci_paymentRequest invoice),
                    mg_rollbackShortfallInvoicePaymentHash := Some (ci_paymentHash invoice)\<rparr>) current) (\<lambda>current.
        case mg_rollbackShortfallInvoicePaymentRequest current of
          None \<Rightarrow> failA InvalidCashWalletMigrationTransitionError
        | Some paymentRequest \<Rightarrow>
          bindA (payInvoice svc treasuryWalletId paymentRequest None (Some shortfall)) (\<lambda>transactionId.
          patchRollbackProgress repo current
            (\<lambda>d. d\<lparr>mg_rollbackShortfallPaymentTransactionId := Some transactionId\<rparr>)))))"

definition finish_rollback :: "'s migrations_repo \<Rightarrow> 's cutover_services \<Rightarrow> migration \<Rightarrow> ('s, migration) act" where
  "finish_rollback repo svc current = (\<lambda>s.
     transitionMigration repo
       (rollback_args current Rolled_back (\<lambda>d. d\<lparr>mg_rolledBackAt := Some (sv_now svc s)\<rparr>)) s)"

text \<open>\<open>forwardMovedFunds\<close> is read after the pointer is restored and kept.\<close>

definition verify_whole ::
  "'s migrations_repo \<Rightarrow> 's cutover_services \<Rightarrow> bool \<Rightarrow> migration \<Rightarrow> ('s, migration) act"
where
  "verify_whole repo svc forwardMovedFunds current =
     (if \<not> forwardMovedFunds then finish_rollback repo svc current
      else case mg_sourceBalanceUsdCents current of
        None \<Rightarrow> failA InvalidCashWalletMigrationTransitionError
      | Some sourceUsdCents \<Rightarrow>
        bindA (readSourceBalanceUsdCents svc current) (\<lambda>currentUsdCents.
        bindA (liftA (legacyShortfallUsdtMicros sourceUsdCents currentUsdCents)) (\<lambda>shortfall.
        bindA (liftA (BigInt_string shortfall)) (\<lambda>shortfallMicros.
        if shortfallMicros > ROLLBACK_SHORTFALL_TOLERANCE_USDT_MICROS
        then top_up_shortfall repo svc shortfall current
        else finish_rollback repo svc current))))"

definition executeCashWalletMigrationRollbackStep ::
  "'s migrations_repo \<Rightarrow> 's cutover_services \<Rightarrow> migration \<Rightarrow> ('s, migration) act"
where
  "executeCashWalletMigrationRollbackStep repo svc m =
     (if mg_status m \<noteq> Rollback_started then failA InvalidCashWalletMigrationTransitionError
      else
        bindA (restore_pointer repo svc m) (\<lambda>current.
        let forwardMovedFunds = mg_balanceMovePaymentTransactionId current \<noteq> None in
        bindA (reverse_balance_move repo svc current) (\<lambda>current.
        verify_whole repo svc forwardMovedFunds current)))"

section \<open>rollback.ts\<close>

record rollback_report =
  rr_dryRun :: bool
  rr_eligible :: nat
  rr_requested :: nat
  rr_skipped :: "migration_status \<Rightarrow> nat"
  rr_migrationIds :: "string list"

record request_args =
  rq_cutoverVersion :: int
  rq_runId :: string
  rq_accountId :: "string option"
  rq_reason :: string
  rq_requestedBy :: string
  rq_dryRun :: bool
  rq_now :: int

definition rollback_candidates :: "'s migrations_repo \<Rightarrow> request_args \<Rightarrow> ('s, migration list) act" where
  "rollback_candidates repo a =
     (case rq_accountId a of
        Some accountId \<Rightarrow>
          bindA (findMigrationByAccountId repo accountId (rq_cutoverVersion a) (rq_runId a)) (\<lambda>found.
          case found of
            None \<Rightarrow> failA CashWalletMigrationFailedError
          | Some m \<Rightarrow> retA [m])
      | None \<Rightarrow>
          listMigrationsByStatuses repo (rq_cutoverVersion a) (rq_runId a)
            (ROLLBACKABLE_STATUSES @ [Rollback_started, Rolled_back]) None)"

primrec request_loop ::
  "'s migrations_repo \<Rightarrow> request_args \<Rightarrow> migration list \<Rightarrow> rollback_report \<Rightarrow> ('s, rollback_report) act"
where
  "request_loop repo a [] report = retA report"
| "request_loop repo a (m # ms) report =
     (if \<not> isRollbackableCashWalletMigrationStatus (mg_status m)
      then request_loop repo a ms
             (report\<lparr>rr_skipped := (rr_skipped report)(mg_status m := rr_skipped report (mg_status m) + 1)\<rparr>)
      else
        let report = report\<lparr>rr_eligible := rr_eligible report + 1,
                            rr_migrationIds := rr_migrationIds report @ [mg_id m]\<rparr> in
        if rq_dryRun a then request_loop repo a ms report
        else
          bindA (requestCashWalletMigrationRollback repo (rq_requestedBy a) (rq_reason a) (rq_now a) m) (\<lambda>_.
          request_loop repo a ms (report\<lparr>rr_requested := rr_requested report + 1\<rparr>)))"

definition requestPrimaryCashWalletRollback ::
  "'s migrations_repo \<Rightarrow> request_args \<Rightarrow> ('s, rollback_report) act"
where
  "requestPrimaryCashWalletRollback repo a =
     bindA (rollback_candidates repo a) (\<lambda>candidates.
     request_loop repo a candidates
       \<lparr>rr_dryRun = rq_dryRun a, rr_eligible = 0, rr_requested = 0, rr_skipped = (\<lambda>_. 0), rr_migrationIds = []\<rparr>)"

text \<open>The repository of the rollback batch: its work list and its failure status are overridden.\<close>

definition rollback_batch_repo :: "'s migrations_repo \<Rightarrow> 's migrations_repo" where
  "rollback_batch_repo repo = repo\<lparr>
     listRunnableMigrations := (\<lambda>v r limit. listMigrationsByStatuses repo v r [Rollback_started] limit),
     markMigrationFailed := (\<lambda>a. markMigrationFailed repo (a\<lparr>fa_status := Requires_operator_review\<rparr>))\<rparr>"

definition runPrimaryCashWalletRollbackBatch ::
  "'s migrations_repo \<Rightarrow> 's cutover_services \<Rightarrow> (int \<Rightarrow> 's \<Rightarrow> 's) \<Rightarrow> batch_args \<Rightarrow> ('s, batch_result) act"
where
  "runPrimaryCashWalletRollbackBatch repo svc sleepFn a =
     runCashWalletMigrationBatch (rollback_batch_repo repo) sleepFn
       (executeCashWalletMigrationRollbackStep repo svc) a"

definition unresolvedStatuses :: "migration_status list" where
  "unresolvedStatuses =
     [Not_started, Started, Provisioned, Balance_read, Invoice_created, Balance_move_sending,
      Balance_move_sent, Balance_move_verified, Fee_reimbursement_invoice_created,
      Fee_reimbursement_sending, Fee_reimbursed, Pointer_flipped, Legacy_zero_verified, Complete,
      Failed, Requires_operator_review, Rollback_started]"

definition completePrimaryCashWalletRollback ::
  "'s migrations_repo \<Rightarrow> int \<Rightarrow> string \<Rightarrow> string \<Rightarrow> int \<Rightarrow> ('s, cutover_config) act"
where
  "completePrimaryCashWalletRollback repo cutoverVersion runId actor now =
     bindA (getConfig repo) (\<lambda>config.
     if cc_state config = Cutover_rolled_back then retA config
     else if cc_runId config \<noteq> Some runId \<or> cc_cutoverVersion config \<noteq> cutoverVersion
     then failA InvalidCashWalletCutoverStateTransitionError
     else
       bindA (listMigrationsByStatuses repo cutoverVersion runId unresolvedStatuses (Some 1)) (\<lambda>unresolved.
       if unresolved \<noteq> [] then failA CashWalletCutoverInProgressError
       else updateConfig repo (\<lambda>c. c\<lparr>cc_state := Cutover_rolled_back, cc_cutoverVersion := cutoverVersion,
              cc_runId := Some runId, cc_completedAt := Some now\<rparr>) actor))"

section \<open>retry-failed.ts\<close>

record retry_report =
  rt_dryRun :: bool
  rt_eligible :: int
  rt_retried :: nat
  rt_skippedMoneyMoved :: nat
  rt_conflicts :: nat
  rt_resumedAt :: "migration_status \<Rightarrow> int"
  rt_migrationIds :: "string list"

record retry_args =
  ry_cutoverVersion :: int
  ry_runId :: string
  ry_accountId :: "string option"
  ry_dryRun :: bool

definition retry_candidates :: "'s migrations_repo \<Rightarrow> retry_args \<Rightarrow> ('s, migration list) act" where
  "retry_candidates repo a =
     (case ry_accountId a of
        Some accountId \<Rightarrow>
          bindA (findMigrationByAccountId repo accountId (ry_cutoverVersion a) (ry_runId a)) (\<lambda>found.
          case found of
            None \<Rightarrow> failA CashWalletMigrationFailedError
          | Some m \<Rightarrow> if mg_status m \<noteq> Failed then failA CashWalletMigrationFailedError else retA [m])
      | None \<Rightarrow> listMigrationsByStatuses repo (ry_cutoverVersion a) (ry_runId a) [Failed] None)"

definition resumeStatus :: "migration \<Rightarrow> migration_status" where
  "resumeStatus m = (if mg_previousDefaultWalletId m \<noteq> None then Pointer_flipped else Not_started)"

definition retry_transition :: "retry_args \<Rightarrow> migration \<Rightarrow> transition_args" where
  "retry_transition a m = \<lparr>ta_id = mg_id m, ta_from = Failed, ta_to = resumeStatus m,
     ta_cutoverVersion = ry_cutoverVersion a, ta_runId = ry_runId a,
     ta_patch = (\<lambda>d. d\<lparr>mg_attempts := 0\<rparr>),
     ta_clear = (if resumeStatus m = Not_started
       then [F_lastError, F_sourceBalanceUsdCents, F_destinationAmountUsdtMicros,
             F_destinationStartingBalanceUsdtMicros, F_feeAmountUsdCents, F_feeAmountUsdtMicros,
             F_balanceMoveInvoicePaymentRequest, F_balanceMoveInvoicePaymentHash,
             F_feeReimbursementInvoicePaymentRequest, F_feeReimbursementInvoicePaymentHash]
       else [F_lastError])\<rparr>"

definition count_resumed :: "migration \<Rightarrow> int \<Rightarrow> retry_report \<Rightarrow> retry_report" where
  "count_resumed m n report =
     report\<lparr>rt_eligible := rt_eligible report + n,
            rt_resumedAt := (rt_resumedAt report)
              (resumeStatus m := rt_resumedAt report (resumeStatus m) + n)\<rparr>"

primrec retry_loop ::
  "'s migrations_repo \<Rightarrow> retry_args \<Rightarrow> migration list \<Rightarrow> retry_report \<Rightarrow> ('s, retry_report) act"
where
  "retry_loop repo a [] report = retA report"
| "retry_loop repo a (m # ms) report =
     (if mg_balanceMovePaymentTransactionId m \<noteq> None \<or> mg_feeReimbursementPaymentTransactionId m \<noteq> None
      then retry_loop repo a ms (report\<lparr>rt_skippedMoneyMoved := rt_skippedMoneyMoved report + 1\<rparr>)
      else
        let report = (count_resumed m 1 report)\<lparr>rt_migrationIds := rt_migrationIds report @ [mg_id m]\<rparr> in
        if ry_dryRun a then retry_loop repo a ms report
        else
          bindA (tryA (transitionMigration repo (retry_transition a m))) (\<lambda>transitioned.
          case transitioned of
            Inl _ \<Rightarrow>
              retry_loop repo a ms
                ((count_resumed m (- 1) report)\<lparr>rt_migrationIds := butlast (rt_migrationIds report),
                   rt_conflicts := rt_conflicts report + 1\<rparr>)
          | Inr _ \<Rightarrow> retry_loop repo a ms (report\<lparr>rt_retried := rt_retried report + 1\<rparr>)))"

definition retryFailedCashWalletMigrations :: "'s migrations_repo \<Rightarrow> retry_args \<Rightarrow> ('s, retry_report) act" where
  "retryFailedCashWalletMigrations repo a =
     bindA (retry_candidates repo a) (\<lambda>candidates.
     retry_loop repo a candidates
       \<lparr>rt_dryRun = ry_dryRun a, rt_eligible = 0, rt_retried = 0, rt_skippedMoneyMoved = 0,
        rt_conflicts = 0, rt_resumedAt = (\<lambda>_. 0), rt_migrationIds = []\<rparr>)"

section \<open>lifecycle.ts\<close>

definition migrationStatuses :: "migration_status list" where
  "migrationStatuses =
     [Not_started, Started, Provisioned, Balance_read, Invoice_created, Balance_move_sending,
      Balance_move_sent, Balance_move_verified, Fee_reimbursement_invoice_created,
      Fee_reimbursement_sending, Fee_reimbursed, Pointer_flipped, Legacy_zero_verified, Complete,
      Failed, Requires_operator_review, Skipped_already_migrated, Rollback_started, Rolled_back]"

definition startPrimaryCashWalletCutover ::
  "'s migrations_repo \<Rightarrow> int \<Rightarrow> string \<Rightarrow> string \<Rightarrow> int \<Rightarrow> ('s, cutover_config) act"
where
  "startPrimaryCashWalletCutover repo cutoverVersion runId actor now =
     bindA (getConfig repo) (\<lambda>config.
     if cc_state config = Cutover_complete then failA InvalidCashWalletCutoverStateTransitionError
     else if cc_state config = In_progress then
       (if cc_runId config = Some runId \<and> cc_cutoverVersion config = cutoverVersion then retA config
        else failA CashWalletCutoverInProgressError)
     else
       bindA (listRunnableMigrations repo cutoverVersion runId (Some 1)) (\<lambda>runnable.
       if runnable = [] then failA CashWalletCutoverPreflightError
       else updateConfig repo (\<lambda>c. c\<lparr>cc_state := In_progress, cc_cutoverVersion := cutoverVersion,
              cc_runId := Some runId, cc_startedAt := Some now, cc_scheduledAt := None,
              cc_pausedAt := None, cc_pauseReason := None\<rparr>) actor))"

definition completePrimaryCashWalletCutover ::
  "'s migrations_repo \<Rightarrow> int \<Rightarrow> string \<Rightarrow> string \<Rightarrow> int \<Rightarrow> ('s, cutover_config) act"
where
  "completePrimaryCashWalletCutover repo cutoverVersion runId actor now =
     bindA (countByStatus repo cutoverVersion runId Failed) (\<lambda>failedCount.
     if failedCount > 0 then failA CashWalletMigrationFailedError
     else
       bindA (countByStatus repo cutoverVersion runId Requires_operator_review) (\<lambda>reviewCount.
       if reviewCount > 0 then failA CashWalletMigrationFailedError
       else
         bindA (listRunnableMigrations repo cutoverVersion runId (Some 1)) (\<lambda>runnable.
         if runnable \<noteq> [] then failA CashWalletCutoverInProgressError
         else updateConfig repo (\<lambda>c. c\<lparr>cc_state := Cutover_complete, cc_cutoverVersion := cutoverVersion,
                cc_runId := Some runId, cc_completedAt := Some now\<rparr>) actor)))"

record status_report =
  sr_config :: cutover_config
  sr_countsByStatus :: "migration_status \<Rightarrow> nat"

primrec count_statuses ::
  "'s migrations_repo \<Rightarrow> int \<Rightarrow> string \<Rightarrow> migration_status list \<Rightarrow> (migration_status \<Rightarrow> nat)
   \<Rightarrow> ('s, migration_status \<Rightarrow> nat) act"
where
  "count_statuses repo cutoverVersion runId [] counts = retA counts"
| "count_statuses repo cutoverVersion runId (status # statuses) counts =
     bindA (countByStatus repo cutoverVersion runId status) (\<lambda>count.
     count_statuses repo cutoverVersion runId statuses
       (if count > 0 then counts(status := count) else counts))"

definition getPrimaryCashWalletCutoverStatus ::
  "'s migrations_repo \<Rightarrow> int \<Rightarrow> string \<Rightarrow> ('s, status_report) act"
where
  "getPrimaryCashWalletCutoverStatus repo cutoverVersion runId =
     bindA (getConfig repo) (\<lambda>config.
     bindA (count_statuses repo cutoverVersion runId migrationStatuses (\<lambda>_. 0)) (\<lambda>countsByStatus.
     retA \<lparr>sr_config = config, sr_countsByStatus = countsByStatus\<rparr>))"

end
