(* ===== verification/CutoverMachine.thy ===== *)
theory CutoverMachine
  imports CutoverRollback
begin

text \<open>
  The abstract specification of the cutover: how one stored migration may change. The relation
  \<open>forward_step\<close> has one rule per step of the pipeline, \<open>rollback_step\<close> one per sub-step of a
  rollback, and \<open>migration_step\<close> adds locking, the marking of failures, rollback requests and
  retries. Its invariant \<open>migration_wf\<close> says which fields are recorded in which status.
\<close>

abbreviation enters :: "migration_status \<Rightarrow> int \<Rightarrow> migration \<Rightarrow> migration" where
  "enters st n m \<equiv> m\<lparr>mg_status := st, mg_updatedAt := n\<rparr>"

section \<open>The steps of one migration\<close>

inductive forward_step :: "migration \<Rightarrow> migration \<Rightarrow> bool" where
  start: "mg_status m = Not_started \<Longrightarrow>
    forward_step m (enters Started n (m\<lparr>mg_startedAt := Some t\<rparr>))"
| provision: "mg_status m = Started \<Longrightarrow> forward_step m (enters Provisioned n m)"
| read_balance: "mg_status m = Provisioned \<Longrightarrow> usdCentsToUsdtMicros cents = Inr micros \<Longrightarrow>
    forward_step m (enters Balance_read n (m\<lparr>mg_sourceBalanceUsdCents := Some cents,
      mg_destinationAmountUsdtMicros := Some micros,
      mg_destinationStartingBalanceUsdtMicros := Some starting\<rparr>))"
| flip_empty: "mg_status m = Balance_read \<Longrightarrow> mg_destinationAmountUsdtMicros m = Some ''0'' \<Longrightarrow>
    forward_step m (enters Pointer_flipped n (m\<lparr>mg_previousDefaultWalletId := Some w\<rparr>))"
| invoice: "mg_status m = Balance_read \<and> mg_destinationAmountUsdtMicros m \<noteq> Some ''0''
      \<or> mg_status m = Invoice_created \<Longrightarrow>
    forward_step m (enters Invoice_created n (m\<lparr>mg_balanceMoveInvoicePaymentRequest := Some request,
      mg_balanceMoveInvoicePaymentHash := Some hash\<rparr>))"
| pay: "mg_status m = Invoice_created \<Longrightarrow>
    forward_step m (enters Balance_move_sending n (m\<lparr>mg_balanceMovePaymentTransactionId := Some tx\<rparr>))"
| sent: "mg_status m = Balance_move_sending \<Longrightarrow> forward_step m (enters Balance_move_sent n m)"
| verified: "mg_status m = Balance_move_sent \<Longrightarrow> forward_step m (enters Balance_move_verified n m)"
| skip_fee: "mg_status m = Balance_move_verified \<Longrightarrow> isSubMinimumFeeReimbursementAmount fee = Inr True \<Longrightarrow>
    forward_step m (enters Fee_reimbursed n (m\<lparr>mg_feeAmountUsdCents := Some ''0'',
      mg_feeAmountUsdtMicros := Some fee\<rparr>))"
| fee_invoice: "mg_status m = Balance_move_verified \<and> isSubMinimumFeeReimbursementAmount fee = Inr False
      \<or> mg_status m = Fee_reimbursement_invoice_created \<and> mg_feeAmountUsdtMicros m = Some fee \<Longrightarrow>
    forward_step m (enters Fee_reimbursement_invoice_created n (m\<lparr>mg_feeAmountUsdCents := Some cents,
      mg_feeAmountUsdtMicros := Some fee, mg_feeReimbursementInvoicePaymentRequest := Some request,
      mg_feeReimbursementInvoicePaymentHash := Some hash\<rparr>))"
| pay_fee: "mg_status m = Fee_reimbursement_invoice_created \<Longrightarrow>
    forward_step m (enters Fee_reimbursement_sending n (m\<lparr>mg_feeReimbursementPaymentTransactionId := Some tx\<rparr>))"
| fee_paid: "mg_status m = Fee_reimbursement_sending \<Longrightarrow> forward_step m (enters Fee_reimbursed n m)"
| flip: "mg_status m = Fee_reimbursed \<Longrightarrow>
    forward_step m (enters Pointer_flipped n (m\<lparr>mg_previousDefaultWalletId := Some w\<rparr>))"
| legacy_zero: "mg_status m = Pointer_flipped \<Longrightarrow> forward_step m (enters Legacy_zero_verified n m)"
| finish: "mg_status m = Legacy_zero_verified \<Longrightarrow>
    forward_step m (enters Complete n (m\<lparr>mg_completedAt := Some t\<rparr>))"

text \<open>When the funds that were moved forward have been moved back.\<close>

definition reversed :: "migration \<Rightarrow> bool" where
  "reversed m \<longleftrightarrow> mg_balanceMovePaymentTransactionId m = None
     \<or> mg_destinationAmountUsdtMicros m = Some ''0'' \<or> mg_rollbackPaymentTransactionId m \<noteq> None"

inductive rollback_step :: "migration \<Rightarrow> migration \<Rightarrow> bool" where
  restore: "mg_status m = Rollback_started \<Longrightarrow> mg_rollbackPointerRestoredAt m = None \<Longrightarrow>
    rollback_step m (enters Rollback_started n (m\<lparr>mg_rollbackPointerRestoredAt := Some t\<rparr>))"
| reverse_invoice: "mg_status m = Rollback_started \<Longrightarrow> mg_rollbackPointerRestoredAt m \<noteq> None \<Longrightarrow>
    \<not> reversed m \<Longrightarrow>
    rollback_step m (enters Rollback_started n (m\<lparr>mg_rollbackInvoicePaymentRequest := Some request,
      mg_rollbackInvoicePaymentHash := Some hash\<rparr>))"
| reverse_pay: "mg_status m = Rollback_started \<Longrightarrow> mg_rollbackPointerRestoredAt m \<noteq> None \<Longrightarrow>
    \<not> reversed m \<Longrightarrow>
    rollback_step m (enters Rollback_started n (m\<lparr>mg_rollbackPaymentTransactionId := Some tx\<rparr>))"
| top_up_invoice: "mg_status m = Rollback_started \<Longrightarrow> mg_balanceMovePaymentTransactionId m \<noteq> None \<Longrightarrow>
    mg_rollbackPointerRestoredAt m \<noteq> None \<Longrightarrow> reversed m \<Longrightarrow>
    mg_rollbackShortfallPaymentTransactionId m = None \<Longrightarrow>
    rollback_step m (enters Rollback_started n (m\<lparr>mg_rollbackShortfallUsdtMicros := Some shortfall,
      mg_rollbackShortfallInvoicePaymentRequest := Some request,
      mg_rollbackShortfallInvoicePaymentHash := Some hash\<rparr>))"
| top_up_pay: "mg_status m = Rollback_started \<Longrightarrow> mg_balanceMovePaymentTransactionId m \<noteq> None \<Longrightarrow>
    mg_rollbackPointerRestoredAt m \<noteq> None \<Longrightarrow> reversed m \<Longrightarrow>
    mg_rollbackShortfallPaymentTransactionId m = None \<Longrightarrow>
    rollback_step m (enters Rollback_started n (m\<lparr>mg_rollbackShortfallPaymentTransactionId := Some tx\<rparr>))"
| roll_back: "mg_status m = Rollback_started \<Longrightarrow> mg_rollbackPointerRestoredAt m \<noteq> None \<Longrightarrow> reversed m \<Longrightarrow>
    rollback_step m (enters Rolled_back n (m\<lparr>mg_rolledBackAt := Some t\<rparr>))"

text \<open>
  A failed step is marked after it: the migration may by then have moved from the status \<open>st\<close> the
  step started in, along \<open>forward_step\<close>.
\<close>

definition pipeline_position :: "migration_status \<Rightarrow> nat" where
  "pipeline_position st = (case st of
     Not_started \<Rightarrow> 0 | Started \<Rightarrow> 1 | Provisioned \<Rightarrow> 2 | Balance_read \<Rightarrow> 3 | Invoice_created \<Rightarrow> 4
   | Balance_move_sending \<Rightarrow> 5 | Balance_move_sent \<Rightarrow> 6 | Balance_move_verified \<Rightarrow> 7
   | Fee_reimbursement_invoice_created \<Rightarrow> 8 | Fee_reimbursement_sending \<Rightarrow> 9 | Fee_reimbursed \<Rightarrow> 10
   | Pointer_flipped \<Rightarrow> 11 | Legacy_zero_verified \<Rightarrow> 12 | Complete \<Rightarrow> 13 | _ \<Rightarrow> 14)"

definition money_may_move :: "migration_status \<Rightarrow> bool" where
  "money_may_move st \<longleftrightarrow> 5 \<le> pipeline_position st \<and> pipeline_position st \<le> 10"

inductive migration_step :: "migration \<Rightarrow> migration \<Rightarrow> bool" where
  forward: "forward_step m m' \<Longrightarrow> migration_step m m'"
| rollback: "rollback_step m m' \<Longrightarrow> migration_step m m'"
| lock: "migration_step m (lock_update l n m)"
| release: "migration_step m (release_update n m)"
| mark_failed: "fa_status a = Failed \<Longrightarrow> \<not> money_may_move (mg_status m)
    \<Longrightarrow> pipeline_position (mg_status m) < 14 \<Longrightarrow> migration_step m (failed_update a n m)"
| mark_review: "fa_status a = Requires_operator_review \<Longrightarrow> migration_step m (failed_update a n m)"
| request_rollback: "mg_status m \<in> set ROLLBACKABLE_STATUSES \<Longrightarrow>
    migration_step m (enters Rollback_started n (m\<lparr>mg_rollbackRequestedAt := Some t,
      mg_rollbackRequestedBy := Some by, mg_rollbackReason := Some why,
      mg_rollbackFromStatus := Some (mg_status m)\<rparr>))"
| retry: "mg_status m = Failed \<Longrightarrow> mg_balanceMovePaymentTransactionId m = None \<Longrightarrow>
    mg_feeReimbursementPaymentTransactionId m = None \<Longrightarrow>
    migration_step m (transition_update (retry_transition a m) n m)"

inductive_cases forward_stepE [elim]: "forward_step m m'"
inductive_cases rollback_stepE [elim]: "rollback_step m m'"

section \<open>The invariant\<close>

definition moved_amount :: "migration \<Rightarrow> bool" where
  "moved_amount m \<longleftrightarrow> (\<exists>cents micros. mg_sourceBalanceUsdCents m = Some cents
     \<and> mg_destinationAmountUsdtMicros m = Some micros \<and> usdCentsToUsdtMicros cents = Inr micros)"

definition forward_wf :: "migration \<Rightarrow> bool" where
  "forward_wf m \<longleftrightarrow>
     (case mg_status m of
        Balance_read \<Rightarrow> moved_amount m
      | Invoice_created \<Rightarrow> moved_amount m \<and> mg_destinationAmountUsdtMicros m \<noteq> Some ''0''
          \<and> mg_balanceMoveInvoicePaymentRequest m \<noteq> None
      | Fee_reimbursement_invoice_created \<Rightarrow> mg_feeReimbursementInvoicePaymentRequest m \<noteq> None
          \<and> (\<exists>fee. mg_feeAmountUsdtMicros m = Some fee \<and> isSubMinimumFeeReimbursementAmount fee = Inr False)
      | Fee_reimbursement_sending \<Rightarrow> mg_feeReimbursementPaymentTransactionId m \<noteq> None
      | Pointer_flipped \<Rightarrow> mg_previousDefaultWalletId m \<noteq> None
      | Legacy_zero_verified \<Rightarrow> mg_previousDefaultWalletId m \<noteq> None
      | Complete \<Rightarrow> mg_previousDefaultWalletId m \<noteq> None \<and> mg_completedAt m \<noteq> None
      | Failed \<Rightarrow> mg_balanceMovePaymentTransactionId m \<noteq> None \<longrightarrow> mg_previousDefaultWalletId m \<noteq> None
      | Rollback_started \<Rightarrow> mg_rollbackFromStatus m \<noteq> None
      | Rolled_back \<Rightarrow> mg_rolledBackAt m \<noteq> None \<and> mg_rollbackPointerRestoredAt m \<noteq> None \<and> reversed m
      | _ \<Rightarrow> True)"

text \<open>
  A balance payment is recorded from \<open>balance_move_sending\<close> on and not before, a fee payment only
  after it, and a recorded balance payment keeps the amount it moved.
\<close>

definition payments_wf :: "migration \<Rightarrow> bool" where
  "payments_wf m \<longleftrightarrow>
     (pipeline_position (mg_status m) \<le> 4 \<longrightarrow> mg_balanceMovePaymentTransactionId m = None)
   \<and> (money_may_move (mg_status m) \<longrightarrow> mg_balanceMovePaymentTransactionId m \<noteq> None
        \<and> mg_destinationAmountUsdtMicros m \<noteq> Some ''0'')
   \<and> (pipeline_position (mg_status m) \<le> 8 \<longrightarrow> mg_feeReimbursementPaymentTransactionId m = None)
   \<and> (mg_feeReimbursementPaymentTransactionId m \<noteq> None \<longrightarrow> mg_balanceMovePaymentTransactionId m \<noteq> None)
   \<and> (mg_balanceMovePaymentTransactionId m \<noteq> None \<longrightarrow> moved_amount m)"

definition migration_wf :: "migration \<Rightarrow> bool" where
  "migration_wf m \<longleftrightarrow> forward_wf m \<and> payments_wf m"

lemmas wf_defs = migration_wf_def forward_wf_def payments_wf_def moved_amount_def money_may_move_def
  pipeline_position_def reversed_def

lemma new_migration_wf: "migration_wf (new_migration a i n)"
  by (simp add: wf_defs new_migration_def)

lemma forward_step_wf: "forward_step m m' \<Longrightarrow> migration_wf m \<Longrightarrow> migration_wf m'"
  by (erule forward_step.cases) (auto simp: wf_defs)

lemma rollback_step_wf: "rollback_step m m' \<Longrightarrow> migration_wf m \<Longrightarrow> migration_wf m'"
  by (erule rollback_step.cases) (auto simp: wf_defs)

lemma lock_wf [simp]: "migration_wf (lock_update l n m) = migration_wf m" "migration_wf (release_update n m) = migration_wf m"
  by (cases "mg_status m"; simp add: wf_defs lock_update_def release_update_def)+

lemma retry_update:
  "transition_update (retry_transition a m) n m =
     (if mg_previousDefaultWalletId m \<noteq> None
      then enters Pointer_flipped n (m\<lparr>mg_attempts := 0, mg_lastError := None\<rparr>)
      else enters Not_started n (m\<lparr>mg_attempts := 0, mg_lastError := None, mg_sourceBalanceUsdCents := None,
        mg_destinationAmountUsdtMicros := None, mg_destinationStartingBalanceUsdtMicros := None,
        mg_feeAmountUsdCents := None, mg_feeAmountUsdtMicros := None,
        mg_balanceMoveInvoicePaymentRequest := None, mg_balanceMoveInvoicePaymentHash := None,
        mg_feeReimbursementInvoicePaymentRequest := None, mg_feeReimbursementInvoicePaymentHash := None\<rparr>))"
  by (simp add: transition_update_def retry_transition_def resumeStatus_def)

lemma marked_wf:
  assumes "migration_wf m"
  shows "fa_status a = Requires_operator_review \<Longrightarrow> migration_wf (failed_update a n m)"
    and "fa_status a = Failed \<Longrightarrow> \<not> money_may_move (mg_status m) \<Longrightarrow> pipeline_position (mg_status m) < 14
      \<Longrightarrow> migration_wf (failed_update a n m)"
  using assms by (cases "mg_status m"; simp add: wf_defs failed_update_def)+

lemma requested_wf:
  assumes "migration_wf m"
  shows "migration_wf (enters Rollback_started n (m\<lparr>mg_rollbackRequestedAt := Some t,
      mg_rollbackRequestedBy := Some who, mg_rollbackReason := Some why,
      mg_rollbackFromStatus := Some (mg_status m)\<rparr>))"
  using assms by (simp add: wf_defs)

lemma retried_wf:
  assumes "migration_wf m" "mg_balanceMovePaymentTransactionId m = None"
    "mg_feeReimbursementPaymentTransactionId m = None"
  shows "migration_wf (transition_update (retry_transition a m) n m)"
  using assms by (simp add: retry_update wf_defs)

lemma migration_step_wf: "migration_step m m' \<Longrightarrow> migration_wf m \<Longrightarrow> migration_wf m'"
  by (induction rule: migration_step.induct)
    (simp_all add: forward_step_wf rollback_step_wf marked_wf requested_wf retried_wf)

lemma migration_steps_wf: "migration_step\<^sup>*\<^sup>* m m' \<Longrightarrow> migration_wf m \<Longrightarrow> migration_wf m'"
  by (induction rule: rtranclp_induct) (auto dest: migration_step_wf)

section \<open>What is recorded stays\<close>

text \<open>The four payments of a migration and the fields that identify it.\<close>

definition recorded :: "migration \<Rightarrow> string option list" where
  "recorded m = [mg_balanceMovePaymentTransactionId m, mg_feeReimbursementPaymentTransactionId m,
     mg_rollbackPaymentTransactionId m, mg_rollbackShortfallPaymentTransactionId m]"

definition keeps_recorded :: "migration \<Rightarrow> migration \<Rightarrow> bool" where
  "keeps_recorded m m' \<longleftrightarrow> list_all2 (\<lambda>x y. x = None \<or> y = x) (recorded m) (recorded m')"

lemma keeps_recorded_refl [simp]: "keeps_recorded m m"
  by (simp add: keeps_recorded_def recorded_def)

lemma keeps_recorded_trans: "keeps_recorded m1 m2 \<Longrightarrow> keeps_recorded m2 m3 \<Longrightarrow> keeps_recorded m1 m3"
  by (auto simp: keeps_recorded_def recorded_def)

lemma forward_step_keeps: "forward_step m m' \<Longrightarrow> migration_wf m \<Longrightarrow> keeps_recorded m m' \<and> mg_key m' = mg_key m"
  by (erule forward_step.cases)
    (auto simp: keeps_recorded_def recorded_def mg_key_def payments_wf_def migration_wf_def pipeline_position_def)

lemma rollback_step_keeps: "rollback_step m m' \<Longrightarrow> keeps_recorded m m' \<and> mg_key m' = mg_key m"
  by (erule rollback_step.cases) (auto simp: keeps_recorded_def recorded_def mg_key_def reversed_def)

lemma migration_step_keeps:
  "migration_step m m' \<Longrightarrow> migration_wf m \<Longrightarrow> keeps_recorded m m' \<and> mg_key m' = mg_key m"
  by (induction rule: migration_step.induct)
    (simp_all add: forward_step_keeps rollback_step_keeps, simp_all add: keeps_recorded_def recorded_def
      mg_key_def lock_update_def release_update_def failed_update_def retry_update)

lemma migration_steps_keep:
  "migration_step\<^sup>*\<^sup>* m m' \<Longrightarrow> migration_wf m \<Longrightarrow> keeps_recorded m m' \<and> mg_key m' = mg_key m"
proof (induction rule: rtranclp_induct)
  case (step m1 m2)
  then have "migration_wf m1" using migration_steps_wf by blast
  with step migration_step_keeps [of m1 m2] show ?case using keeps_recorded_trans by metis
qed simp

end
