(* ===== verification/CutoverSafety.thy ===== *)
theory CutoverSafety
  imports CutoverMachine
begin

text \<open>
  The components of the cutover implement the abstract machine of \<open>CutoverMachine\<close>. The pipeline,
  the runner, the rollback and the retry are proved over the contracts of the repository and of the
  services (the locales \<open>migration_env\<close> and \<open>batch_store\<close>), which are then interpreted on the
  repository of \<open>CutoverRepository\<close> next to services with any behaviour of their own.
\<close>

section \<open>Evolution of the collection\<close>

definition evolves :: "('s \<Rightarrow> bool) \<Rightarrow> ('s \<Rightarrow> string \<Rightarrow> migration option) \<Rightarrow> 's \<Rightarrow> 's \<Rightarrow> bool" where
  "evolves ok look s t \<longleftrightarrow> ok t \<and> (\<forall>i. rel_option migration_step\<^sup>*\<^sup>* (look s i) (look t i))"

text \<open>
  The contract of a call made for the stored migration \<open>m\<close>: the collection evolves, a result is the
  stored migration and satisfies \<open>Q\<close>, and after an error the stored migration satisfies \<open>E\<close>.
\<close>

definition steps_to ::
  "('s \<Rightarrow> bool) \<Rightarrow> ('s \<Rightarrow> string \<Rightarrow> migration option) \<Rightarrow> migration \<Rightarrow> (migration \<Rightarrow> bool) \<Rightarrow> (migration \<Rightarrow> bool)
   \<Rightarrow> ('s, migration) act \<Rightarrow> bool"
where
  "steps_to ok look m Q E act \<longleftrightarrow>
     (\<forall>s r t. ok s \<longrightarrow> look s (mg_id m) = Some m \<longrightarrow> act s = (r, t) \<longrightarrow>
        evolves ok look s t
      \<and> (\<exists>m'. look t (mg_id m) = Some m'
           \<and> (case r of Inr x \<Rightarrow> x = m' \<and> Q m' | Inl _ \<Rightarrow> E m')))"

lemma evolves_refl: "ok s \<Longrightarrow> evolves ok look s s"
  by (auto simp: evolves_def intro: option.rel_refl)

lemma evolves_same: "ok t \<Longrightarrow> look t = look s \<Longrightarrow> evolves ok look s t"
  by (auto simp: evolves_def intro: option.rel_refl)

lemma evolves_trans: "evolves ok look s t \<Longrightarrow> evolves ok look t u \<Longrightarrow> evolves ok look s u"
  unfolding evolves_def
  by (auto simp: option_rel_Some1 option_rel_Some2 rel_option_iff split: option.splits)
    (metis (no_types, lifting) option.distinct(1) option.exhaust rtranclp_trans)+

lemma evolves_update:
  assumes "ok t" "look s i = Some m" "look t = (look s)(i \<mapsto> m')" "migration_step\<^sup>*\<^sup>* m m'"
  shows "evolves ok look s t"
  using assms by (auto simp: evolves_def intro: option.rel_refl)

lemma steps_toI:
  assumes "\<And>s r t. ok s \<Longrightarrow> look s (mg_id m) = Some m \<Longrightarrow> act s = (r, t) \<Longrightarrow>
        evolves ok look s t \<and> (\<exists>m'. look t (mg_id m) = Some m'
           \<and> (case r of Inr x \<Rightarrow> x = m' \<and> Q m' | Inl _ \<Rightarrow> E m'))"
  shows "steps_to ok look m Q E act"
  using assms unfolding steps_to_def by blast

lemma steps_toD:
  assumes "steps_to ok look m Q E act" "ok s" "look s (mg_id m) = Some m" "act s = (r, t)"
  obtains m' where "evolves ok look s t" "look t (mg_id m) = Some m'"
    "case r of Inr x \<Rightarrow> x = m' \<and> Q m' | Inl _ \<Rightarrow> E m'"
  using assms unfolding steps_to_def by blast

lemma steps_to_ret: "Q m \<Longrightarrow> steps_to ok look m Q E (retA m)"
  by (rule steps_toI) (auto simp: act_simps evolves_refl)

lemma steps_to_fail: "E m \<Longrightarrow> steps_to ok look m Q E (failA e)"
  by (rule steps_toI) (auto simp: act_simps evolves_refl)

lemma steps_to_state: "(\<And>s. steps_to ok look m Q E (act s)) \<Longrightarrow> steps_to ok look m Q E (\<lambda>s. act s s)"
  unfolding steps_to_def by blast

lemma steps_to_lift:
  "E m \<Longrightarrow> (\<And>x. r = Inr x \<Longrightarrow> steps_to ok look m Q E (k x)) \<Longrightarrow> steps_to ok look m Q E (bindA (liftA r) k)"
  by (cases r) (simp_all add: act_simps steps_to_fail)

lemma steps_to_call:
  assumes "leaves_docs ok look act" "E m" "\<And>x. steps_to ok look m Q E (k x)"
  shows "steps_to ok look m Q E (bindA act k)"
proof (rule steps_toI)
  fix s r t
  assume s: "ok s" "look s (mg_id m) = Some m" and run: "bindA act k s = (r, t)"
  obtain r1 u where act: "act s = (r1, u)" by (cases "act s")
  with assms(1) s(1) have u: "ok u" "look u = look s" by (auto simp: leaves_docs_def)
  have su: "evolves ok look s u" using u evolves_same [of ok u look s] by simp
  show "evolves ok look s t \<and> (\<exists>m'. look t (mg_id m) = Some m'
           \<and> (case r of Inr x \<Rightarrow> x = m' \<and> Q m' | Inl _ \<Rightarrow> E m'))"
  proof (cases r1)
    case (Inl e)
    with run act have "t = u" "r = Inl e" by (auto simp: bindA_def)
    with su s u assms(2) show ?thesis by simp
  next
    case (Inr x)
    with run act have k: "k x u = (r, t)" by (simp add: bindA_def)
    have m: "look u (mg_id m) = Some m" using s u by simp
    obtain m' where "evolves ok look u t" "look t (mg_id m) = Some m'"
      "case r of Inr x \<Rightarrow> x = m' \<and> Q m' | Inl _ \<Rightarrow> E m'"
      by (rule steps_toD [OF assms(3) u(1) m k])
    with evolves_trans [OF su] show ?thesis by auto
  qed
qed

lemma steps_to_weaken:
  "steps_to ok look m Q E act \<Longrightarrow> (\<And>m'. Q m' \<Longrightarrow> Q' m') \<Longrightarrow> (\<And>m'. E m' \<Longrightarrow> E' m') \<Longrightarrow> steps_to ok look m Q' E' act"
  unfolding steps_to_def by (fastforce split: sum.splits)

lemma steps_to_can_move:
  "E m \<Longrightarrow> (to \<in> set (transitions (mg_status m)) \<Longrightarrow> steps_to ok look m Q E (k ())) \<Longrightarrow>
   steps_to ok look m Q E (bindA (can_move m to) k)"
  unfolding can_move_def by (rule steps_to_lift) auto

lemma steps_to_if:
  "(b \<Longrightarrow> steps_to ok look m Q E act) \<Longrightarrow> (\<not> b \<Longrightarrow> steps_to ok look m Q E act') \<Longrightarrow>
   steps_to ok look m Q E (if b then act else act')"
  by simp

lemma steps_to_option:
  "(x = None \<Longrightarrow> steps_to ok look m Q E act) \<Longrightarrow> (\<And>y. x = Some y \<Longrightarrow> steps_to ok look m Q E (f y)) \<Longrightarrow>
   steps_to ok look m Q E (case x of None \<Rightarrow> act | Some y \<Rightarrow> f y)"
  by (cases x) simp_all

lemma steps_to_state_if:
  "steps_to ok look m Q E act \<Longrightarrow> steps_to ok look m Q E act' \<Longrightarrow>
   steps_to ok look m Q E (\<lambda>s. if c s then act s else act' s)"
  unfolding steps_to_def by (auto split: if_splits)

lemma leaves_docs_if:
  "leaves_docs ok look act \<Longrightarrow> leaves_docs ok look act' \<Longrightarrow> leaves_docs ok look (if b then act else act')"
  by simp

lemma move_to_simps [simp]:
  "ta_id (move_to m to patch) = mg_id m" "ta_patch (move_to m to patch) = patch"
  "transition_update (move_to m to patch) n d = enters to n (patch d)"
  by (simp_all add: move_to_def transition_update_def)

lemma rollback_args_simps [simp]:
  "ta_id (rollback_args m to patch) = mg_id m" "ta_patch (rollback_args m to patch) = patch"
  "transition_update (rollback_args m to patch) n d = enters to n (patch d)"
  by (simp_all add: rollback_args_def transition_update_def)

text \<open>Where a step that fails leaves its migration: at most one step on, or on the way the pipeline goes.\<close>

definition at_most_one_step :: "migration \<Rightarrow> migration \<Rightarrow> bool" where
  "at_most_one_step m m' \<longleftrightarrow> m' = m \<or> forward_step m m'"

lemma at_most_one_refl [simp]: "at_most_one_step m m"
  by (simp add: at_most_one_step_def)

text \<open>A status further on in the pipeline, along an edge of the transition table.\<close>

definition advanced_to :: "migration \<Rightarrow> migration \<Rightarrow> bool" where
  "advanced_to m m' \<longleftrightarrow> mg_status m' \<in> set (transitions (mg_status m))
     \<and> pipeline_position (mg_status m) < pipeline_position (mg_status m')
     \<and> pipeline_position (mg_status m') \<le> 13"

definition stepped :: "migration \<Rightarrow> migration \<Rightarrow> bool" where
  "stepped m m' \<longleftrightarrow> (if mg_status m \<in> set terminalStatuses then m' = m else advanced_to m m')"

lemma forward_step_advances:
  "forward_step m m' \<Longrightarrow> mg_status m' \<noteq> mg_status m \<Longrightarrow> advanced_to m m'"
  by (erule forward_step.cases) (auto simp: advanced_to_def pipeline_position_def)

lemma forward_step_changes:
  "forward_step m m' \<Longrightarrow> mg_status m \<noteq> Invoice_created \<Longrightarrow> mg_status m \<noteq> Fee_reimbursement_invoice_created \<Longrightarrow>
   advanced_to m m'"
  by (erule forward_step.cases) (auto simp: advanced_to_def pipeline_position_def)

definition failed_step :: "migration \<Rightarrow> migration \<Rightarrow> bool" where
  "failed_step m m' \<longleftrightarrow> mg_status m \<notin> set terminalStatuses \<and> forward_step\<^sup>*\<^sup>* m m'
     \<and> (mg_status m \<notin> set AMBIGUOUS_SIDE_EFFECT_STATUSES \<longrightarrow> at_most_one_step m m')"

lemma failed_stepI:
  "mg_status m \<notin> set terminalStatuses \<Longrightarrow> at_most_one_step m m' \<Longrightarrow> failed_step m m'"
  "mg_status m \<in> set AMBIGUOUS_SIDE_EFFECT_STATUSES \<Longrightarrow> forward_step\<^sup>*\<^sup>* m m' \<Longrightarrow> failed_step m m'"
  by (auto simp: failed_step_def at_most_one_step_def terminalStatuses_def AMBIGUOUS_SIDE_EFFECT_STATUSES_def)

lemma failed_step_marked:
  assumes "failed_step m m'" "fa_status a = failureStatusForMigration (mg_status m)"
  shows "migration_step m' (failed_update a n m')"
proof (cases "mg_status m \<in> set AMBIGUOUS_SIDE_EFFECT_STATUSES")
  case True
  with assms show ?thesis by (intro mark_review) (simp add: failureStatusForMigration_def)
next
  case False
  then have "m' = m \<or> forward_step m m'" "mg_status m \<notin> set terminalStatuses"
    using assms(1) by (auto simp: failed_step_def at_most_one_step_def)
  then have "\<not> money_may_move (mg_status m') \<and> pipeline_position (mg_status m') < 14"
    using False by (cases "mg_status m") (auto simp: terminalStatuses_def AMBIGUOUS_SIDE_EFFECT_STATUSES_def
        money_may_move_def pipeline_position_def elim!: forward_step.cases)
  with False assms(2) show ?thesis by (intro mark_failed) (simp_all add: failureStatusForMigration_def)
qed

section \<open>The pipeline over the contracts\<close>

locale migration_env = migration_store repo ok look
  for repo :: "'s migrations_repo" and ok :: "'s \<Rightarrow> bool" and look :: "'s \<Rightarrow> string \<Rightarrow> migration option" +
  fixes svc :: "'s cutover_services"
    and sleepFn :: "int \<Rightarrow> 's \<Rightarrow> 's"
  assumes defaultWallet_docs: "leaves_docs ok look (getDefaultWalletId svc acc)"
    and ensureWallet_docs: "leaves_docs ok look (ensureDestinationWallet svc acc w)"
    and sourceBalance_docs: "leaves_docs ok look (readSourceBalanceUsdCents svc m)"
    and destinationBalance_docs: "leaves_docs ok look (readDestinationBalanceUsdtMicros svc m)"
    and spendable_docs: "leaves_docs ok look (readDestinationSpendableUsdtMicros svc m)"
    and createInvoice_docs: "leaves_docs ok look (createInvoice svc w amt memo)"
    and createNoAmountInvoice_docs: "leaves_docs ok look (createNoAmountInvoice svc w memo)"
    and payInvoice_docs: "leaves_docs ok look (payInvoice svc w request cents micros)"
    and verifyBalanceMove_docs: "leaves_docs ok look (verifyBalanceMove svc w w' c a tx)"
    and feeAmount_docs: "leaves_docs ok look (readFeeAmountUsdtMicros svc m)"
    and treasury_docs: "leaves_docs ok look (getTreasuryWalletId svc)"
    and flip_docs: "leaves_docs ok look (flipDefaultWallet svc acc w)"
    and legacyZero_docs: "leaves_docs ok look (verifyLegacyWalletZero svc w)"
    and sleep_docs: "ok s \<Longrightarrow> ok (sleepFn n s) \<and> look (sleepFn n s) = look s"
begin

lemmas service_docs = defaultWallet_docs ensureWallet_docs sourceBalance_docs destinationBalance_docs
  spendable_docs createInvoice_docs createNoAmountInvoice_docs payInvoice_docs verifyBalanceMove_docs
  feeAmount_docs treasury_docs flip_docs legacyZero_docs

lemma steps_to_then:
  assumes "steps_to ok look m Q' E act"
    and "\<And>m'. Q' m' \<Longrightarrow> mg_id m' = mg_id m \<Longrightarrow> steps_to ok look m' Q E (k m')"
  shows "steps_to ok look m Q E (bindA act k)"
proof (rule steps_toI)
  fix s r t
  assume s: "ok s" "look s (mg_id m) = Some m" and run: "bindA act k s = (r, t)"
  obtain r1 u where act: "act s = (r1, u)" by (cases "act s")
  from assms(1) s act obtain m1 where u: "evolves ok look s u" "look u (mg_id m) = Some m1"
    "case r1 of Inr x \<Rightarrow> x = m1 \<and> Q' m1 | Inl _ \<Rightarrow> E m1"
    by (rule steps_toD)
  then have "ok u" by (simp add: evolves_def)
  then have id: "mg_id m1 = mg_id m" using u look_id by blast
  show "evolves ok look s t \<and> (\<exists>m'. look t (mg_id m) = Some m'
           \<and> (case r of Inr x \<Rightarrow> x = m' \<and> Q m' | Inl _ \<Rightarrow> E m'))"
  proof (cases r1)
    case (Inl e)
    with run act u show ?thesis by (auto simp: bindA_def)
  next
    case (Inr x)
    with run act u have k: "k m1 u = (r, t)" "Q' m1" by (auto simp: bindA_def)
    have m1: "look u (mg_id m1) = Some m1" using u id by simp
    obtain m2 where m2: "evolves ok look u t" "look t (mg_id m1) = Some m2"
      "case r of Inr x \<Rightarrow> x = m2 \<and> Q m2 | Inl _ \<Rightarrow> E m2"
      by (rule steps_toD [OF assms(2) [OF k(2) id] \<open>ok u\<close> m1 k(1)])
    then show ?thesis using evolves_trans [OF u(1) m2(1)] id by auto
  qed
qed

lemma steps_to_transition:
  assumes "keeps_key (ta_patch a)" "ta_id a = mg_id m" "E m"
    and "\<And>n. transition_filter a m \<Longrightarrow>
           migration_step m (transition_update a n m) \<and> Q (transition_update a n m) \<and> E (transition_update a n m)"
  shows "steps_to ok look m Q E (transitionMigration repo a)"
proof (rule steps_toI)
  fix s r t
  assume s: "ok s" "look s (mg_id m) = Some m" and run: "transitionMigration repo a s = (r, t)"
  from transition [OF assms(1)] s(1) run
  show "evolves ok look s t \<and> (\<exists>m'. look t (mg_id m) = Some m'
           \<and> (case r of Inr x \<Rightarrow> x = m' \<and> Q m' | Inl _ \<Rightarrow> E m'))"
  proof (cases rule: updated_cases)
    case (unchanged e)
    then show ?thesis using s assms(3) evolves_same [of ok t look s] by simp
  next
    case (updated m0 n)
    then have "m0 = m" using s assms(2) by simp
    with assms(4) updated(3) have "migration_step m (transition_update a n m)" "Q (transition_update a n m)" by auto
    with updated \<open>m0 = m\<close> assms(2) evolves_update [of ok t look s "ta_id a" m] show ?thesis by auto
  next
    case (unknown m0 n e)
    then have "m0 = m" using s assms(2) by simp
    with assms(4) unknown(3) have "migration_step m (transition_update a n m)" "E (transition_update a n m)" by auto
    with unknown \<open>m0 = m\<close> assms(2) evolves_update [of ok t look s "ta_id a" m] show ?thesis by auto
  qed
qed

lemma forward_transition:
  assumes "keeps_key patch" "\<And>n. forward_step m (enters to n (patch m)) \<and> Q (enters to n (patch m))"
  shows "steps_to ok look m Q (at_most_one_step m) (transitionMigration repo (move_to m to patch))"
  by (rule steps_to_transition)
    (use assms in \<open>auto simp: at_most_one_step_def intro: migration_step.forward\<close>)

lemmas forward_rules = steps_to_can_move steps_to_lift steps_to_call steps_to_if steps_to_option
  leaves_docs_if service_docs forward_transition steps_to_fail

lemma keeps_key_id [simp]: "keeps_key id"
  by (simp add: keeps_key_def)

lemmas handler_defs = startCashWalletMigration_def provisionCashWalletMigrationDestination_def
  recordCashWalletMigrationBalance_def markCashWalletMigrationBalanceMoveSent_def
  verifyCashWalletMigrationBalanceMove_def skipCashWalletMigrationFeeReimbursement_def
  markCashWalletMigrationFeeReimbursed_def flipCashWalletMigrationDefaultPointer_def
  verifyCashWalletMigrationLegacyZero_def completeCashWalletMigration_def
  createCashWalletMigrationBalanceMoveInvoice_def createCashWalletMigrationFeeReimbursementInvoice_def

lemma single_steps:
  "mg_status m = Not_started \<Longrightarrow>
     steps_to ok look m (forward_step m) (at_most_one_step m) (startCashWalletMigration repo m t)"
  "mg_status m = Started \<Longrightarrow>
     steps_to ok look m (forward_step m) (at_most_one_step m) (provisionCashWalletMigrationDestination repo svc m)"
  "mg_status m = Provisioned \<Longrightarrow>
     steps_to ok look m (forward_step m) (at_most_one_step m) (recordCashWalletMigrationBalance repo m cents starting)"
  "mg_status m = Balance_move_sending \<Longrightarrow>
     steps_to ok look m (forward_step m) (at_most_one_step m) (markCashWalletMigrationBalanceMoveSent repo m)"
  "mg_status m = Balance_move_sent \<Longrightarrow>
     steps_to ok look m (forward_step m) (at_most_one_step m) (verifyCashWalletMigrationBalanceMove repo svc m)"
  "mg_status m = Balance_move_verified \<Longrightarrow> isSubMinimumFeeReimbursementAmount fee = Inr True \<Longrightarrow>
     steps_to ok look m (forward_step m) (at_most_one_step m) (skipCashWalletMigrationFeeReimbursement repo m fee)"
  "mg_status m = Fee_reimbursement_sending \<Longrightarrow>
     steps_to ok look m (forward_step m) (at_most_one_step m) (markCashWalletMigrationFeeReimbursed repo m)"
  "mg_status m = Fee_reimbursed \<or> mg_status m = Balance_read \<and> mg_destinationAmountUsdtMicros m = Some ''0'' \<Longrightarrow>
     steps_to ok look m (forward_step m) (at_most_one_step m) (flipCashWalletMigrationDefaultPointer repo svc m)"
  "mg_status m = Pointer_flipped \<Longrightarrow>
     steps_to ok look m (forward_step m) (at_most_one_step m) (verifyCashWalletMigrationLegacyZero repo svc m)"
  "mg_status m = Legacy_zero_verified \<Longrightarrow>
     steps_to ok look m (forward_step m) (at_most_one_step m) (completeCashWalletMigration repo m t)"
  unfolding handler_defs
  by (intro forward_rules; force simp: keeps_key_def mg_key_def intro: forward_step.intros)+

lemma invoice_steps:
  "mg_status m = Balance_read \<and> mg_destinationAmountUsdtMicros m \<noteq> Some ''0'' \<or> mg_status m = Invoice_created \<Longrightarrow>
     steps_to ok look m (\<lambda>m'. forward_step m m' \<and> mg_status m' = Invoice_created) (at_most_one_step m)
       (createCashWalletMigrationBalanceMoveInvoice repo svc m)"
  "mg_status m = Balance_move_verified \<and> isSubMinimumFeeReimbursementAmount fee = Inr False
     \<or> mg_status m = Fee_reimbursement_invoice_created \<and> mg_feeAmountUsdtMicros m = Some fee \<Longrightarrow>
     steps_to ok look m (\<lambda>m'. forward_step m m' \<and> mg_status m' = Fee_reimbursement_invoice_created)
       (at_most_one_step m) (createCashWalletMigrationFeeReimbursementInvoice repo svc m fee)"
  unfolding handler_defs Let_def
  by (intro forward_rules; force simp: keeps_key_def mg_key_def intro: forward_step.intros)+

lemma later_transition:
  assumes "forward_step\<^sup>*\<^sup>* m0 m" "keeps_key patch" "\<And>n. forward_step m (enters to n (patch m))"
    and "mg_status m = mg_status m0" "to \<noteq> mg_status m"
  shows "steps_to ok look m (advanced_to m0) (forward_step\<^sup>*\<^sup>* m0) (transitionMigration repo (move_to m to patch))"
proof (rule steps_to_transition)
  fix n
  have "advanced_to m (enters to n (patch m))"
    using assms(5) by (intro forward_step_advances assms(3)) simp
  then have "advanced_to m0 (enters to n (patch m))" using assms(4) by (simp add: advanced_to_def)
  moreover have "forward_step\<^sup>*\<^sup>* m0 (enters to n (patch m))"
    using assms(1) assms(3) [of n] by (rule rtranclp.rtrancl_into_rtrancl)
  ultimately show "migration_step m (transition_update (move_to m to patch) n m)
      \<and> advanced_to m0 (transition_update (move_to m to patch) n m)
      \<and> forward_step\<^sup>*\<^sup>* m0 (transition_update (move_to m to patch) n m)"
    using assms(3) by (auto intro: migration_step.forward)
qed (use assms in simp_all)

lemma refresh_or_keep:
  assumes "steps_to ok look m (\<lambda>m'. forward_step m m' \<and> mg_status m' = st) (at_most_one_step m) act"
    and "mg_status m = st"
  shows "steps_to ok look m (\<lambda>m'. forward_step\<^sup>*\<^sup>* m m' \<and> mg_status m' = st) (forward_step\<^sup>*\<^sup>* m)
      (\<lambda>s. if c s then act s else retA m s)"
proof (rule steps_to_state_if)
  show "steps_to ok look m (\<lambda>m'. forward_step\<^sup>*\<^sup>* m m' \<and> mg_status m' = st) (forward_step\<^sup>*\<^sup>* m) act"
    by (rule steps_to_weaken [OF assms(1)]) (auto simp: at_most_one_step_def)
qed (simp add: assms(2) steps_to_ret)

lemmas later_rules = steps_to_can_move steps_to_lift steps_to_call steps_to_if steps_to_option
  service_docs later_transition steps_to_fail

lemma payment_steps:
  "mg_status m = Invoice_created \<Longrightarrow>
     steps_to ok look m (advanced_to m) (forward_step\<^sup>*\<^sup>* m)
       (sendCashWalletMigrationBalanceMovePayment repo svc invoiceService window m)"
  "mg_status m = Fee_reimbursement_invoice_created \<Longrightarrow>
     steps_to ok look m (advanced_to m) (forward_step\<^sup>*\<^sup>* m)
       (sendCashWalletMigrationFeeReimbursementPayment repo svc invoiceService window treasury m)"
proof -
  assume m: "mg_status m = Invoice_created"
  show "steps_to ok look m (advanced_to m) (forward_step\<^sup>*\<^sup>* m)
       (sendCashWalletMigrationBalanceMovePayment repo svc invoiceService window m)"
    unfolding sendCashWalletMigrationBalanceMovePayment_def
    by (intro steps_to_can_move steps_to_option steps_to_if steps_to_fail
        steps_to_then [OF refresh_or_keep [OF invoice_steps(1)]] later_rules)
      (auto simp: m keeps_key_def mg_key_def intro: forward_step.pay)
next
  assume m: "mg_status m = Fee_reimbursement_invoice_created"
  have refresh: "steps_to ok look m (\<lambda>m'. forward_step m m' \<and> mg_status m' = Fee_reimbursement_invoice_created)
      (at_most_one_step m) (\<lambda>s. case mg_feeAmountUsdtMicros m of
        None \<Rightarrow> failA InvalidCashWalletMigrationTransitionError s
      | Some fee \<Rightarrow> createCashWalletMigrationFeeReimbursementInvoice repo svc m fee s)"
    using m invoice_steps(2) by (cases "mg_feeAmountUsdtMicros m") (auto intro: steps_to_fail)
  show "steps_to ok look m (advanced_to m) (forward_step\<^sup>*\<^sup>* m)
       (sendCashWalletMigrationFeeReimbursementPayment repo svc invoiceService window treasury m)"
    unfolding sendCashWalletMigrationFeeReimbursementPayment_def
    by (intro steps_to_can_move steps_to_option steps_to_fail
        steps_to_then [OF refresh_or_keep [OF refresh]] later_rules)
      (auto simp: m keeps_key_def mg_key_def intro: forward_step.pay_fee)
qed

lemma advanced: "steps_to ok look m (forward_step m) (at_most_one_step m) act \<Longrightarrow>
   mg_status m \<notin> set terminalStatuses \<Longrightarrow> mg_status m \<noteq> Invoice_created \<Longrightarrow>
   mg_status m \<noteq> Fee_reimbursement_invoice_created \<Longrightarrow>
   steps_to ok look m (stepped m) (failed_step m) act"
  by (erule steps_to_weaken) (auto simp: stepped_def intro: failed_stepI forward_step_changes)

lemma invoiced: "steps_to ok look m (\<lambda>m'. forward_step m m' \<and> mg_status m' = st) (at_most_one_step m) act \<Longrightarrow>
   mg_status m \<notin> set terminalStatuses \<Longrightarrow> mg_status m \<noteq> st \<Longrightarrow>
   steps_to ok look m (stepped m) (failed_step m) act"
  by (erule steps_to_weaken) (auto simp: stepped_def intro: failed_stepI forward_step_advances)

lemma paid: "steps_to ok look m (advanced_to m) (forward_step\<^sup>*\<^sup>* m) act \<Longrightarrow>
   mg_status m \<in> set AMBIGUOUS_SIDE_EFFECT_STATUSES \<Longrightarrow>
   steps_to ok look m (stepped m) (failed_step m) act"
  by (erule steps_to_weaken) (auto simp: stepped_def terminalStatuses_def AMBIGUOUS_SIDE_EFFECT_STATUSES_def
      intro: failed_stepI)

lemma failed_step_refl: "mg_status m \<notin> set terminalStatuses \<Longrightarrow> failed_step m m"
  by (auto intro: failed_stepI)

lemmas handler_rules = single_steps [THEN advanced] invoice_steps [THEN invoiced] payment_steps [THEN paid]

lemma clock_steps:
  "mg_status m = Not_started \<Longrightarrow> steps_to ok look m (stepped m) (failed_step m)
     (\<lambda>s. startCashWalletMigration repo m (sv_now svc s) s)"
  "mg_status m = Legacy_zero_verified \<Longrightarrow> steps_to ok look m (stepped m) (failed_step m)
     (\<lambda>s. completeCashWalletMigration repo m (sv_now svc s) s)"
  using steps_to_state [of ok look m _ _ "\<lambda>s. startCashWalletMigration repo m (sv_now svc s)"]
    steps_to_state [of ok look m _ _ "\<lambda>s. completeCashWalletMigration repo m (sv_now svc s)"]
    single_steps(1,10) [THEN advanced]
  by (simp_all add: terminalStatuses_def)

lemma reading_steps:
  "mg_status m = Provisioned \<Longrightarrow> steps_to ok look m (stepped m) (failed_step m)
     (bindA (readSourceBalanceUsdCents svc m) (\<lambda>c. bindA (readDestinationBalanceUsdtMicros svc m) (\<lambda>d.
        recordCashWalletMigrationBalance repo m c d)))"
  "mg_status m = Balance_read \<Longrightarrow> steps_to ok look m (stepped m) (failed_step m)
     (if mg_destinationAmountUsdtMicros m = Some ''0'' then flipCashWalletMigrationDefaultPointer repo svc m
      else createCashWalletMigrationBalanceMoveInvoice repo svc m)"
  "mg_status m = Balance_move_verified \<Longrightarrow> steps_to ok look m (stepped m) (failed_step m)
     (bindA (readFeeAmountUsdtMicros svc m) (\<lambda>f. bindA (liftA (isSubMinimumFeeReimbursementAmount f)) (\<lambda>sub.
        if sub then skipCashWalletMigrationFeeReimbursement repo m f
        else createCashWalletMigrationFeeReimbursementInvoice repo svc m f)))"
  "mg_status m = Fee_reimbursement_invoice_created \<Longrightarrow>
     steps_to ok look m (stepped m) (failed_step m)
       (bindA (getTreasuryWalletId svc) (\<lambda>w. sendCashWalletMigrationFeeReimbursementPayment repo svc b n w m))"
  by (intro steps_to_call steps_to_lift steps_to_if service_docs failed_step_refl handler_rules;
      simp add: terminalStatuses_def AMBIGUOUS_SIDE_EFFECT_STATUSES_def)+

lemma executor_steps:
  "steps_to ok look m (stepped m) (failed_step m)
     (executeCashWalletMigrationStep (createCashWalletMigrationStepHandlers repo svc) m)"
  by (cases "mg_status m")
    (simp_all add: executeCashWalletMigrationStep_def handler_rules reading_steps clock_steps
      steps_to_ret stepped_def terminalStatuses_def AMBIGUOUS_SIDE_EFFECT_STATUSES_def)

end

section \<open>The runner over its contract\<close>

text \<open>
  \<open>fails_with\<close> is the status a failure is recorded with when the runner asks for one: the runner's
  own for the pipeline, always operator review for the rollback.
\<close>

definition marks_failures :: "(migration_status \<Rightarrow> migration_status) \<Rightarrow> (migration \<Rightarrow> migration \<Rightarrow> bool) \<Rightarrow> bool" where
  "marks_failures fails_with E \<longleftrightarrow>
     (\<forall>m m' f n. E m m' \<longrightarrow> fa_status f = fails_with (failureStatusForMigration (mg_status m)) \<longrightarrow>
        migration_step m' (failed_update f n m'))"

locale batch_store =
  fixes repo :: "'s migrations_repo"
    and ok :: "'s \<Rightarrow> bool"
    and look :: "'s \<Rightarrow> string \<Rightarrow> migration option"
    and sleepFn :: "int \<Rightarrow> 's \<Rightarrow> 's"
    and fails_with :: "migration_status \<Rightarrow> migration_status"
  assumes batch_acquire: "updates_one ok look (la_id l) (lock_filter l) (lock_update l) (acquireMigrationLock repo l)"
    and batch_release: "updates_one ok look (rl_id u) (release_filter u) release_update (releaseMigrationLock repo u)"
    and batch_mark: "updates_one ok look (fa_id f) (failed_filter f)
      (failed_update (f\<lparr>fa_status := fails_with (fa_status f)\<rparr>)) (markMigrationFailed repo f)"
    and batch_list: "leaves_docs ok look (listRunnableMigrations repo v r limit)"
    and batch_sleep: "ok s \<Longrightarrow> ok (sleepFn n s) \<and> look (sleepFn n s) = look s"
    and batch_look_id: "ok s \<Longrightarrow> look s i = Some m \<Longrightarrow> mg_id m = i"
begin

lemma update_evolves:
  assumes "updates_one ok look i P f act" "ok s" "act s = (r, t)"
    and "\<And>m n. look s i = Some m \<Longrightarrow> P m \<Longrightarrow> migration_step m (f n m)"
  shows "evolves ok look s t"
proof -
  have "ok t" "look t = look s \<or> (\<exists>m n. look s i = Some m \<and> P m \<and> look t = (look s)(i \<mapsto> f n m))"
    using assms(1-3) unfolding updates_one_def by blast+
  then show ?thesis
    using evolves_same [of ok t look s] evolves_update [of ok t look s i] assms(4) by blast
qed

lemma acquired:
  assumes "acquireMigrationLock repo l s = (Inr m, t)" "ok s"
  shows "ok t" "look t (mg_id m) = Some m" "mg_id m = la_id l"
proof -
  from batch_acquire [of l] assms obtain m0 n where t: "ok t" "look t = (look s)(la_id l \<mapsto> lock_update l n m0)"
    "m = lock_update l n m0" "lock_filter l m0"
    unfolding updates_one_def by blast
  then show "ok t" "mg_id m = la_id l"
    using filters_id(2) [of l m0] by (simp_all add: lock_update_def)
  with t show "look t (mg_id m) = Some m" by simp
qed

lemma try_update_evolves:
  assumes "updates_one ok look i P f act" "ok s" "tryA act s = (r, t)"
    and "\<And>m n. look s i = Some m \<Longrightarrow> P m \<Longrightarrow> migration_step m (f n m)"
  shows "evolves ok look s t"
  using assms(3) by (rule tryA_cases) (blast intro: update_evolves [OF assms(1,2) _ assms(4)])+

lemma mark_evolves:
  assumes "ok s" "markMigrationFailed repo f s = (r, t)" "look s (fa_id f) = Some m"
    and "\<And>n. migration_step m (failed_update (f\<lparr>fa_status := fails_with (fa_status f)\<rparr>) n m)"
  shows "evolves ok look s t"
  using assms by (intro update_evolves [OF batch_mark]) auto

lemma bind_evolves:
  assumes "bindA act k s = (r, t)"
    and "\<And>x u. act s = (x, u) \<Longrightarrow> evolves ok look s u"
    and "\<And>x u. act s = (Inr x, u) \<Longrightarrow> ok u \<Longrightarrow> k x u = (r, t) \<Longrightarrow> evolves ok look u t"
  shows "evolves ok look s t"
proof -
  obtain x u where act: "act s = (x, u)" by (cases "act s")
  with assms(2) have su: "evolves ok look s u" by blast
  show ?thesis
  proof (cases x)
    case (Inl e)
    with act assms(1) su show ?thesis by (simp add: bindA_def)
  next
    case (Inr y)
    with act assms(1) have "k y u = (r, t)" by (simp add: bindA_def)
    moreover have "ok u" using su by (simp add: evolves_def)
    ultimately have "evolves ok look u t" using assms(3) act Inr by blast
    with su show ?thesis by (rule evolves_trans)
  qed
qed

lemma executed_evolves:
  assumes "steps_to ok look m Q E (executor m)" "ok s" "look s (mg_id m) = Some m" "tryA (executor m) s = (r, u)"
  shows "evolves ok look s u"
  using assms(4) by (rule tryA_cases) (blast elim: steps_toD [OF assms(1-3)])+

lemma step_done_evolves:
  assumes m': "ok s" "look s (mg_id m) = Some m'"
    and marking: "\<And>e n. step = Inl e \<Longrightarrow> migration_step m'
      (failed_update ((batch_failure a m e)\<lparr>fa_status := fails_with (failureStatusForMigration (mg_status m))\<rparr>) n m')"
    and run: "batch_step_done repo sleepFn a isLast m result step s = (r, t)"
  shows "evolves ok look s t"
proof (cases step)
  case (Inl e)
  show ?thesis
    using run unfolding batch_step_done_def Inl sum.case
  proof (rule bind_evolves)
    show "evolves ok look s u" if "markMigrationFailed repo (batch_failure a m e) s = (x, u)" for x u
      by (rule mark_evolves [OF m'(1) that, of m']) (use m' marking Inl in \<open>simp_all add: batch_failure_def\<close>)
  qed (auto simp: act_simps evolves_refl)
next
  case (Inr x)
  show ?thesis
    using run unfolding batch_step_done_def Inr sum.case
  proof (rule bind_evolves)
    show "evolves ok look s u" if "tryA (releaseMigrationLock repo (batch_unlock a m)) s = (x, u)" for x u
      using batch_release m'(1) that by (rule try_update_evolves) (rule migration_step.release)
  qed (use batch_sleep evolves_same [of ok _ look] evolves_refl [of ok _ look] in \<open>auto split: if_splits\<close>)
qed

lemma locked_evolves:
  assumes exec: "\<And>m. steps_to ok look m (\<lambda>_. True) (E m) (executor m)"
    and marking: "marks_failures fails_with E"
    and s: "ok s" "\<And>m. got = Inr m \<Longrightarrow> look s (mg_id m) = Some m"
    and run: "batch_locked repo sleepFn executor a isLast result got s = (r, t)"
  shows "evolves ok look s t"
proof (cases got)
  case (Inl e)
  with run s show ?thesis by (simp add: batch_locked_def act_simps evolves_refl)
next
  case (Inr m)
  show ?thesis
    using run unfolding batch_locked_def Inr sum.case
  proof (rule bind_evolves)
    show "evolves ok look s u" if "tryA (executor m) s = (x, u)" for x u
      using exec s(1) s(2) [OF Inr] that by (rule executed_evolves)
  next
    fix step u
    assume tried: "tryA (executor m) s = (Inr step, u)" and u: "ok u"
      and run: "batch_step_done repo sleepFn a isLast m result step u = (r, t)"
    from tried have ex: "executor m s = (step, u)" by (auto elim: tryA_cases)
    obtain m' where m': "look u (mg_id m) = Some m'" "case step of Inr x \<Rightarrow> x = m' \<and> True | Inl _ \<Rightarrow> E m m'"
      by (rule steps_toD [OF exec s(1) s(2) [OF Inr] ex])
    show "evolves ok look u t"
      by (rule step_done_evolves [OF u m'(1) _ run]) (use m'(2) marking in \<open>simp add: marks_failures_def\<close>)
  qed
qed

lemma batch_one_evolves:
  assumes exec: "\<And>m. steps_to ok look m (\<lambda>_. True) (E m) (executor m)"
    and marking: "marks_failures fails_with E"
    and s: "ok s" and run: "batch_one repo sleepFn executor a isLast m result s = (r, t)"
  shows "evolves ok look s t"
  using run unfolding batch_one_def
proof (rule bind_evolves)
  show "evolves ok look s u" if "tryA (acquireMigrationLock repo (batch_lock a m)) s = (x, u)" for x u
    using batch_acquire s that by (rule try_update_evolves) (rule migration_step.lock)
next
  fix got u
  assume acq: "tryA (acquireMigrationLock repo (batch_lock a m)) s = (Inr got, u)" and u: "ok u"
    and run: "batch_locked repo sleepFn executor a isLast (result\<lparr>br_attempted := br_attempted result + 1\<rparr>) got u = (r, t)"
  have "look u (mg_id d) = Some d" if "got = Inr d" for d
    using acq that by (auto elim!: tryA_cases dest: acquired(2) [OF _ s])
  then show "evolves ok look u t"
    using locked_evolves [OF exec marking u _ run] by blast
qed

lemma batch_evolves:
  assumes exec: "\<And>m. steps_to ok look m (\<lambda>_. True) (E m) (executor m)"
    and marking: "marks_failures fails_with E"
    and s: "ok s" and run: "runCashWalletMigrationBatch repo sleepFn executor a s = (r, t)"
  shows "evolves ok look s t"
proof -
  have loop: "evolves ok look s t" if "ok s" "batch_loop repo sleepFn executor a ms result s = (r, t)" for ms result s r t
    using that
  proof (induction ms arbitrary: result s)
    case Nil
    then show ?case by (simp add: act_simps evolves_refl)
  next
    case (Cons m ms)
    from Cons.prems(2) [unfolded batch_loop.simps] show ?case
    proof (rule bind_evolves)
      show "evolves ok look s u" if "batch_one repo sleepFn executor a (ms = []) m result s = (x, u)" for x u
        using exec marking Cons.prems(1) that by (rule batch_one_evolves)
    qed (rule Cons.IH)
  qed
  from run [unfolded runCashWalletMigrationBatch_def] show ?thesis
  proof (rule bind_evolves)
    show "evolves ok look s u" if "listRunnableMigrations repo (ba_cutoverVersion a) (ba_runId a) (ba_limit a) s = (x, u)" for x u
      using batch_list s that evolves_same [of ok u look s] unfolding leaves_docs_def by blast
  qed (use loop in blast)
qed

end

section \<open>Rollback and retry over the contracts\<close>

definition restored :: "migration \<Rightarrow> bool" where
  "restored m \<longleftrightarrow> mg_status m = Rollback_started \<and> mg_rollbackPointerRestoredAt m \<noteq> None"

text \<open>The stored migration with the same forward payment and amount, somewhere in its rollback.\<close>

definition rolling :: "migration \<Rightarrow> migration \<Rightarrow> bool" where
  "rolling m m' \<longleftrightarrow> restored m'
     \<and> mg_balanceMovePaymentTransactionId m' = mg_balanceMovePaymentTransactionId m
     \<and> mg_destinationAmountUsdtMicros m' = mg_destinationAmountUsdtMicros m"

definition topping_up :: "migration \<Rightarrow> bool" where
  "topping_up m \<longleftrightarrow> restored m \<and> reversed m \<and> mg_balanceMovePaymentTransactionId m \<noteq> None
     \<and> mg_rollbackShortfallPaymentTransactionId m = None"

lemma leaves_docs_ret: "leaves_docs ok look (retA x)"
  by (simp add: leaves_docs_def act_simps)

lemma leaves_docs_fail: "leaves_docs ok look (failA e)"
  by (simp add: leaves_docs_def act_simps)

lemma leaves_docs_bind:
  assumes "leaves_docs ok look act" "\<And>x. leaves_docs ok look (k x)"
  shows "leaves_docs ok look (bindA act k)"
  unfolding leaves_docs_def
proof (intro allI impI)
  fix s r t
  assume s: "ok s" and run: "bindA act k s = (r, t)"
  obtain x u where act: "act s = (x, u)" by (cases "act s")
  with assms(1) s have u: "ok u" "look u = look s" by (auto simp: leaves_docs_def)
  show "ok t \<and> look t = look s"
  proof (cases x)
    case (Inl e)
    with run act u show ?thesis by (simp add: bindA_def)
  next
    case (Inr y)
    with run act have "k y u = (r, t)" by (simp add: bindA_def)
    with assms(2) [of y] u show ?thesis by (auto simp: leaves_docs_def)
  qed
qed

lemma leaves_docs_option:
  "leaves_docs ok look act \<Longrightarrow> (\<And>y. leaves_docs ok look (f y)) \<Longrightarrow>
   leaves_docs ok look (case x of None \<Rightarrow> act | Some y \<Rightarrow> f y)"
  by (cases x) simp_all

context migration_env
begin

lemma rollback_transition:
  assumes "keeps_key patch" "\<And>n. rollback_step m (enters to n (patch m)) \<and> Q (enters to n (patch m))"
  shows "steps_to ok look m Q (\<lambda>_. True) (transitionMigration repo (rollback_args m to patch))"
  by (rule steps_to_transition) (use assms in \<open>auto intro: migration_step.rollback\<close>)

lemmas rollback_rules = steps_to_lift steps_to_call steps_to_if steps_to_option leaves_docs_if service_docs
  rollback_transition steps_to_fail steps_to_ret

lemma clock_transition:
  assumes "\<And>t. steps_to ok look m Q E (transitionMigration repo (f t))"
  shows "steps_to ok look m Q E (\<lambda>s. transitionMigration repo (f (sv_now svc s)) s)"
  using assms unfolding steps_to_def by blast

lemma restore_pointer_steps:
  assumes m: "mg_status m = Rollback_started"
  shows "steps_to ok look m restored (\<lambda>_. True) (restore_pointer repo svc m)"
proof -
  have written: "steps_to ok look m restored (\<lambda>_. True)
      (\<lambda>s. transitionMigration repo (rollback_args m Rollback_started
        (\<lambda>d. d\<lparr>mg_rollbackPointerRestoredAt := Some (sv_now svc s)\<rparr>)) s)"
    if "mg_rollbackPointerRestoredAt m = None"
    by (rule clock_transition [where f = "\<lambda>t. rollback_args m Rollback_started
        (\<lambda>d. d\<lparr>mg_rollbackPointerRestoredAt := Some t\<rparr>)"], rule rollback_transition)
      (use m that in \<open>auto simp: keeps_key_def mg_key_def restored_def intro: rollback_step.restore\<close>)
  show ?thesis
    unfolding restore_pointer_def patchRollbackProgress_def
    by (intro steps_to_if steps_to_ret steps_to_call leaves_docs_option leaves_docs_bind leaves_docs_if
        leaves_docs_ret service_docs written) (use m in \<open>auto simp: restored_def\<close>)
qed

lemma rollback_invoice_steps:
  assumes "\<And>invoice. keeps_key (patch invoice)"
    and "\<And>invoice n. rollback_step m (enters Rollback_started n (patch invoice m)) \<and> Q (enters Rollback_started n (patch invoice m))"
    and "Q m"
  shows "steps_to ok look m Q (\<lambda>_. True) (rollback_invoice repo svc request memo patch m)"
  unfolding rollback_invoice_def patchRollbackProgress_def
  by (intro steps_to_state_if) (intro rollback_rules; use assms in simp)+

lemma reverse_invoice_steps:
  assumes "restored m" "\<not> reversed m"
  shows "steps_to ok look m (\<lambda>m'. rolling m m' \<and> \<not> reversed m') (\<lambda>_. True)
    (rollback_invoice repo svc mg_rollbackInvoicePaymentRequest '':move''
      (\<lambda>invoice d. d\<lparr>mg_rollbackInvoicePaymentRequest := Some (ci_paymentRequest invoice),
         mg_rollbackInvoicePaymentHash := Some (ci_paymentHash invoice)\<rparr>) m)"
  by (rule rollback_invoice_steps) (use assms in \<open>auto simp: keeps_key_def mg_key_def rolling_def
      restored_def reversed_def intro: rollback_step.reverse_invoice\<close>)

lemma reverse_balance_move_steps:
  assumes m: "restored m"
  shows "steps_to ok look m (\<lambda>m'. rolling m m' \<and> reversed m') (\<lambda>_. True) (reverse_balance_move repo svc m)"
proof -
  have pay: "steps_to ok look d (\<lambda>m'. rolling m m' \<and> reversed m') (\<lambda>_. True)
      (patchRollbackProgress repo d (\<lambda>x. x\<lparr>mg_rollbackPaymentTransactionId := Some tx\<rparr>))"
    if "rolling m d" "\<not> reversed d" for d tx
    unfolding patchRollbackProgress_def
    by (rule rollback_transition) (use that in \<open>auto simp: keeps_key_def mg_key_def rolling_def restored_def
        reversed_def intro: rollback_step.reverse_pay\<close>)
  show ?thesis
    unfolding reverse_balance_move_def Let_def
    by (intro steps_to_if steps_to_option steps_to_fail steps_to_ret steps_to_lift steps_to_call
        steps_to_then [OF reverse_invoice_steps [OF m]] pay service_docs)
      (use m in \<open>auto simp: rolling_def restored_def reversed_def\<close>)
qed

lemma top_up_invoice_steps:
  assumes "topping_up m"
  shows "steps_to ok look m topping_up (\<lambda>_. True)
    (rollback_invoice repo svc mg_rollbackShortfallInvoicePaymentRequest '':shortfall''
      (\<lambda>invoice d. d\<lparr>mg_rollbackShortfallUsdtMicros := Some shortfall,
         mg_rollbackShortfallInvoicePaymentRequest := Some (ci_paymentRequest invoice),
         mg_rollbackShortfallInvoicePaymentHash := Some (ci_paymentHash invoice)\<rparr>) m)"
  by (rule rollback_invoice_steps) (use assms in \<open>auto simp: keeps_key_def mg_key_def restored_def
      reversed_def topping_up_def intro!: rollback_step.top_up_invoice\<close>)

lemma top_up_steps:
  assumes "restored m" "reversed m" "mg_balanceMovePaymentTransactionId m \<noteq> None"
  shows "steps_to ok look m (\<lambda>_. True) (\<lambda>_. True) (top_up_shortfall repo svc shortfall m)"
proof -
  have pay: "steps_to ok look d (\<lambda>_. True) (\<lambda>_. True)
      (patchRollbackProgress repo d (\<lambda>x. x\<lparr>mg_rollbackShortfallPaymentTransactionId := Some tx\<rparr>))"
    if "topping_up d" for d tx
    unfolding patchRollbackProgress_def
    by (rule rollback_transition) (use that in \<open>auto simp: keeps_key_def mg_key_def restored_def
        topping_up_def intro: rollback_step.top_up_pay\<close>)
  show ?thesis
    unfolding top_up_shortfall_def
    by (intro steps_to_if steps_to_option steps_to_fail steps_to_call steps_to_then [OF top_up_invoice_steps]
        pay service_docs) (use assms in \<open>simp_all add: topping_up_def\<close>)
qed

lemma finish_rollback_steps:
  assumes "restored m" "reversed m"
  shows "steps_to ok look m (\<lambda>_. True) (\<lambda>_. True) (finish_rollback repo svc m)"
  unfolding finish_rollback_def
  by (rule clock_transition [where f = "\<lambda>t. rollback_args m Rolled_back (\<lambda>d. d\<lparr>mg_rolledBackAt := Some t\<rparr>)"],
      rule rollback_transition)
    (use assms in \<open>auto simp: keeps_key_def mg_key_def restored_def intro: rollback_step.roll_back\<close>)

lemma rollback_executor_steps:
  "steps_to ok look m (\<lambda>_. True) (\<lambda>_. True) (executeCashWalletMigrationRollbackStep repo svc m)"
proof -
  have verify: "steps_to ok look d (\<lambda>_. True) (\<lambda>_. True)
      (verify_whole repo svc (mg_balanceMovePaymentTransactionId m0 \<noteq> None) d)"
    if "rolling m0 d \<and> reversed d" for d m0
    unfolding verify_whole_def
    by (intro steps_to_if steps_to_option steps_to_fail steps_to_call steps_to_lift service_docs
        top_up_steps finish_rollback_steps) (use that in \<open>simp_all add: rolling_def\<close>)
  show ?thesis
    unfolding executeCashWalletMigrationRollbackStep_def Let_def
    by (intro steps_to_if steps_to_fail steps_to_then [OF restore_pointer_steps]
        steps_to_then [OF reverse_balance_move_steps] verify) simp_all
qed

end

sublocale migration_env \<subseteq> pipeline_batch: batch_store repo ok look sleepFn "\<lambda>st. st"
  by unfold_locales (simp_all add: acquire release mark sleep_docs look_id,
      use runnable in \<open>simp add: lists_docs_def\<close>)

lemma failed_filter_status: "failed_filter (f\<lparr>fa_status := st\<rparr>) = failed_filter f"
  by (simp add: failed_filter_def fun_eq_iff)

sublocale migration_env \<subseteq> rollback_batch:
  batch_store "rollback_batch_repo repo" ok look sleepFn "\<lambda>_. Requires_operator_review"
  by unfold_locales (use acquire release sleep_docs look_id by_statuses
      mark [of "_\<lparr>fa_status := Requires_operator_review\<rparr>"]
      in \<open>simp_all add: rollback_batch_repo_def lists_docs_def failed_filter_status\<close>)

context migration_env
begin

theorem pipeline_batch_evolves:
  assumes "ok s" "runPrimaryCashWalletCutoverBatch repo svc sleepFn a s = (r, t)"
  shows "evolves ok look s t"
proof (rule pipeline_batch.batch_evolves)
  show "steps_to ok look m (\<lambda>_. True) (failed_step m)
      (executeCashWalletMigrationStep (createCashWalletMigrationStepHandlers repo svc) m)" for m
    by (rule steps_to_weaken [OF executor_steps]) simp_all
  show "marks_failures (\<lambda>st. st) failed_step"
    by (simp add: marks_failures_def failed_step_marked)
qed (use assms in \<open>simp_all add: runPrimaryCashWalletCutoverBatch_def\<close>)

theorem rollback_batch_evolves:
  assumes "ok s" "runPrimaryCashWalletRollbackBatch repo svc sleepFn a s = (r, t)"
  shows "evolves ok look s t"
proof (rule rollback_batch.batch_evolves)
  show "marks_failures (\<lambda>_. Requires_operator_review) (\<lambda>_ _. True)"
    by (simp add: marks_failures_def mark_review)
qed (use assms rollback_executor_steps in \<open>simp_all add: runPrimaryCashWalletRollbackBatch_def\<close>)

lemma query_evolves:
  assumes "leaves_docs ok look act" "ok s" "act s = (r, t)"
  shows "evolves ok look s t"
  using assms evolves_same [of ok t look s] by (auto simp: leaves_docs_def)

lemma request_evolves:
  assumes "ok s" "requestCashWalletMigrationRollback repo who why when m s = (r, t)"
    and "mg_status m \<in> set ROLLBACKABLE_STATUSES"
  shows "evolves ok look s t"
  using assms(2) unfolding requestCashWalletMigrationRollback_def
proof (rule pipeline_batch.bind_evolves)
  show "evolves ok look s u" if "can_move m Rollback_started s = (x, u)" for x u
    using that assms(1) by (auto simp: can_move_def act_simps evolves_refl)
next
  fix x u
  assume "ok u" and run: "transitionMigration repo (move_to m Rollback_started (\<lambda>d. d\<lparr>
      mg_rollbackRequestedAt := Some when, mg_rollbackRequestedBy := Some who, mg_rollbackReason := Some why,
      mg_rollbackFromStatus := Some (mg_status m)\<rparr>)) u = (r, t)"
  show "evolves ok look u t"
  proof (rule pipeline_batch.update_evolves [OF transition \<open>ok u\<close> run])
    fix d n
    assume f: "transition_filter (move_to m Rollback_started (\<lambda>d. d\<lparr>
      mg_rollbackRequestedAt := Some when, mg_rollbackRequestedBy := Some who, mg_rollbackReason := Some why,
      mg_rollbackFromStatus := Some (mg_status m)\<rparr>)) d"
    then have "mg_status m = mg_status d" by (simp add: transition_filter_def move_to_def)
    then show "migration_step d (transition_update (move_to m Rollback_started (\<lambda>d. d\<lparr>
      mg_rollbackRequestedAt := Some when, mg_rollbackRequestedBy := Some who, mg_rollbackReason := Some why,
      mg_rollbackFromStatus := Some (mg_status m)\<rparr>)) n d)"
      using assms(3) by (simp add: migration_step.request_rollback)
  qed (simp add: keeps_key_def mg_key_def)
qed

lemma request_loop_evolves:
  "ok s \<Longrightarrow> request_loop repo a ms report s = (r, t) \<Longrightarrow> evolves ok look s t"
proof (induction ms arbitrary: report s)
  case Nil
  then show ?case by (simp add: act_simps evolves_refl)
next
  case (Cons m ms)
  show ?case
  proof (cases "isRollbackableCashWalletMigrationStatus (mg_status m) \<and> \<not> rq_dryRun a")
    case False
    with Cons show ?thesis by (auto simp: Let_def split: if_splits)
  next
    case True
    with Cons.prems(2) have run: "bindA (requestCashWalletMigrationRollback repo (rq_requestedBy a) (rq_reason a) (rq_now a) m)
        (\<lambda>_. request_loop repo a ms (report\<lparr>rr_eligible := rr_eligible report + 1,
           rr_migrationIds := rr_migrationIds report @ [mg_id m], rr_requested := rr_requested report + 1\<rparr>)) s = (r, t)"
      by (simp add: Let_def)
    show ?thesis
    proof (rule pipeline_batch.bind_evolves [OF run])
      show "evolves ok look s u" if "requestCashWalletMigrationRollback repo (rq_requestedBy a) (rq_reason a) (rq_now a) m s = (x, u)" for x u
        using Cons.prems(1) that True by (auto simp: isRollbackableCashWalletMigrationStatus_def intro: request_evolves)
    qed (use Cons.IH in blast)
  qed
qed

lemma by_statuses_docs: "leaves_docs ok look (listMigrationsByStatuses repo v r statuses limit)"
  using by_statuses by (simp add: lists_docs_def)

lemma candidates_leave_docs:
  "leaves_docs ok look (rollback_candidates repo a)" "leaves_docs ok look (retry_candidates repo b)"
  unfolding rollback_candidates_def retry_candidates_def
  by (intro leaves_docs_option leaves_docs_bind leaves_docs_if leaves_docs_ret leaves_docs_fail
      by_statuses_docs by_account)+

theorem request_rollback_evolves:
  assumes "ok s" "requestPrimaryCashWalletRollback repo a s = (r, t)"
  shows "evolves ok look s t"
  using assms(2) unfolding requestPrimaryCashWalletRollback_def
  by (rule pipeline_batch.bind_evolves)
    (use assms(1) query_evolves [OF candidates_leave_docs(1)] request_loop_evolves in blast)+

lemma retry_one:
  assumes s: "ok s" "look s (mg_id m) = Some m" and run: "transitionMigration repo (retry_transition a m) s = (r, t)"
    and clean: "mg_balanceMovePaymentTransactionId m = None" "mg_feeReimbursementPaymentTransactionId m = None"
  shows "evolves ok look s t \<and> (\<forall>i. i \<noteq> mg_id m \<longrightarrow> look t i = look s i)"
proof -
  have key: "keeps_key (ta_patch (retry_transition a m))"
    by (simp add: retry_transition_def keeps_key_def mg_key_def)
  have id: "ta_id (retry_transition a m) = mg_id m" by (simp add: retry_transition_def)
  have upd: "updates_one ok look (mg_id m) (transition_filter (retry_transition a m))
      (transition_update (retry_transition a m)) (transitionMigration repo (retry_transition a m))"
    using transition [OF key] unfolding id .
  have "evolves ok look s t"
  proof (rule pipeline_batch.update_evolves [OF upd s(1) run])
    fix d n
    assume "look s (mg_id m) = Some d" "transition_filter (retry_transition a m) d"
    then have "d = m" "mg_status m = Failed"
      using s(2) by (auto simp: transition_filter_def retry_transition_def)
    then show "migration_step d (transition_update (retry_transition a m) n d)"
      using clean by (simp add: migration_step.retry)
  qed
  moreover have "look t i = look s i" if "i \<noteq> mg_id m" for i
    using upd s(1) run that unfolding updates_one_def by fastforce
  ultimately show ?thesis by blast
qed

lemma retry_loop_evolves:
  "ok s \<Longrightarrow> distinct (map mg_id ms) \<Longrightarrow> (\<And>m. m \<in> set ms \<Longrightarrow> look s (mg_id m) = Some m) \<Longrightarrow>
   retry_loop repo a ms report s = (r, t) \<Longrightarrow> evolves ok look s t"
proof (induction ms arbitrary: report s)
  case Nil
  then show ?case by (simp add: act_simps evolves_refl)
next
  case (Cons m ms)
  show ?case
  proof (cases "(mg_balanceMovePaymentTransactionId m \<noteq> None \<or> mg_feeReimbursementPaymentTransactionId m \<noteq> None) \<or> ry_dryRun a")
    case True
    with Cons show ?thesis by (auto simp: Let_def split: if_splits)
  next
    case False
    then obtain k where "retry_loop repo a (m # ms) report =
        bindA (tryA (transitionMigration repo (retry_transition a m))) k"
      and k: "\<And>x. \<exists>report. k x = retry_loop repo a ms report"
      by (fastforce simp: Let_def split: sum.splits)
    with Cons.prems(4) have run: "bindA (tryA (transitionMigration repo (retry_transition a m))) k s = (r, t)" by simp
    have one: "evolves ok look s u \<and> (\<forall>i. i \<noteq> mg_id m \<longrightarrow> look u i = look s i)"
      if "tryA (transitionMigration repo (retry_transition a m)) s = (x, u)" for x u
    proof -
      have m: "look s (mg_id m) = Some m" "mg_balanceMovePaymentTransactionId m = None"
        "mg_feeReimbursementPaymentTransactionId m = None"
        using False Cons.prems(3) by auto
      from that show ?thesis
        by (rule tryA_cases) (use retry_one [OF Cons.prems(1) m(1) _ m(2,3)] in blast)+
    qed
    show ?thesis
    proof (rule pipeline_batch.bind_evolves [OF run])
      fix x u
      assume x: "tryA (transitionMigration repo (retry_transition a m)) s = (Inr x, u)" and u: "ok u"
        and rest: "k x u = (r, t)"
      obtain report' where "retry_loop repo a ms report' u = (r, t)" using k [of x] rest by auto
      moreover have "look u (mg_id d) = Some d" if "d \<in> set ms" for d
      proof -
        have "mg_id d \<noteq> mg_id m" using Cons.prems(2) that by (metis distinct.simps(2) image_eqI list.set_map list.simps(9))
        then have "look u (mg_id d) = look s (mg_id d)" using one [OF x] by blast
        then show ?thesis using Cons.prems(3) [of d] that by simp
      qed
      ultimately show "evolves ok look u t" using Cons.IH u Cons.prems(2) by auto
    qed (use one in blast)
  qed
qed

lemma retry_candidates_stored:
  assumes "ok s" "retry_candidates repo a s = (Inr ms, t)"
  shows "distinct (map mg_id ms) \<and> (\<forall>m \<in> set ms. look t (mg_id m) = Some m)"
proof -
  have "look t = look s"
    using candidates_leave_docs(2) [of a] assms by (auto simp: leaves_docs_def)
  moreover have "distinct (map mg_id ms) \<and> (\<forall>m \<in> set ms. look s (mg_id m) = Some m)"
  proof (cases "ry_accountId a")
    case None
    then show ?thesis
      using assms by_statuses [of "ry_cutoverVersion a" "ry_runId a" "[Failed]" None]
      unfolding lists_docs_def by (simp add: retry_candidates_def)
  next
    case (Some acc)
    with assms obtain m u where "findMigrationByAccountId repo acc (ry_cutoverVersion a) (ry_runId a) s = (Inr (Some m), u)"
      "ms = [m]"
      by (auto simp: retry_candidates_def bindA_Inr act_simps split: option.splits if_splits)
    with by_account_found [OF assms(1)] show ?thesis by simp
  qed
  ultimately show ?thesis by simp
qed

theorem retry_evolves:
  assumes "ok s" "retryFailedCashWalletMigrations repo a s = (r, t)"
  shows "evolves ok look s t"
  using assms(2) unfolding retryFailedCashWalletMigrations_def
proof (rule pipeline_batch.bind_evolves)
  show "evolves ok look s u" if "retry_candidates repo a s = (x, u)" for x u
    using candidates_leave_docs(2) assms(1) that by (rule query_evolves)
qed (use retry_candidates_stored [OF assms(1)] retry_loop_evolves in blast)

end

end
