(* ===== verification/CutoverSystem.thy ===== *)
theory CutoverSystem
  imports CutoverSafety
begin

text \<open>
  The cutover as a whole: the repository of \<open>CutoverRepository\<close> next to services with a state of
  their own, the operations an operator can run on it, and the properties of every state they can
  reach, whatever the services answer and wherever the database driver fails.
\<close>

section \<open>Services next to the database\<close>

definition in_world :: "('w, 'a) act \<Rightarrow> ('w mongo_scheme, 'a) act" where
  "in_world act = (\<lambda>s. case act (mongo.more s) of (r, w) \<Rightarrow> (r, mongo.more_update (\<lambda>_. w) s))"

definition world_sleep :: "(int \<Rightarrow> 'w \<Rightarrow> 'w) \<Rightarrow> int \<Rightarrow> 'w mongo_scheme \<Rightarrow> 'w mongo_scheme" where
  "world_sleep sleepFn n s = mongo.more_update (sleepFn n) s"

definition world_services :: "'w cutover_services \<Rightarrow> ('w mongo_scheme) cutover_services" where
  "world_services svc =
     \<lparr>sv_now = (\<lambda>s. sv_now svc (mongo.more s)),
      decodedExpiresAt = decodedExpiresAt svc,
      getDefaultWalletId = (\<lambda>acc. in_world (getDefaultWalletId svc acc)),
      ensureDestinationWallet = (\<lambda>acc w. in_world (ensureDestinationWallet svc acc w)),
      readSourceBalanceUsdCents = (\<lambda>m. in_world (readSourceBalanceUsdCents svc m)),
      readDestinationBalanceUsdtMicros = (\<lambda>m. in_world (readDestinationBalanceUsdtMicros svc m)),
      readDestinationSpendableUsdtMicros = (\<lambda>m. in_world (readDestinationSpendableUsdtMicros svc m)),
      createInvoice = (\<lambda>w amt memo. in_world (createInvoice svc w amt memo)),
      createNoAmountInvoice = (\<lambda>w memo. in_world (createNoAmountInvoice svc w memo)),
      payInvoice = (\<lambda>w request cents micros. in_world (payInvoice svc w request cents micros)),
      verifyBalanceMove = (\<lambda>w w' c a tx. in_world (verifyBalanceMove svc w w' c a tx)),
      readFeeAmountUsdtMicros = (\<lambda>m. in_world (readFeeAmountUsdtMicros svc m)),
      getTreasuryWalletId = in_world (getTreasuryWalletId svc),
      flipDefaultWallet = (\<lambda>acc w. in_world (flipDefaultWallet svc acc w)),
      verifyLegacyWalletZero = (\<lambda>w. in_world (verifyLegacyWalletZero svc w))\<rparr>"

lemma in_world_leaves_docs: "leaves_docs docs_ok find_doc (in_world act)"
  by (auto simp: leaves_docs_def in_world_def docs_ok_def find_doc_def fun_eq_iff split: prod.splits)

interpretation cutover:
  migration_env CashWalletCutoverRepository docs_ok "find_doc :: 'w mongo_scheme \<Rightarrow> string \<Rightarrow> migration option"
    "world_services svc" "world_sleep sleepFn" for svc :: "'w cutover_services" and sleepFn :: "int \<Rightarrow> 'w \<Rightarrow> 'w"
  by unfold_locales (simp_all add: world_services_def in_world_leaves_docs,
      simp add: world_sleep_def docs_ok_def find_doc_def fun_eq_iff)

section \<open>The operations of the cutover\<close>

abbreviation store :: "('w mongo_scheme) migrations_repo" where
  "store \<equiv> CashWalletCutoverRepository"

text \<open>
  One call of an operation, to its end or to its first error or exception, or anything the rest of
  the system does in between: the services' state, the clock and the driver may change as they like.
\<close>

inductive cutover_op :: "'w mongo_scheme \<Rightarrow> 'w mongo_scheme \<Rightarrow> bool" where
  prepare: "upsertMigration store args s = (r1, t) \<Longrightarrow> cutover_op s t"
| run_start: "startPrimaryCashWalletCutover store v run actor now s = (r2, t) \<Longrightarrow> cutover_op s t"
| run_batch: "runPrimaryCashWalletCutoverBatch store (world_services svc) (world_sleep sleepFn) a s = (r3, t) \<Longrightarrow>
    cutover_op s t"
| run_complete: "completePrimaryCashWalletCutover store v run actor now s = (r2, t) \<Longrightarrow> cutover_op s t"
| retry_failed: "retryFailedCashWalletMigrations store b s = (r4, t) \<Longrightarrow> cutover_op s t"
| rollback_request: "requestPrimaryCashWalletRollback store q s = (r5, t) \<Longrightarrow> cutover_op s t"
| rollback_batch: "runPrimaryCashWalletRollbackBatch store (world_services svc) (world_sleep sleepFn) a s = (r3, t) \<Longrightarrow>
    cutover_op s t"
| rollback_complete: "completePrimaryCashWalletRollback store v run actor now s = (r2, t) \<Longrightarrow> cutover_op s t"
| environment: "migration_docs t = migration_docs s \<Longrightarrow> config_doc t = config_doc s \<Longrightarrow> uuids t = uuids s \<Longrightarrow>
    cutover_op s t"

lemma lifecycle_leaves_docs:
  "leaves_docs docs_ok find_doc (startPrimaryCashWalletCutover store v run actor now)"
  "leaves_docs docs_ok find_doc (completePrimaryCashWalletCutover store v run actor now)"
  "leaves_docs docs_ok find_doc (completePrimaryCashWalletRollback store v run actor now)"
proof -
  note runnable = cutover_repository.runnable [unfolded lists_docs_def, THEN conjunct1]
  note listed = cutover_repository.by_statuses [unfolded lists_docs_def, THEN conjunct1]
  note rules = leaves_docs_bind leaves_docs_if leaves_docs_ret leaves_docs_fail runnable listed
    config_calls_leave_docs updateConfig_leaves_docs
  show "leaves_docs docs_ok find_doc (startPrimaryCashWalletCutover store v run actor now)"
    "leaves_docs docs_ok find_doc (completePrimaryCashWalletCutover store v run actor now)"
    "leaves_docs docs_ok find_doc (completePrimaryCashWalletRollback store v run actor now)"
    unfolding startPrimaryCashWalletCutover_def completePrimaryCashWalletCutover_def
      completePrimaryCashWalletRollback_def
    by (intro rules; simp only: repo_fields config_calls_leave_docs updateConfig_leaves_docs)+
qed

text \<open>
  Every stored migration follows the abstract machine, and every new one started it as \<open>prepare\<close>
  inserts it.
\<close>

definition store_evolves :: "'w mongo_scheme \<Rightarrow> 'w mongo_scheme \<Rightarrow> bool" where
  "store_evolves s t \<longleftrightarrow> docs_ok t
     \<and> (\<forall>i m. find_doc s i = Some m \<longrightarrow> (\<exists>m'. find_doc t i = Some m' \<and> migration_step\<^sup>*\<^sup>* m m'))
     \<and> (\<forall>i m'. find_doc s i = None \<longrightarrow> find_doc t i = Some m' \<longrightarrow>
          (\<exists>a n. migration_step\<^sup>*\<^sup>* (new_migration a i n) m'))"

lemma evolves_store: "evolves docs_ok find_doc s t \<Longrightarrow> store_evolves s t"
proof -
  assume e: "evolves docs_ok find_doc s t"
  have "\<exists>m'. find_doc t i = Some m' \<and> migration_step\<^sup>*\<^sup>* m m'" if "find_doc s i = Some m" for i m
    using e that unfolding evolves_def by (metis option_rel_Some1)
  moreover have "find_doc t i = None" if "find_doc s i = None" for i
    using e that unfolding evolves_def by (metis rel_option_None1)
  ultimately show ?thesis using e unfolding evolves_def store_evolves_def by (metis option.distinct(1))
qed

lemma prepared_store:
  assumes "docs_ok s" "db_upsertMigration a s = (r, t)"
  shows "store_evolves s t"
proof -
  have "docs_ok t" "find_doc t = find_doc s \<or> inserts_one a s t"
    using upsertMigration_docs [OF assms] by auto
  then show ?thesis
    by (auto simp: store_evolves_def inserts_one_def split: if_splits) blast
qed

lemma op_store_evolves:
  assumes "cutover_op s t" "docs_ok s"
  shows "store_evolves s t"
  using assms
proof (induction rule: cutover_op.induct)
  case (prepare args s r t)
  then show ?case by (simp add: prepared_store)
next
  case (run_start v run actor now s r t)
  then show ?case by (intro evolves_store cutover.query_evolves [OF lifecycle_leaves_docs(1)])
next
  case (run_batch svc sleepFn a s r t)
  then show ?case by (intro evolves_store cutover.pipeline_batch_evolves)
next
  case (run_complete v run actor now s r t)
  then show ?case by (intro evolves_store cutover.query_evolves [OF lifecycle_leaves_docs(2)])
next
  case (retry_failed b s r t)
  then show ?case by (intro evolves_store cutover.retry_evolves)
next
  case (rollback_request q s r t)
  then show ?case by (intro evolves_store cutover.request_rollback_evolves)
next
  case (rollback_batch svc sleepFn a s r t)
  then show ?case by (intro evolves_store cutover.rollback_batch_evolves)
next
  case (rollback_complete v run actor now s r t)
  then show ?case by (intro evolves_store cutover.query_evolves [OF lifecycle_leaves_docs(3)])
next
  case (environment t s)
  then have "docs_ok t" "find_doc t = find_doc s"
    using docs_ok_cong [of t s] find_doc_cong [of t s] by auto
  then show ?case by (intro evolves_store evolves_same)
qed

lemma store_evolves_trans:
  assumes "store_evolves s t" "store_evolves t u"
  shows "store_evolves s u"
  unfolding store_evolves_def
proof (intro conjI allI impI)
  show "docs_ok u" using assms(2) by (simp add: store_evolves_def)
next
  fix i m
  assume "find_doc s i = Some m"
  then obtain m1 m2 where "migration_step\<^sup>*\<^sup>* m m1" "find_doc u i = Some m2" "migration_step\<^sup>*\<^sup>* m1 m2"
    using assms unfolding store_evolves_def by metis
  then show "\<exists>m'. find_doc u i = Some m' \<and> migration_step\<^sup>*\<^sup>* m m'" by (meson rtranclp_trans)
next
  fix i m'
  assume s: "find_doc s i = None" and u: "find_doc u i = Some m'"
  show "\<exists>a n. migration_step\<^sup>*\<^sup>* (new_migration a i n) m'"
  proof (cases "find_doc t i")
    case None
    then show ?thesis using assms(2) u unfolding store_evolves_def by blast
  next
    case (Some m1)
    then obtain a n where "migration_step\<^sup>*\<^sup>* (new_migration a i n) m1" "migration_step\<^sup>*\<^sup>* m1 m'"
      using assms s u unfolding store_evolves_def by (metis option.inject)
    then show ?thesis by (meson rtranclp_trans)
  qed
qed

lemma ops_store_evolves: "cutover_op\<^sup>*\<^sup>* s t \<Longrightarrow> docs_ok s \<Longrightarrow> store_evolves s t"
proof (induction rule: rtranclp_induct)
  case base
  then show ?case by (auto simp: store_evolves_def)
next
  case (step t u)
  then show ?case using op_store_evolves store_evolves_trans store_evolves_def by metis
qed

lemma empty_docs_ok: "migration_docs s = [] \<Longrightarrow> docs_ok s"
  by (simp add: docs_ok_def)

lemma reachable_wf:
  assumes "migration_docs s\<^sub>0 = []" "cutover_op\<^sup>*\<^sup>* s\<^sub>0 s" "find_doc s i = Some m"
  shows "migration_wf m"
proof -
  have "store_evolves s\<^sub>0 s" using assms by (intro ops_store_evolves empty_docs_ok)
  moreover have "find_doc s\<^sub>0 i = None" using assms(1) by (simp add: find_doc_def)
  ultimately obtain a n where "migration_step\<^sup>*\<^sup>* (new_migration a i n) m"
    using assms(3) unfolding store_evolves_def by blast
  then show ?thesis using new_migration_wf by (rule migration_steps_wf)
qed

section \<open>Properties of every reachable state\<close>

text \<open>The example used by the witnesses: one prepared migration, services that answer everything.\<close>

definition ex_args :: upsert_args where
  "ex_args = \<lparr>ua_accountId = ''acc'', ua_accountUuid = None, ua_legacyUsdWalletId = ''usd'',
     ua_destinationUsdtWalletId = ''usdt'', ua_previousDefaultWalletId = None, ua_cutoverVersion = 1,
     ua_runId = ''run'', ua_idempotencyKey = ''key''\<rparr>"

definition ex_empty :: mongo where
  "ex_empty = \<lparr>config_doc = None, migration_docs = [], now_ms = 7, upcoming = [], uuids = 0\<rparr>"

definition ex_prepared :: mongo where
  "ex_prepared = snd (db_upsertMigration ex_args ex_empty)"

definition ex_svc :: "unit cutover_services" where
  "ex_svc = \<lparr>sv_now = (\<lambda>_. 9), decodedExpiresAt = (\<lambda>_. None), getDefaultWalletId = (\<lambda>_. retA ''usdt''),
     ensureDestinationWallet = (\<lambda>_ _. retA ()), readSourceBalanceUsdCents = (\<lambda>_. retA ''12''),
     readDestinationBalanceUsdtMicros = (\<lambda>_. retA ''0''), readDestinationSpendableUsdtMicros = (\<lambda>_. retA ''120000''),
     createInvoice = (\<lambda>_ _ _. retA \<lparr>ci_paymentRequest = ''ln'', ci_paymentHash = ''h''\<rparr>),
     createNoAmountInvoice = (\<lambda>_ _. retA \<lparr>ci_paymentRequest = ''ln'', ci_paymentHash = ''h''\<rparr>),
     payInvoice = (\<lambda>_ _ _ _. retA ''tx''), verifyBalanceMove = (\<lambda>_ _ _ _ _. retA ()),
     readFeeAmountUsdtMicros = (\<lambda>_. retA ''0''), getTreasuryWalletId = retA ''treasury'',
     flipDefaultWallet = (\<lambda>_ _. retA ''usd''), verifyLegacyWalletZero = (\<lambda>_. retA ())\<rparr>"

definition ex_batch :: batch_args where
  "ex_batch = \<lparr>ba_cutoverVersion = 1, ba_runId = ''run'', ba_workerId = ''worker'', ba_limit = None,
     ba_lockStaleBefore = 0, ba_stepDelayMs = 0\<rparr>"

definition ex_run_once :: "mongo \<Rightarrow> mongo" where
  "ex_run_once s = snd (runPrimaryCashWalletCutoverBatch store (world_services ex_svc) (world_sleep (\<lambda>_ w. w)) ex_batch s)"

lemma ex_prepared_reached: "cutover_op ex_empty ex_prepared"
  by (rule cutover_op.prepare [of ex_args _ "fst (db_upsertMigration ex_args ex_empty)"]) (simp add: ex_prepared_def)

lemma ex_run_once_reached: "cutover_op s (ex_run_once s)"
  by (rule cutover_op.run_batch [where svc = ex_svc and sleepFn = "\<lambda>_ w. w" and a = ex_batch
        and ?r3.0 = "fst (runPrimaryCashWalletCutoverBatch store (world_services ex_svc) (world_sleep (\<lambda>_ w. w)) ex_batch s)"])
    (simp add: ex_run_once_def)

lemma ex_ran: "map mg_status (migration_docs (ex_run_once ex_prepared)) = [Started]"
  by code_simp

text \<open>
  C1: in every state the cutover can reach from an empty collection, by any sequence of its
  operations, with services that answer anything and a database driver that fails before or after
  any call, each stored migration is well formed as a record: what its status says has happened is
  recorded (a balance payment and the amount it moved from \<open>balance_move_sending\<close> on and not before, a
  fee payment only after it, a moved pointer with the previous wallet), a failed migration with a recorded
  payment has the pointer moved, and a migration is \<open>rolled_back\<close> only when it has no recorded balance
  payment, or one of amount zero, or a recorded reverse payment. It is a property of what is recorded: a
  payment that was made and whose recording failed is not known to the rollback, which can then finish
  without moving it back.
\<close>

theorem reachable_migrations_wf:
  assumes "migration_docs s\<^sub>0 = []" "cutover_op\<^sup>*\<^sup>* s\<^sub>0 s" "m \<in> set (migration_docs s)"
  shows "migration_wf m"
proof -
  have "docs_ok s"
    using ops_store_evolves [OF assms(2) empty_docs_ok [OF assms(1)]] by (simp add: store_evolves_def)
  then have "find_doc s (mg_id m) = Some m" using assms(3) by (simp add: find_doc_Some_iff)
  with assms(1,2) show ?thesis by (rule reachable_wf)
qed

theorem reachable_migrations_wf_witness:
  "map mg_status (migration_docs (ex_run_once ex_prepared)) = [Started]
   \<and> list_all migration_wf (migration_docs (ex_run_once ex_prepared))"
proof -
  have "migration_docs ex_empty = []" by (simp add: ex_empty_def)
  moreover have "cutover_op\<^sup>*\<^sup>* ex_empty (ex_run_once ex_prepared)"
    using ex_prepared_reached ex_run_once_reached by (meson converse_rtranclp_into_rtranclp rtranclp.rtrancl_refl)
  ultimately show ?thesis using ex_ran reachable_migrations_wf unfolding list_all_iff by blast
qed

text \<open>
  C20: no operation of the cutover ever loses or changes the identifier of a recorded payment, of the
  balance move, the fee, the reverse move or the top-up, or changes which account, wallets and run a
  migration is for; and no operation deletes a migration.
\<close>

theorem recorded_payments_kept:
  assumes "migration_docs s\<^sub>0 = []" "cutover_op\<^sup>*\<^sup>* s\<^sub>0 s" "cutover_op\<^sup>*\<^sup>* s t" "find_doc s i = Some m"
  shows "\<exists>m'. find_doc t i = Some m' \<and> keeps_recorded m m' \<and> mg_key m' = mg_key m"
proof -
  have "docs_ok s" using ops_store_evolves [OF assms(2) empty_docs_ok [OF assms(1)]] by (simp add: store_evolves_def)
  then obtain m' where "find_doc t i = Some m'" "migration_step\<^sup>*\<^sup>* m m'"
    using ops_store_evolves [OF assms(3)] assms(4) unfolding store_evolves_def by blast
  moreover have "migration_wf m" using assms(1,2,4) by (rule reachable_wf)
  ultimately show ?thesis using migration_steps_keep by blast
qed

theorem recorded_payments_kept_witness:
  "\<exists>m m'. find_doc ex_prepared (randomUUID 0) = Some m \<and> find_doc (ex_run_once ex_prepared) (randomUUID 0) = Some m'
     \<and> keeps_recorded m m' \<and> mg_key m' = mg_key m"
proof -
  have "find_doc ex_prepared (randomUUID 0) \<noteq> None" by code_simp
  then obtain m where m: "find_doc ex_prepared (randomUUID 0) = Some m" by blast
  have "\<exists>m'. find_doc (ex_run_once ex_prepared) (randomUUID 0) = Some m' \<and> keeps_recorded m m' \<and> mg_key m' = mg_key m"
    by (rule recorded_payments_kept [OF _ r_into_rtranclp [of cutover_op, OF ex_prepared_reached] r_into_rtranclp [of cutover_op, OF ex_run_once_reached] m])
      (simp add: ex_empty_def)
  with m show ?thesis by blast
qed

text \<open>
  C21: a step of the pipeline on a stored migration refines the abstract machine. If it succeeds, the
  migration returned is the stored one; a terminal migration is unchanged, and any other has moved
  strictly forward, along an edge of the transition table. If it fails, the stored migration is on
  the pipeline's way from where it was, and if it was in a status that is not marked for operator
  review, at most one step on. No other migration changes except by steps of the machine.
\<close>

theorem pipeline_step_refines:
  assumes "docs_ok s" "find_doc s (mg_id m) = Some m"
    and "executeCashWalletMigrationStep
      (createCashWalletMigrationStepHandlers store (world_services svc)) m s = (r, t)"
  shows "evolves docs_ok find_doc s t
    \<and> (\<exists>m'. find_doc t (mg_id m) = Some m'
        \<and> (case r of
             Inr x \<Rightarrow> x = m' \<and> (if mg_status m \<in> set terminalStatuses then m' = m
               else mg_status m' \<in> set (transitions (mg_status m))
                 \<and> pipeline_position (mg_status m) < pipeline_position (mg_status m'))
           | Inl _ \<Rightarrow> forward_step\<^sup>*\<^sup>* m m' \<and> (mg_status m \<notin> set AMBIGUOUS_SIDE_EFFECT_STATUSES \<longrightarrow>
               m' = m \<or> forward_step m m')))"
proof -
  obtain m' where "evolves docs_ok find_doc s t" "find_doc t (mg_id m) = Some m'"
    "case r of Inr x \<Rightarrow> x = m' \<and> stepped m m' | Inl _ \<Rightarrow> failed_step m m'"
    by (rule steps_toD [OF cutover.executor_steps assms])
  then show ?thesis
    by (cases r) (auto simp: stepped_def advanced_to_def failed_step_def at_most_one_step_def)
qed

definition ex_migration :: migration where
  "ex_migration = new_migration ex_args (randomUUID 0) 7"

lemma ex_prepared_doc: "docs_ok ex_prepared" "find_doc ex_prepared (mg_id ex_migration) = Some ex_migration"
proof -
  have d: "migration_docs ex_prepared = [ex_migration]" "uuids ex_prepared = 1"
    by (simp_all add: ex_prepared_def ex_empty_def db_upsertMigration_def on_driver_def Let_def ex_migration_def)
  then show "docs_ok ex_prepared" by (auto simp: docs_ok_def ex_migration_def new_migration_def)
  show "find_doc ex_prepared (mg_id ex_migration) = Some ex_migration" by (simp add: find_doc_def d)
qed

theorem pipeline_step_refines_witness:
  "\<exists>r t m'. executeCashWalletMigrationStep
      (createCashWalletMigrationStepHandlers store (world_services ex_svc)) ex_migration ex_prepared = (Inr r, t)
    \<and> find_doc t (mg_id ex_migration) = Some m' \<and> r = m' \<and> mg_status m' \<in> set (transitions Not_started)"
proof -
  let ?run = "executeCashWalletMigrationStep
      (createCashWalletMigrationStepHandlers store (world_services ex_svc)) ex_migration ex_prepared"
  have "\<not> isl (fst ?run)" by code_simp
  then obtain x t where run: "?run = (Inr x, t)" by (cases ?run) (auto simp: not_isl_Inr)
  have st: "mg_status ex_migration = Not_started" by (simp add: ex_migration_def new_migration_def)
  from pipeline_step_refines [OF ex_prepared_doc run] run show ?thesis
    by (auto simp: st terminalStatuses_def)
qed

end
