(* ===== verification/CutoverLiveness.thy ===== *)
theory CutoverLiveness
  imports CutoverSystem
begin

text \<open>
  The pipeline reaches its end: with services that succeed and a database that answers, a migration
  is complete after at most thirteen steps.
\<close>

section \<open>Services that succeed\<close>

definition always :: "('a \<Rightarrow> bool) \<Rightarrow> ('w, 'a) act \<Rightarrow> bool" where
  "always P act \<longleftrightarrow> (\<forall>w. \<exists>x w'. act w = (Inr x, w') \<and> P x)"

text \<open>
  Every call returns a result; a balance is a decimal number of cents and a fee a number of micro
  units, as the code expects them.
\<close>

definition cooperative :: "'w cutover_services \<Rightarrow> bool" where
  "cooperative svc \<longleftrightarrow>
     (\<forall>acc w. always (\<lambda>_. True) (ensureDestinationWallet svc acc w))
   \<and> (\<forall>m. always (\<lambda>c. decimal_value c \<noteq> None) (readSourceBalanceUsdCents svc m))
   \<and> (\<forall>m. always (\<lambda>_. True) (readDestinationBalanceUsdtMicros svc m))
   \<and> (\<forall>w a memo. always (\<lambda>_. True) (createInvoice svc w a memo))
   \<and> (\<forall>w memo. always (\<lambda>_. True) (createNoAmountInvoice svc w memo))
   \<and> (\<forall>w req c a. always (\<lambda>_. True) (payInvoice svc w req c a))
   \<and> (\<forall>w w' c a tx. always (\<lambda>_. True) (verifyBalanceMove svc w w' c a tx))
   \<and> (\<forall>m. always (\<lambda>f. f \<noteq> [] \<and> digits f) (readFeeAmountUsdtMicros svc m))
   \<and> always (\<lambda>_. True) (getTreasuryWalletId svc)
   \<and> (\<forall>acc w. always (\<lambda>_. True) (flipDefaultWallet svc acc w))
   \<and> (\<forall>w. always (\<lambda>_. True) (verifyLegacyWalletZero svc w))"

text \<open>Successive steps of one migration, as successive batches make them.\<close>

primrec drive :: "'s migrations_repo \<Rightarrow> 's cutover_services \<Rightarrow> nat \<Rightarrow> migration \<Rightarrow> ('s, migration) act" where
  "drive repo svc 0 m = retA m"
| "drive repo svc (Suc n) m =
     bindA (executeCashWalletMigrationStep (createCashWalletMigrationStepHandlers repo svc) m) (drive repo svc n)"

section \<open>Every step succeeds\<close>

definition succeeds :: "migration \<Rightarrow> ('w mongo_scheme, 'a) act \<Rightarrow> bool" where
  "succeeds m act \<longleftrightarrow> (\<forall>s. docs_ok s \<longrightarrow> find_doc s (mg_id m) = Some m \<longrightarrow> upcoming s = [] \<longrightarrow>
     (\<exists>x t. act s = (Inr x, t) \<and> upcoming t = []))"

lemma succeeds_ret: "succeeds m (retA x)"
  by (simp add: succeeds_def act_simps)

lemma succeeds_lift: "r = Inr x \<Longrightarrow> succeeds m (k x) \<Longrightarrow> succeeds m (bindA (liftA r) k)"
  by (simp add: act_simps)

lemma succeeds_can_move:
  "to \<in> set (transitions (mg_status m)) \<Longrightarrow> succeeds m (k ()) \<Longrightarrow> succeeds m (bindA (can_move m to) k)"
  unfolding can_move_def by (rule succeeds_lift) simp_all

lemma succeeds_call:
  fixes act :: "('w, 'a) act"
  assumes "always P act" "\<And>x. P x \<Longrightarrow> succeeds m (k x)"
  shows "succeeds m (bindA (in_world act) k)"
  unfolding succeeds_def
proof (intro allI impI)
  fix s :: "'w mongo_scheme"
  assume s: "docs_ok s" "find_doc s (mg_id m) = Some m" "upcoming s = []"
  obtain x w' where act: "act (mongo.more s) = (Inr x, w')" and x: "P x"
    using assms(1) unfolding always_def by blast
  let ?u = "mongo.more_update (\<lambda>_. w') s"
  have u: "in_world act s = (Inr x, ?u)" using act by (simp add: in_world_def)
  have "docs_ok ?u" "find_doc ?u = find_doc s" "upcoming ?u = []"
    using s by (simp_all add: docs_ok_def find_doc_def fun_eq_iff)
  then have "\<exists>y t. k x ?u = (Inr y, t) \<and> upcoming t = []"
    using assms(2) [OF x] s(2) by (simp add: succeeds_def)
  then show "\<exists>y t. bindA (in_world act) k s = (Inr y, t) \<and> upcoming t = []"
    by (simp add: bindA_def u)
qed

lemma succeeds_transition:
  assumes "ta_id a = mg_id m" "transition_filter a m"
  shows "succeeds m (db_transitionMigration a)"
  unfolding succeeds_def
proof (intro allI impI)
  fix s :: "'a mongo_scheme"
  assume s: "docs_ok s" "find_doc s (mg_id m) = Some m" "upcoming s = []"
  then have "m \<in> set (migration_docs s)" by (simp add: find_doc_Some_iff)
  then have "update_first (transition_filter a) (transition_update a (now_ms s)) (migration_docs s) \<noteq> None"
    using assms(2) by (auto simp: update_first_None)
  then show "\<exists>x t. db_transitionMigration a s = (Inr x, t) \<and> upcoming t = []"
    using s(3) by (auto simp: db_transitionMigration_def findOneAndUpdate_def on_driver_def)
qed

lemma succeeds_move: "succeeds m (db_transitionMigration (move_to m to patch))"
  by (rule succeeds_transition) (simp_all add: move_to_def transition_filter_def in_run_def)

lemma succeeds_then:
  fixes act :: "('w mongo_scheme, migration) act"
  assumes "succeeds m act" "steps_to docs_ok find_doc m Q E act"
    and "\<And>m'. Q m' \<Longrightarrow> mg_id m' = mg_id m \<Longrightarrow> succeeds m' (k m')"
  shows "succeeds m (bindA act k)"
  unfolding succeeds_def
proof (intro allI impI)
  fix s :: "'w mongo_scheme"
  assume s: "docs_ok s" "find_doc s (mg_id m) = Some m" "upcoming s = []"
  then obtain x u where x: "act s = (Inr x, u)" "upcoming u = []"
    using assms(1) unfolding succeeds_def by blast
  obtain m' where u: "evolves docs_ok find_doc s u" "find_doc u (mg_id m) = Some m'"
    "case Inr x :: migration result of Inr x \<Rightarrow> x = m' \<and> Q m' | Inl _ \<Rightarrow> E m'"
    by (rule steps_toD [OF assms(2) s(1,2) x(1)])
  then have "docs_ok u" by (simp add: evolves_def)
  then have id: "mg_id m' = mg_id m" using u(2) by (simp add: find_doc_Some_iff)
  have "\<exists>y t. k m' u = (Inr y, t) \<and> upcoming t = []"
    using assms(3) [OF _ id] u x(2) id \<open>docs_ok u\<close> unfolding succeeds_def by simp
  then show "\<exists>y t. bindA act k s = (Inr y, t) \<and> upcoming t = []"
    using x u(3) by (simp add: bindA_def)
qed

lemma succeeds_if_state:
  "succeeds m act \<Longrightarrow> succeeds m act' \<Longrightarrow> succeeds m (\<lambda>s. if c s then act s else act' s)"
  unfolding succeeds_def by auto

lemma succeeds_state: "(\<And>n. succeeds m (f n)) \<Longrightarrow> succeeds m (\<lambda>s. f (g s) s)"
  unfolding succeeds_def by blast

lemma succeeds_option: "x = Some y \<Longrightarrow> succeeds m (f y) \<Longrightarrow> succeeds m (case x of None \<Rightarrow> act | Some y \<Rightarrow> f y)"
  by simp

lemma succeeds_if: "(b \<Longrightarrow> succeeds m act) \<Longrightarrow> (\<not> b \<Longrightarrow> succeeds m act') \<Longrightarrow> succeeds m (if b then act else act')"
  by simp

lemma moved_amount_iff: "decimal_value c \<noteq> None \<longleftrightarrow> (\<exists>a. usdCentsToUsdtMicros c = Inr a)"
  by (auto simp: usdCentsToUsdtMicros_def decimal_value_def decimalToScaledInteger_def split: option.splits)

lemma fee_checks:
  assumes "f \<noteq> []" "digits f"
  shows "\<exists>b. isSubMinimumFeeReimbursementAmount f = Inr b" "\<exists>b. usesNoAmountFeeReimbursementInvoice f = Inr b"
    "\<exists>c. usdtMicrosToUsdCentsCeil f = Inr c"
  using assms by (simp_all add: isSubMinimumFeeReimbursementAmount_def usesNoAmountFeeReimbursementInvoice_def
      usdtMicrosToUsdCentsCeil_def parseNonNegativeInteger_def bindE_def bigDiv_def USDT_MICROS_PER_USD_CENT_def)

lemma fee_not_below: "isSubMinimumFeeReimbursementAmount f = Inr b \<Longrightarrow> f \<noteq> [] \<and> digits f"
  by (simp add: isSubMinimumFeeReimbursementAmount_def split: if_splits)

lemma world_service_fields [simp]:
  "ensureDestinationWallet (world_services svc) acc w = in_world (ensureDestinationWallet svc acc w)"
  "readSourceBalanceUsdCents (world_services svc) m = in_world (readSourceBalanceUsdCents svc m)"
  "readDestinationBalanceUsdtMicros (world_services svc) m = in_world (readDestinationBalanceUsdtMicros svc m)"
  "createInvoice (world_services svc) w a memo = in_world (createInvoice svc w a memo)"
  "createNoAmountInvoice (world_services svc) w memo = in_world (createNoAmountInvoice svc w memo)"
  "payInvoice (world_services svc) w req c x = in_world (payInvoice svc w req c x)"
  "verifyBalanceMove (world_services svc) w w' c x tx = in_world (verifyBalanceMove svc w w' c x tx)"
  "readFeeAmountUsdtMicros (world_services svc) m = in_world (readFeeAmountUsdtMicros svc m)"
  "getTreasuryWalletId (world_services svc) = in_world (getTreasuryWalletId svc)"
  "flipDefaultWallet (world_services svc) acc w = in_world (flipDefaultWallet svc acc w)"
  "verifyLegacyWalletZero (world_services svc) w = in_world (verifyLegacyWalletZero svc w)"
  by (simp_all add: world_services_def)

lemma cooperativeD:
  assumes "cooperative svc"
  shows "always (\<lambda>_. True) (ensureDestinationWallet svc acc w)"
    "always (\<lambda>c. decimal_value c \<noteq> None) (readSourceBalanceUsdCents svc m)"
    "always (\<lambda>_. True) (readDestinationBalanceUsdtMicros svc m)"
    "always (\<lambda>_. True) (createInvoice svc w a memo)"
    "always (\<lambda>_. True) (createNoAmountInvoice svc w memo)"
    "always (\<lambda>_. True) (payInvoice svc w req c' a')"
    "always (\<lambda>_. True) (verifyBalanceMove svc w w' c' a' tx)"
    "always (\<lambda>f. f \<noteq> [] \<and> digits f) (readFeeAmountUsdtMicros svc m)"
    "always (\<lambda>_. True) (getTreasuryWalletId svc)"
    "always (\<lambda>_. True) (flipDefaultWallet svc acc w)"
    "always (\<lambda>_. True) (verifyLegacyWalletZero svc w)"
  using assms by (simp_all add: cooperative_def)

lemma single_steps_succeed:
  assumes c: "cooperative svc"
  shows "mg_status m = Not_started \<Longrightarrow> succeeds m (startCashWalletMigration store m t)"
    "mg_status m = Started \<Longrightarrow> succeeds m (provisionCashWalletMigrationDestination store (world_services svc) m)"
    "mg_status m = Provisioned \<Longrightarrow> usdCentsToUsdtMicros cents = Inr micros \<Longrightarrow>
      succeeds m (recordCashWalletMigrationBalance store m cents starting)"
    "mg_status m \<in> {Balance_read, Invoice_created} \<Longrightarrow> mg_destinationAmountUsdtMicros m \<noteq> None \<Longrightarrow>
      succeeds m (createCashWalletMigrationBalanceMoveInvoice store (world_services svc) m)"
    "mg_status m = Balance_move_sending \<Longrightarrow> mg_balanceMovePaymentTransactionId m \<noteq> None \<Longrightarrow>
      succeeds m (markCashWalletMigrationBalanceMoveSent store m)"
    "mg_status m = Balance_move_sent \<Longrightarrow> mg_balanceMovePaymentTransactionId m \<noteq> None \<Longrightarrow>
      succeeds m (verifyCashWalletMigrationBalanceMove store (world_services svc) m)"
    "mg_status m = Balance_move_verified \<Longrightarrow> succeeds m (skipCashWalletMigrationFeeReimbursement store m fee)"
    "mg_status m = Fee_reimbursement_sending \<Longrightarrow> mg_feeReimbursementPaymentTransactionId m \<noteq> None \<Longrightarrow>
      succeeds m (markCashWalletMigrationFeeReimbursed store m)"
    "mg_status m \<in> {Balance_read, Fee_reimbursed} \<Longrightarrow>
      succeeds m (flipCashWalletMigrationDefaultPointer store (world_services svc) m)"
    "mg_status m = Pointer_flipped \<Longrightarrow> succeeds m (verifyCashWalletMigrationLegacyZero store (world_services svc) m)"
    "mg_status m = Legacy_zero_verified \<Longrightarrow> succeeds m (completeCashWalletMigration store m t)"
  unfolding cutover.handler_defs
  by (auto intro!: succeeds_can_move succeeds_call [OF cooperativeD(1) [OF c]]
      succeeds_call [OF cooperativeD(5) [OF c]] succeeds_call [OF cooperativeD(7) [OF c]]
      succeeds_call [OF cooperativeD(10) [OF c]] succeeds_call [OF cooperativeD(11) [OF c]]
      succeeds_lift succeeds_move)

lemma fee_invoice_succeeds:
  assumes c: "cooperative svc" and f: "f \<noteq> []" "digits f"
    and m: "mg_status m \<in> {Balance_move_verified, Fee_reimbursement_invoice_created}"
  shows "succeeds m (createCashWalletMigrationFeeReimbursementInvoice store (world_services svc) m f)"
proof -
  obtain b d where "usesNoAmountFeeReimbursementInvoice f = Inr b" "usdtMicrosToUsdCentsCeil f = Inr d"
    using fee_checks [OF f] by auto
  with m show ?thesis
    unfolding createCashWalletMigrationFeeReimbursementInvoice_def Let_def
    by (cases b) (auto intro!: succeeds_can_move succeeds_lift succeeds_move
        succeeds_call [OF cooperativeD(4) [OF c]] succeeds_call [OF cooperativeD(5) [OF c]])
qed

lemma balance_payment_succeeds:
  assumes c: "cooperative svc" and m: "mg_status m = Invoice_created" and wf: "migration_wf m"
  shows "succeeds m (sendCashWalletMigrationBalanceMovePayment store (world_services svc) b n m)"
proof -
  obtain req cents where f: "mg_balanceMoveInvoicePaymentRequest m = Some req" "mg_sourceBalanceUsdCents m = Some cents"
    "mg_destinationAmountUsdtMicros m \<noteq> None"
    using wf m by (auto simp: migration_wf_def forward_wf_def moved_amount_def)
  let ?Q = "\<lambda>m' :: migration. mg_status m' = Invoice_created \<and> mg_balanceMoveInvoicePaymentRequest m' \<noteq> None
    \<and> mg_sourceBalanceUsdCents m' \<noteq> None"
  let ?refresh = "\<lambda>s. if b \<and> isInvoicePaymentRequestStale (world_services svc) req (sv_now (world_services svc) s) n
      then createCashWalletMigrationBalanceMoveInvoice store (world_services svc) m s else retA m s"
  have "steps_to docs_ok find_doc m (\<lambda>m'. forward_step\<^sup>*\<^sup>* m m' \<and> mg_status m' = Invoice_created) (forward_step\<^sup>*\<^sup>* m) ?refresh"
    by (intro cutover.refresh_or_keep cutover.invoice_steps(1)) (simp_all add: m)
  moreover have "?Q m'" if "forward_step\<^sup>*\<^sup>* m m' \<and> mg_status m' = Invoice_created" for m'
  proof -
    have "migration_step\<^sup>*\<^sup>* m m'" using that by (auto intro: mono_rtranclp [rule_format] migration_step.forward)
    then have "migration_wf m'" using wf by (rule migration_steps_wf)
    then show ?thesis using that by (auto simp: migration_wf_def forward_wf_def moved_amount_def)
  qed
  ultimately have steps: "steps_to docs_ok find_doc m ?Q (forward_step\<^sup>*\<^sup>* m) ?refresh"
    by (rule steps_to_weaken) simp_all
  have refresh: "succeeds m ?refresh"
    using f m by (intro succeeds_if_state succeeds_ret single_steps_succeed(4) [OF c]) simp_all
  show ?thesis
    unfolding sendCashWalletMigrationBalanceMovePayment_def
    using f m by (auto intro!: succeeds_can_move succeeds_then [OF refresh steps] succeeds_call [OF cooperativeD(6) [OF c]]
        succeeds_move)
qed

lemma fee_payment_succeeds:
  assumes c: "cooperative svc" and m: "mg_status m = Fee_reimbursement_invoice_created" and wf: "migration_wf m"
  shows "succeeds m (sendCashWalletMigrationFeeReimbursementPayment store (world_services svc) b n w m)"
proof -
  obtain req f where f: "mg_feeReimbursementInvoicePaymentRequest m = Some req" "mg_feeAmountUsdtMicros m = Some f"
    "f \<noteq> []" "digits f"
    using wf m by (auto simp: migration_wf_def forward_wf_def dest!: fee_not_below)
  let ?Q = "\<lambda>m' :: migration. mg_status m' = Fee_reimbursement_invoice_created \<and> mg_feeReimbursementInvoicePaymentRequest m' \<noteq> None
    \<and> (\<exists>f. mg_feeAmountUsdtMicros m' = Some f \<and> f \<noteq> [] \<and> digits f)"
  let ?refresh = "\<lambda>s. if b \<and> isInvoicePaymentRequestStale (world_services svc) req (sv_now (world_services svc) s) n
      then createCashWalletMigrationFeeReimbursementInvoice store (world_services svc) m f s else retA m s"
  have "steps_to docs_ok find_doc m (\<lambda>m'. forward_step\<^sup>*\<^sup>* m m' \<and> mg_status m' = Fee_reimbursement_invoice_created)
      (forward_step\<^sup>*\<^sup>* m) ?refresh"
    by (intro cutover.refresh_or_keep cutover.invoice_steps(2)) (simp_all add: m f)
  moreover have "?Q m'" if "forward_step\<^sup>*\<^sup>* m m' \<and> mg_status m' = Fee_reimbursement_invoice_created" for m'
  proof -
    have "migration_step\<^sup>*\<^sup>* m m'" using that by (auto intro: mono_rtranclp [rule_format] migration_step.forward)
    then have "migration_wf m'" using wf by (rule migration_steps_wf)
    then show ?thesis using that by (auto simp: migration_wf_def forward_wf_def dest!: fee_not_below)
  qed
  ultimately have steps: "steps_to docs_ok find_doc m ?Q (forward_step\<^sup>*\<^sup>* m) ?refresh"
    by (rule steps_to_weaken) simp_all
  have refresh: "succeeds m ?refresh"
    using f m by (intro succeeds_if_state succeeds_ret fee_invoice_succeeds [OF c]) simp_all
  have pay: "succeeds d (bindA (liftA (usesNoAmountFeeReimbursementInvoice g)) (\<lambda>u.
      bindA (payInvoice (world_services svc) w r None (x u)) (\<lambda>tx. transitionMigration store (move_to d st (h tx)))))"
    if g: "g \<noteq> []" "digits g" for d g r x st h
  proof -
    obtain b where "usesNoAmountFeeReimbursementInvoice g = Inr b" using fee_checks(2) [OF g] by blast
    then show ?thesis
      by (rule succeeds_lift) (simp add: succeeds_call [OF cooperativeD(6) [OF c]] succeeds_move)
  qed
  let ?pay = "\<lambda>payable. case mg_feeReimbursementInvoicePaymentRequest payable of
        None \<Rightarrow> failA InvalidCashWalletMigrationTransitionError
      | Some r \<Rightarrow> (case mg_feeAmountUsdtMicros payable of
        None \<Rightarrow> failA InvalidCashWalletMigrationTransitionError
      | Some g \<Rightarrow> bindA (liftA (usesNoAmountFeeReimbursementInvoice g)) (\<lambda>u.
        bindA (payInvoice (world_services svc) w r None (if u then Some g else None)) (\<lambda>tx.
        transitionMigration store (move_to payable Fee_reimbursement_sending
          (\<lambda>d. d\<lparr>mg_feeReimbursementPaymentTransactionId := Some tx\<rparr>)))))"
  have "succeeds m (bindA ?refresh ?pay)"
  proof (rule succeeds_then [OF refresh steps])
    fix m' :: migration
    assume "?Q m'"
    then obtain r g where "mg_feeReimbursementInvoicePaymentRequest m' = Some r" "mg_feeAmountUsdtMicros m' = Some g"
      "g \<noteq> []" "digits g" by auto
    then show "succeeds m' (?pay m')"
      using pay [of g m' r "\<lambda>u. if u then Some g else None" Fee_reimbursement_sending] by simp
  qed
  then show ?thesis
    unfolding sendCashWalletMigrationFeeReimbursementPayment_def f option.case
    by (intro succeeds_can_move) (simp add: m)
qed

lemma fee_reading_succeeds:
  assumes c: "cooperative svc" and m: "mg_status m = Balance_move_verified"
  shows "succeeds m (bindA (in_world (readFeeAmountUsdtMicros svc m)) (\<lambda>f.
     bindA (liftA (isSubMinimumFeeReimbursementAmount f)) (\<lambda>sub.
     if sub then skipCashWalletMigrationFeeReimbursement store m f
     else createCashWalletMigrationFeeReimbursementInvoice store (world_services svc) m f)))"
proof (rule succeeds_call [OF cooperativeD(8) [OF c]])
  fix f :: string
  assume f: "f \<noteq> [] \<and> digits f"
  then obtain sub where "isSubMinimumFeeReimbursementAmount f = Inr sub" using fee_checks(1) by blast
  then show "succeeds m (bindA (liftA (isSubMinimumFeeReimbursementAmount f)) (\<lambda>sub.
     if sub then skipCashWalletMigrationFeeReimbursement store m f
     else createCashWalletMigrationFeeReimbursementInvoice store (world_services svc) m f))"
    by (rule succeeds_lift) (simp add: f m single_steps_succeed(7) [OF c] fee_invoice_succeeds [OF c])
qed

lemma balance_reading_succeeds:
  assumes c: "cooperative svc" and m: "mg_status m = Provisioned"
  shows "succeeds m (bindA (in_world (readSourceBalanceUsdCents svc m)) (\<lambda>x.
     bindA (in_world (readDestinationBalanceUsdtMicros svc m)) (\<lambda>y. recordCashWalletMigrationBalance store m x y)))"
proof (rule succeeds_call [OF cooperativeD(2) [OF c]], rule succeeds_call [OF cooperativeD(3) [OF c]])
  fix x y :: string
  assume "decimal_value x \<noteq> None"
  then obtain a where "usdCentsToUsdtMicros x = Inr a" unfolding moved_amount_iff by blast
  with m show "succeeds m (recordCashWalletMigrationBalance store m x y)"
    by (rule single_steps_succeed(3) [OF c])
qed

lemma step_succeeds:
  assumes c: "cooperative svc" and wf: "migration_wf m" and running: "mg_status m \<notin> set terminalStatuses"
  shows "succeeds m (executeCashWalletMigrationStep (createCashWalletMigrationStepHandlers store (world_services svc)) m)"
proof -
  note one = single_steps_succeed [OF c]
  have clock: "mg_status m = Not_started \<Longrightarrow> succeeds m (\<lambda>s. startCashWalletMigration store m (sv_now (world_services svc) s) s)"
    "mg_status m = Legacy_zero_verified \<Longrightarrow> succeeds m (\<lambda>s. completeCashWalletMigration store m (sv_now (world_services svc) s) s)"
    using one(1) succeeds_state [of m "startCashWalletMigration store m"]
      one(11) succeeds_state [of m "completeCashWalletMigration store m"] by blast+
  have fields: "mg_status m = Balance_read \<Longrightarrow> mg_destinationAmountUsdtMicros m \<noteq> None"
    "mg_status m = Fee_reimbursement_sending \<Longrightarrow> mg_feeReimbursementPaymentTransactionId m \<noteq> None"
    "mg_status m = Balance_move_sending \<or> mg_status m = Balance_move_sent \<Longrightarrow> mg_balanceMovePaymentTransactionId m \<noteq> None"
    using wf by (auto simp: wf_defs)
  have treasury: "mg_status m = Fee_reimbursement_invoice_created \<Longrightarrow>
      succeeds m (bindA (in_world (getTreasuryWalletId svc)) (\<lambda>w.
        sendCashWalletMigrationFeeReimbursementPayment store (world_services svc) True n w m))" for n
    using fee_payment_succeeds [OF c _ wf] by (intro succeeds_call [OF cooperativeD(9) [OF c]])
  show ?thesis
    using running fields
    by (cases "mg_status m") (simp_all add: executeCashWalletMigrationStep_def terminalStatuses_def one clock
        fee_reading_succeeds [OF c] balance_reading_succeeds [OF c] balance_payment_succeeds [OF c _ wf] treasury)
qed

lemma drive_completes:
  assumes c: "cooperative svc"
  shows "docs_ok s \<Longrightarrow> find_doc s (mg_id m) = Some m \<Longrightarrow> upcoming s = [] \<Longrightarrow> migration_wf m \<Longrightarrow>
    pipeline_position (mg_status m) \<le> 13 \<Longrightarrow> 13 \<le> n + pipeline_position (mg_status m) \<Longrightarrow>
    \<exists>m' t. drive store (world_services svc) n m s = (Inr m', t) \<and> mg_status m' = Complete
      \<and> find_doc t (mg_id m) = Some m'"
proof (induction n arbitrary: m s)
  case 0
  then have "pipeline_position (mg_status m) = 13" by simp
  then have "mg_status m = Complete" by (cases "mg_status m") (simp_all add: pipeline_position_def)
  with 0 show ?case by (simp add: act_simps)
next
  case (Suc n)
  let ?step = "executeCashWalletMigrationStep (createCashWalletMigrationStepHandlers store (world_services svc)) m"
  show ?case
  proof (cases "mg_status m = Complete")
    case True
    then have "?step = retA m" by (simp add: executeCashWalletMigrationStep_def terminalStatuses_def)
    then show ?thesis
      using Suc.IH [OF Suc.prems(1-5)] True by (simp add: act_simps pipeline_position_def)
  next
    case False
    have running: "mg_status m \<notin> set terminalStatuses"
      using False Suc.prems(5) by (cases "mg_status m") (simp_all add: terminalStatuses_def pipeline_position_def)
    obtain x t where x: "?step s = (Inr x, t)" "upcoming t = []"
      using step_succeeds [OF c Suc.prems(4) running] Suc.prems(1-3) unfolding succeeds_def by blast
    obtain m' where m': "evolves docs_ok find_doc s t" "find_doc t (mg_id m) = Some m'"
      "case Inr x :: migration result of Inr x \<Rightarrow> x = m' \<and> stepped m m' | Inl _ \<Rightarrow> failed_step m m'"
      by (rule steps_toD [OF cutover.executor_steps Suc.prems(1,2) x(1)])
    have t: "docs_ok t" using m'(1) by (simp add: evolves_def)
    then have id: "mg_id m' = mg_id m" using m'(2) by (simp add: find_doc_Some_iff)
    have "migration_step\<^sup>*\<^sup>* m m'"
      using m'(1,2) Suc.prems(2) unfolding evolves_def by (metis option.rel_inject(2))
    then have wf: "migration_wf m'" using Suc.prems(4) by (rule migration_steps_wf)
    have pos: "pipeline_position (mg_status m) < pipeline_position (mg_status m')" "pipeline_position (mg_status m') \<le> 13"
      using m'(3) running by (auto simp: stepped_def advanced_to_def)
    have "\<exists>m2 t2. drive store (world_services svc) n m' t = (Inr m2, t2) \<and> mg_status m2 = Complete
        \<and> find_doc t2 (mg_id m') = Some m2"
      using Suc.IH [of t m'] t m'(2) id x(2) wf pos Suc.prems(6) by simp
    then show ?thesis using x(1) m'(3) id by (simp add: bindA_def)
  qed
qed

text \<open>
  C4: with services that succeed and a database driver that does not fail, a well-formed migration
  that is still running is complete after at most thirteen steps of the pipeline, and stored as such.
\<close>

theorem pipeline_completes:
  assumes "cooperative svc" "docs_ok s" "find_doc s (mg_id m) = Some m" "upcoming s = []" "migration_wf m"
    and "mg_status m \<notin> set terminalStatuses"
  shows "\<exists>m' t. drive store (world_services svc) 13 m s = (Inr m', t) \<and> mg_status m' = Complete
    \<and> find_doc t (mg_id m) = Some m'"
proof (rule drive_completes [OF assms(1-5)])
  show "pipeline_position (mg_status m) \<le> 13"
    using assms(6) by (cases "mg_status m") (simp_all add: terminalStatuses_def pipeline_position_def)
qed simp

theorem pipeline_completes_witness:
  "\<exists>m' t. drive store (world_services ex_svc) 13 ex_migration ex_prepared = (Inr m', t) \<and> mg_status m' = Complete
    \<and> find_doc t (mg_id ex_migration) = Some m'"
proof (rule pipeline_completes)
  have "decimal_value ''12'' \<noteq> None" by code_simp
  then show "cooperative ex_svc"
    by (simp add: cooperative_def ex_svc_def always_def act_simps)
  show "upcoming ex_prepared = []"
    by (simp add: ex_prepared_def ex_empty_def db_upsertMigration_def on_driver_def Let_def)
  show "migration_wf ex_migration" by (simp add: ex_migration_def new_migration_wf)
  show "mg_status ex_migration \<notin> set terminalStatuses"
    by (simp add: ex_migration_def new_migration_def terminalStatuses_def)
qed (rule ex_prepared_doc)+

end
