(* ===== verification/CutoverLifecycle.thy ===== *)
theory CutoverLifecycle
  imports CutoverSystem
begin

text \<open>
  Runs of the cutover as a whole: that a lock keeps other workers out, and when a run or
  its rollback can be completed.
\<close>

section \<open>Locks\<close>

text \<open>
  C22: the migration a worker locks is stored with its name and the time. While that lock is not older
  than the other's limit, no other call acquires it, and a worker of another name can neither release it
  nor mark the migration failed; all three leave the collection as it is.
\<close>

theorem lock_excludes:
  assumes s: "docs_ok s" and acquired: "acquireMigrationLock store l s = (Inr m, t)"
    and other: "la_id k = la_id l" "mg_lockedAt m = Some taken" "la_staleBefore k \<le> taken"
      "rl_id u = la_id l" "rl_workerId u \<noteq> la_workerId l" "fa_id f = la_id l" "fa_workerId f \<noteq> la_workerId l"
    and calls: "acquireMigrationLock store k t = (r1, t1)" "releaseMigrationLock store u t = (r2, t2)"
      "markMigrationFailed store f t = (r3, t3)"
  shows "find_doc t (la_id l) = Some m \<and> mg_lockedBy m = Some (la_workerId l)
    \<and> isl r1 \<and> isl r2 \<and> isl r3
    \<and> find_doc t1 = find_doc t \<and> find_doc t2 = find_doc t \<and> find_doc t3 = find_doc t"
proof -
  have t: "docs_ok t" "find_doc t (la_id l) = Some m" "mg_lockedBy m = Some (la_workerId l)"
    using cutover_repository.acquire [of l] s acquired unfolding updates_one_def
    by (fastforce simp: lock_update_def)+
  then have "\<not> lock_filter k m" "\<not> release_filter u m" "\<not> failed_filter f m"
    using other by (auto simp: lock_filter_def release_filter_def failed_filter_def)
  then show ?thesis
    using t other cutover_repository.acquire [of k] cutover_repository.release [of u] cutover_repository.mark [of f] calls
    unfolding updates_one_def by (metis isl_def option.inject)
qed

definition ex_lock :: "string \<Rightarrow> lock_args" where
  "ex_lock worker = \<lparr>la_id = randomUUID 0, la_workerId = worker, la_staleBefore = 5,
     la_cutoverVersion = 1, la_runId = ''run''\<rparr>"

theorem lock_excludes_witness:
  "\<exists>m t. acquireMigrationLock store (ex_lock ''one'') ex_prepared = (Inr m, t)
    \<and> isl (fst (acquireMigrationLock store (ex_lock ''two'') t)) \<and> mg_lockedBy m = Some ''one''"
proof -
  let ?run = "acquireMigrationLock store (ex_lock ''one'') ex_prepared"
  have "\<not> isl (fst ?run)" "mg_lockedAt (projr (fst ?run)) = Some 7" by code_simp+
  then obtain m t where run: "?run = (Inr m, t)" "mg_lockedAt m = Some 7"
    by (cases ?run) (auto simp: not_isl_Inr)
  let ?u = "\<lparr>rl_id = randomUUID 0, rl_workerId = ''two'', rl_cutoverVersion = 1, rl_runId = ''run''\<rparr>"
  let ?f = "\<lparr>fa_id = randomUUID 0, fa_workerId = ''two'', fa_cutoverVersion = 1, fa_runId = ''run'',
    fa_error = ServiceError ''down'', fa_status = Failed\<rparr>"
  have "isl (fst (acquireMigrationLock store (ex_lock ''two'') t)) \<and> mg_lockedBy m = Some ''one''"
    using lock_excludes [OF ex_prepared_doc(1) run(1), of "ex_lock ''two''" 7 ?u ?f
        "fst (acquireMigrationLock store (ex_lock ''two'') t)" "snd (acquireMigrationLock store (ex_lock ''two'') t)"
        "fst (releaseMigrationLock store ?u t)" "snd (releaseMigrationLock store ?u t)"
        "fst (markMigrationFailed store ?f t)" "snd (markMigrationFailed store ?f t)"] run(2)
    by (simp add: ex_lock_def)
  with run(1) show ?thesis by blast
qed

section \<open>Completing a run\<close>

lemma find_sorted_empty:
  assumes "find_sorted P (Some 1) s = (Inr [], t)"
  shows "migration_docs t = migration_docs s \<and> (\<forall>m \<in> set (migration_docs s). \<not> P m)"
proof -
  have sort: "sort_key f xs = [] \<longleftrightarrow> xs = []" for f :: "migration \<Rightarrow> int" and xs
    by (metis length_0_conv length_sort)
  from assms show ?thesis
    unfolding find_sorted_def by (rule on_driver_cases) (auto simp: Let_def sort filter_empty_conv)
qed

lemma db_countByStatus_0:
  assumes "db_countByStatus v r status s = (Inr 0, t)"
  shows "migration_docs t = migration_docs s
    \<and> (\<forall>m \<in> set (migration_docs s). of_run v r m \<longrightarrow> mg_status m \<noteq> status)"
  using assms unfolding db_countByStatus_def
  by (rule on_driver_cases) (auto simp: filter_empty_conv)

lemma updateConfig_state:
  assumes "db_updateConfig patch actor s = (Inr c, t)"
  shows "migration_docs t = migration_docs s \<and> config_doc t = Some c"
  using assms unfolding db_updateConfig_def by (rule on_driver_cases) (auto simp: Let_def)

lemma getConfig_state:
  assumes "db_getConfig s = (Inr c, t)"
  shows "migration_docs t = migration_docs s \<and> config_doc t = config_doc s
    \<and> c = (case config_doc s of None \<Rightarrow> defaultConfig | Some c \<Rightarrow> c)"
  using assms unfolding db_getConfig_def by (rule on_driver_cases) auto

lemma complete_cutover:
  assumes "completePrimaryCashWalletCutover store v runId actor now s = (Inr c, t)"
  shows "config_doc t = Some c \<and> cc_state c = Cutover_complete \<and> migration_docs t = migration_docs s
    \<and> list_all (\<lambda>m. of_run v runId m \<longrightarrow>
        mg_status m \<in> {Complete, Skipped_already_migrated, Rollback_started, Rolled_back}) (migration_docs t)"
proof -
  obtain u1 u2 u3 where calls: "db_countByStatus v runId Failed s = (Inr 0, u1)"
      "db_countByStatus v runId Requires_operator_review u1 = (Inr 0, u2)"
      "db_listRunnableMigrations v runId (Some 1) u2 = (Inr [], u3)"
    and written: "db_updateConfig (\<lambda>c. c\<lparr>cc_state := Cutover_complete, cc_cutoverVersion := v,
        cc_runId := Some runId, cc_completedAt := Some now\<rparr>) actor u3 = (Inr c, t)"
    using assms by (auto simp: completePrimaryCashWalletCutover_def bindA_Inr act_simps split: if_splits)
  have docs: "migration_docs t = migration_docs s" "config_doc t = Some c"
    "\<forall>m \<in> set (migration_docs s). of_run v runId m \<longrightarrow> mg_status m \<notin> {Failed, Requires_operator_review}
       \<and> mg_status m \<in> set TERMINAL_STATUSES"
    using db_countByStatus_0 [OF calls(1)] db_countByStatus_0 [OF calls(2)] updateConfig_state [OF written]
      find_sorted_empty [OF calls(3) [unfolded db_listRunnableMigrations_def]] by auto
  have "cc_state c = Cutover_complete"
    using written unfolding db_updateConfig_def by (rule on_driver_cases) (auto simp: Let_def)
  with docs show ?thesis by (auto simp: list_all_iff TERMINAL_STATUSES_def)
qed

lemma complete_rollback:
  assumes "completePrimaryCashWalletRollback store v runId actor now s = (Inr c, t)"
  shows "config_doc t = Some c \<and> cc_state c = Cutover_rolled_back \<and> migration_docs t = migration_docs s
    \<and> (config_doc s = Some c \<or> list_all (\<lambda>m. of_run v runId m \<longrightarrow>
        mg_status m \<in> {Rolled_back, Skipped_already_migrated}) (migration_docs t))"
proof -
  obtain c0 u0 where config: "db_getConfig s = (Inr c0, u0)"
    using assms by (auto simp: completePrimaryCashWalletRollback_def bindA_Inr)
  note u0 = getConfig_state [OF config]
  show ?thesis
  proof (cases "cc_state c0 = Cutover_rolled_back")
    case True
    then have "c = c0" "t = u0" using assms config
      by (auto simp: completePrimaryCashWalletRollback_def bindA_Inr act_simps)
    then show ?thesis using True u0 by (auto simp: defaultConfig_def split: option.splits)
  next
    case False
    then obtain u1 where calls: "db_listMigrationsByStatuses v runId unresolvedStatuses (Some 1) u0 = (Inr [], u1)"
      and written: "db_updateConfig (\<lambda>c. c\<lparr>cc_state := Cutover_rolled_back, cc_cutoverVersion := v,
        cc_runId := Some runId, cc_completedAt := Some now\<rparr>) actor u1 = (Inr c, t)"
      using assms config by (auto simp: completePrimaryCashWalletRollback_def bindA_Inr act_simps split: if_splits)
    have docs: "migration_docs t = migration_docs s" "config_doc t = Some c"
      "\<forall>m \<in> set (migration_docs s). of_run v runId m \<longrightarrow> mg_status m \<notin> set unresolvedStatuses"
      using u0 updateConfig_state [OF written]
        find_sorted_empty [OF calls(1) [unfolded db_listMigrationsByStatuses_def]] by auto
    have "cc_state c = Cutover_rolled_back"
      using written unfolding db_updateConfig_def by (rule on_driver_cases) (auto simp: Let_def)
    moreover have "mg_status m \<in> {Rolled_back, Skipped_already_migrated}"
      if "mg_status m \<notin> set unresolvedStatuses" for m
      using that by (cases "mg_status m") (simp_all add: unresolvedStatuses_def)
    ultimately show ?thesis using docs by (auto simp: list_all_iff)
  qed
qed

text \<open>
  C23: a run is completed only when each of its migrations is complete, skipped, or in or after its
  rollback; its rollback is completed only when each of them is rolled back or was skipped, unless it is
  completed already. The state of the cutover is then stored, and no migration is changed.
\<close>

theorem completion_requires_all:
  "(\<forall>c t. completePrimaryCashWalletCutover store v runId actor now s = (Inr c, t) \<longrightarrow>
      config_doc t = Some c \<and> cc_state c = Cutover_complete \<and> migration_docs t = migration_docs s
      \<and> list_all (\<lambda>m. of_run v runId m \<longrightarrow>
          mg_status m \<in> {Complete, Skipped_already_migrated, Rollback_started, Rolled_back}) (migration_docs t))
   \<and> (\<forall>c t. completePrimaryCashWalletRollback store v runId actor now s = (Inr c, t) \<longrightarrow>
      config_doc t = Some c \<and> cc_state c = Cutover_rolled_back \<and> migration_docs t = migration_docs s
      \<and> (config_doc s = Some c \<or> list_all (\<lambda>m. of_run v runId m \<longrightarrow>
          mg_status m \<in> {Rolled_back, Skipped_already_migrated}) (migration_docs t)))"
  using complete_cutover complete_rollback by blast

definition ex_all_complete :: mongo where
  "ex_all_complete = ex_empty\<lparr>migration_docs := [ex_migration\<lparr>mg_status := Complete\<rparr>], uuids := 1\<rparr>"

theorem completion_requires_all_witness:
  "\<exists>c t. completePrimaryCashWalletCutover store 1 ''run'' ''ops'' 9 ex_all_complete = (Inr c, t)
    \<and> config_doc t = Some c \<and> cc_state c = Cutover_complete
    \<and> isl (fst (completePrimaryCashWalletCutover store 1 ''run'' ''ops'' 9 ex_prepared))"
proof -
  let ?run = "completePrimaryCashWalletCutover store 1 ''run'' ''ops'' 9 ex_all_complete"
  have "\<not> isl (fst ?run)" "isl (fst (completePrimaryCashWalletCutover store 1 ''run'' ''ops'' 9 ex_prepared))" by code_simp+
  moreover from this obtain c t where "?run = (Inr c, t)" by (cases ?run) (auto simp: not_isl_Inr)
  ultimately show ?thesis using completion_requires_all [of 1 "''run''" "''ops''" 9 ex_all_complete] by blast
qed

end
