(* ===== verification/CutoverPrepare.thy ===== *)
theory CutoverPrepare
  imports CutoverSystem
begin

text \<open>
  Preparing a cutover: which accounts take part (\<open>discovery.ts\<close>), whether the run can start
  (\<open>preflight.ts\<close>), which migrations it has (\<open>planner.ts\<close>, \<open>preview.ts\<close>, \<open>migration-records.ts\<close>,
  \<open>prepare.ts\<close>) and giving accounts the USDT wallet they miss (\<open>provision-usdt-wallets.ts\<close>), all
  under \<open>src/app/cash-wallet-cutover/\<close>. The repositories of accounts and wallets are parameters.
\<close>

section \<open>Accounts and wallets\<close>

datatype wallet_type = Checking | External

record wallet =
  wl_id :: string
  wl_accountId :: string
  wl_type :: wallet_type
  wl_currency :: wallet_currency

record account =
  ac_id :: string
  ac_uuid :: string
  ac_defaultWalletId :: string

text \<open>
  Of an account and a wallet the model has the fields the cutover reads.
  The accounts come from a cursor: each element is an account, or the exception that ends the
  iteration. A string is truthy unless it is empty.
\<close>

record 's directory =
  listUnlockedAccounts :: "('s, (error + account) list) act"
  listByAccountId :: "string \<Rightarrow> ('s, wallet list) act"

definition truthy :: "string option \<Rightarrow> bool" where
  "truthy x \<longleftrightarrow> x \<noteq> None \<and> x \<noteq> Some ''''"

section \<open>discovery.ts\<close>

datatype discovery_status =
    Legacy_default | Already_usdt | Residual_legacy_usd | Missing_legacy_usd | Missing_destination_usdt

record discovery =
  ds_status :: discovery_status
  ds_accountId :: string
  ds_accountUuid :: "string option"
  ds_legacyUsdWalletId :: "string option"
  ds_destinationUsdtWalletId :: "string option"
  ds_previousDefaultWalletId :: string

definition checking_wallet :: "wallet_currency \<Rightarrow> wallet list \<Rightarrow> wallet option" where
  "checking_wallet c wallets = find (\<lambda>w. wl_type w = Checking \<and> wl_currency w = c) wallets"

definition classifyCashWalletsForCutover :: "account \<Rightarrow> wallet list \<Rightarrow> discovery" where
  "classifyCashWalletsForCutover account wallets =
     (let legacyUsdWallet = checking_wallet Usd wallets;
          destinationUsdtWallet = checking_wallet Usdt wallets
      in \<lparr>ds_status =
            (case legacyUsdWallet of
               None \<Rightarrow> Missing_legacy_usd
             | Some legacy \<Rightarrow> (case destinationUsdtWallet of
                 None \<Rightarrow> Missing_destination_usdt
               | Some destination \<Rightarrow>
                   if ac_defaultWalletId account = wl_id legacy then Legacy_default
                   else if ac_defaultWalletId account = wl_id destination then Already_usdt
                   else Residual_legacy_usd)),
          ds_accountId = ac_id account, ds_accountUuid = Some (ac_uuid account),
          ds_legacyUsdWalletId = map_option wl_id legacyUsdWallet,
          ds_destinationUsdtWalletId = map_option wl_id destinationUsdtWallet,
          ds_previousDefaultWalletId = ac_defaultWalletId account\<rparr>)"

primrec discover_loop :: "'s directory \<Rightarrow> (error + account) list \<Rightarrow> ('s, discovery list) act" where
  "discover_loop dir [] = retA []"
| "discover_loop dir (next # accounts) =
     bindA (liftA next) (\<lambda>account.
     bindA (listByAccountId dir (ac_id account)) (\<lambda>wallets.
     bindA (discover_loop dir accounts) (\<lambda>rest.
     retA (classifyCashWalletsForCutover account wallets # rest))))"

definition discoverCashWalletCutoverAccounts :: "'s directory \<Rightarrow> ('s, discovery list) act" where
  "discoverCashWalletCutoverAccounts dir =
     bindA (listUnlockedAccounts dir) (discover_loop dir)"

section \<open>preflight.ts\<close>

record preflight_report =
  pf_cutoverVersion :: int
  pf_runId :: string
  pf_totalAccounts :: nat
  pf_migrationCandidates :: nat
  pf_alreadyUsdt :: nat
  pf_residualLegacyUsd :: nat
  pf_blockers :: nat
  pf_blockerAccounts :: "(string \<times> discovery_status) list"
  pf_canStart :: bool

definition buildCashWalletCutoverPreflightReport :: "int \<Rightarrow> string \<Rightarrow> discovery list \<Rightarrow> preflight_report" where
  "buildCashWalletCutoverPreflightReport cutoverVersion runId discoveries =
     (let blockerAccounts = concat (map (\<lambda>d.
            if ds_status d \<noteq> Missing_legacy_usd \<and> ds_status d \<noteq> Missing_destination_usdt then []
            else [(ds_accountId d, ds_status d)]) discoveries);
          count = (\<lambda>st. length (filter (\<lambda>d. ds_status d = st) discoveries))
      in \<lparr>pf_cutoverVersion = cutoverVersion, pf_runId = runId,
          pf_totalAccounts = length discoveries,
          pf_migrationCandidates = count Legacy_default,
          pf_alreadyUsdt = count Already_usdt,
          pf_residualLegacyUsd = count Residual_legacy_usd,
          pf_blockers = length blockerAccounts,
          pf_blockerAccounts = blockerAccounts,
          pf_canStart = (length blockerAccounts = 0)\<rparr>)"

section \<open>planner.ts\<close>

text \<open>The plan of a migration is the argument of \<open>upsertMigration\<close>.\<close>

definition plan_of :: "int \<Rightarrow> string \<Rightarrow> discovery \<Rightarrow> upsert_args list" where
  "plan_of cutoverVersion runId d =
     (if ds_status d \<noteq> Legacy_default then []
      else if \<not> truthy (ds_legacyUsdWalletId d) \<or> \<not> truthy (ds_destinationUsdtWalletId d) then []
      else [\<lparr>ua_accountId = ds_accountId d, ua_accountUuid = ds_accountUuid d,
             ua_legacyUsdWalletId = the (ds_legacyUsdWalletId d),
             ua_destinationUsdtWalletId = the (ds_destinationUsdtWalletId d),
             ua_previousDefaultWalletId = Some (ds_previousDefaultWalletId d),
             ua_cutoverVersion = cutoverVersion, ua_runId = runId,
             ua_idempotencyKey = ''cash-wallet-cutover:'' @ runId @ '':'' @ ds_accountId d\<rparr>])"

definition buildPrimaryCashWalletMigrationPlan :: "int \<Rightarrow> string \<Rightarrow> discovery list \<Rightarrow> upsert_args list" where
  "buildPrimaryCashWalletMigrationPlan cutoverVersion runId discoveries =
     concat (map (plan_of cutoverVersion runId) discoveries)"

section \<open>preview.ts, migration-records.ts and prepare.ts\<close>

definition previewPrimaryCashWalletCutover ::
  "'s directory \<Rightarrow> int \<Rightarrow> string \<Rightarrow> ('s, preflight_report \<times> upsert_args list) act"
where
  "previewPrimaryCashWalletCutover dir cutoverVersion runId =
     bindA (discoverCashWalletCutoverAccounts dir) (\<lambda>discoveries.
     let report = buildCashWalletCutoverPreflightReport cutoverVersion runId discoveries in
     retA (report,
       if \<not> pf_canStart report then []
       else buildPrimaryCashWalletMigrationPlan cutoverVersion runId discoveries))"

primrec upsertPrimaryCashWalletMigrationRecords ::
  "'s migrations_repo \<Rightarrow> upsert_args list \<Rightarrow> ('s, migration list) act"
where
  "upsertPrimaryCashWalletMigrationRecords repo [] = retA []"
| "upsertPrimaryCashWalletMigrationRecords repo (plan # plans) =
     bindA (upsertMigration repo plan) (\<lambda>m.
     bindA (upsertPrimaryCashWalletMigrationRecords repo plans) (\<lambda>ms.
     retA (m # ms)))"

record prepare_result =
  pr_report :: preflight_report
  pr_plannedMigrations :: "upsert_args list"
  pr_migrations :: "migration list"
  pr_cohortNotFound :: "string list option"

definition cohort :: "string list option \<Rightarrow> discovery list \<Rightarrow> discovery list" where
  "cohort accountIds discoveries =
     (case accountIds of
        None \<Rightarrow> discoveries
      | Some ids \<Rightarrow> filter (\<lambda>d. ds_accountId d \<in> set ids) discoveries)"

definition preparePrimaryCashWalletCutover ::
  "'s migrations_repo \<Rightarrow> 's directory \<Rightarrow> int \<Rightarrow> string \<Rightarrow> string list option \<Rightarrow> ('s, prepare_result) act"
where
  "preparePrimaryCashWalletCutover repo dir cutoverVersion runId accountIds =
     bindA (discoverCashWalletCutoverAccounts dir) (\<lambda>allDiscoveries.
     let discoveries = cohort accountIds allDiscoveries;
         cohortNotFound = map_option
           (filter (\<lambda>i. i \<notin> set (map ds_accountId discoveries))) accountIds;
         report = buildCashWalletCutoverPreflightReport cutoverVersion runId discoveries
     in if \<not> pf_canStart report
        then retA \<lparr>pr_report = report, pr_plannedMigrations = [], pr_migrations = [],
                   pr_cohortNotFound = cohortNotFound\<rparr>
        else let plannedMigrations = buildPrimaryCashWalletMigrationPlan cutoverVersion runId discoveries in
          bindA (upsertPrimaryCashWalletMigrationRecords repo plannedMigrations) (\<lambda>migrations.
          retA \<lparr>pr_report = report, pr_plannedMigrations = plannedMigrations, pr_migrations = migrations,
                pr_cohortNotFound = cohortNotFound\<rparr>))"

section \<open>provision-usdt-wallets.ts\<close>

text \<open>
  The message of an error and its printed form belong to the error classes and are parameters.
\<close>

record error_texts =
  et_message :: "error \<Rightarrow> string"
  et_String :: "error \<Rightarrow> string"

definition errorMessage :: "error_texts \<Rightarrow> error \<Rightarrow> string" where
  "errorMessage texts e = (if et_message texts e \<noteq> '''' then et_message texts e else et_String texts e)"

definition isRateLimitError :: "error_texts \<Rightarrow> error \<Rightarrow> bool" where
  "isRateLimitError texts e = js_includes (toLowerCase (errorMessage texts e)) ''too many requests''"

definition js_slice_to :: "int option \<Rightarrow> 'a list \<Rightarrow> 'a list" where
  "js_slice_to n xs =
     (case n of
        None \<Rightarrow> xs
      | Some k \<Rightarrow> if 0 \<le> k then take (nat k) xs else take (length xs - nat (- k)) xs)"

record provision_args =
  pv_cutoverVersion :: int
  pv_runId :: string
  pv_provisionLimit :: "int option"
  pv_provisionDelayMs :: int
  pv_provisionRetryDelayMs :: int
  pv_maxProvisionAttempts :: int
  pv_dryRun :: bool

record provision_result =
  pn_before :: preflight_report
  pn_after :: preflight_report
  pn_eligible :: nat
  pn_provisioned :: "(string \<times> string) list"
  pn_failed :: "(string \<times> string) list"
  pn_dryRun :: bool

text \<open>
  The attempts for one account: \<open>n\<close> attempts are left. An error that is not a rate limit, and the error
  of the last attempt, end the loop.
\<close>

primrec provision_attempts ::
  "(string \<Rightarrow> wallet_type \<Rightarrow> wallet_currency \<Rightarrow> ('s, wallet) act) \<Rightarrow> error_texts \<Rightarrow> (int \<Rightarrow> 's \<Rightarrow> 's)
   \<Rightarrow> int \<Rightarrow> string \<Rightarrow> nat \<Rightarrow> ('s, wallet result) act"
where
  "provision_attempts addWallet texts sleep delay accountId 0 = retA (Inl (Thrown PlainError))"
| "provision_attempts addWallet texts sleep delay accountId (Suc n) =
     bindA (tryA (addWallet accountId Checking Usdt)) (\<lambda>got.
     case got of
       Inr w \<Rightarrow> retA (Inr w)
     | Inl e \<Rightarrow>
         if \<not> isRateLimitError texts e \<or> n = 0 then retA (Inl e)
         else (\<lambda>s. provision_attempts addWallet texts sleep delay accountId n (sleep delay s)))"

primrec provision_loop ::
  "(string \<Rightarrow> wallet_type \<Rightarrow> wallet_currency \<Rightarrow> ('s, wallet) act) \<Rightarrow> error_texts \<Rightarrow> (int \<Rightarrow> 's \<Rightarrow> 's)
   \<Rightarrow> provision_args \<Rightarrow> discovery list \<Rightarrow> ('s, (string \<times> string) list \<times> (string \<times> string) list) act"
where
  "provision_loop addWallet texts sleep a [] = retA ([], [])"
| "provision_loop addWallet texts sleep a (d # ds) =
     bindA (provision_attempts addWallet texts sleep (pv_provisionRetryDelayMs a) (ds_accountId d)
              (nat (max 1 (pv_maxProvisionAttempts a)))) (\<lambda>got s.
     let s = (if pv_provisionDelayMs a > 0 \<and> ds \<noteq> [] then sleep (pv_provisionDelayMs a) s else s) in
     bindA (provision_loop addWallet texts sleep a ds) (\<lambda>(provisioned, failed).
     retA (case got of
       Inl e \<Rightarrow> (provisioned, (ds_accountId d, errorMessage texts e) # failed)
     | Inr w \<Rightarrow> ((ds_accountId d, wl_id w) # provisioned, failed))) s)"

definition provisionPrimaryCashWalletUsdtWallets ::
  "'s migrations_repo \<Rightarrow> 's directory \<Rightarrow> (string \<Rightarrow> wallet_type \<Rightarrow> wallet_currency \<Rightarrow> ('s, wallet) act)
   \<Rightarrow> error_texts \<Rightarrow> (int \<Rightarrow> 's \<Rightarrow> 's) \<Rightarrow> provision_args \<Rightarrow> ('s, provision_result) act"
where
  "provisionPrimaryCashWalletUsdtWallets repo dir addWallet texts sleep a =
     bindA (getConfig repo) (\<lambda>config.
     if cc_state config \<noteq> Pre then failA InvalidCashWalletCutoverStateTransitionError
     else
       bindA (discoverCashWalletCutoverAccounts dir) (\<lambda>discoveries.
       let before = buildCashWalletCutoverPreflightReport (pv_cutoverVersion a) (pv_runId a) discoveries;
           eligible = js_slice_to (pv_provisionLimit a)
             (filter (\<lambda>d. ds_status d = Missing_destination_usdt) discoveries)
       in bindA (if pv_dryRun a then retA ([], []) else provision_loop addWallet texts sleep a eligible)
            (\<lambda>(provisioned, failed).
          bindA (if pv_dryRun a then retA discoveries else discoverCashWalletCutoverAccounts dir)
            (\<lambda>afterDiscoveries.
          retA \<lparr>pn_before = before,
                pn_after = buildCashWalletCutoverPreflightReport (pv_cutoverVersion a) (pv_runId a) afterDiscoveries,
                pn_eligible = length eligible, pn_provisioned = provisioned, pn_failed = failed,
                pn_dryRun = pv_dryRun a\<rparr>))))"

section \<open>What preparing writes\<close>

definition reads_only :: "'w mongo_scheme directory \<Rightarrow> bool" where
  "reads_only dir \<longleftrightarrow> leaves_docs docs_ok find_doc (listUnlockedAccounts dir)
     \<and> (\<forall>i. leaves_docs docs_ok find_doc (listByAccountId dir i))"

definition extends :: "'w mongo_scheme \<Rightarrow> 'w mongo_scheme \<Rightarrow> bool" where
  "extends s t \<longleftrightarrow> docs_ok t \<and> (\<forall>i m. find_doc s i = Some m \<longrightarrow> find_doc t i = Some m)"

definition prepared_by :: "'w mongo_scheme \<Rightarrow> 'w mongo_scheme \<Rightarrow> upsert_args \<Rightarrow> migration \<Rightarrow> bool" where
  "prepared_by s t plan m \<longleftrightarrow> find_doc t (mg_id m) = Some m
     \<and> mg_accountId m = ua_accountId plan \<and> mg_runId m = ua_runId plan
     \<and> (find_doc s (mg_id m) = Some m \<or> find_doc s (mg_id m) = None \<and> mg_status m = Not_started)"

lemma upsert_prepares:
  assumes s: "docs_ok s" and run: "db_upsertMigration a s = (Inr m, t)"
  shows "extends s t \<and> prepared_by s t a m"
proof -
  have t: "docs_ok t" "find_doc t = find_doc s \<or> inserts_one a s t"
    using upsertMigration_docs [OF s run] by auto
  have "extends s t" using t by (auto simp: extends_def inserts_one_def)
  moreover have "prepared_by s t a m"
    using run unfolding db_upsertMigration_def
  proof (cases rule: on_driver_cases)
    case (run u)
    let ?f = "find (\<lambda>m. mg_accountId m = ua_accountId a \<and> mg_runId m = ua_runId a) (migration_docs u)"
    have u: "docs_ok u" "find_doc u = find_doc s" using run s by (auto simp: docs_ok_def find_doc_def)
    show ?thesis
    proof (cases ?f)
      case (Some x)
      then have x: "m = x" "x \<in> set (migration_docs u)" "mg_accountId x = ua_accountId a" "mg_runId x = ua_runId a"
        using run(5) find_SomeD [OF Some] by auto
      then have "find_doc s (mg_id m) = Some m" using u find_doc_Some_iff [OF u(1)] by metis
      with x t show ?thesis by (auto simp: prepared_by_def inserts_one_def)
    next
      case None
      then have m: "m = new_migration a (randomUUID (uuids u)) (now_ms u)" "m \<in> set (migration_docs t)"
        using run(5) by (auto simp: Let_def split: if_splits)
      then have "find_doc t (mg_id m) = Some m" using find_doc_Some_iff [OF t(1)] by metis
      moreover have "find_doc u (mg_id m) \<noteq> Some x" for x
        using u(1) m(1) unfolding find_doc_Some_iff [OF u(1)]
        by (auto simp: docs_ok_def new_migration_def randomUUID_inj)
      ultimately show ?thesis using m(1) u(2) by (auto simp: prepared_by_def new_migration_def)
    qed
  qed auto
  ultimately show ?thesis by blast
qed

lemma records_prepare:
  assumes "docs_ok s" "upsertPrimaryCashWalletMigrationRecords store plans s = (Inr ms, t)"
  shows "extends s t \<and> list_all2 (prepared_by s t) plans ms"
  using assms
proof (induction plans arbitrary: s ms)
  case Nil
  then show ?case by (simp add: act_simps extends_def)
next
  case (Cons p ps)
  then obtain m u ms' where u: "db_upsertMigration p s = (Inr m, u)"
      "upsertPrimaryCashWalletMigrationRecords store ps u = (Inr ms', t)" "ms = m # ms'"
    by (auto simp: bindA_Inr act_simps)
  have p: "extends s u" "prepared_by s u p m" using upsert_prepares [OF Cons.prems(1) u(1)] by auto
  then have ps: "extends u t" "list_all2 (prepared_by u t) ps ms'"
    using Cons.IH [OF _ u(2)] by (auto simp: extends_def)
  have "prepared_by s t p m" using p ps by (auto simp: prepared_by_def extends_def)
  moreover have "find_doc s i = Some x \<or> find_doc s i = None \<and> mg_status x = Not_started"
    if "find_doc u i = Some x" for i x
    using that p upsertMigration_docs [OF Cons.prems(1) u(1)]
    by (cases "find_doc s i") (auto simp: extends_def inserts_one_def new_migration_def split: if_splits)
  then have "prepared_by s t q x" if "prepared_by u t q x" for q x
    using that p(1) unfolding prepared_by_def extends_def by (metis not_Some_eq)
  ultimately show ?case using p ps u(3) by (auto simp: extends_def elim: list_all2_mono)
qed


lemma leaves_docs_lift: "leaves_docs ok look (liftA r)"
  by (simp add: leaves_docs_def liftA_def)

lemma discover_leaves_docs:
  assumes "reads_only dir"
  shows "leaves_docs docs_ok find_doc (discoverCashWalletCutoverAccounts dir)"
proof -
  have "leaves_docs docs_ok find_doc (discover_loop dir xs)" for xs
    by (induction xs) (use assms in \<open>auto simp: reads_only_def
        intro!: leaves_docs_bind leaves_docs_ret leaves_docs_lift\<close>)
  then show ?thesis
    unfolding discoverCashWalletCutoverAccounts_def
    by (intro leaves_docs_bind) (use assms in \<open>auto simp: reads_only_def\<close>)
qed

lemma plan_fields:
  assumes "plan \<in> set (buildPrimaryCashWalletMigrationPlan v run ds)"
  shows "ua_runId plan = run \<and> ua_cutoverVersion plan = v
    \<and> (\<exists>d \<in> set ds. ds_status d = Legacy_default \<and> ua_accountId plan = ds_accountId d
        \<and> ua_previousDefaultWalletId plan = Some (ds_previousDefaultWalletId d)
        \<and> ds_legacyUsdWalletId d = Some (ua_legacyUsdWalletId plan)
        \<and> ds_destinationUsdtWalletId d = Some (ua_destinationUsdtWalletId plan))"
  using assms
  by (auto simp: buildPrimaryCashWalletMigrationPlan_def plan_of_def truthy_def split: if_splits)

lemma can_start_iff:
  "pf_canStart (buildCashWalletCutoverPreflightReport v run ds) \<longleftrightarrow>
     (\<forall>d \<in> set ds. ds_status d \<noteq> Missing_legacy_usd \<and> ds_status d \<noteq> Missing_destination_usdt)"
  by (induction ds) (auto simp: buildCashWalletCutoverPreflightReport_def Let_def)

lemma prepared_by_cong: "find_doc u = find_doc s \<Longrightarrow> prepared_by u t = prepared_by s t"
  by (simp add: fun_eq_iff prepared_by_def)

text \<open>A discovered account lacks a cash wallet, or has its legacy wallet as its default and is planned.\<close>

definition lacks_wallet :: "discovery \<Rightarrow> bool" where
  "lacks_wallet d \<longleftrightarrow> ds_legacyUsdWalletId d = None \<or> ds_destinationUsdtWalletId d = None"

definition to_migrate :: "discovery \<Rightarrow> bool" where
  "to_migrate d \<longleftrightarrow> ds_legacyUsdWalletId d = Some (ds_previousDefaultWalletId d)
     \<and> truthy (ds_legacyUsdWalletId d) \<and> truthy (ds_destinationUsdtWalletId d)"

lemma classify_status:
  "ds_status (classifyCashWalletsForCutover account wallets) \<in> {Missing_legacy_usd, Missing_destination_usdt}
     \<longleftrightarrow> lacks_wallet (classifyCashWalletsForCutover account wallets)"
  "\<not> lacks_wallet (classifyCashWalletsForCutover account wallets) \<Longrightarrow>
   ds_status (classifyCashWalletsForCutover account wallets) = Legacy_default \<longleftrightarrow>
     ds_legacyUsdWalletId (classifyCashWalletsForCutover account wallets) =
       Some (ds_previousDefaultWalletId (classifyCashWalletsForCutover account wallets))"
  by (auto simp: lacks_wallet_def classifyCashWalletsForCutover_def Let_def split: option.splits)

lemma discovered_classified:
  assumes "discoverCashWalletCutoverAccounts dir s = (Inr ds, t)" "d \<in> set ds"
  shows "\<exists>account wallets. d = classifyCashWalletsForCutover account wallets"
proof -
  have "list_all (\<lambda>d. \<exists>account wallets. d = classifyCashWalletsForCutover account wallets) ds"
    if "discover_loop dir xs s = (Inr ds, t)" for xs s ds
    using that by (induction xs arbitrary: s ds) (auto simp: bindA_Inr act_simps, blast)
  then show ?thesis
    using assms by (auto simp: discoverCashWalletCutoverAccounts_def bindA_Inr list_all_iff)
qed

lemma can_start_discovered:
  assumes all: "discoverCashWalletCutoverAccounts dir s = (Inr all, u)" and ds: "set ds \<subseteq> set all"
  shows "pf_canStart (buildCashWalletCutoverPreflightReport v run ds) \<longleftrightarrow> \<not> list_ex lacks_wallet ds"
proof -
  have "ds_status d \<in> {Missing_legacy_usd, Missing_destination_usdt} \<longleftrightarrow> lacks_wallet d" if "d \<in> set ds" for d
    using discovered_classified [OF all, of d] ds that classify_status(1) by fastforce
  then show ?thesis by (auto simp: can_start_iff list_ex_iff)
qed

text \<open>What the plan of an account is: its wallets, and the legacy wallet as the previous default.\<close>

definition plans :: "int \<Rightarrow> string \<Rightarrow> discovery \<Rightarrow> upsert_args \<Rightarrow> bool" where
  "plans v runId d plan \<longleftrightarrow> ua_accountId plan = ds_accountId d \<and> ua_accountUuid plan = ds_accountUuid d
     \<and> ua_cutoverVersion plan = v \<and> ua_runId plan = runId
     \<and> Some (ua_legacyUsdWalletId plan) = ds_legacyUsdWalletId d
     \<and> Some (ua_destinationUsdtWalletId plan) = ds_destinationUsdtWalletId d
     \<and> ua_previousDefaultWalletId plan = ds_legacyUsdWalletId d"

lemma plan_discovered:
  assumes all: "discoverCashWalletCutoverAccounts dir s = (Inr all, u)" and ds: "set ds \<subseteq> set all"
    and whole: "\<not> list_ex lacks_wallet ds"
  shows "list_all2 (plans v runId) (filter to_migrate ds) (buildPrimaryCashWalletMigrationPlan v runId ds)"
  using ds whole
proof (induction ds)
  case (Cons d ds)
  then have "ds_status d = Legacy_default \<longleftrightarrow> ds_legacyUsdWalletId d = Some (ds_previousDefaultWalletId d)"
    using discovered_classified [OF all, of d] classify_status(2) by fastforce
  then show ?case using Cons
    by (auto simp: buildPrimaryCashWalletMigrationPlan_def plan_of_def to_migrate_def plans_def truthy_def)
qed (simp add: buildPrimaryCashWalletMigrationPlan_def)

lemma cohort_subset: "set (cohort ids all) \<subseteq> set all"
  by (auto simp: cohort_def split: option.splits)

text \<open>
  C24: preparing a run never changes a migration that is already there. Let the cohort be the discovered
  accounts, or those of them that are asked for. If one of them lacks one of its two cash wallets nothing
  is planned and nothing is written. Otherwise exactly the accounts of the cohort whose default wallet is
  their legacy wallet are planned, in their order and with their own wallets, the legacy one as the
  previous default; and every planned account has one stored migration of the run, as it was before or
  new and not started.
\<close>

theorem prepare_records:
  assumes "docs_ok s" "reads_only dir"
    and run: "preparePrimaryCashWalletCutover store dir v runId ids s = (Inr res, t)"
  shows "extends s t
    \<and> (\<exists>all u. discoverCashWalletCutoverAccounts dir s = (Inr all, u)
        \<and> (if list_ex lacks_wallet (cohort ids all)
           then pr_plannedMigrations res = [] \<and> pr_migrations res = [] \<and> find_doc t = find_doc s
           else list_all2 (plans v runId) (filter to_migrate (cohort ids all)) (pr_plannedMigrations res)
             \<and> list_all2 (prepared_by s t) (pr_plannedMigrations res) (pr_migrations res)))"
proof -
  obtain all u where all: "discoverCashWalletCutoverAccounts dir s = (Inr all, u)"
    using run by (auto simp: preparePrimaryCashWalletCutover_def bindA_Inr)
  have u: "docs_ok u" "find_doc u = find_doc s"
    using discover_leaves_docs [OF assms(2)] assms(1) all unfolding leaves_docs_def by auto
  let ?ds = "cohort ids all" and ?report = "buildCashWalletCutoverPreflightReport v runId (cohort ids all)"
  let ?plans = "buildPrimaryCashWalletMigrationPlan v runId ?ds"
  have rest: "(if \<not> pf_canStart ?report then retA \<lparr>pr_report = ?report, pr_plannedMigrations = [], pr_migrations = [],
        pr_cohortNotFound = map_option (filter (\<lambda>i. i \<notin> set (map ds_accountId ?ds))) ids\<rparr>
      else bindA (upsertPrimaryCashWalletMigrationRecords store ?plans) (\<lambda>migrations.
        retA \<lparr>pr_report = ?report, pr_plannedMigrations = ?plans, pr_migrations = migrations,
          pr_cohortNotFound = map_option (filter (\<lambda>i. i \<notin> set (map ds_accountId ?ds))) ids\<rparr>)) u = (Inr res, t)"
    using run unfolding preparePrimaryCashWalletCutover_def Let_def bindA_Inr all by auto
  have start: "pf_canStart ?report \<longleftrightarrow> \<not> list_ex lacks_wallet ?ds"
    by (rule can_start_discovered [OF all cohort_subset])
  show ?thesis
  proof (cases "list_ex lacks_wallet ?ds")
    case True
    then have "res = \<lparr>pr_report = ?report, pr_plannedMigrations = [], pr_migrations = [],
        pr_cohortNotFound = map_option (filter (\<lambda>i. i \<notin> set (map ds_accountId ?ds))) ids\<rparr> \<and> t = u"
      using rest start by (simp add: act_simps)
    with True u all show ?thesis by (auto simp: extends_def)
  next
    case False
    then obtain ms where ms: "upsertPrimaryCashWalletMigrationRecords store ?plans u = (Inr ms, t)"
        "res = \<lparr>pr_report = ?report, pr_plannedMigrations = ?plans, pr_migrations = ms,
          pr_cohortNotFound = map_option (filter (\<lambda>i. i \<notin> set (map ds_accountId ?ds))) ids\<rparr>"
      using rest start by (auto simp: bindA_Inr act_simps)
    have "extends u t \<and> list_all2 (prepared_by u t) ?plans ms" by (rule records_prepare [OF u(1) ms(1)])
    then have "extends s t \<and> list_all2 (prepared_by s t) ?plans ms"
      by (simp add: extends_def prepared_by_cong [OF u(2)] u(2))
    with False ms(2) plan_discovered [OF all cohort_subset False] all show ?thesis by auto
  qed
qed

definition ex_directory :: "'s directory" where
  "ex_directory = \<lparr>listUnlockedAccounts = retA [Inr \<lparr>ac_id = ''acc'', ac_uuid = ''uuid'', ac_defaultWalletId = ''usd''\<rparr>],
     listByAccountId = (\<lambda>i. retA [\<lparr>wl_id = ''usd'', wl_accountId = i, wl_type = Checking, wl_currency = Usd\<rparr>,
       \<lparr>wl_id = ''usdt'', wl_accountId = i, wl_type = Checking, wl_currency = Usdt\<rparr>])\<rparr>"

theorem prepare_records_witness:
  "\<exists>res t. preparePrimaryCashWalletCutover store ex_directory 1 ''run'' None ex_empty = (Inr res, t)
    \<and> map mg_accountId (pr_migrations res) = [''acc''] \<and> map mg_status (pr_migrations res) = [Not_started]
    \<and> list_all2 (prepared_by ex_empty t) (pr_plannedMigrations res) (pr_migrations res)"
proof -
  let ?run = "preparePrimaryCashWalletCutover store ex_directory 1 ''run'' None ex_empty"
  have run: "\<not> isl (fst ?run)"
    "map mg_accountId (pr_migrations (projr (fst ?run))) = [''acc'']"
    "map mg_status (pr_migrations (projr (fst ?run))) = [Not_started]" by code_simp+
  then obtain res t where r: "?run = (Inr res, t)" by (cases ?run) (auto simp: not_isl_Inr)
  have "docs_ok ex_empty" by (simp add: ex_empty_def docs_ok_def)
  moreover have "reads_only ex_directory" by (simp add: reads_only_def ex_directory_def leaves_docs_ret)
  moreover have "pr_migrations res \<noteq> []" using run(2) r by auto
  ultimately have "list_all2 (prepared_by ex_empty t) (pr_plannedMigrations res) (pr_migrations res)"
    using prepare_records [OF _ _ r] by metis
  then show ?thesis using run r by auto
qed

section \<open>Retrying a prepared migration\<close>

lemma previous_default_stays:
  assumes "migration_step\<^sup>*\<^sup>* m m'" "mg_previousDefaultWalletId m \<noteq> None"
  shows "mg_previousDefaultWalletId m' \<noteq> None"
  using assms
proof (induction rule: rtranclp_induct)
  case (step m1 m2)
  then have "mg_previousDefaultWalletId m1 \<noteq> None" by simp
  with step(2) show ?case
    by (cases rule: migration_step.cases) (auto simp: lock_update_def release_update_def failed_update_def retry_update)
qed

text \<open>
  C5: the plan of a run records the previous default wallet of every account, and nothing ever clears
  it. A failed migration without a recorded payment is therefore always retried from
  \<open>pointer_flipped\<close>, with nothing of its progress cleared, and never from \<open>not_started\<close>, whether or
  not the pointer was flipped: a migration that failed before its balance was moved skips the move and
  the flip.
\<close>

theorem retry_skips_the_move:
  assumes "plan \<in> set (buildPrimaryCashWalletMigrationPlan v runId discoveries)"
    and "migration_step\<^sup>*\<^sup>* (new_migration plan i n) m" "mg_status m = Failed"
  shows "resumeStatus m = Pointer_flipped
    \<and> transition_update (retry_transition a m) k m
      = m\<lparr>mg_status := Pointer_flipped, mg_updatedAt := k, mg_attempts := 0, mg_lastError := None\<rparr>"
proof -
  have "ua_previousDefaultWalletId plan \<noteq> None" using plan_fields [OF assms(1)] by auto
  then have "mg_previousDefaultWalletId m \<noteq> None"
    by (intro previous_default_stays [OF assms(2)]) (simp add: new_migration_def)
  then show ?thesis by (simp add: resumeStatus_def retry_update)
qed

text \<open>
  In the witness the destination wallet of an account with an empty legacy wallet cannot be ensured
  once; the world of its services counts the flips of the default wallet. After a retry the migration
  is complete, and no default wallet was ever flipped.
\<close>

definition ex_counting :: "bool \<Rightarrow> nat cutover_services" where
  "ex_counting broken = \<lparr>sv_now = (\<lambda>_. 9), decodedExpiresAt = (\<lambda>_. None), getDefaultWalletId = (\<lambda>_. retA ''usd''),
     ensureDestinationWallet = (\<lambda>_ _. if broken then failA (ServiceError ''down'') else retA ()),
     readSourceBalanceUsdCents = (\<lambda>_. retA ''0''),
     readDestinationBalanceUsdtMicros = (\<lambda>_. retA ''0''), readDestinationSpendableUsdtMicros = (\<lambda>_. retA ''0''),
     createInvoice = (\<lambda>_ _ _. failA (ServiceError ''unused'')),
     createNoAmountInvoice = (\<lambda>_ _. failA (ServiceError ''unused'')),
     payInvoice = (\<lambda>_ _ _ _. failA (ServiceError ''unused'')), verifyBalanceMove = (\<lambda>_ _ _ _ _. retA ()),
     readFeeAmountUsdtMicros = (\<lambda>_. retA ''0''), getTreasuryWalletId = retA ''treasury'',
     flipDefaultWallet = (\<lambda>_ _ n. (Inr ''usd'', Suc n)), verifyLegacyWalletZero = (\<lambda>_. retA ())\<rparr>"

definition ex_pass :: "bool \<Rightarrow> nat mongo_scheme \<Rightarrow> nat mongo_scheme" where
  "ex_pass broken s = snd (runPrimaryCashWalletCutoverBatch store (world_services (ex_counting broken))
     (world_sleep (\<lambda>_ w. w)) ex_batch s)"

definition ex_failed_once :: "nat mongo_scheme" where
  "ex_failed_once = ex_pass True (ex_pass False (snd (preparePrimaryCashWalletCutover store ex_directory 1 ''run'' None
     (mongo.extend ex_empty 0))))"

definition ex_retried :: "nat mongo_scheme" where
  "ex_retried = snd (retryFailedCashWalletMigrations store
     \<lparr>ry_cutoverVersion = 1, ry_runId = ''run'', ry_accountId = None, ry_dryRun = False\<rparr> ex_failed_once)"

definition ex_plan :: upsert_args where
  "ex_plan = hd (buildPrimaryCashWalletMigrationPlan 1 ''run''
     [classifyCashWalletsForCutover \<lparr>ac_id = ''acc'', ac_uuid = ''uuid'', ac_defaultWalletId = ''usd''\<rparr>
       [\<lparr>wl_id = ''usd'', wl_accountId = ''acc'', wl_type = Checking, wl_currency = Usd\<rparr>,
        \<lparr>wl_id = ''usdt'', wl_accountId = ''acc'', wl_type = Checking, wl_currency = Usdt\<rparr>]])"

definition ex_failure :: mark_failed_args where
  "ex_failure = batch_failure ex_batch (new_migration ex_plan ''id'' 7) (ServiceError ''down'')"

theorem retry_skips_the_move_witness:
  "resumeStatus (failed_update ex_failure 8 (new_migration ex_plan ''id'' 7)) = Pointer_flipped
   \<and> map mg_status (migration_docs ex_failed_once) = [Failed]
   \<and> map mg_status (migration_docs ex_retried) = [Pointer_flipped]
   \<and> map mg_status (migration_docs (ex_pass False (ex_pass False ex_retried))) = [Complete]
   \<and> mongo.more (ex_pass False (ex_pass False ex_retried)) = 0"
proof -
  let ?new = "new_migration ex_plan ''id'' 7"
  have "ex_plan \<in> set (buildPrimaryCashWalletMigrationPlan 1 ''run''
     [classifyCashWalletsForCutover \<lparr>ac_id = ''acc'', ac_uuid = ''uuid'', ac_defaultWalletId = ''usd''\<rparr>
       [\<lparr>wl_id = ''usd'', wl_accountId = ''acc'', wl_type = Checking, wl_currency = Usd\<rparr>,
        \<lparr>wl_id = ''usdt'', wl_accountId = ''acc'', wl_type = Checking, wl_currency = Usdt\<rparr>]])"
    by code_simp
  moreover have "migration_step\<^sup>*\<^sup>* ?new (failed_update ex_failure 8 ?new)"
    by (rule r_into_rtranclp [of migration_step], rule migration_step.mark_failed)
      (simp_all add: ex_failure_def batch_failure_def failureStatusForMigration_def AMBIGUOUS_SIDE_EFFECT_STATUSES_def
        new_migration_def money_may_move_def pipeline_position_def)
  moreover have "mg_status (failed_update ex_failure 8 ?new) = Failed"
    by (simp add: ex_failure_def batch_failure_def failureStatusForMigration_def AMBIGUOUS_SIDE_EFFECT_STATUSES_def
        new_migration_def failed_update_def)
  ultimately have "resumeStatus (failed_update ex_failure 8 ?new) = Pointer_flipped"
    by (rule retry_skips_the_move [THEN conjunct1])
  moreover have "map mg_status (migration_docs ex_failed_once) = [Failed]"
    "map mg_status (migration_docs ex_retried) = [Pointer_flipped]"
    "map mg_status (migration_docs (ex_pass False (ex_pass False ex_retried))) = [Complete]"
    "mongo.more (ex_pass False (ex_pass False ex_retried)) = 0"
    by code_simp+
  ultimately show ?thesis by blast
qed

end
