(* ===== verification/CutoverRouting.thy ===== *)
theory CutoverRouting
  imports CutoverPrepare
begin

text \<open>
  Which wallet an account's money is in while a cutover runs: the guard and what clients are shown
  (\<open>guard.ts\<close>, \<open>presentation.ts\<close>, \<open>client-capability.ts\<close>), and the operations that look the state up
  and route by it (\<open>presentation-for-account.ts\<close>, \<open>recipient-routing.ts\<close>, \<open>cashout-routing.ts\<close>), all
  under \<open>src/app/cash-wallet-cutover/\<close>.
\<close>

section \<open>client-capability.ts\<close>

definition CASH_WALLET_USDT_CLIENT_CAPABILITY :: string where
  "CASH_WALLET_USDT_CLIENT_CAPABILITY = ''cash-wallet-usdt-v1''"

datatype cash_wallet_presentation = Legacy_compat | Usdt_presentation

record client_capabilities =
  cl_cashWalletPresentation :: cash_wallet_presentation
  cl_hasUsdtCashWalletSupport :: bool

definition DEFAULT_CASH_WALLET_CLIENT_CAPABILITIES :: client_capabilities where
  "DEFAULT_CASH_WALLET_CLIENT_CAPABILITIES =
     \<lparr>cl_cashWalletPresentation = Legacy_compat, cl_hasUsdtCashWalletSupport = False\<rparr>"

text \<open>A header's value is a string, an array of values, or anything else.\<close>

datatype header_value = HString string | HArray "header_value list" | HOther

fun header_string :: "header_value \<Rightarrow> string list" where
  "header_string (HString s) = [s]"
| "header_string _ = []"

fun header_strings :: "header_value \<Rightarrow> string list" where
  "header_strings (HString s) = [s]"
| "header_strings (HArray vs) = concat (map header_string vs)"
| "header_strings HOther = []"

definition parseCashWalletClientCapabilities :: "(string \<times> header_value) list \<Rightarrow> client_capabilities" where
  "parseCashWalletClientCapabilities headers =
     (let values = concat (map (\<lambda>(key, raw).
            if toLowerCase key \<noteq> ''x-flash-client-capabilities'' then [] else header_strings raw) headers);
          capabilities = map (\<lambda>v. toLowerCase (js_trim v)) (concat (map (js_split (CHR '','')) values))
      in if CASH_WALLET_USDT_CLIENT_CAPABILITY \<notin> set capabilities
         then DEFAULT_CASH_WALLET_CLIENT_CAPABILITIES
         else \<lparr>cl_cashWalletPresentation = Usdt_presentation, cl_hasUsdtCashWalletSupport = True\<rparr>)"

section \<open>guard.ts\<close>

datatype cutover_route = Route_legacy_usd | Route_usdt

datatype cutover_presentation = Show_legacy_usd | Show_legacy_usd_compat | Show_usdt

definition ACTIVE_STATUSES :: "migration_status list" where
  "ACTIVE_STATUSES =
     [Started, Provisioned, Balance_read, Invoice_created, Balance_move_sending, Balance_move_sent,
      Balance_move_verified, Fee_reimbursement_invoice_created, Fee_reimbursement_sending,
      Fee_reimbursed, Pointer_flipped, Rollback_started]"

definition evaluateCashWalletCutoverGuard ::
  "cutover_config \<Rightarrow> migration option \<Rightarrow> cutover_route result"
where
  "evaluateCashWalletCutoverGuard cutover migration =
     (let status = map_option mg_status migration in
      case cc_state cutover of
        Pre \<Rightarrow> Inr Route_legacy_usd
      | Cutover_complete \<Rightarrow>
          if status = Some Rollback_started then Inl CashWalletCutoverInProgressError
          else if status = Some Rolled_back then Inr Route_legacy_usd
          else Inr Route_usdt
      | Cutover_rolled_back \<Rightarrow>
          if status = None \<or> status = Some Not_started \<or> status = Some Rolled_back
          then Inr Route_legacy_usd
          else if status = Some Skipped_already_migrated then Inr Route_usdt
          else if status = Some Rollback_started then Inl CashWalletCutoverInProgressError
          else Inl CashWalletMigrationFailedError
      | In_progress \<Rightarrow>
          (case status of
             None \<Rightarrow> Inr Route_legacy_usd
           | Some st \<Rightarrow>
               if st = Not_started then Inr Route_legacy_usd
               else if st = Complete \<or> st = Skipped_already_migrated then Inr Route_usdt
               else if st = Failed \<or> st = Requires_operator_review then Inl CashWalletMigrationFailedError
               else if st \<in> set ACTIVE_STATUSES then Inl CashWalletCutoverInProgressError
               else Inr Route_legacy_usd))"

definition evaluateCashWalletCutoverPresentation ::
  "cutover_config \<Rightarrow> migration option \<Rightarrow> client_capabilities \<Rightarrow> cutover_presentation result"
where
  "evaluateCashWalletCutoverPresentation cutover migration client =
     bindE (evaluateCashWalletCutoverGuard cutover migration) (\<lambda>route.
     Inr (if route = Route_legacy_usd then Show_legacy_usd
          else if cl_hasUsdtCashWalletSupport client then Show_usdt else Show_legacy_usd_compat))"

section \<open>presentation.ts\<close>

record presentation_result =
  ps_wallets :: "wallet list"
  ps_defaultWalletId :: string
  ps_legacyUsdWallet :: "wallet option"
  ps_activeSettlementWallet :: wallet

definition resolveCashWalletPresentation ::
  "cutover_presentation \<Rightarrow> wallet list \<Rightarrow> presentation_result result"
where
  "resolveCashWalletPresentation decision wallets =
     (let legacyUsdWallet = find (\<lambda>w. wl_currency w = Usd) wallets;
          usdtWallet = find (\<lambda>w. wl_currency w = Usdt) wallets;
          nonCashWallets = filter (\<lambda>w. wl_currency w \<noteq> Usd \<and> wl_currency w \<noteq> Usdt) wallets;
          shown = (\<lambda>w settlement. \<lparr>ps_wallets = nonCashWallets @ [w], ps_defaultWalletId = wl_id w,
            ps_legacyUsdWallet = legacyUsdWallet, ps_activeSettlementWallet = settlement\<rparr>)
      in if decision = Show_usdt
         then (case usdtWallet of
                 None \<Rightarrow> Inl CashWalletMissingUsdtWalletError
               | Some usdt \<Rightarrow> Inr (shown usdt usdt))
         else (case legacyUsdWallet of
                 None \<Rightarrow> Inl CashWalletMissingLegacyUsdWalletError
               | Some legacy \<Rightarrow>
                   if decision = Show_legacy_usd_compat
                   then (case usdtWallet of
                           None \<Rightarrow> Inl CashWalletMissingUsdtWalletError
                         | Some usdt \<Rightarrow> Inr (shown legacy usdt))
                   else Inr (shown legacy legacy)))"

text \<open>\<open>Array.from(new Set(xs))\<close>: the first occurrence of each element, in order.\<close>

definition js_unique :: "'a list \<Rightarrow> 'a list" where
  "js_unique xs = rev (remdups (rev xs))"

definition cashWalletHistoryWalletIds :: "string list \<Rightarrow> presentation_result \<Rightarrow> string list" where
  "cashWalletHistoryWalletIds selectedWalletIds p =
     (case ps_legacyUsdWallet p of
        None \<Rightarrow> js_unique selectedWalletIds
      | Some legacy \<Rightarrow>
          let settlement = ps_activeSettlementWallet p in
          js_unique (concat (map (\<lambda>i.
            if i = wl_id legacy \<or> i = wl_id settlement then [wl_id settlement, wl_id legacy] else [i])
            selectedWalletIds)))"

definition cashWalletHistoryWalletIdsForPresentation ::
  "string list option \<Rightarrow> presentation_result \<Rightarrow> string list"
where
  "cashWalletHistoryWalletIdsForPresentation walletIds p =
     cashWalletHistoryWalletIds (case walletIds of None \<Rightarrow> map wl_id (ps_wallets p) | Some ids \<Rightarrow> ids) p"

text \<open>A later entry of the \<open>Map\<close> replaces an earlier one with its key.\<close>

definition cashWalletHistoryWalletsForPresentation ::
  "wallet list \<Rightarrow> presentation_result \<Rightarrow> wallet list"
where
  "cashWalletHistoryWalletsForPresentation wallets p =
     (let ids = cashWalletHistoryWalletIds (map wl_id wallets) p;
          known = ps_wallets p @ (case ps_legacyUsdWallet p of None \<Rightarrow> [] | Some w \<Rightarrow> [w])
            @ [ps_activeSettlementWallet p] @ wallets;
          walletById = map_of (rev (map (\<lambda>w. (wl_id w, w)) known))
      in concat (map (\<lambda>i. case walletById i of None \<Rightarrow> [] | Some w \<Rightarrow> [w]) ids))"

section \<open>presentation-for-account.ts, recipient-routing.ts and cashout-routing.ts\<close>

text \<open>The migration is looked up only while a run is in progress.\<close>

definition current_migration ::
  "'s migrations_repo \<Rightarrow> string \<Rightarrow> cutover_config \<Rightarrow> ('s, migration option) act"
where
  "current_migration repo accountId cutover =
     (if cc_state cutover = In_progress
      then (if \<not> truthy (cc_runId cutover) then failA CashWalletCutoverPreflightError
            else findMigrationByAccountId repo accountId (cc_cutoverVersion cutover) (the (cc_runId cutover)))
      else retA None)"

definition resolveCashWalletPresentationForAccount ::
  "'s migrations_repo \<Rightarrow> 's directory \<Rightarrow> account \<Rightarrow> client_capabilities \<Rightarrow> ('s, presentation_result) act"
where
  "resolveCashWalletPresentationForAccount repo dir account client =
     bindA (getConfig repo) (\<lambda>cutover.
     bindA (current_migration repo (ac_id account) cutover) (\<lambda>migration.
     bindA (liftA (evaluateCashWalletCutoverPresentation cutover migration client)) (\<lambda>decision.
     bindA (listByAccountId dir (ac_id account)) (\<lambda>wallets.
     liftA (resolveCashWalletPresentation decision wallets)))))"

definition resolveCashWalletMutationWalletIdForAccount ::
  "'s migrations_repo \<Rightarrow> 's directory \<Rightarrow> account \<Rightarrow> string \<Rightarrow> client_capabilities \<Rightarrow> ('s, string) act"
where
  "resolveCashWalletMutationWalletIdForAccount repo dir account walletId client =
     bindA (resolveCashWalletPresentationForAccount repo dir account client) (\<lambda>presentation.
     retA (if Some walletId = map_option wl_id (ps_legacyUsdWallet presentation)
           then wl_id (ps_activeSettlementWallet presentation) else walletId))"

record 's lookups =
  findWallet :: "string \<Rightarrow> ('s, wallet) act"
  findAccount :: "string \<Rightarrow> ('s, account) act"

definition resolveCashWalletRecipientMutationWalletId ::
  "'s migrations_repo \<Rightarrow> 's directory \<Rightarrow> 's lookups \<Rightarrow> string \<Rightarrow> client_capabilities \<Rightarrow> ('s, string) act"
where
  "resolveCashWalletRecipientMutationWalletId repo dir lookup recipientWalletId client =
     bindA (findWallet lookup recipientWalletId) (\<lambda>recipientWallet.
     bindA (findAccount lookup (wl_accountId recipientWallet)) (\<lambda>recipientAccount.
     resolveCashWalletMutationWalletIdForAccount repo dir recipientAccount recipientWalletId client))"

record cashout_selection =
  co_route :: cutover_route
  co_userWalletId :: string
  co_flashWalletId :: string

definition usdt_wallet_of :: "wallet list \<Rightarrow> ('s, wallet) act" where
  "usdt_wallet_of wallets =
     (case find (\<lambda>w. wl_currency w = Usdt) wallets of
        None \<Rightarrow> failA CashWalletMissingUsdtWalletError
      | Some w \<Rightarrow> retA w)"

definition resolveCashoutWalletSelection ::
  "'s migrations_repo \<Rightarrow> 's directory \<Rightarrow> 's lookups \<Rightarrow> string \<Rightarrow> string \<Rightarrow> string \<Rightarrow> ('s, cashout_selection) act"
where
  "resolveCashoutWalletSelection repo dir lookup accountId requestedUserWalletId bankOwnerUsdWalletId =
     bindA (getConfig repo) (\<lambda>cutover.
     bindA (current_migration repo accountId cutover) (\<lambda>migration.
     bindA (liftA (evaluateCashWalletCutoverGuard cutover migration)) (\<lambda>route.
     if route = Route_legacy_usd
     then retA \<lparr>co_route = Route_legacy_usd, co_userWalletId = requestedUserWalletId,
                co_flashWalletId = bankOwnerUsdWalletId\<rparr>
     else
       bindA (listByAccountId dir accountId) (\<lambda>userWallets.
       bindA (usdt_wallet_of userWallets) (\<lambda>userUsdtWallet.
       bindA (findWallet lookup bankOwnerUsdWalletId) (\<lambda>bankOwnerWallet.
       bindA (listByAccountId dir (wl_accountId bankOwnerWallet)) (\<lambda>bankOwnerWallets.
       bindA (usdt_wallet_of bankOwnerWallets) (\<lambda>bankOwnerUsdtWallet.
       retA \<lparr>co_route = Route_usdt, co_userWalletId = wl_id userUsdtWallet,
             co_flashWalletId = wl_id bankOwnerUsdtWallet\<rparr>))))))))"

section \<open>Properties\<close>

text \<open>
  C6: the guard follows the money of a well-formed migration. While its funds are in the USDT wallet
  (a balance payment is recorded and not reversed) no state after the start of a run routes its account
  to the legacy wallet, with one exception: in \<open>legacy_zero_verified\<close>, which is missing among the
  active statuses, a run in progress routes it there. While its funds are in the legacy wallet because
  they were moved back, no run in progress and no completed one routes it to the USDT wallet.
\<close>

theorem guard_follows_funds:
  assumes "migration_wf m" "cc_state cutover \<noteq> Pre"
  shows "(\<not> reversed m \<longrightarrow>
      (evaluateCashWalletCutoverGuard cutover (Some m) = Inr Route_legacy_usd
         \<longleftrightarrow> cc_state cutover = In_progress \<and> mg_status m = Legacy_zero_verified))
    \<and> (mg_status m = Rolled_back \<longrightarrow> evaluateCashWalletCutoverGuard cutover (Some m) = Inr Route_legacy_usd)
    \<and> (mg_status m \<in> set ACTIVE_STATUSES \<longrightarrow> cc_state cutover = In_progress \<longrightarrow>
         evaluateCashWalletCutoverGuard cutover (Some m) = Inl CashWalletCutoverInProgressError)"
  using assms
  by (cases "cc_state cutover"; cases "mg_status m")
    (simp_all add: evaluateCashWalletCutoverGuard_def ACTIVE_STATUSES_def wf_defs)

definition ex_config :: "cutover_state \<Rightarrow> cutover_config" where
  "ex_config st = defaultConfig\<lparr>cc_state := st, cc_runId := Some ''run''\<rparr>"

definition ex_verified :: migration where
  "ex_verified = ex_migration\<lparr>mg_status := Legacy_zero_verified, mg_balanceMovePaymentTransactionId := Some ''tx'',
     mg_sourceBalanceUsdCents := Some ''12'', mg_destinationAmountUsdtMicros := Some ''120000'',
     mg_previousDefaultWalletId := Some ''usd''\<rparr>"

theorem guard_follows_funds_witness:
  "evaluateCashWalletCutoverGuard (ex_config In_progress) (Some ex_verified) = Inr Route_legacy_usd
   \<and> evaluateCashWalletCutoverGuard (ex_config In_progress) (Some (ex_verified\<lparr>mg_status := Pointer_flipped\<rparr>))
     = Inl CashWalletCutoverInProgressError"
proof -
  have "usdCentsToUsdtMicros ''12'' = Inr ''120000''" by code_simp
  then have "migration_wf ex_verified" "migration_wf (ex_verified\<lparr>mg_status := Pointer_flipped\<rparr>)" "\<not> reversed ex_verified"
    by (simp_all add: ex_verified_def wf_defs ex_migration_def new_migration_def)
  moreover have "cc_state (ex_config In_progress) = In_progress" by (simp add: ex_config_def)
  ultimately show ?thesis
    using guard_follows_funds [of ex_verified "ex_config In_progress"]
      guard_follows_funds [of "ex_verified\<lparr>mg_status := Pointer_flipped\<rparr>" "ex_config In_progress"]
    by (simp add: ex_verified_def ACTIVE_STATUSES_def)
qed

lemma js_unique_set [simp]: "set (js_unique xs) = set xs" "distinct (js_unique xs)"
  by (simp_all add: js_unique_def)

lemma resolve_shown:
  assumes "resolveCashWalletPresentation decision wallets = Inr p"
  obtains w where "ps_wallets p = filter (\<lambda>w. wl_currency w \<noteq> Usd \<and> wl_currency w \<noteq> Usdt) wallets @ [w]"
    "ps_defaultWalletId p = wl_id w"
    "find (\<lambda>w. wl_currency w = (if decision = Show_usdt then Usdt else Usd)) wallets = Some w"
    "find (\<lambda>w. wl_currency w = (if decision = Show_legacy_usd then Usd else Usdt)) wallets
      = Some (ps_activeSettlementWallet p)"
    "ps_legacyUsdWallet p = find (\<lambda>w. wl_currency w = Usd) wallets"
  using assms unfolding resolveCashWalletPresentation_def Let_def
  by (cases decision) (auto split: option.splits)

lemma history_ids:
  "distinct (cashWalletHistoryWalletIds ids p)"
  "set (cashWalletHistoryWalletIds ids p) = set ids \<union>
     (case ps_legacyUsdWallet p of
        None \<Rightarrow> {}
      | Some legacy \<Rightarrow>
          if wl_id legacy \<in> set ids \<or> wl_id (ps_activeSettlementWallet p) \<in> set ids
          then {wl_id legacy, wl_id (ps_activeSettlementWallet p)} else {})"
  by (auto simp: cashWalletHistoryWalletIds_def Let_def split: option.split if_splits)

text \<open>
  C28: a client is shown the account's other wallets and exactly one cash wallet, which is the default
  one: the account's first USDT wallet when the decision is to show USDT, and its first USD wallet
  otherwise. Payments settle in the first USD wallet when the decision is the legacy one and in the first
  USDT wallet otherwise. A selection of wallets is extended, without duplicates, by nothing but the first
  USD wallet and the settlement wallet, and by both when it has one of them and the account has a USD
  wallet; so unless the decision is the legacy one, the history of either cash wallet is that of both.
\<close>

theorem presentation_one_cash_wallet:
  assumes "resolveCashWalletPresentation decision wallets = Inr p"
  shows "filter (\<lambda>w. wl_currency w = Usd \<or> wl_currency w = Usdt) (ps_wallets p) = [last (ps_wallets p)]
    \<and> ps_defaultWalletId p = wl_id (last (ps_wallets p))
    \<and> find (\<lambda>w. wl_currency w = (if decision = Show_usdt then Usdt else Usd)) wallets = Some (last (ps_wallets p))
    \<and> find (\<lambda>w. wl_currency w = (if decision = Show_legacy_usd then Usd else Usdt)) wallets
        = Some (ps_activeSettlementWallet p)
    \<and> filter (\<lambda>w. wl_currency w \<noteq> Usd \<and> wl_currency w \<noteq> Usdt) (ps_wallets p)
        = filter (\<lambda>w. wl_currency w \<noteq> Usd \<and> wl_currency w \<noteq> Usdt) wallets
    \<and> set (ps_wallets p) \<subseteq> set wallets
    \<and> (\<forall>ids. distinct (cashWalletHistoryWalletIds ids p))
    \<and> (\<forall>ids. set (cashWalletHistoryWalletIds ids p) = set ids \<union>
         (case find (\<lambda>w. wl_currency w = Usd) wallets of
            None \<Rightarrow> {}
          | Some legacy \<Rightarrow>
              if wl_id legacy \<in> set ids \<or> wl_id (ps_activeSettlementWallet p) \<in> set ids
              then {wl_id legacy, wl_id (ps_activeSettlementWallet p)} else {}))"
proof -
  obtain w where w: "ps_wallets p = filter (\<lambda>w. wl_currency w \<noteq> Usd \<and> wl_currency w \<noteq> Usdt) wallets @ [w]"
    "ps_defaultWalletId p = wl_id w"
    "find (\<lambda>w. wl_currency w = (if decision = Show_usdt then Usdt else Usd)) wallets = Some w"
    "find (\<lambda>w. wl_currency w = (if decision = Show_legacy_usd then Usd else Usdt)) wallets
      = Some (ps_activeSettlementWallet p)"
    "ps_legacyUsdWallet p = find (\<lambda>w. wl_currency w = Usd) wallets"
    by (rule resolve_shown [OF assms])
  have cash: "w \<in> set wallets" "wl_currency w = Usd \<or> wl_currency w = Usdt"
    using find_SomeD [OF w(3)] by (auto split: if_splits)
  then have "filter (\<lambda>w. wl_currency w = Usd \<or> wl_currency w = Usdt) (ps_wallets p) = [w]"
    "filter (\<lambda>w. wl_currency w \<noteq> Usd \<and> wl_currency w \<noteq> Usdt) (ps_wallets p)
        = filter (\<lambda>w. wl_currency w \<noteq> Usd \<and> wl_currency w \<noteq> Usdt) wallets"
    "set (ps_wallets p) \<subseteq> set wallets"
    unfolding w(1) by (auto simp: filter_empty_conv)
  then show ?thesis using w(1-4) history_ids by (simp add: w(5))
qed

definition ex_wallets :: "wallet list" where
  "ex_wallets = [\<lparr>wl_id = ''btc'', wl_accountId = ''acc'', wl_type = Checking, wl_currency = Btc\<rparr>,
     \<lparr>wl_id = ''usd'', wl_accountId = ''acc'', wl_type = Checking, wl_currency = Usd\<rparr>,
     \<lparr>wl_id = ''usdt'', wl_accountId = ''acc'', wl_type = Checking, wl_currency = Usdt\<rparr>]"

theorem presentation_one_cash_wallet_witness:
  "\<exists>p. resolveCashWalletPresentation Show_legacy_usd_compat ex_wallets = Inr p \<and> ps_defaultWalletId p = ''usd''
    \<and> wl_id (ps_activeSettlementWallet p) = ''usdt''
    \<and> set (cashWalletHistoryWalletIds [''usd''] p) = {''usd'', ''usdt''}"
proof -
  have "\<not> isl (resolveCashWalletPresentation Show_legacy_usd_compat ex_wallets)" by code_simp
  then obtain p where p: "resolveCashWalletPresentation Show_legacy_usd_compat ex_wallets = Inr p"
    by (auto simp: not_isl_Inr)
  note pr = presentation_one_cash_wallet [OF p]
  have "wl_id (ps_activeSettlementWallet p) = ''usdt''" "wl_id (last (ps_wallets p)) = ''usd''"
    using pr by (auto simp: ex_wallets_def dest!: sym [of _ "last (ps_wallets p)"] sym [of _ "ps_activeSettlementWallet p"])
  moreover from this have "set (cashWalletHistoryWalletIds [''usd''] p) = {''usd'', ''usdt''}"
    using pr by (auto simp: ex_wallets_def)
  ultimately show ?thesis using pr p by auto
qed

text \<open>
  C29: once a run is complete, the routing of cashouts and of payments no longer looks migrations up. It
  sends every account to the USDT wallet, also one whose migration was rolled back afterwards, which
  the guard by itself would send to the legacy wallet.
\<close>

theorem completed_run_ignores_rollbacks:
  assumes "getConfig repo s = (Inr cutover, u)" "cc_state cutover = Cutover_complete"
    and "resolveCashoutWalletSelection repo dir lookup accountId requested owner s = (Inr selection, t)"
    and "resolveCashWalletPresentationForAccount repo dir account client s = (Inr p, t')"
    and "mg_status m = Rolled_back"
  shows "co_route selection = Route_usdt
    \<and> wl_currency (ps_activeSettlementWallet p) = Usdt
    \<and> evaluateCashWalletCutoverGuard cutover (Some m) = Inr Route_legacy_usd"
proof -
  have "co_route selection = Route_usdt"
    using assms(1-3) by (auto simp: resolveCashoutWalletSelection_def current_migration_def bindA_Inr act_simps
        evaluateCashWalletCutoverGuard_def)
  moreover obtain wallets where "resolveCashWalletPresentation
      (if cl_hasUsdtCashWalletSupport client then Show_usdt else Show_legacy_usd_compat) wallets = Inr p"
    using assms(1,2,4) by (auto simp: resolveCashWalletPresentationForAccount_def current_migration_def bindA_Inr
        act_simps evaluateCashWalletCutoverPresentation_def evaluateCashWalletCutoverGuard_def)
  then have "wl_currency (ps_activeSettlementWallet p) = Usdt"
    by (rule resolve_shown) (auto split: if_splits dest!: find_SomeD)
  ultimately show ?thesis using assms(2,5) by (simp add: evaluateCashWalletCutoverGuard_def)
qed

definition ex_completed :: mongo where
  "ex_completed = ex_empty\<lparr>config_doc := Some (ex_config Cutover_complete)\<rparr>"

definition ex_lookups :: "mongo lookups" where
  "ex_lookups = \<lparr>findWallet = (\<lambda>i. retA \<lparr>wl_id = i, wl_accountId = ''bank'', wl_type = Checking, wl_currency = Usd\<rparr>),
     findAccount = (\<lambda>i. retA \<lparr>ac_id = i, ac_uuid = ''uuid'', ac_defaultWalletId = ''usd''\<rparr>)\<rparr>"

theorem completed_run_ignores_rollbacks_witness:
  "\<exists>selection t. resolveCashoutWalletSelection store ex_directory ex_lookups ''acc'' ''usd'' ''bank-usd'' ex_completed
      = (Inr selection, t) \<and> co_route selection = Route_usdt
    \<and> evaluateCashWalletCutoverGuard (ex_config Cutover_complete) (Some (ex_migration\<lparr>mg_status := Rolled_back\<rparr>))
      = Inr Route_legacy_usd"
proof -
  let ?cashout = "resolveCashoutWalletSelection store ex_directory ex_lookups ''acc'' ''usd'' ''bank-usd'' ex_completed"
  let ?show = "resolveCashWalletPresentationForAccount store ex_directory \<lparr>ac_id = ''acc'', ac_uuid = ''uuid'',
      ac_defaultWalletId = ''usd''\<rparr> DEFAULT_CASH_WALLET_CLIENT_CAPABILITIES ex_completed"
  have "\<not> isl (fst ?cashout)" "\<not> isl (fst ?show)" by code_simp+
  then obtain selection t p t' where run: "?cashout = (Inr selection, t)" "?show = (Inr p, t')"
    by (cases ?cashout; cases ?show) (auto simp: not_isl_Inr)
  have config: "getConfig store ex_completed = (Inr (ex_config Cutover_complete), ex_completed)"
    by (simp add: db_getConfig_def on_driver_def ex_completed_def ex_empty_def)
  have "cc_state (ex_config Cutover_complete) = Cutover_complete" by (simp add: ex_config_def)
  from completed_run_ignores_rollbacks [OF config this run, of "ex_migration\<lparr>mg_status := Rolled_back\<rparr>"] run(1)
  show ?thesis by simp
qed

end
