(* ===== verification/CutoverPayments.thy ===== *)
theory CutoverPayments
  imports CutoverSystem
begin

text \<open>
  Which payments the cutover makes. The services are wrapped so that every call of \<open>payInvoice\<close> is
  recorded with its answer, whether it succeeds or not, and so is every invoice that is made and
  every balance and treasury wallet that is read. The calls of one step of the pipeline and of one
  step of a rollback are determined: how many payments, from which wallet, of which invoice and of
  which amount.
\<close>

section \<open>Services that record what is asked of them\<close>

record payment_call =
  pc_senderWalletId :: string
  pc_paymentRequest :: string
  pc_senderAmountUsdCents :: "string option"
  pc_senderAmountUsdtMicros :: "string option"

datatype service_event =
    Asked_payment payment_call "string result"
  | Made_invoice string "string option" string
  | Legacy_holds string string
  | Spendable_is string string
  | Treasury_is string

fun asked :: "service_event list \<Rightarrow> (payment_call \<times> string result) list" where
  "asked [] = []"
| "asked (Asked_payment p a # es) = (p, a) # asked es"
| "asked (e # es) = asked es"

fun made :: "service_event list \<Rightarrow> (string \<times> string option \<times> string) list" where
  "made [] = []"
| "made (Made_invoice w amt request # es) = (w, amt, request) # made es"
| "made (e # es) = made es"

lemma asked_append [simp]: "asked (es @ fs) = asked es @ asked fs"
  by (induction es rule: asked.induct) simp_all

lemma made_append [simp]: "made (es @ fs) = made es @ made fs"
  by (induction es rule: made.induct) simp_all

definition aside :: "('w, 'a) act \<Rightarrow> ('w \<times> 'l, 'a) act" where
  "aside act = (\<lambda>(w, l). case act w of (r, w') \<Rightarrow> (r, (w', l)))"

definition note_answer :: "('a result \<Rightarrow> 'p list) \<Rightarrow> ('w, 'a) act \<Rightarrow> ('w \<times> 'p list, 'a) act" where
  "note_answer f act = (\<lambda>(w, l). case act w of (r, w') \<Rightarrow> (r, (w', l @ f r)))"

definition on_success :: "('a \<Rightarrow> 'p) \<Rightarrow> 'a result \<Rightarrow> 'p list" where
  "on_success f r = (case r of Inl _ \<Rightarrow> [] | Inr x \<Rightarrow> [f x])"

lemma on_success_simps [simp]: "on_success f (Inl e) = []" "on_success f (Inr x) = [f x]"
  by (simp_all add: on_success_def)

definition recording :: "'w cutover_services \<Rightarrow> ('w \<times> service_event list) cutover_services" where
  "recording svc =
     \<lparr>sv_now = (\<lambda>(w, _). sv_now svc w),
      decodedExpiresAt = decodedExpiresAt svc,
      getDefaultWalletId = (\<lambda>acc. aside (getDefaultWalletId svc acc)),
      ensureDestinationWallet = (\<lambda>acc w. aside (ensureDestinationWallet svc acc w)),
      readSourceBalanceUsdCents = (\<lambda>m. note_answer (on_success (Legacy_holds (mg_legacyUsdWalletId m)))
        (readSourceBalanceUsdCents svc m)),
      readDestinationBalanceUsdtMicros = (\<lambda>m. aside (readDestinationBalanceUsdtMicros svc m)),
      readDestinationSpendableUsdtMicros = (\<lambda>m. note_answer (on_success (Spendable_is (mg_destinationUsdtWalletId m)))
        (readDestinationSpendableUsdtMicros svc m)),
      createInvoice = (\<lambda>w amt memo. note_answer (on_success (\<lambda>i. Made_invoice w (Some amt) (ci_paymentRequest i)))
        (createInvoice svc w amt memo)),
      createNoAmountInvoice = (\<lambda>w memo. note_answer (on_success (\<lambda>i. Made_invoice w None (ci_paymentRequest i)))
        (createNoAmountInvoice svc w memo)),
      payInvoice = (\<lambda>w request cents micros.
        note_answer (\<lambda>a. [Asked_payment \<lparr>pc_senderWalletId = w, pc_paymentRequest = request,
          pc_senderAmountUsdCents = cents, pc_senderAmountUsdtMicros = micros\<rparr> a])
        (payInvoice svc w request cents micros)),
      verifyBalanceMove = (\<lambda>w w' c a tx. aside (verifyBalanceMove svc w w' c a tx)),
      readFeeAmountUsdtMicros = (\<lambda>m. aside (readFeeAmountUsdtMicros svc m)),
      getTreasuryWalletId = note_answer (on_success Treasury_is) (getTreasuryWalletId svc),
      flipDefaultWallet = (\<lambda>acc w. aside (flipDefaultWallet svc acc w)),
      verifyLegacyWalletZero = (\<lambda>w. aside (verifyLegacyWalletZero svc w))\<rparr>"

abbreviation events :: "('w \<times> service_event list) mongo_scheme \<Rightarrow> service_event list" where
  "events s \<equiv> snd (mongo.more s)"

abbreviation recorder :: "'w cutover_services \<Rightarrow> ('w \<times> service_event list) mongo_scheme cutover_services" where
  "recorder svc \<equiv> world_services (recording svc)"

section \<open>The events of an action\<close>

definition traces ::
  "migration \<Rightarrow> ('a result \<Rightarrow> service_event list \<Rightarrow> bool) \<Rightarrow> (('w \<times> service_event list) mongo_scheme, 'a) act \<Rightarrow> bool"
where
  "traces m L act \<longleftrightarrow> (\<forall>s r t. docs_ok s \<longrightarrow> find_doc s (mg_id m) = Some m \<longrightarrow> act s = (r, t) \<longrightarrow>
     (\<exists>es. events t = events s @ es \<and> L r es))"

lemma tracesI:
  assumes "\<And>s r t. docs_ok s \<Longrightarrow> find_doc s (mg_id m) = Some m \<Longrightarrow> act s = (r, t) \<Longrightarrow>
     \<exists>es. events t = events s @ es \<and> L r es"
  shows "traces m L act"
  using assms by (auto simp: traces_def)

lemma traces_mono: "traces m L act \<Longrightarrow> (\<And>r es. L r es \<Longrightarrow> L' r es) \<Longrightarrow> traces m L' act"
  unfolding traces_def by blast

lemma traces_ret: "L (Inr x) [] \<Longrightarrow> traces m L (retA x)"
  by (auto simp: traces_def act_simps)

lemma traces_fail: "L (Inl e) [] \<Longrightarrow> traces m L (failA e)"
  by (auto simp: traces_def act_simps)

lemma traces_lift:
  "(\<And>e. L (Inl e) []) \<Longrightarrow> (\<And>x. r = Inr x \<Longrightarrow> traces m L (k x)) \<Longrightarrow> traces m L (bindA (liftA r) k)"
  by (cases r) (simp_all add: act_simps traces_fail)

lemma traces_can_move:
  "(\<And>e. L (Inl e) []) \<Longrightarrow> traces m L (k ()) \<Longrightarrow> traces m L (bindA (can_move m' to) k)"
  unfolding can_move_def by (rule traces_lift) auto

lemma traces_if:
  "(b \<Longrightarrow> traces m L act) \<Longrightarrow> (\<not> b \<Longrightarrow> traces m L act') \<Longrightarrow> traces m L (if b then act else act')"
  by simp

lemma traces_option:
  "(x = None \<Longrightarrow> traces m L act) \<Longrightarrow> (\<And>y. x = Some y \<Longrightarrow> traces m L (f y)) \<Longrightarrow>
   traces m L (case x of None \<Rightarrow> act | Some y \<Rightarrow> f y)"
  by (cases x) simp_all

lemma traces_state_if:
  "traces m L act \<Longrightarrow> traces m L act' \<Longrightarrow> traces m L (\<lambda>s. if c s then act s else act' s)"
  by (auto simp: traces_def)

lemma traces_bind:
  fixes act :: "(('w \<times> service_event list) mongo_scheme, 'a) act"
  assumes leaves: "leaves_docs docs_ok find_doc act"
    and act: "\<And>s r t. act s = (r, t) \<Longrightarrow> events t = events s @ f r"
    and err: "\<And>e. L (Inl e) (f (Inl e))" and k: "\<And>x. traces m (\<lambda>r es. L r (f (Inr x) @ es)) (k x)"
  shows "traces m L (bindA act k)"
proof (rule tracesI)
  fix s t :: "('w \<times> service_event list) mongo_scheme" and r
  assume s: "docs_ok s" "find_doc s (mg_id m) = Some m" and run: "bindA act k s = (r, t)"
  obtain x u where x: "act s = (x, u)" by (cases "act s")
  then have u: "docs_ok u" "find_doc u = find_doc s" "events u = events s @ f x"
    using leaves s act by (auto simp: leaves_docs_def)
  show "\<exists>es. events t = events s @ es \<and> L r es"
  proof (cases x)
    case (Inl e)
    with run x u err show ?thesis by (auto simp: bindA_def)
  next
    case (Inr y)
    then have "k y u = (r, t)" using run x by (simp add: bindA_def)
    moreover have "find_doc u (mg_id m) = Some m" using s u by simp
    ultimately obtain es where "events t = events u @ es" "L r (f (Inr y) @ es)"
      using k [of y] u(1) unfolding traces_def by blast
    then show ?thesis using u(3) Inr by auto
  qed
qed

lemma traces_quiet:
  assumes "\<And>e. L (Inl e) []" "\<And>x. traces m L (k x)"
  shows "traces m L (bindA (in_world (aside act)) k)"
  by (rule traces_bind [OF in_world_leaves_docs, where f = "\<lambda>_. []"])
    (use assms in \<open>auto simp: in_world_def aside_def split: prod.splits\<close>)

lemma traces_note:
  assumes "\<And>e. L (Inl e) (f (Inl e))" "\<And>x. traces m (\<lambda>r es. L r (f (Inr x) @ es)) (k x)"
  shows "traces m L (bindA (in_world (note_answer f act)) k)"
  by (rule traces_bind [OF in_world_leaves_docs, where f = f])
    (use assms in \<open>auto simp: in_world_def note_answer_def split: prod.splits\<close>)

lemma findOneAndUpdate_world: "findOneAndUpdate P f s = (r, t) \<Longrightarrow> mongo.more t = mongo.more s"
  unfolding findOneAndUpdate_def
  by (erule on_driver_cases) (auto split: option.splits)

lemma traces_transition:
  assumes "keeps_key (ta_patch a)" "ta_id a = mg_id m"
    and "\<And>e. L (Inl e) []" "\<And>n. transition_filter a m \<Longrightarrow> L (Inr (transition_update a n m)) []"
  shows "traces m L (db_transitionMigration a)"
proof (rule tracesI)
  fix s t :: "('w \<times> service_event list) mongo_scheme" and r
  assume s: "docs_ok s" "find_doc s (mg_id m) = Some m" and run: "db_transitionMigration a s = (r, t)"
  have "events t = events s"
    using run by (simp add: db_transitionMigration_def findOneAndUpdate_world)
  moreover have "(\<exists>e. r = Inl e) \<or> (\<exists>n. transition_filter a m \<and> r = Inr (transition_update a n m))"
    using cutover_repository.transition [OF assms(1)] s run assms(2) unfolding updates_one_def by fastforce
  ultimately show "\<exists>es. events t = events s @ es \<and> L r es"
    using assms(3,4) by auto
qed

lemma traces_then:
  fixes act :: "(('w \<times> service_event list) mongo_scheme, migration) act"
  assumes tr: "traces m L1 act" and st: "steps_to docs_ok find_doc m Q E act"
    and err: "\<And>e es. L1 (Inl e) es \<Longrightarrow> L (Inl e) es"
    and k: "\<And>m' es. L1 (Inr m') es \<Longrightarrow> Q m' \<Longrightarrow> mg_id m' = mg_id m \<Longrightarrow> traces m' (\<lambda>r gs. L r (es @ gs)) (k m')"
  shows "traces m L (bindA act k)"
proof (rule tracesI)
  fix s t :: "('w \<times> service_event list) mongo_scheme" and r
  assume s: "docs_ok s" "find_doc s (mg_id m) = Some m" and run: "bindA act k s = (r, t)"
  obtain x u where x: "act s = (x, u)" by (cases "act s")
  obtain es where es: "events u = events s @ es" "L1 x es"
    using tr s x unfolding traces_def by blast
  obtain m' where u: "evolves docs_ok find_doc s u" "find_doc u (mg_id m) = Some m'"
    "case x of Inr x \<Rightarrow> x = m' \<and> Q m' | Inl _ \<Rightarrow> E m'"
    by (rule steps_toD [OF st s x])
  then have ok: "docs_ok u" by (simp add: evolves_def)
  then have id: "mg_id m' = mg_id m" using u(2) by (simp add: find_doc_Some_iff)
  show "\<exists>gs. events t = events s @ gs \<and> L r gs"
  proof (cases x)
    case (Inl e)
    with run x es err show ?thesis by (auto simp: bindA_def)
  next
    case (Inr y)
    then have y: "y = m'" "Q m'" using u(3) by simp_all
    then have "k m' u = (r, t)" using run x Inr by (simp add: bindA_def)
    moreover have "traces m' (\<lambda>r gs. L r (es @ gs)) (k m')" using k es(2) y id Inr by blast
    ultimately obtain gs where "events t = events u @ gs" "L r (es @ gs)"
      using ok u(2) id unfolding traces_def by metis
    then show ?thesis using es(1) by auto
  qed
qed

section \<open>The payments of a pipeline step\<close>

lemma recorder_fields:
  "getDefaultWalletId (recorder svc) acc = in_world (aside (getDefaultWalletId svc acc))"
  "ensureDestinationWallet (recorder svc) acc w = in_world (aside (ensureDestinationWallet svc acc w))"
  "readSourceBalanceUsdCents (recorder svc) m =
     in_world (note_answer (on_success (Legacy_holds (mg_legacyUsdWalletId m))) (readSourceBalanceUsdCents svc m))"
  "readDestinationBalanceUsdtMicros (recorder svc) m = in_world (aside (readDestinationBalanceUsdtMicros svc m))"
  "readDestinationSpendableUsdtMicros (recorder svc) m =
     in_world (note_answer (on_success (Spendable_is (mg_destinationUsdtWalletId m)))
       (readDestinationSpendableUsdtMicros svc m))"
  "createInvoice (recorder svc) w a memo =
     in_world (note_answer (on_success (\<lambda>i. Made_invoice w (Some a) (ci_paymentRequest i))) (createInvoice svc w a memo))"
  "createNoAmountInvoice (recorder svc) w memo =
     in_world (note_answer (on_success (\<lambda>i. Made_invoice w None (ci_paymentRequest i))) (createNoAmountInvoice svc w memo))"
  "payInvoice (recorder svc) w req c x = in_world (note_answer (\<lambda>a. [Asked_payment \<lparr>pc_senderWalletId = w,
     pc_paymentRequest = req, pc_senderAmountUsdCents = c, pc_senderAmountUsdtMicros = x\<rparr> a]) (payInvoice svc w req c x))"
  "verifyBalanceMove (recorder svc) w w' c x tx = in_world (aside (verifyBalanceMove svc w w' c x tx))"
  "readFeeAmountUsdtMicros (recorder svc) m = in_world (aside (readFeeAmountUsdtMicros svc m))"
  "getTreasuryWalletId (recorder svc) = in_world (note_answer (on_success Treasury_is) (getTreasuryWalletId svc))"
  "flipDefaultWallet (recorder svc) acc w = in_world (aside (flipDefaultWallet svc acc w))"
  "verifyLegacyWalletZero (recorder svc) w = in_world (aside (verifyLegacyWalletZero svc w))"
  by (simp_all add: world_services_def recording_def)

lemma keeps_key_patches [simp]:
  "keeps_key (\<lambda>d. d)" "keeps_key id"
  "keeps_key (mg_startedAt_update f)" "keeps_key (mg_completedAt_update f)"
  "keeps_key (mg_previousDefaultWalletId_update g)"
  "keeps_key (mg_balanceMovePaymentTransactionId_update g)"
  "keeps_key (mg_feeReimbursementPaymentTransactionId_update g)"
  "keeps_key (\<lambda>d. d\<lparr>mg_sourceBalanceUsdCents := a, mg_destinationAmountUsdtMicros := b,
     mg_destinationStartingBalanceUsdtMicros := c\<rparr>)"
  "keeps_key (\<lambda>d. d\<lparr>mg_balanceMoveInvoicePaymentRequest := a, mg_balanceMoveInvoicePaymentHash := b\<rparr>)"
  "keeps_key (\<lambda>d. d\<lparr>mg_feeAmountUsdCents := a, mg_feeAmountUsdtMicros := b\<rparr>)"
  "keeps_key (\<lambda>d. d\<lparr>mg_feeAmountUsdCents := a, mg_feeAmountUsdtMicros := b,
     mg_feeReimbursementInvoicePaymentRequest := c, mg_feeReimbursementInvoicePaymentHash := e\<rparr>)"
  by (simp_all add: keeps_key_def mg_key_def)

lemmas trace_rules = traces_can_move traces_lift traces_quiet traces_note traces_if traces_option traces_fail traces_ret

lemma traces_move:
  assumes "keeps_key patch" "\<And>e. L (Inl e) []" "\<And>n. L (Inr (enters to n (patch m))) []"
  shows "traces m L (db_transitionMigration (move_to m to patch))"
  by (rule traces_transition) (use assms in simp_all)

text \<open>Steps that pay nothing.\<close>

abbreviation no_payment :: "'a result \<Rightarrow> service_event list \<Rightarrow> bool" where
  "no_payment r es \<equiv> asked es = []"

lemma quiet_steps:
  "traces m no_payment (startCashWalletMigration store m t)"
  "traces m no_payment (provisionCashWalletMigrationDestination store (recorder svc) m)"
  "traces m no_payment (recordCashWalletMigrationBalance store m cents starting)"
  "traces m no_payment (markCashWalletMigrationBalanceMoveSent store m)"
  "traces m no_payment (verifyCashWalletMigrationBalanceMove store (recorder svc) m)"
  "traces m no_payment (skipCashWalletMigrationFeeReimbursement store m fee)"
  "traces m no_payment (markCashWalletMigrationFeeReimbursed store m)"
  "traces m no_payment (flipCashWalletMigrationDefaultPointer store (recorder svc) m)"
  "traces m no_payment (verifyCashWalletMigrationLegacyZero store (recorder svc) m)"
  "traces m no_payment (completeCashWalletMigration store m t)"
  unfolding cutover.handler_defs recorder_fields repo_fields
  by (intro trace_rules traces_move; simp)+

text \<open>
  The invoice a payment is for: the recorded one or, if the step makes one, the new one, which is on
  the given wallet and for the given amount.
\<close>

definition invoiced ::
  "string option \<Rightarrow> string \<Rightarrow> string option \<Rightarrow> service_event list \<Rightarrow> string option \<Rightarrow> bool"
where
  "invoiced recorded_request w amt es request \<longleftrightarrow>
     made es = [] \<and> request = recorded_request \<or> (\<exists>req. made es = [(w, amt, req)] \<and> request = Some req)"

text \<open>A new invoice changes the invoice and nothing else of the migration.\<close>

definition new_invoice :: "string \<Rightarrow> string option \<Rightarrow> (string \<Rightarrow> migration \<Rightarrow> bool) \<Rightarrow> migration result \<Rightarrow> service_event list \<Rightarrow> bool" where
  "new_invoice w amt P r es \<longleftrightarrow> asked es = [] \<and>
     (\<forall>x. r = Inr x \<longrightarrow> (\<exists>req. made es = [(w, amt, req)] \<and> P req x))"

lemma invoice_traces:
  "traces m (new_invoice (mg_destinationUsdtWalletId m) None (\<lambda>req x. \<exists>n b. x = enters Invoice_created n
       (m\<lparr>mg_balanceMoveInvoicePaymentRequest := Some req, mg_balanceMoveInvoicePaymentHash := b\<rparr>)))
     (createCashWalletMigrationBalanceMoveInvoice store (recorder svc) m)"
  "traces m (new_invoice (mg_destinationUsdtWalletId m)
       (if usesNoAmountFeeReimbursementInvoice fee = Inr True then None else Some fee)
       (\<lambda>req x. \<exists>n c b. x = enters Fee_reimbursement_invoice_created n
         (m\<lparr>mg_feeAmountUsdCents := c, mg_feeAmountUsdtMicros := Some fee,
            mg_feeReimbursementInvoicePaymentRequest := Some req, mg_feeReimbursementInvoicePaymentHash := b\<rparr>)))
     (createCashWalletMigrationFeeReimbursementInvoice store (recorder svc) m fee)"
proof -
  show "traces m (new_invoice (mg_destinationUsdtWalletId m) None (\<lambda>req x. \<exists>n b. x = enters Invoice_created n
       (m\<lparr>mg_balanceMoveInvoicePaymentRequest := Some req, mg_balanceMoveInvoicePaymentHash := b\<rparr>)))
     (createCashWalletMigrationBalanceMoveInvoice store (recorder svc) m)"
    unfolding cutover.handler_defs recorder_fields repo_fields Let_def new_invoice_def
    by (intro trace_rules traces_move; auto)
next
  show "traces m (new_invoice (mg_destinationUsdtWalletId m)
       (if usesNoAmountFeeReimbursementInvoice fee = Inr True then None else Some fee)
       (\<lambda>req x. \<exists>n c b. x = enters Fee_reimbursement_invoice_created n
         (m\<lparr>mg_feeAmountUsdCents := c, mg_feeAmountUsdtMicros := Some fee,
            mg_feeReimbursementInvoicePaymentRequest := Some req, mg_feeReimbursementInvoicePaymentHash := b\<rparr>)))
     (createCashWalletMigrationFeeReimbursementInvoice store (recorder svc) m fee)"
    unfolding cutover.handler_defs recorder_fields repo_fields Let_def new_invoice_def if_distrib [of "\<lambda>a. bindA a _"]
    by (intro trace_rules traces_move; auto)
qed

text \<open>
  The payment of the balance, from the legacy wallet and in cents, of an invoice without an amount on
  the destination wallet; and the payment of the fee from the treasury, of an invoice of the fee on
  the destination wallet, with the amount in micro units exactly when the invoice has none.
\<close>

definition balance_call :: "migration \<Rightarrow> service_event list \<Rightarrow> payment_call \<Rightarrow> bool" where
  "balance_call m es p \<longleftrightarrow> pc_senderWalletId p = mg_legacyUsdWalletId m
     \<and> pc_senderAmountUsdCents p = mg_sourceBalanceUsdCents m \<and> mg_sourceBalanceUsdCents m \<noteq> None
     \<and> pc_senderAmountUsdtMicros p = None
     \<and> invoiced (mg_balanceMoveInvoicePaymentRequest m) (mg_destinationUsdtWalletId m) None es
         (Some (pc_paymentRequest p))"

definition fee_call :: "migration \<Rightarrow> service_event list \<Rightarrow> payment_call \<Rightarrow> bool" where
  "fee_call m es p \<longleftrightarrow> Treasury_is (pc_senderWalletId p) \<in> set es \<and> pc_senderAmountUsdCents p = None
     \<and> (\<exists>fee no_amount. mg_feeAmountUsdtMicros m = Some fee
         \<and> usesNoAmountFeeReimbursementInvoice fee = Inr no_amount
         \<and> pc_senderAmountUsdtMicros p = (if no_amount then Some fee else None)
         \<and> invoiced (mg_feeReimbursementInvoicePaymentRequest m) (mg_destinationUsdtWalletId m)
             (if no_amount then None else Some fee) es (Some (pc_paymentRequest p)))"

text \<open>
  At most one payment, a good one, and exactly one if the step succeeds: then it was answered with the
  transaction the migration records, together with the invoice it is for.
\<close>

definition pays_once ::
  "(service_event list \<Rightarrow> payment_call \<Rightarrow> bool) \<Rightarrow> (migration \<Rightarrow> string option) \<Rightarrow> (migration \<Rightarrow> string option)
   \<Rightarrow> migration result \<Rightarrow> service_event list \<Rightarrow> bool"
where
  "pays_once P request_of recorded_in r es \<longleftrightarrow>
     asked es = [] \<and> isl r
     \<or> (\<exists>p a. asked es = [(p, a)] \<and> P es p
         \<and> (\<forall>x. r = Inr x \<longrightarrow> (\<exists>tx. a = Inr tx \<and> recorded_in x = Some tx)
             \<and> request_of x = Some (pc_paymentRequest p)))"

lemma balance_payment_traces:
  assumes m: "mg_status m = Invoice_created"
  shows "traces m (pays_once (balance_call m) mg_balanceMoveInvoicePaymentRequest mg_balanceMovePaymentTransactionId)
    (sendCashWalletMigrationBalanceMovePayment store (recorder svc) b n m)"
proof -
  let ?L1 = "\<lambda>r es. asked es = [] \<and> (\<forall>x :: migration. r = Inr x \<longrightarrow> mg_legacyUsdWalletId x = mg_legacyUsdWalletId m
    \<and> mg_sourceBalanceUsdCents x = mg_sourceBalanceUsdCents m
    \<and> invoiced (mg_balanceMoveInvoicePaymentRequest m) (mg_destinationUsdtWalletId m) None es
        (mg_balanceMoveInvoicePaymentRequest x))"
  let ?refresh = "\<lambda>req s. if b \<and> isInvoicePaymentRequestStale (recorder svc) req (sv_now (recorder svc) s) n
      then createCashWalletMigrationBalanceMoveInvoice store (recorder svc) m s else retA m s"
  have "traces m ?L1 (createCashWalletMigrationBalanceMoveInvoice store (recorder svc) m)"
    by (rule traces_mono [OF invoice_traces(1)]) (auto simp: new_invoice_def invoiced_def)
  then have tr: "traces m ?L1 (?refresh req)" for req
    by (intro traces_state_if traces_ret) (simp_all add: invoiced_def)
  have st: "steps_to docs_ok find_doc m (\<lambda>m'. forward_step\<^sup>*\<^sup>* m m' \<and> mg_status m' = Invoice_created)
      (forward_step\<^sup>*\<^sup>* m) (?refresh req)" for req
    by (intro cutover.refresh_or_keep cutover.invoice_steps(1)) (simp_all add: m)
  show ?thesis
    unfolding sendCashWalletMigrationBalanceMovePayment_def recorder_fields
    by (intro traces_can_move traces_option traces_if traces_fail traces_then [OF tr st] traces_note)
      (auto simp: pays_once_def balance_call_def invoiced_def intro!: traces_move)
qed

lemma fee_payment_traces:
  assumes m: "mg_status m = Fee_reimbursement_invoice_created"
  shows "traces m (\<lambda>r es. pays_once (fee_call m) mg_feeReimbursementInvoicePaymentRequest
      mg_feeReimbursementPaymentTransactionId r (Treasury_is w # es))
    (sendCashWalletMigrationFeeReimbursementPayment store (recorder svc) b n w m)"
proof -
  let ?L1 = "\<lambda>r es. asked es = [] \<and> (\<forall>x :: migration. r = Inr x \<longrightarrow> mg_feeAmountUsdtMicros x = mg_feeAmountUsdtMicros m
    \<and> (\<forall>fee. mg_feeAmountUsdtMicros m = Some fee \<longrightarrow>
        invoiced (mg_feeReimbursementInvoicePaymentRequest m) (mg_destinationUsdtWalletId m)
          (if usesNoAmountFeeReimbursementInvoice fee = Inr True then None else Some fee) es
          (mg_feeReimbursementInvoicePaymentRequest x)))"
  let ?create = "\<lambda>s. case mg_feeAmountUsdtMicros m of
      None \<Rightarrow> failA InvalidCashWalletMigrationTransitionError s
    | Some fee \<Rightarrow> createCashWalletMigrationFeeReimbursementInvoice store (recorder svc) m fee s"
  let ?refresh = "\<lambda>req s. if b \<and> isInvoicePaymentRequestStale (recorder svc) req (sv_now (recorder svc) s) n
      then ?create s else retA m s"
  have "traces m ?L1 ?create"
  proof (cases "mg_feeAmountUsdtMicros m")
    case None
    then show ?thesis by (simp add: traces_fail)
  next
    case (Some fee)
    have "traces m ?L1 (createCashWalletMigrationFeeReimbursementInvoice store (recorder svc) m fee)"
      by (rule traces_mono [OF invoice_traces(2)]) (use Some in \<open>auto simp: new_invoice_def invoiced_def\<close>)
    then show ?thesis using Some by simp
  qed
  then have tr: "traces m ?L1 (?refresh req)" for req
    by (intro traces_state_if traces_ret) (simp_all add: invoiced_def)
  have "steps_to docs_ok find_doc m (\<lambda>m'. forward_step m m' \<and> mg_status m' = Fee_reimbursement_invoice_created)
      (at_most_one_step m) ?create"
    by (cases "mg_feeAmountUsdtMicros m") (simp_all add: steps_to_fail cutover.invoice_steps(2) m)
  then have st: "steps_to docs_ok find_doc m (\<lambda>m'. forward_step\<^sup>*\<^sup>* m m' \<and> mg_status m' = Fee_reimbursement_invoice_created)
      (forward_step\<^sup>*\<^sup>* m) (?refresh req)" for req
    by (intro cutover.refresh_or_keep) (simp_all add: m)
  show ?thesis
    unfolding sendCashWalletMigrationFeeReimbursementPayment_def recorder_fields
    by (intro traces_can_move traces_option traces_if traces_fail traces_then [OF tr st] traces_lift traces_note)
      (auto simp: pays_once_def fee_call_def invoiced_def dest!: sym [of "Some _"] intro!: traces_move)
qed

lemma fee_handler_traces:
  assumes "mg_status m = Fee_reimbursement_invoice_created"
  shows "traces m (pays_once (fee_call m) mg_feeReimbursementInvoicePaymentRequest
      mg_feeReimbursementPaymentTransactionId)
    (bindA (getTreasuryWalletId (recorder svc)) (\<lambda>w.
      sendCashWalletMigrationFeeReimbursementPayment store (recorder svc) b n w m))"
  unfolding recorder_fields
  by (rule traces_note) (simp_all add: fee_payment_traces [OF assms], simp add: pays_once_def)

lemma invoice_quiet:
  "traces m no_payment (createCashWalletMigrationBalanceMoveInvoice store (recorder svc) m)"
  "traces m no_payment (createCashWalletMigrationFeeReimbursementInvoice store (recorder svc) m fee)"
  by (rule traces_mono [OF invoice_traces(1)], simp add: new_invoice_def)
    (rule traces_mono [OF invoice_traces(2)], simp add: new_invoice_def)

lemma reading_quiet:
  "traces m no_payment (bindA (readSourceBalanceUsdCents (recorder svc) m') (\<lambda>x.
     bindA (readDestinationBalanceUsdtMicros (recorder svc) m'') (\<lambda>y. recordCashWalletMigrationBalance store m x y)))"
  "traces m no_payment (bindA (readFeeAmountUsdtMicros (recorder svc) m') (\<lambda>f.
     bindA (liftA (isSubMinimumFeeReimbursementAmount f)) (\<lambda>sub.
     if sub then skipCashWalletMigrationFeeReimbursement store m f
     else createCashWalletMigrationFeeReimbursementInvoice store (recorder svc) m f)))"
  unfolding recorder_fields
  by (intro traces_note traces_quiet traces_lift traces_if;
      simp add: quiet_steps invoice_quiet)+

lemma clock_quiet:
  "traces m no_payment (\<lambda>s. startCashWalletMigration store m (g s) s)"
  "traces m no_payment (\<lambda>s. completeCashWalletMigration store m (g s) s)"
  using quiet_steps(1,10) [of m] unfolding traces_def by blast+

text \<open>What each status lets a step pay.\<close>

definition step_pays :: "migration \<Rightarrow> migration result \<Rightarrow> service_event list \<Rightarrow> bool" where
  "step_pays m r es =
     (case mg_status m of
        Invoice_created \<Rightarrow> pays_once (balance_call m) mg_balanceMoveInvoicePaymentRequest
          mg_balanceMovePaymentTransactionId r es
      | Fee_reimbursement_invoice_created \<Rightarrow> pays_once (fee_call m) mg_feeReimbursementInvoicePaymentRequest
          mg_feeReimbursementPaymentTransactionId r es
      | _ \<Rightarrow> asked es = [])"

lemma step_traces:
  "traces m (step_pays m)
     (executeCashWalletMigrationStep (createCashWalletMigrationStepHandlers store (recorder svc)) m)"
  unfolding step_pays_def executeCashWalletMigrationStep_def
  by (cases "mg_status m")
    (simp_all add: terminalStatuses_def quiet_steps clock_quiet reading_quiet invoice_quiet
      fee_handler_traces balance_payment_traces traces_ret)

text \<open>
  C2: the payments a step of the pipeline asks for, whatever the services answer: none outside the two
  paying statuses. In \<open>invoice_created\<close> at most one, of the recorded source balance, from the legacy
  wallet, of the recorded invoice of the balance move or, if the step replaced a stale one, of the new
  invoice without an amount on the destination wallet. In \<open>fee_reimbursement_invoice_created\<close> at most
  one, from the treasury wallet read in the step, of the invoice of the fee reimbursement, recorded or
  replaced likewise, with the recorded fee as its amount exactly when the invoice has none. If the
  step succeeds it asked for exactly one payment, and the migration records the transaction the payment
  was answered with and the invoice it paid.
\<close>

theorem pipeline_step_payments:
  assumes "docs_ok s" "find_doc s (mg_id m) = Some m"
    and "executeCashWalletMigrationStep
      (createCashWalletMigrationStepHandlers store (recorder svc)) m s = (r, t)"
  shows "\<exists>es. events t = events s @ es \<and> step_pays m r es"
  using step_traces [of m svc] assms unfolding traces_def by blast

text \<open>The states of the witnesses: one migration in the collection, nothing paid yet.\<close>

definition ex_unpaid :: "migration \<Rightarrow> (unit \<times> service_event list) mongo_scheme" where
  "ex_unpaid m = \<lparr>config_doc = None, migration_docs = [m], now_ms = 7, upcoming = [], uuids = 1, \<dots> = ((), [])\<rparr>"

definition ex_invoiced :: migration where
  "ex_invoiced = ex_migration\<lparr>mg_status := Invoice_created, mg_sourceBalanceUsdCents := Some ''12'',
     mg_destinationAmountUsdtMicros := Some ''120000'', mg_balanceMoveInvoicePaymentRequest := Some ''ln''\<rparr>"

definition ex_rolling :: migration where
  "ex_rolling = ex_invoiced\<lparr>mg_status := Rollback_started, mg_balanceMovePaymentTransactionId := Some ''tx'',
     mg_sourceBalanceUsdCents := Some ''20''\<rparr>"

lemma ex_unpaid_doc:
  assumes "mg_id m = randomUUID 0"
  shows "docs_ok (ex_unpaid m)" "find_doc (ex_unpaid m) (mg_id m) = Some m"
  using assms by (simp_all add: ex_unpaid_def docs_ok_def find_doc_def)

lemma ex_ids: "mg_id ex_invoiced = randomUUID 0" "mg_id ex_rolling = randomUUID 0"
  by (simp_all add: ex_invoiced_def ex_rolling_def ex_migration_def new_migration_def)

theorem pipeline_step_payments_witness:
  "\<exists>x t p tx. executeCashWalletMigrationStep
      (createCashWalletMigrationStepHandlers store (recorder ex_svc)) ex_invoiced (ex_unpaid ex_invoiced) = (Inr x, t)
    \<and> asked (events t) = [(p, Inr tx)] \<and> pc_senderWalletId p = ''usd'' \<and> pc_senderAmountUsdCents p = Some ''12''
    \<and> invoiced (Some ''ln'') ''usdt'' None (events t) (Some (pc_paymentRequest p))
    \<and> mg_balanceMovePaymentTransactionId x = Some tx
    \<and> mg_balanceMoveInvoicePaymentRequest x = Some (pc_paymentRequest p)"
proof -
  let ?run = "executeCashWalletMigrationStep
      (createCashWalletMigrationStepHandlers store (recorder ex_svc)) ex_invoiced (ex_unpaid ex_invoiced)"
  have "\<not> isl (fst ?run)" by code_simp
  then obtain x t where run: "?run = (Inr x, t)" by (cases ?run) (auto simp: not_isl_Inr)
  from pipeline_step_payments [OF ex_unpaid_doc [OF ex_ids(1)] run] run show ?thesis
    by (auto simp: step_pays_def pays_once_def balance_call_def ex_unpaid_def ex_invoiced_def ex_migration_def
        new_migration_def ex_args_def)
qed

section \<open>The payments of a rollback step\<close>

text \<open>
  The reverse payment: from the wallet the balance was moved to, of an invoice on the legacy wallet, of
  the spendable balance read in the step but at most the amount moved, which is at least the smallest
  payable amount and short of the amount moved by no more than the tolerance. The top-up: from the
  treasury wallet read in the step, of an invoice on the legacy wallet, of the shortfall of the balance
  the legacy wallet was read to hold after the reverse payment against the recorded source balance, when
  it is beyond the tolerance.
\<close>

definition reverse_call :: "migration \<Rightarrow> service_event list \<Rightarrow> payment_call \<Rightarrow> bool" where
  "reverse_call m es p \<longleftrightarrow> pc_senderWalletId p = mg_destinationUsdtWalletId m \<and> pc_senderAmountUsdCents p = None
     \<and> mg_balanceMovePaymentTransactionId m \<noteq> None \<and> mg_rollbackPaymentTransactionId m = None
     \<and> invoiced (mg_rollbackInvoicePaymentRequest m) (mg_legacyUsdWalletId m) None es (Some (pc_paymentRequest p))
     \<and> (\<exists>moved target held spendable. mg_destinationAmountUsdtMicros m = Some moved \<and> BigInt_string moved = Inr target
         \<and> Spendable_is (mg_destinationUsdtWalletId m) held \<in> set es \<and> BigInt_string held = Inr spendable
         \<and> pc_senderAmountUsdtMicros p = Some (show_int (min spendable target))
         \<and> CUTOVER_MIN_PAYABLE_USDT_MICROS \<le> min spendable target
         \<and> target - min spendable target \<le> ROLLBACK_SHORTFALL_TOLERANCE_USDT_MICROS)"

definition short_by :: "migration \<Rightarrow> service_event list \<Rightarrow> string \<Rightarrow> int \<Rightarrow> bool" where
  "short_by m es shortfall micros \<longleftrightarrow> (\<exists>source current. mg_sourceBalanceUsdCents m = Some source
     \<and> Legacy_holds (mg_legacyUsdWalletId m) current \<in> set es
     \<and> legacyShortfallUsdtMicros source current = Inr shortfall \<and> BigInt_string shortfall = Inr micros)"

definition top_up_call :: "migration \<Rightarrow> service_event list \<Rightarrow> payment_call \<Rightarrow> bool" where
  "top_up_call m es p \<longleftrightarrow> Treasury_is (pc_senderWalletId p) \<in> set es \<and> pc_senderAmountUsdCents p = None
     \<and> mg_balanceMovePaymentTransactionId m \<noteq> None \<and> mg_rollbackShortfallPaymentTransactionId m = None
     \<and> invoiced (mg_rollbackShortfallInvoicePaymentRequest m) (mg_legacyUsdWalletId m) None es
         (Some (pc_paymentRequest p))
     \<and> (\<exists>shortfall micros. short_by m es shortfall micros \<and> pc_senderAmountUsdtMicros p = Some shortfall
         \<and> micros > ROLLBACK_SHORTFALL_TOLERANCE_USDT_MICROS)"

text \<open>At most one payment, a good one; if the step succeeds its answer is recorded.\<close>

definition pays_at_most_once ::
  "(service_event list \<Rightarrow> payment_call \<Rightarrow> bool) \<Rightarrow> (migration \<Rightarrow> string option)
   \<Rightarrow> migration result \<Rightarrow> service_event list \<Rightarrow> bool"
where
  "pays_at_most_once P recorded_in r es \<longleftrightarrow>
     asked es = [] \<or> (\<exists>p a. asked es = [(p, a)] \<and> P es p
       \<and> (\<forall>x. r = Inr x \<longrightarrow> (\<exists>tx. a = Inr tx \<and> recorded_in x = Some tx)))"

text \<open>A step that succeeds either topped up, or found the user whole and finished the rollback.\<close>

definition top_up_or_finish :: "migration \<Rightarrow> migration result \<Rightarrow> service_event list \<Rightarrow> bool" where
  "top_up_or_finish m r es \<longleftrightarrow>
     pays_at_most_once (top_up_call m) mg_rollbackShortfallPaymentTransactionId r es
     \<and> (\<forall>x. r = Inr x \<longrightarrow> (if asked es = []
          then mg_status x = Rolled_back \<and> (mg_balanceMovePaymentTransactionId m \<noteq> None \<longrightarrow>
            (\<exists>shortfall micros. short_by m es shortfall micros \<and> micros \<le> ROLLBACK_SHORTFALL_TOLERANCE_USDT_MICROS))
          else mg_status x = Rollback_started))"

definition rollback_pays :: "migration \<Rightarrow> migration result \<Rightarrow> service_event list \<Rightarrow> bool" where
  "rollback_pays m r es \<longleftrightarrow> (\<exists>back top. es = back @ top
     \<and> (es \<noteq> [] \<longrightarrow> mg_status m = Rollback_started)
     \<and> pays_at_most_once (reverse_call m) mg_rollbackPaymentTransactionId r back
     \<and> top_up_or_finish m r top)"

definition same_money :: "migration \<Rightarrow> migration \<Rightarrow> bool" where
  "same_money m x \<longleftrightarrow> mg_destinationUsdtWalletId x = mg_destinationUsdtWalletId m
     \<and> mg_legacyUsdWalletId x = mg_legacyUsdWalletId m
     \<and> mg_balanceMovePaymentTransactionId x = mg_balanceMovePaymentTransactionId m
     \<and> mg_destinationAmountUsdtMicros x = mg_destinationAmountUsdtMicros m
     \<and> mg_sourceBalanceUsdCents x = mg_sourceBalanceUsdCents m
     \<and> mg_rollbackShortfallInvoicePaymentRequest x = mg_rollbackShortfallInvoicePaymentRequest m
     \<and> mg_rollbackShortfallPaymentTransactionId x = mg_rollbackShortfallPaymentTransactionId m"

definition same_reverse :: "migration \<Rightarrow> migration \<Rightarrow> bool" where
  "same_reverse m x \<longleftrightarrow> same_money m x \<and> mg_rollbackInvoicePaymentRequest x = mg_rollbackInvoicePaymentRequest m
     \<and> mg_rollbackPaymentTransactionId x = mg_rollbackPaymentTransactionId m"

abbreviation keeps_reverse :: "migration \<Rightarrow> migration result \<Rightarrow> bool" where
  "keeps_reverse m r \<equiv> \<forall>x. r = Inr x \<longrightarrow> mg_rollbackPaymentTransactionId x = mg_rollbackPaymentTransactionId m"

lemma keeps_key_rollback [simp]:
  "keeps_key (mg_rollbackPointerRestoredAt_update f)" "keeps_key (mg_rolledBackAt_update f)"
  "keeps_key (mg_rollbackPaymentTransactionId_update g)"
  "keeps_key (mg_rollbackShortfallPaymentTransactionId_update g)"
  "keeps_key (\<lambda>d. d\<lparr>mg_rollbackInvoicePaymentRequest := a, mg_rollbackInvoicePaymentHash := b\<rparr>)"
  "keeps_key (\<lambda>d. d\<lparr>mg_rollbackShortfallUsdtMicros := c, mg_rollbackShortfallInvoicePaymentRequest := a,
     mg_rollbackShortfallInvoicePaymentHash := b\<rparr>)"
  by (simp_all add: keeps_key_def mg_key_def)

lemma traces_rollback:
  assumes "keeps_key patch" "\<And>e. L (Inl e) []" "\<And>n. L (Inr (enters to n (patch m))) []"
  shows "traces m L (db_transitionMigration (rollback_args m to patch))"
  by (rule traces_transition) (use assms in simp_all)

lemma traces_clock:
  assumes "\<And>n. traces m L (f n)"
  shows "traces m L (\<lambda>s. f (g s) s)"
  using assms unfolding traces_def by blast

abbreviation silent :: "(migration \<Rightarrow> bool) \<Rightarrow> migration result \<Rightarrow> service_event list \<Rightarrow> bool" where
  "silent P r es \<equiv> es = [] \<and> (\<forall>x. r = Inr x \<longrightarrow> P x)"

lemma traces_call:
  fixes act :: "(('w \<times> service_event list) mongo_scheme, 'a) act"
  assumes "leaves_docs docs_ok find_doc act" "traces m (\<lambda>r es. es = []) act" "\<And>e. L (Inl e) []" "\<And>x. traces m L (k x)"
  shows "traces m L (bindA act k)"
proof (rule tracesI)
  fix s t :: "('w \<times> service_event list) mongo_scheme" and r
  assume s: "docs_ok s" "find_doc s (mg_id m) = Some m" and run: "bindA act k s = (r, t)"
  obtain x u where x: "act s = (x, u)" by (cases "act s")
  have u: "docs_ok u" "find_doc u = find_doc s" "events u = events s"
    using assms(1,2) s x unfolding leaves_docs_def traces_def by auto
  show "\<exists>es. events t = events s @ es \<and> L r es"
  proof (cases x)
    case (Inl e)
    with run x u assms(3) show ?thesis by (auto simp: bindA_def)
  next
    case (Inr y)
    then have "k y u = (r, t)" using run x by (simp add: bindA_def)
    moreover have "find_doc u (mg_id m) = Some m" using s u by simp
    ultimately show ?thesis using assms(4) [of y] u unfolding traces_def by metis
  qed
qed

lemma restore_pointer_traces:
  "traces m (silent (same_reverse m)) (restore_pointer store (recorder svc) m)"
proof -
  have written: "traces m (silent (same_reverse m))
      (\<lambda>s. db_transitionMigration (rollback_args m Rollback_started
        (\<lambda>d. d\<lparr>mg_rollbackPointerRestoredAt := Some (sv_now (recorder svc) s)\<rparr>)) s)"
    by (rule traces_clock [where f = "\<lambda>n. db_transitionMigration (rollback_args m Rollback_started
          (\<lambda>d. d\<lparr>mg_rollbackPointerRestoredAt := Some n\<rparr>))"], rule traces_rollback)
      (simp_all add: same_reverse_def same_money_def)
  show ?thesis
    unfolding restore_pointer_def patchRollbackProgress_def recorder_fields repo_fields
    by (intro traces_if traces_ret traces_call leaves_docs_option leaves_docs_bind leaves_docs_if
        leaves_docs_ret in_world_leaves_docs traces_quiet traces_option written)
      (auto simp: same_reverse_def same_money_def)
qed

text \<open>The invoice of a rollback is the recorded one or a new one on the legacy wallet.\<close>

definition rollback_invoiced ::
  "migration \<Rightarrow> (migration \<Rightarrow> string option) \<Rightarrow> (migration \<Rightarrow> bool) \<Rightarrow> migration result \<Rightarrow> service_event list \<Rightarrow> bool"
where
  "rollback_invoiced m request P r es \<longleftrightarrow> asked es = []
     \<and> (\<forall>x. r = Inr x \<longrightarrow> P x \<and> invoiced (request m) (mg_legacyUsdWalletId m) None es (request x))"

lemma rollback_invoice_traces:
  assumes "\<And>invoice. keeps_key (patch invoice)" "\<And>invoice n. P (enters Rollback_started n (patch invoice m))" "P m"
    "\<And>invoice n. request (enters Rollback_started n (patch invoice m)) = Some (ci_paymentRequest invoice)"
  shows "traces m (rollback_invoiced m request P) (rollback_invoice store (recorder svc) request memo patch m)"
  unfolding rollback_invoice_def patchRollbackProgress_def recorder_fields repo_fields
  by (intro traces_state_if traces_note traces_rollback traces_ret)
    (use assms in \<open>auto simp: rollback_invoiced_def invoiced_def\<close>)

lemma invoiced_more [simp]:
  "made es = [] \<Longrightarrow> invoiced recorded_request w amt (es @ fs) request = invoiced recorded_request w amt fs request"
  "made fs = [] \<Longrightarrow> invoiced recorded_request w amt (es @ fs) request = invoiced recorded_request w amt es request"
  "made [e] = [] \<Longrightarrow> invoiced recorded_request w amt (e # es) request = invoiced recorded_request w amt es request"
  using made_append [of "[e]" es] by (auto simp: invoiced_def)

lemma reverse_callI:
  assumes "same_money m d" "mg_balanceMovePaymentTransactionId m \<noteq> None" "mg_rollbackPaymentTransactionId m = None"
    "mg_destinationAmountUsdtMicros m = Some moved" "BigInt_string moved = Inr target"
    "BigInt_string held = Inr spendable" "amount = (if spendable < target then spendable else target)"
    "\<not> ROLLBACK_SHORTFALL_TOLERANCE_USDT_MICROS < target - amount" "\<not> amount < CUTOVER_MIN_PAYABLE_USDT_MICROS"
    "invoiced (mg_rollbackInvoicePaymentRequest m) (mg_legacyUsdWalletId m) None es (Some request)"
  shows "reverse_call m (Spendable_is (mg_destinationUsdtWalletId m) held # es @ [Asked_payment p a])
    \<lparr>pc_senderWalletId = mg_destinationUsdtWalletId d, pc_paymentRequest = request,
     pc_senderAmountUsdCents = None, pc_senderAmountUsdtMicros = Some (show_int amount)\<rparr>"
proof -
  have "amount = min spendable target" using assms(7) by auto
  then show ?thesis using assms unfolding reverse_call_def by (auto simp: same_money_def intro!: exI [of _ held])
qed

lemma reverse_traces:
  assumes m: "restored m"
  shows "traces m (\<lambda>r es. pays_at_most_once (reverse_call m) mg_rollbackPaymentTransactionId r es
       \<and> (\<forall>x. r = Inr x \<longrightarrow> same_money m x))
     (reverse_balance_move store (recorder svc) m)"
proof -
  have invoice: "traces m (rollback_invoiced m mg_rollbackInvoicePaymentRequest (same_money m))
      (rollback_invoice store (recorder svc) mg_rollbackInvoicePaymentRequest '':move''
        (\<lambda>invoice d. d\<lparr>mg_rollbackInvoicePaymentRequest := Some (ci_paymentRequest invoice),
           mg_rollbackInvoicePaymentHash := Some (ci_paymentHash invoice)\<rparr>) m)"
    by (rule rollback_invoice_traces) (simp_all add: same_money_def)
  show ?thesis
    unfolding reverse_balance_move_def Let_def recorder_fields patchRollbackProgress_def repo_fields
    by (intro traces_if traces_option traces_fail traces_ret traces_lift traces_note traces_rollback
        traces_then [OF invoice cutover.reverse_invoice_steps [OF m]])
      (auto simp: pays_at_most_once_def rollback_invoiced_def reversed_def same_money_def [of m m]
        same_money_def [of m "enters _ _ _"] same_money_def [of m "_\<lparr>mg_rollbackPaymentTransactionId := _\<rparr>"]
        simp del: if_split intro!: reverse_callI, auto simp: same_money_def)
qed

lemma top_up_callI:
  assumes "mg_balanceMovePaymentTransactionId m \<noteq> None" "mg_rollbackShortfallPaymentTransactionId m = None"
    "short_by m fs shortfall micros" "micros > ROLLBACK_SHORTFALL_TOLERANCE_USDT_MICROS" "made fs = []"
    "invoiced (mg_rollbackShortfallInvoicePaymentRequest m) (mg_legacyUsdWalletId m) None es (Some request)"
  shows "top_up_call m (fs @ Treasury_is w # es @ [Asked_payment p a])
    \<lparr>pc_senderWalletId = w, pc_paymentRequest = request,
     pc_senderAmountUsdCents = None, pc_senderAmountUsdtMicros = Some shortfall\<rparr>"
proof -
  have "short_by m (fs @ Treasury_is w # es @ [Asked_payment p a]) shortfall micros"
    using assms(3) by (auto simp: short_by_def)
  then show ?thesis using assms by (auto simp: top_up_call_def)
qed

lemma top_up_traces:
  assumes m: "restored m" "reversed m" "mg_balanceMovePaymentTransactionId m \<noteq> None"
    and short: "short_by m fs shortfall micros" "micros > ROLLBACK_SHORTFALL_TOLERANCE_USDT_MICROS"
    and fs: "made fs = []" "asked fs = []"
  shows "traces m (\<lambda>r es. top_up_or_finish m r (fs @ es) \<and> keeps_reverse m r)
    (top_up_shortfall store (recorder svc) shortfall m)"
proof (cases "mg_rollbackShortfallPaymentTransactionId m")
  case None
  then have open_tx: "topping_up m"
    using m by (simp add: topping_up_def)
  let ?P = "\<lambda>x. mg_rollbackPaymentTransactionId x = mg_rollbackPaymentTransactionId m"
  have invoice: "traces m (rollback_invoiced m mg_rollbackShortfallInvoicePaymentRequest ?P)
      (rollback_invoice store (recorder svc) mg_rollbackShortfallInvoicePaymentRequest '':shortfall''
        (\<lambda>invoice d. d\<lparr>mg_rollbackShortfallUsdtMicros := Some shortfall,
           mg_rollbackShortfallInvoicePaymentRequest := Some (ci_paymentRequest invoice),
           mg_rollbackShortfallInvoicePaymentHash := Some (ci_paymentHash invoice)\<rparr>) m)"
    by (rule rollback_invoice_traces) simp_all
  show ?thesis
    unfolding top_up_shortfall_def recorder_fields patchRollbackProgress_def repo_fields
    by (intro traces_if traces_option traces_fail traces_note traces_rollback
        traces_then [OF invoice cutover.top_up_invoice_steps [OF open_tx]])
      (use m None fs in \<open>auto simp: top_up_or_finish_def pays_at_most_once_def rollback_invoiced_def
        intro!: top_up_callI [OF m(3) None short fs(1)]\<close>)
qed (simp add: top_up_shortfall_def traces_fail top_up_or_finish_def pays_at_most_once_def fs)

lemma top_up_or_finish_fail [simp]: "asked es = [] \<Longrightarrow> top_up_or_finish m (Inl e) es"
  by (simp add: top_up_or_finish_def pays_at_most_once_def)

lemma rollback_pays_fail [simp]: "rollback_pays m (Inl e) []"
  by (simp add: rollback_pays_def pays_at_most_once_def)

lemma finish_traces:
  "traces m (silent (\<lambda>x. mg_status x = Rolled_back
       \<and> mg_rollbackPaymentTransactionId x = mg_rollbackPaymentTransactionId m))
     (finish_rollback store (recorder svc) m)"
  unfolding finish_rollback_def repo_fields
  by (rule traces_clock [where f = "\<lambda>n. db_transitionMigration (rollback_args m Rolled_back
        (\<lambda>d. d\<lparr>mg_rolledBackAt := Some n\<rparr>))"], rule traces_rollback) simp_all

lemma verify_traces:
  assumes "restored m" "reversed m"
  shows "traces m (\<lambda>r es. top_up_or_finish m r es \<and> keeps_reverse m r)
    (verify_whole store (recorder svc) (mg_balanceMovePaymentTransactionId m \<noteq> None) m)"
proof (cases "mg_balanceMovePaymentTransactionId m = None")
  case True
  then show ?thesis unfolding verify_whole_def
    by (simp, intro traces_mono [OF finish_traces])
      (auto simp: top_up_or_finish_def pays_at_most_once_def)
next
  case moved: False
  have read: "short_by m [Legacy_holds (mg_legacyUsdWalletId m) current] shortfall micros"
    if "mg_sourceBalanceUsdCents m = Some source" "legacyShortfallUsdtMicros source current = Inr shortfall"
      "BigInt_string shortfall = Inr micros" for source current shortfall micros
    using that by (simp add: short_by_def)
  have finished: "top_up_or_finish m r [Legacy_holds (mg_legacyUsdWalletId m) current]"
    if "mg_sourceBalanceUsdCents m = Some source" "legacyShortfallUsdtMicros source current = Inr shortfall"
      "BigInt_string shortfall = Inr micros" "\<not> ROLLBACK_SHORTFALL_TOLERANCE_USDT_MICROS < micros"
      "\<forall>x. r = Inr x \<longrightarrow> mg_status x = Rolled_back
         \<and> mg_rollbackPaymentTransactionId x = mg_rollbackPaymentTransactionId m"
    for r source current shortfall micros
    using read [OF that(1-3)] that(4,5) by (auto simp: top_up_or_finish_def pays_at_most_once_def not_less)
  show ?thesis
    unfolding verify_whole_def recorder_fields on_success_simps append_Cons append_Nil
    by (intro traces_if traces_option traces_fail traces_lift traces_note)
      (use moved in \<open>auto intro!: traces_mono [OF finish_traces] finished
        top_up_traces [OF assms moved read, simplified]\<close>)
qed

lemma short_by_same: "same_money m x \<Longrightarrow> short_by x = short_by m"
  by (simp add: short_by_def same_money_def fun_eq_iff)

lemma top_up_or_finish_same:
  assumes "same_money m x"
  shows "top_up_or_finish x = top_up_or_finish m"
proof -
  note same = assms [unfolded same_money_def] short_by_same [OF assms]
  have "top_up_call x = top_up_call m"
    by (intro ext) (simp only: top_up_call_def same)
  then show ?thesis
    by (intro ext) (simp only: top_up_or_finish_def same)
qed

lemma reverse_call_same: "same_reverse m x \<Longrightarrow> reverse_call x = reverse_call m"
  by (simp add: reverse_call_def same_reverse_def same_money_def fun_eq_iff)

lemma same_money_trans: "same_money m x \<Longrightarrow> same_money x y \<Longrightarrow> same_money m y"
  by (simp add: same_money_def)

lemma moved_traces:
  assumes m: "restored m" and m0: "mg_status m0 = Rollback_started" "same_reverse m0 m"
  shows "traces m (rollback_pays m0)
    (bindA (reverse_balance_move store (recorder svc) m) (\<lambda>d.
      verify_whole store (recorder svc) (mg_balanceMovePaymentTransactionId m \<noteq> None) d))"
proof (rule traces_then [OF reverse_traces [OF m] cutover.reverse_balance_move_steps [OF m]])
  show "rollback_pays m0 (Inl e) es"
    if "pays_at_most_once (reverse_call m) mg_rollbackPaymentTransactionId (Inl e) es
      \<and> (\<forall>x. (Inl e :: migration result) = Inr x \<longrightarrow> same_money m x)" for e es
    unfolding rollback_pays_def
    by (rule exI [of _ es], rule exI [of _ "[]"])
      (use that m0 in \<open>simp add: reverse_call_same [OF m0(2)]\<close>)
next
  fix d es
  assume sent: "pays_at_most_once (reverse_call m) mg_rollbackPaymentTransactionId (Inr d) es
      \<and> (\<forall>x. Inr d = Inr x \<longrightarrow> same_money m x)"
    and d: "rolling m d \<and> reversed d"
  then have same: "same_money m0 d" and tx: "mg_balanceMovePaymentTransactionId d = mg_balanceMovePaymentTransactionId m"
    using m0 by (auto intro: same_money_trans simp: rolling_def same_reverse_def)
  have "traces d (\<lambda>r top. top_up_or_finish d r top \<and> keeps_reverse d r)
      (verify_whole store (recorder svc) (mg_balanceMovePaymentTransactionId m \<noteq> None) d)"
    unfolding tx [symmetric] by (rule verify_traces) (use d in \<open>simp_all add: rolling_def\<close>)
  then show "traces d (\<lambda>r top. rollback_pays m0 r (es @ top))
      (verify_whole store (recorder svc) (mg_balanceMovePaymentTransactionId m \<noteq> None) d)"
  proof (rule traces_mono)
    fix r top
    assume top: "top_up_or_finish d r top \<and> keeps_reverse d r"
    have "pays_at_most_once (reverse_call m0) mg_rollbackPaymentTransactionId r es"
      using sent top by (auto simp: pays_at_most_once_def reverse_call_same [OF m0(2)])
    then show "rollback_pays m0 r (es @ top)"
      unfolding rollback_pays_def
      by (intro exI [of _ es] exI [of _ top]) (use top m0(1) in \<open>simp add: top_up_or_finish_same [OF same]\<close>)
  qed
qed

text \<open>
  C3: what a step of a rollback pays, whatever the services answer. It asks for at most one reverse
  payment, only after a recorded forward payment and only while no reverse payment is recorded, of the
  smaller of the amount moved and the spendable balance read in this step, which is payable and within
  the tolerance of the amount moved. Then it asks for at most one top-up, only while none is recorded,
  of the shortfall of the legacy balance read after the reverse payment, if it is beyond the tolerance.
  Each payment is from the right wallet and of the recorded invoice or of one made in this step on the
  legacy wallet. If the step succeeds, the answers of its payments are recorded, and it finished the
  rollback exactly when it did not top up; it then found the legacy wallet short by no more than the
  tolerance, provided a forward payment is recorded. A step that fails after a payment succeeded may
  leave that payment unrecorded.
\<close>

theorem rollback_step_payments:
  assumes "docs_ok s" "find_doc s (mg_id m) = Some m"
    and "executeCashWalletMigrationRollbackStep store (recorder svc) m s = (r, t)"
  shows "\<exists>es. events t = events s @ es \<and> rollback_pays m r es"
proof -
  have "traces m (rollback_pays m) (executeCashWalletMigrationRollbackStep store (recorder svc) m)"
    unfolding executeCashWalletMigrationRollbackStep_def Let_def
    by (intro traces_if traces_fail traces_then [OF restore_pointer_traces cutover.restore_pointer_steps])
      (simp_all add: moved_traces del: not_None_eq)
  then show ?thesis using assms unfolding traces_def by blast
qed

theorem rollback_step_payments_witness:
  "\<exists>x t es. executeCashWalletMigrationRollbackStep store (recorder ex_svc) ex_rolling (ex_unpaid ex_rolling) = (Inr x, t)
    \<and> events t = es \<and> length (asked es) = 2 \<and> rollback_pays ex_rolling (Inr x) es"
proof -
  let ?run = "executeCashWalletMigrationRollbackStep store (recorder ex_svc) ex_rolling (ex_unpaid ex_rolling)"
  have "\<not> isl (fst ?run)" "length (asked (events (snd ?run))) = 2" by code_simp+
  then obtain x t where run: "?run = (Inr x, t)" "length (asked (events t)) = 2"
    by (cases ?run) (metis fst_conv not_isl_Inr snd_conv)
  have "events (ex_unpaid ex_rolling) = []" by (simp add: ex_unpaid_def)
  moreover obtain es where "events t = events (ex_unpaid ex_rolling) @ es" "rollback_pays ex_rolling (Inr x) es"
    using rollback_step_payments [OF ex_unpaid_doc [OF ex_ids(2)] run(1)] by blast
  ultimately show ?thesis using run by simp
qed

end
