(* ===== verification/CutoverRuntime.thy ===== *)
theory CutoverRuntime
  imports CutoverPayments CutoverPrepare
begin

text \<open>
  The services the cutover runs with (\<open>src/app/cash-wallet-cutover/runtime-services.ts\<close>): balances,
  invoices and payments at the custodian, retried on rate limits, the treasury wallet and the default
  wallet pointer. The custodian's client, the account and wallet repositories, the invoice decoder and
  the clock are parameters.
\<close>

section \<open>Reading a balance as dust\<close>

text \<open>
  The text of a number beyond \<open>10\<^sup>2\<^sup>1\<close> keeps its sign, and stripping zeros from its exponent keeps
  its magnitude above one.
\<close>

definition hasOnlySubMicroMajorUnitDust :: "balance_input option \<Rightarrow> bool" where
  "hasOnlySubMicroMajorUnitDust amt =
     (case amt of
        None \<Rightarrow> True
      | Some a \<Rightarrow>
          (case normalizeDecimalString a of
             Some text \<Rightarrow> num_less (Number_string text) (fl (1 / 1000000))
           | None \<Rightarrow> (case a of NumberBalance x \<Rightarrow> num_sign x = - 1 | StringBalance _ \<Rightarrow> False)))"

section \<open>Rate limits\<close>

definition CUTOVER_IBEX_INVOICE_EXPIRATION_SECONDS :: int where
  "CUTOVER_IBEX_INVOICE_EXPIRATION_SECONDS = 15 * 60"

definition CUTOVER_IBEX_RATE_LIMIT_RETRY_DELAY_MS :: int where
  "CUTOVER_IBEX_RATE_LIMIT_RETRY_DELAY_MS = 60000"

definition CUTOVER_IBEX_RATE_LIMIT_MAX_ATTEMPTS :: int where
  "CUTOVER_IBEX_RATE_LIMIT_MAX_ATTEMPTS = 5"

text \<open>
  The dependencies of the services. \<open>rd_has429\<close> says whether an error carries the status 429 as its
  \<open>httpCode\<close> or \<open>status\<close>.
\<close>

record 's runtime_deps =
  rd_now :: "'s \<Rightarrow> int"
  rd_addWalletIfNonexistent :: "string \<Rightarrow> wallet_type \<Rightarrow> wallet_currency \<Rightarrow> ('s, wallet) act"
  rd_updateDefaultWalletId :: "string \<Rightarrow> string \<Rightarrow> ('s, account) act"
  rd_getRawAccountDetails :: "string \<Rightarrow> ('s, balance_input option) act"
  rd_createInvoice :: "string \<Rightarrow> money_amount \<Rightarrow> string \<Rightarrow> int \<Rightarrow> ('s, string option) act"
  rd_createNoAmountInvoice :: "string \<Rightarrow> money_amount \<Rightarrow> string \<Rightarrow> int \<Rightarrow> ('s, string option) act"
  rd_payInvoice :: "string \<Rightarrow> string \<Rightarrow> money_amount option \<Rightarrow> ('s, string option) act"
  rd_findAccountById :: "string \<Rightarrow> ('s, account) act"
  rd_findWalletById :: "string \<Rightarrow> ('s, wallet) act"
  rd_listWalletsByAccountId :: "string \<Rightarrow> ('s, wallet list) act"
  rd_getFunderWalletId :: "('s, string) act"
  rd_getTreasuryWalletId :: "('s, string) act option"
  rd_maxRateLimitAttempts :: "int option"
  rd_rateLimitRetryDelayMs :: "int option"
  rd_sleep :: "int \<Rightarrow> 's \<Rightarrow> 's"
  rd_decodeInvoice :: "string \<Rightarrow> created_invoice result"
  rd_decodedExpiresAt :: "string \<Rightarrow> int option"
  rd_has429 :: "error \<Rightarrow> bool"
  rd_texts :: error_texts

definition isIbexRateLimitError :: "'s runtime_deps \<Rightarrow> error \<Rightarrow> bool" where
  "isIbexRateLimitError deps e \<longleftrightarrow> rd_has429 deps e
     \<or> js_includes (toLowerCase (errorMessage (rd_texts deps) e)) ''too many requests''"

text \<open>The loop, with the number of attempts left. Errors returned and thrown are retried alike.\<close>

primrec retry_attempts ::
  "(error \<Rightarrow> bool) \<Rightarrow> ('s \<Rightarrow> 's) \<Rightarrow> ('s, 'a) act \<Rightarrow> nat \<Rightarrow> ('s, 'a) act"
where
  "retry_attempts limited pause operation 0 = operation"
| "retry_attempts limited pause operation (Suc n) = (\<lambda>s.
     case operation s of
       (Inr x, s') \<Rightarrow> (Inr x, s')
     | (Inl e, s') \<Rightarrow> if \<not> limited e then (Inl e, s')
                     else retry_attempts limited pause operation n (pause s'))"

definition withIbexRateLimitRetry :: "'s runtime_deps \<Rightarrow> ('s, 'a) act \<Rightarrow> ('s, 'a) act" where
  "withIbexRateLimitRetry deps operation =
     (let maxAttempts = max 1 (case rd_maxRateLimitAttempts deps of
            None \<Rightarrow> CUTOVER_IBEX_RATE_LIMIT_MAX_ATTEMPTS | Some n \<Rightarrow> n);
          retryDelayMs = (case rd_rateLimitRetryDelayMs deps of
            None \<Rightarrow> CUTOVER_IBEX_RATE_LIMIT_RETRY_DELAY_MS | Some n \<Rightarrow> n)
      in retry_attempts (isIbexRateLimitError deps) (rd_sleep deps retryDelayMs) operation (nat (maxAttempts - 1)))"

section \<open>The services\<close>

definition ibexInvoiceToDomainInvoice :: "'s runtime_deps \<Rightarrow> string option \<Rightarrow> created_invoice result" where
  "ibexInvoiceToDomainInvoice deps bolt11 =
     (if \<not> truthy bolt11 then Inl UnexpectedIbexResponse else rd_decodeInvoice deps (the bolt11))"

definition readRawAccountDetails :: "'s runtime_deps \<Rightarrow> string \<Rightarrow> ('s, balance_input option) act" where
  "readRawAccountDetails deps accountId = withIbexRateLimitRetry deps (rd_getRawAccountDetails deps accountId)"

definition balance_or_zero :: "balance_input option \<Rightarrow> balance_input" where
  "balance_or_zero b = (case b of None \<Rightarrow> NumberBalance (Fin 0) | Some x \<Rightarrow> x)"

definition rs_createInvoice ::
  "'s runtime_deps \<Rightarrow> string \<Rightarrow> string \<Rightarrow> string \<Rightarrow> ('s, created_invoice) act"
where
  "rs_createInvoice deps recipientWalletId amt memo =
     bindA (liftA (smallestUnits (InString amt))) (\<lambda>usdtAmount.
     bindA (withIbexRateLimitRetry deps
              (rd_createInvoice deps recipientWalletId usdtAmount memo CUTOVER_IBEX_INVOICE_EXPIRATION_SECONDS))
       (\<lambda>response. liftA (ibexInvoiceToDomainInvoice deps response)))"

definition rs_createNoAmountInvoice ::
  "'s runtime_deps \<Rightarrow> string \<Rightarrow> string \<Rightarrow> ('s, created_invoice) act"
where
  "rs_createNoAmountInvoice deps recipientWalletId memo =
     bindA (liftA (MoneyAmount (InNumber (Fin 0)) Usdt)) (\<lambda>zero.
     bindA (withIbexRateLimitRetry deps
              (rd_createNoAmountInvoice deps recipientWalletId zero memo CUTOVER_IBEX_INVOICE_EXPIRATION_SECONDS))
       (\<lambda>response. liftA (ibexInvoiceToDomainInvoice deps response)))"

definition rs_payInvoice ::
  "'s runtime_deps \<Rightarrow> string \<Rightarrow> string \<Rightarrow> string option \<Rightarrow> string option \<Rightarrow> ('s, string) act"
where
  "rs_payInvoice deps senderWalletId paymentRequest senderAmountUsdCents senderAmountUsdtMicros =
     (if senderAmountUsdCents \<noteq> None \<and> senderAmountUsdtMicros \<noteq> None
      then failA InvalidCashWalletCutoverAmountError
      else
        bindA (liftA (case senderAmountUsdCents of
                 Some cents \<Rightarrow> map_sum id Some (USDAmount_cents (InString cents))
               | None \<Rightarrow> (case senderAmountUsdtMicros of
                   Some micros \<Rightarrow> map_sum id Some (smallestUnits (InString micros))
                 | None \<Rightarrow> Inr None))) (\<lambda>send.
        bindA (withIbexRateLimitRetry deps (rd_payInvoice deps senderWalletId paymentRequest send))
          (\<lambda>transactionId.
        if \<not> truthy transactionId then failA UnexpectedIbexResponse else retA (the transactionId))))"

definition rs_verify_zero :: "'s runtime_deps \<Rightarrow> string \<Rightarrow> ('s, unit) act" where
  "rs_verify_zero deps legacyUsdWalletId =
     bindA (readRawAccountDetails deps legacyUsdWalletId) (\<lambda>balance.
     if \<not> hasOnlySubMicroMajorUnitDust balance then failA CashWalletMigrationFailedError else retA ())"

definition rs_readFeeAmountUsdtMicros :: "'s runtime_deps \<Rightarrow> migration \<Rightarrow> ('s, string) act" where
  "rs_readFeeAmountUsdtMicros deps m =
     (if mg_balanceMovePaymentTransactionId m = None then failA InvalidCashWalletMigrationTransitionError
      else case mg_destinationAmountUsdtMicros m of
        None \<Rightarrow> failA InvalidCashWalletMigrationTransitionError
      | Some target \<Rightarrow> (case mg_destinationStartingBalanceUsdtMicros m of
          None \<Rightarrow> failA InvalidCashWalletMigrationTransitionError
        | Some starting \<Rightarrow>
            bindA (readRawAccountDetails deps (mg_destinationUsdtWalletId m)) (\<lambda>balance.
            bindA (liftA (ibexMajorUnitsToUsdtMicros (balance_or_zero balance))) (\<lambda>current.
            liftA (destinationShortfallUsdtMicros target starting current)))))"

text \<open>The treasury's wallet, remembered in the second part of the state once it is found.\<close>

definition find_treasury :: "'s runtime_deps \<Rightarrow> ('s, string) act" where
  "find_treasury deps =
     bindA (rd_getFunderWalletId deps) (\<lambda>funderDefaultWalletId.
     bindA (rd_findWalletById deps funderDefaultWalletId) (\<lambda>funderWallet.
     if wl_currency funderWallet = Usdt then retA (wl_id funderWallet)
     else
       bindA (rd_listWalletsByAccountId deps (wl_accountId funderWallet)) (\<lambda>funderWallets.
       case filter (\<lambda>w. wl_currency w = Usdt) funderWallets of
         [w] \<Rightarrow> retA (wl_id w)
       | _ \<Rightarrow> failA CashWalletMigrationFailedError)))"

definition rs_getTreasuryWalletId :: "'s runtime_deps \<Rightarrow> ('s \<times> string option, string) act" where
  "rs_getTreasuryWalletId deps =
     (case rd_getTreasuryWalletId deps of
        Some given \<Rightarrow> aside given
      | None \<Rightarrow> (\<lambda>(s, cached). case cached of
          Some walletId \<Rightarrow> (Inr walletId, (s, cached))
        | None \<Rightarrow> (case find_treasury deps s of
            (Inr walletId, s') \<Rightarrow> (Inr walletId, (s', Some walletId))
          | (Inl e, s') \<Rightarrow> (Inl e, (s', None)))))"

definition createCashWalletMigrationRuntimeServices ::
  "'s runtime_deps \<Rightarrow> ('s \<times> string option) cutover_services"
where
  "createCashWalletMigrationRuntimeServices deps =
     \<lparr>sv_now = (\<lambda>(s, _). rd_now deps s),
      decodedExpiresAt = rd_decodedExpiresAt deps,
      getDefaultWalletId = (\<lambda>accountId. aside (
        bindA (rd_findAccountById deps accountId) (\<lambda>account. retA (ac_defaultWalletId account)))),
      ensureDestinationWallet = (\<lambda>accountId destinationUsdtWalletId. aside (
        bindA (rd_addWalletIfNonexistent deps accountId Checking Usdt) (\<lambda>w.
        if wl_id w \<noteq> destinationUsdtWalletId then failA InvalidWalletId else retA ()))),
      readSourceBalanceUsdCents = (\<lambda>m. aside (
        bindA (readRawAccountDetails deps (mg_legacyUsdWalletId m)) (\<lambda>balance.
        liftA (ibexUsdDollarsToPreciseCents (balance_or_zero balance))))),
      readDestinationBalanceUsdtMicros = (\<lambda>m. aside (
        bindA (readRawAccountDetails deps (mg_destinationUsdtWalletId m)) (\<lambda>balance.
        liftA (ibexMajorUnitsToUsdtMicros (balance_or_zero balance))))),
      readDestinationSpendableUsdtMicros = (\<lambda>m. aside (
        bindA (readRawAccountDetails deps (mg_destinationUsdtWalletId m)) (\<lambda>balance.
        liftA (rs_decimalToScaledInteger (balance_or_zero balance) 6 False)))),
      createInvoice = (\<lambda>w amt memo. aside (rs_createInvoice deps w amt memo)),
      createNoAmountInvoice = (\<lambda>w memo. aside (rs_createNoAmountInvoice deps w memo)),
      payInvoice = (\<lambda>w request cents micros. aside (rs_payInvoice deps w request cents micros)),
      verifyBalanceMove = (\<lambda>legacyUsdWalletId _ _ _ _. aside (rs_verify_zero deps legacyUsdWalletId)),
      readFeeAmountUsdtMicros = (\<lambda>m. aside (rs_readFeeAmountUsdtMicros deps m)),
      getTreasuryWalletId = rs_getTreasuryWalletId deps,
      flipDefaultWallet = (\<lambda>accountId destinationWalletId. aside (
        bindA (rd_findAccountById deps accountId) (\<lambda>account.
        bindA (rd_updateDefaultWalletId deps accountId destinationWalletId) (\<lambda>_.
        retA (ac_defaultWalletId account))))),
      verifyLegacyWalletZero = (\<lambda>legacyUsdWalletId. aside (rs_verify_zero deps legacyUsdWalletId))\<rparr>"

section \<open>Retries\<close>

inductive attempts ::
  "(error \<Rightarrow> bool) \<Rightarrow> ('s \<Rightarrow> 's) \<Rightarrow> ('s, 'a) act \<Rightarrow> 's \<Rightarrow> nat \<Rightarrow> 'a result \<Rightarrow> 's \<Rightarrow> bool"
  for limited pause operation
where
  final: "operation s = (r, t) \<Longrightarrow> attempts limited pause operation s (Suc 0) r t"
| again: "operation s = (Inl e, u) \<Longrightarrow> limited e \<Longrightarrow> attempts limited pause operation (pause u) k r t \<Longrightarrow>
    attempts limited pause operation s (Suc k) r t"

lemma retry_attempts_trace:
  "retry_attempts limited pause operation n s = (r, t) \<Longrightarrow>
   \<exists>k. attempts limited pause operation s k r t \<and> 1 \<le> k \<and> k \<le> Suc n
     \<and> (k < Suc n \<longrightarrow> (\<forall>e. r = Inl e \<longrightarrow> \<not> limited e))"
proof (induction n arbitrary: s)
  case 0
  then show ?case by (auto intro!: exI [of _ 1] attempts.final)
next
  case (Suc n)
  obtain x u where x: "operation s = (x, u)" by (cases "operation s")
  show ?case
  proof (cases "\<exists>e. x = Inl e \<and> limited e")
    case True
    then obtain e where e: "x = Inl e" "limited e" by blast
    with Suc.prems x have "retry_attempts limited pause operation n (pause u) = (r, t)" by simp
    from Suc.IH [OF this] x e show ?thesis by (fastforce intro: attempts.again)
  next
    case False
    with Suc.prems x have "r = x" "t = u" by (cases x; auto)+
    with x False have "attempts limited pause operation s 1 r t \<and> 1 \<le> (1::nat) \<and> 1 \<le> Suc (Suc n)
      \<and> (1 < Suc (Suc n) \<longrightarrow> (\<forall>e. r = Inl e \<longrightarrow> \<not> limited e))" by (auto intro: attempts.final)
    then show ?thesis by blast
  qed
qed

definition max_attempts :: "'s runtime_deps \<Rightarrow> int" where
  "max_attempts deps = max 1 (case rd_maxRateLimitAttempts deps of
     None \<Rightarrow> CUTOVER_IBEX_RATE_LIMIT_MAX_ATTEMPTS | Some n \<Rightarrow> n)"

definition retry_delay :: "'s runtime_deps \<Rightarrow> int" where
  "retry_delay deps = (case rd_rateLimitRetryDelayMs deps of
     None \<Rightarrow> CUTOVER_IBEX_RATE_LIMIT_RETRY_DELAY_MS | Some n \<Rightarrow> n)"

text \<open>
  C26: a call of the custodian always ends: it is made at least once and at most as often as configured,
  five times by default, with a pause between two attempts; every attempt but the last failed on a rate
  limit, the result is that of the last one, and a rate limit is returned only after the last attempt
  allowed.
\<close>

theorem rate_limit_retries_bounded:
  "\<exists>k r t. withIbexRateLimitRetry deps operation s = (r, t)
    \<and> attempts (isIbexRateLimitError deps) (rd_sleep deps (retry_delay deps)) operation s k r t
    \<and> 1 \<le> int k \<and> int k \<le> max_attempts deps
    \<and> (\<forall>e. r = Inl e \<and> isIbexRateLimitError deps e \<longrightarrow> int k = max_attempts deps)"
proof -
  obtain r t where run: "withIbexRateLimitRetry deps operation s = (r, t)" by (cases "withIbexRateLimitRetry deps operation s")
  have "1 \<le> max_attempts deps" by (simp add: max_attempts_def)
  moreover have "retry_attempts (isIbexRateLimitError deps) (rd_sleep deps (retry_delay deps)) operation
      (nat (max_attempts deps - 1)) s = (r, t)"
    using run by (simp add: withIbexRateLimitRetry_def Let_def max_attempts_def retry_delay_def)
  from retry_attempts_trace [OF this] calculation run show ?thesis by (force simp: nat_less_iff)
qed

text \<open>In the witnesses the state counts the calls; the custodian limits the first two of them.\<close>

definition ex_deps :: "nat runtime_deps" where
  "ex_deps = \<lparr>rd_now = (\<lambda>_. 9),
     rd_addWalletIfNonexistent = (\<lambda>a ty c. retA \<lparr>wl_id = ''usdt'', wl_accountId = a, wl_type = ty, wl_currency = c\<rparr>),
     rd_updateDefaultWalletId = (\<lambda>a w. retA \<lparr>ac_id = a, ac_uuid = ''uuid'', ac_defaultWalletId = w\<rparr>),
     rd_getRawAccountDetails = (\<lambda>_ n. (if n < 2 then Inl IbexRateLimitError else Inr None, Suc n)),
     rd_createInvoice = (\<lambda>_ _ _ _. retA (Some ''ln'')), rd_createNoAmountInvoice = (\<lambda>_ _ _ _. retA (Some ''ln'')),
     rd_payInvoice = (\<lambda>_ _ _. retA (Some ''tx'')),
     rd_findAccountById = (\<lambda>a. retA \<lparr>ac_id = a, ac_uuid = ''uuid'', ac_defaultWalletId = ''usd''\<rparr>),
     rd_findWalletById = (\<lambda>w. retA \<lparr>wl_id = w, wl_accountId = ''funder'', wl_type = Checking, wl_currency = Btc\<rparr>),
     rd_listWalletsByAccountId = (\<lambda>a. retA [\<lparr>wl_id = ''btc'', wl_accountId = a, wl_type = Checking, wl_currency = Btc\<rparr>,
       \<lparr>wl_id = ''treasury'', wl_accountId = a, wl_type = Checking, wl_currency = Usdt\<rparr>]),
     rd_getFunderWalletId = retA ''btc'', rd_getTreasuryWalletId = None, rd_maxRateLimitAttempts = None,
     rd_rateLimitRetryDelayMs = None, rd_sleep = (\<lambda>_ n. n),
     rd_decodeInvoice = (\<lambda>i. Inr \<lparr>ci_paymentRequest = i, ci_paymentHash = ''h''\<rparr>), rd_decodedExpiresAt = (\<lambda>_. None),
     rd_has429 = (\<lambda>e. e = IbexRateLimitError),
     rd_texts = \<lparr>et_message = (\<lambda>_. ''m''), et_String = (\<lambda>_. ''Error'')\<rparr>\<rparr>"

theorem rate_limit_retries_bounded_witness:
  "withIbexRateLimitRetry ex_deps (rd_getRawAccountDetails ex_deps ''usd'') 0 = (Inr None, 3)
   \<and> (\<exists>k. attempts (isIbexRateLimitError ex_deps) (rd_sleep ex_deps (retry_delay ex_deps))
        (rd_getRawAccountDetails ex_deps ''usd'') 0 k (Inr None) 3 \<and> int k \<le> 5)"
proof -
  have run: "withIbexRateLimitRetry ex_deps (rd_getRawAccountDetails ex_deps ''usd'') 0 = (Inr None, 3)"
    by code_simp
  have "max_attempts ex_deps = 5"
    by (simp add: max_attempts_def ex_deps_def CUTOVER_IBEX_RATE_LIMIT_MAX_ATTEMPTS_def)
  with rate_limit_retries_bounded [of ex_deps "rd_getRawAccountDetails ex_deps ''usd''" 0] run show ?thesis by auto
qed

lemma only_wallet:
  "(case ws of [w] \<Rightarrow> retA (wl_id w) | _ \<Rightarrow> failA e) s = (Inr i, t) \<longleftrightarrow> (\<exists>x. ws = [x] \<and> wl_id x = i \<and> t = s)"
  by (auto simp: act_simps split: list.splits)

text \<open>
  unless it is configured, the treasury is the funder's default wallet if that is a USDT wallet, and
  otherwise the only USDT wallet of the funder's account; with none or more than one there is no
  treasury. Once found it is remembered, and later calls return it without another call.
\<close>

theorem treasury_is_the_usdt_wallet:
  assumes "rd_getTreasuryWalletId deps = None" "rs_getTreasuryWalletId deps (s, None) = (Inr w, (t, cached))"
  shows "cached = Some w \<and> rs_getTreasuryWalletId deps (u, cached) = (Inr w, (u, cached))
    \<and> (\<exists>funder s1 default s2. rd_getFunderWalletId deps s = (Inr funder, s1)
        \<and> rd_findWalletById deps funder s1 = (Inr default, s2)
        \<and> (if wl_currency default = Usdt then wl_id default = w
           else \<exists>wallets x. rd_listWalletsByAccountId deps (wl_accountId default) s2 = (Inr wallets, t)
             \<and> filter (\<lambda>x. wl_currency x = Usdt) wallets = [x] \<and> wl_id x = w))"
proof -
  have found: "find_treasury deps s = (Inr w, t)" "cached = Some w"
    using assms by (auto simp: rs_getTreasuryWalletId_def split: prod.splits sum.splits)
  then obtain funder s1 default s2 where calls: "rd_getFunderWalletId deps s = (Inr funder, s1)"
      "rd_findWalletById deps funder s1 = (Inr default, s2)"
    and rest: "(if wl_currency default = Usdt then retA (wl_id default)
      else bindA (rd_listWalletsByAccountId deps (wl_accountId default)) (\<lambda>funderWallets.
       case filter (\<lambda>w. wl_currency w = Usdt) funderWallets of
         [w] \<Rightarrow> retA (wl_id w)
       | _ \<Rightarrow> failA CashWalletMigrationFailedError)) s2 = (Inr w, t)"
    by (auto simp: find_treasury_def bindA_Inr)
  from rest have "if wl_currency default = Usdt then wl_id default = w
      else \<exists>wallets x. rd_listWalletsByAccountId deps (wl_accountId default) s2 = (Inr wallets, t)
        \<and> filter (\<lambda>x. wl_currency x = Usdt) wallets = [x] \<and> wl_id x = w"
    by (auto simp: bindA_Inr only_wallet act_simps split: if_splits)
  with found(2) calls assms(1) show ?thesis by (auto simp: rs_getTreasuryWalletId_def)
qed

theorem treasury_is_the_usdt_wallet_witness:
  "rs_getTreasuryWalletId ex_deps (0, None) = (Inr ''treasury'', (0, Some ''treasury''))
   \<and> rs_getTreasuryWalletId ex_deps (7, Some ''treasury'') = (Inr ''treasury'', (7, Some ''treasury''))"
proof -
  have run: "rs_getTreasuryWalletId ex_deps (0, None) = (Inr ''treasury'', (0, Some ''treasury''))"
    by (simp add: rs_getTreasuryWalletId_def find_treasury_def ex_deps_def act_simps)
  have "rd_getTreasuryWalletId ex_deps = None" by (simp add: ex_deps_def)
  note treasury_is_the_usdt_wallet [OF this run, of 7, THEN conjunct2, THEN conjunct1]
  with run show ?thesis by (rule conjI)
qed

section \<open>Dust\<close>

lemma Number_string_decimal:
  assumes "decimal_value s = Some v"
  shows "Number_string s = double v"
proof -
  obtain w f where m: "match_decimal s = Some (w, f)" and v: "v = dec_value w f"
    using assms by (auto simp: decimal_value_def)
  note d = match_decimal_Some [OF m]
  show ?thesis
  proof (cases "f = []")
    case True
    with d Number_string_digits [of w] show ?thesis by (simp add: v dec_value_def)
  next
    case False
    with d Number_string_point [of w f] show ?thesis
      by (simp add: v dec_value_def parse_nat_append add_divide_distrib)
  qed
qed

text \<open>
  A multiple of \<open>10\<^sup>-\<^sup>1\<^sup>2\<close> is below \<open>10\<^sup>-\<^sup>6\<close> exactly if it is after both are rounded to doubles: their
  distance is beyond the relative error.
\<close>

lemma micro_bounds: "0 < fl (1 / 1000000 :: rat)" "fl (1 / 1000000 :: rat) < 1"
    "\<bar>fl (1 / 1000000) - 1 / 1000000\<bar> \<le> 1 / 1000000 / (2 ^ 53 :: rat)"
proof -
  have "\<bar>fl (1 / 1000000) - 1 / 1000000\<bar> \<le> \<bar>1 / 1000000 :: rat\<bar> / 2 ^ 53"
    by (rule fl_error_rel) (simp add: power_int_minus field_simps)
  then show e: "\<bar>fl (1 / 1000000) - 1 / 1000000\<bar> \<le> 1 / 1000000 / (2 ^ 53 :: rat)" by simp
  show "0 < fl (1 / 1000000 :: rat)" "fl (1 / 1000000 :: rat) < 1" using e unfolding abs_le_iff by simp_all
qed

lemma pico_error:
  fixes n :: int
  assumes "0 < n"
  shows "\<bar>fl (of_int n / 10 ^ 12) - of_int n / 10 ^ 12\<bar> \<le> of_int n / 10 ^ 12 / (2 ^ 53 :: rat)"
proof -
  have "(1 / 10 ^ 12 :: rat) \<le> of_int n / 10 ^ 12" using assms by (intro divide_right_mono) simp_all
  moreover have "2 powi (- 1022) \<le> (1 / 10 ^ 12 :: rat)" by (simp add: power_int_minus field_simps)
  ultimately have "2 powi (- 1022) \<le> \<bar>of_int n / 10 ^ 12 :: rat\<bar>" using assms by simp
  from fl_error_rel [OF this] show ?thesis using assms by simp
qed

lemma fl_below_micro:
  fixes n :: int
  assumes n: "0 \<le> n"
  shows "fl (of_int n / 10 ^ 12) < fl (1 / 1000000) \<longleftrightarrow> n < 10 ^ 6" "0 \<le> fl (of_int n / 10 ^ 12)"
proof -
  let ?v = "of_int n / 10 ^ 12 :: rat"
  have e: "\<bar>fl ?v - ?v\<bar> \<le> ?v / 2 ^ 53" using pico_error [of n] n by (cases "n = 0") (simp_all add: fl_def)
  have "0 \<le> ?v" using n by simp
  then have "?v / 2 ^ 53 \<le> ?v" by (simp add: field_simps)
  with e show "0 \<le> fl ?v" unfolding abs_le_iff by linarith
  consider "n = 10 ^ 6" | "n < 10 ^ 6" | "10 ^ 6 < n" by linarith
  then show "fl ?v < fl (1 / 1000000) \<longleftrightarrow> n < 10 ^ 6"
  proof cases
    case 1
    then show ?thesis by simp
  next
    case 2
    then have "of_int n \<le> (of_int 999999 :: rat)" by (intro of_int_le_iff [THEN iffD2]) simp
    then have "?v \<le> 999999 / 10 ^ 12" by (intro divide_right_mono) simp_all
    with e micro_bounds(3) 2 show ?thesis unfolding abs_le_iff by simp
  next
    case 3
    then have "(of_int 1000001 :: rat) \<le> of_int n" by (intro of_int_le_iff [THEN iffD2]) simp
    then have "1000001 / 10 ^ 12 \<le> ?v" by (intro divide_right_mono) simp_all
    with e micro_bounds(3) 3 show ?thesis unfolding abs_le_iff by simp
  qed
qed

text \<open>
  C27: a wallet counts as empty exactly when its balance, read to twelve decimals, is below one micro
  unit, in spite of the double arithmetic of the comparison; a wallet without a balance is empty.
\<close>

theorem dust_below_one_micro:
  assumes "0 \<le> x" "x < 10 ^ 21"
  shows "hasOnlySubMicroMajorUnitDust None
    \<and> (hasOnlySubMicroMajorUnitDust (Some (NumberBalance (Fin x))) \<longleftrightarrow> \<lfloor>x * 10 ^ 12 + 1 / 2\<rfloor> < 10 ^ 6)"
proof -
  obtain t where t: "normalizeDecimalString (NumberBalance (Fin x)) = Some t"
      "decimal_value t = Some (of_int (picos x) / 10 ^ 12)"
    using normalize_number [OF assms] by blast
  have n: "0 \<le> picos x" using assms by (simp add: picos_def add_nonneg_nonneg)
  have "num_less (double (of_int (picos x) / 10 ^ 12)) (fl (1 / 1000000)) \<longleftrightarrow> picos x < 10 ^ 6"
    using fl_below_micro [OF n] micro_bounds(2) by (auto simp: double_def Let_def)
  then show ?thesis
    using t Number_string_decimal [OF t(2)] by (simp add: hasOnlySubMicroMajorUnitDust_def picos_def)
qed

theorem dust_below_one_micro_witness:
  "hasOnlySubMicroMajorUnitDust (Some (NumberBalance (Fin (9 / 10 ^ 7))))
   \<and> \<not> hasOnlySubMicroMajorUnitDust (Some (NumberBalance (Fin (1 / 10 ^ 6))))"
  using dust_below_one_micro [of "9 / 10 ^ 7"] dust_below_one_micro [of "1 / 10 ^ 6"]
  by (simp add: floor_less_iff)

end
