(* ===== verification/FygaroFees.thy ===== *)
theory FygaroFees
  imports JsText
begin

text \<open>
  The operator settings of card top-ups and what they decide: the coercions of raw ERPNext fields
  (\<open>src/services/frappe/coerce.ts\<close>), the validation of the settings row
  (\<open>src/services/fygaro/webhook-server/fygaro-settings.ts\<close>) and of a row of the fee discount list
  (\<open>src/services/frappe/fee-discounts.ts\<close>), and the fees and the credit gate
  (\<open>src/services/fygaro/webhook-server/fees.ts\<close>).

  Amounts of cents are integers: they come from \<open>Math.round\<close> or from an integer of the API, and their
  sums stay below \<open>2\<^sup>5\<^sup>3\<close>, where numbers add exactly. A finite number of a settings row is a rational;
  products and quotients of such numbers are rounded to doubles by \<open>fl\<close>. The numbers of a settings row
  lie below \<open>10\<^sup>3\<^sup>0\<^sup>0\<close>, where no product overflows to an infinity.
\<close>

section \<open>Raw fields\<close>

datatype frappe_value = FNumber js_number | FText string | FBool bool | FOther

fun finite_number :: "js_number \<Rightarrow> rat option" where
  "finite_number (Fin q) = Some q"
| "finite_number _ = None"

fun toFiniteNumber :: "frappe_value option \<Rightarrow> rat option" where
  "toFiniteNumber (Some (FNumber x)) = finite_number x"
| "toFiniteNumber (Some (FText s)) = (if js_trim s \<noteq> '''' then finite_number (Number_string s) else None)"
| "toFiniteNumber _ = None"

definition toBoolean :: "frappe_value option \<Rightarrow> bool" where
  "toBoolean v \<longleftrightarrow> v = Some (FNumber (Fin 1)) \<or> v = Some (FBool True) \<or> v = Some (FText ''1'')"

section \<open>The settings row\<close>

record FygaroSettingsDoc =
  doc_processor :: "frappe_value option"
  doc_processor_fee_percent :: "frappe_value option"
  doc_processor_fee_fixed :: "frappe_value option"
  doc_flash_margin_percent :: "frappe_value option"
  doc_flash_margin_fixed :: "frappe_value option"
  doc_auto_credit_limit :: "frappe_value option"
  doc_minimum_topup :: "frappe_value option"
  doc_auto_credit_enabled :: "frappe_value option"
  doc_l1_daily_limit :: "frappe_value option"
  doc_l2_daily_limit :: "frappe_value option"
  doc_l3_daily_limit :: "frappe_value option"

text \<open>\<open>dailyTopupLimits\<close> is indexed by the account level; a level it does not name has no limit entry.\<close>

record FygaroSettings =
  processor :: string
  processorFeePercent :: rat
  processorFeeFixed :: rat
  flashMarginPercent :: rat
  flashMarginFixed :: rat
  autoCreditLimit :: rat
  minimumTopup :: rat
  autoCreditEnabled :: bool
  dailyTopupLimits :: "int \<Rightarrow> rat option"

definition daily_limits :: "rat \<Rightarrow> rat \<Rightarrow> rat \<Rightarrow> int \<Rightarrow> rat option" where
  "daily_limits l1 l2 l3 level =
     (if level = 1 then Some l1 else if level = 2 then Some l2 else if level = 3 then Some l3 else None)"

definition unusable :: "rat option \<Rightarrow> bool" where
  "unusable n = (case n of None \<Rightarrow> True | Some q \<Rightarrow> q < 0)"

definition validateFygaroSettings :: "FygaroSettingsDoc option \<Rightarrow> FygaroSettings option" where
  "validateFygaroSettings row =
     (case row of
        None \<Rightarrow> None
      | Some doc \<Rightarrow>
          let numbers = map toFiniteNumber
                [doc_processor_fee_percent doc, doc_processor_fee_fixed doc, doc_flash_margin_percent doc,
                 doc_flash_margin_fixed doc, doc_auto_credit_limit doc, doc_minimum_topup doc,
                 doc_l1_daily_limit doc, doc_l2_daily_limit doc, doc_l3_daily_limit doc]
          in if list_ex unusable numbers then None
             else Some
               \<lparr>processor = (case doc_processor doc of Some (FText s) \<Rightarrow> s | _ \<Rightarrow> ''''),
                processorFeePercent = the (numbers ! 0), processorFeeFixed = the (numbers ! 1),
                flashMarginPercent = the (numbers ! 2), flashMarginFixed = the (numbers ! 3),
                autoCreditLimit = the (numbers ! 4), minimumTopup = the (numbers ! 5),
                autoCreditEnabled = toBoolean (doc_auto_credit_enabled doc),
                dailyTopupLimits = daily_limits (the (numbers ! 6)) (the (numbers ! 7)) (the (numbers ! 8))\<rparr>)"

section \<open>The fee discount list\<close>

record FeeDiscountDoc =
  fd_username :: "frappe_value option"
  fd_discount_percent :: "frappe_value option"
  fd_applies_to_topup :: "frappe_value option"
  fd_applies_to_cashout :: "frappe_value option"
  fd_active :: "frappe_value option"

record FeeDiscount =
  discountPercent :: rat
  appliesToTopup :: bool
  appliesToCashout :: bool

datatype FeeDiscountFlow = Topup_flow | Cashout_flow

definition validateFeeDiscountDoc :: "FeeDiscountDoc \<Rightarrow> (string \<times> FeeDiscount) option" where
  "validateFeeDiscountDoc doc =
     (if \<not> toBoolean (fd_active doc) then None
      else
        let username = (case fd_username doc of Some (FText s) \<Rightarrow> toLowerCase (js_trim s) | _ \<Rightarrow> '''')
        in if username = '''' then None
           else (case toFiniteNumber (fd_discount_percent doc) of
                   None \<Rightarrow> None
                 | Some p \<Rightarrow>
                     if p < 0 \<or> p > 100 then None
                     else Some (username,
                            \<lparr>discountPercent = p,
                             appliesToTopup = toBoolean (fd_applies_to_topup doc),
                             appliesToCashout = toBoolean (fd_applies_to_cashout doc)\<rparr>)))"

text \<open>The map the rows are loaded into: malformed rows are skipped, a later row replaces an earlier one.\<close>

definition discounts_of :: "FeeDiscountDoc list \<Rightarrow> string \<Rightarrow> FeeDiscount option" where
  "discounts_of docs =
     foldl (\<lambda>byUsername doc. case validateFeeDiscountDoc doc of
              None \<Rightarrow> byUsername
            | Some (username, discount) \<Rightarrow> byUsername(username \<mapsto> discount)) Map.empty docs"

definition discount_for :: "(string \<Rightarrow> FeeDiscount option) \<Rightarrow> string \<Rightarrow> FeeDiscountFlow \<Rightarrow> rat" where
  "discount_for discounts username flow =
     (case discounts (toLowerCase (js_trim username)) of
        None \<Rightarrow> 0
      | Some d \<Rightarrow>
          let applies = (case flow of Topup_flow \<Rightarrow> appliesToTopup d | Cashout_flow \<Rightarrow> appliesToCashout d)
          in if applies then discountPercent d else 0)"

section \<open>Fees\<close>

record FygaroFees =
  grossCents :: int
  processorFeeCents :: int
  flashFeeCents :: int
  netCents :: int

text \<open>\<open>Math.round(usd * 100)\<close> and \<open>Math.round((cents * percent) / 100)\<close>.\<close>

definition usd_to_cents :: "rat \<Rightarrow> int" where
  "usd_to_cents usd = round_half_up (fl (usd * 100))"

definition percent_of :: "int \<Rightarrow> rat \<Rightarrow> int" where
  "percent_of cents percent = round_half_up (fl (fl (of_int cents * percent) / 100))"

definition computeFygaroFees :: "int \<Rightarrow> FygaroSettings \<Rightarrow> rat \<Rightarrow> FygaroFees" where
  "computeFygaroFees gross settings flashFeeDiscountPercent =
     (let processorFee = percent_of gross (processorFeePercent settings) + usd_to_cents (processorFeeFixed settings);
          fullFlashFee = percent_of gross (flashMarginPercent settings) + usd_to_cents (flashMarginFixed settings);
          discount = min 100 (max 0 flashFeeDiscountPercent);
          flashFee = percent_of fullFlashFee (fl (100 - discount))
      in \<lparr>grossCents = gross, processorFeeCents = processorFee, flashFeeCents = flashFee,
          netCents = gross - processorFee - flashFee\<rparr>)"

section \<open>The credit gate\<close>

datatype RecordOnlyReason =
    Credit_disabled | Settings_unavailable | Auto_credit_disabled | Non_usd | Over_limit
  | No_daily_limit_for_level | History_unavailable | Daily_limit_exceeded | Under_minimum
  | Non_positive_net | Intent_mismatch

datatype CreditGate = Credit FygaroFees | Record_only RecordOnlyReason

definition evaluateCreditGate ::
  "bool \<Rightarrow> string \<Rightarrow> FygaroSettings option \<Rightarrow> int \<Rightarrow> int \<Rightarrow> int option \<Rightarrow> rat \<Rightarrow> CreditGate" where
  "evaluateCreditGate creditEnabled currency settings gross level priorDayGrossCents flashFeeDiscountPercent =
     (if \<not> creditEnabled then Record_only Credit_disabled
      else case settings of
        None \<Rightarrow> Record_only Settings_unavailable
      | Some st \<Rightarrow>
          if \<not> autoCreditEnabled st then Record_only Auto_credit_disabled
          else if currency \<noteq> ''USD'' then Record_only Non_usd
          else if gross > usd_to_cents (autoCreditLimit st) then Record_only Over_limit
          else case dailyTopupLimits st level of
            None \<Rightarrow> Record_only No_daily_limit_for_level
          | Some dailyLimitUsd \<Rightarrow>
              case priorDayGrossCents of
                None \<Rightarrow> Record_only History_unavailable
              | Some prior \<Rightarrow>
                  if gross + prior > usd_to_cents dailyLimitUsd then Record_only Daily_limit_exceeded
                  else
                    let fees = computeFygaroFees gross st flashFeeDiscountPercent
                    in if netCents fees \<le> 0 then Record_only Non_positive_net
                       else if gross < usd_to_cents (minimumTopup st) then Record_only Under_minimum
                       else Credit fees)"

section \<open>Validated settings\<close>

definition settings_ok :: "FygaroSettings \<Rightarrow> bool" where
  "settings_ok st \<longleftrightarrow>
     0 \<le> processorFeePercent st \<and> 0 \<le> processorFeeFixed st \<and> 0 \<le> flashMarginPercent st
     \<and> 0 \<le> flashMarginFixed st \<and> 0 \<le> autoCreditLimit st \<and> 0 \<le> minimumTopup st
     \<and> (\<forall>level. case dailyTopupLimits st level of
           None \<Rightarrow> level \<notin> {1, 2, 3} | Some limit \<Rightarrow> level \<in> {1, 2, 3} \<and> 0 \<le> limit)"

text \<open>The numeric fields of the row.\<close>

definition numeric_fields :: "FygaroSettingsDoc \<Rightarrow> frappe_value option list" where
  "numeric_fields doc =
     [doc_processor_fee_percent doc, doc_processor_fee_fixed doc, doc_flash_margin_percent doc,
      doc_flash_margin_fixed doc, doc_auto_credit_limit doc, doc_minimum_topup doc,
      doc_l1_daily_limit doc, doc_l2_daily_limit doc, doc_l3_daily_limit doc]"

lemma usable: "\<not> unusable n \<longleftrightarrow> (\<exists>q. n = Some q \<and> 0 \<le> q)"
  by (cases n) (auto simp: unusable_def)

lemma validated_settings_ok: "validateFygaroSettings row = Some st \<Longrightarrow> settings_ok st"
  by (auto simp: validateFygaroSettings_def settings_ok_def daily_limits_def Let_def usable
      split: option.splits if_splits)

text \<open>What a row says: the nine numbers, in the order of the fields, the switch and the processor.\<close>

definition row_says :: "FygaroSettingsDoc \<Rightarrow> FygaroSettings \<Rightarrow> bool" where
  "row_says doc st \<longleftrightarrow> (\<exists>l1 l2 l3.
     map toFiniteNumber (numeric_fields doc) =
       map Some [processorFeePercent st, processorFeeFixed st, flashMarginPercent st, flashMarginFixed st,
         autoCreditLimit st, minimumTopup st, l1, l2, l3]
     \<and> dailyTopupLimits st = [1 \<mapsto> l1, 2 \<mapsto> l2, 3 \<mapsto> l3]
     \<and> autoCreditEnabled st = toBoolean (doc_auto_credit_enabled doc)
     \<and> processor st = (case doc_processor doc of Some (FText s) \<Rightarrow> s | _ \<Rightarrow> ''''))"

lemma validated_settings_row:
  "validateFygaroSettings (Some doc) = Some st \<longleftrightarrow>
     list_all (\<lambda>f. \<exists>q. toFiniteNumber f = Some q \<and> 0 \<le> q) (numeric_fields doc) \<and> row_says doc st"
proof
  assume "validateFygaroSettings (Some doc) = Some st"
  then show "list_all (\<lambda>f. \<exists>q. toFiniteNumber f = Some q \<and> 0 \<le> q) (numeric_fields doc) \<and> row_says doc st"
    by (auto simp: validateFygaroSettings_def numeric_fields_def row_says_def Let_def usable daily_limits_def
        fun_eq_iff split: if_splits)
next
  assume "list_all (\<lambda>f. \<exists>q. toFiniteNumber f = Some q \<and> 0 \<le> q) (numeric_fields doc) \<and> row_says doc st"
  then show "validateFygaroSettings (Some doc) = Some st"
    by (cases st) (auto simp: validateFygaroSettings_def numeric_fields_def row_says_def Let_def usable
        daily_limits_def fun_eq_iff)
qed

text \<open>
  C18: The settings reader is total and typed. A row is accepted exactly when each of its nine numeric
  fields reads as a finite number that is not negative, and the settings are then exactly what the row
  says: those nine numbers in their fields, the switch and the name of the processor. Accepted settings
  have no negative fee, limit or minimum, and a daily limit for the levels 1, 2 and 3 and for no other
  level. So no garbage row can reach the fee arithmetic, and level 0 has no allowance.
\<close>

theorem settings_validated:
  "(validateFygaroSettings (Some doc) = Some st \<longleftrightarrow>
      list_all (\<lambda>f. \<exists>q. toFiniteNumber f = Some q \<and> 0 \<le> q) (numeric_fields doc) \<and> row_says doc st)
   \<and> ((\<exists>st. validateFygaroSettings (Some doc) = Some st) \<longleftrightarrow>
      list_all (\<lambda>f. \<exists>q. toFiniteNumber f = Some q \<and> 0 \<le> q) (numeric_fields doc))
   \<and> (\<forall>row st. validateFygaroSettings row = Some st \<longrightarrow> settings_ok st)"
proof (intro conjI allI impI)
  show "(\<exists>st. validateFygaroSettings (Some doc) = Some st) \<longleftrightarrow>
      list_all (\<lambda>f. \<exists>q. toFiniteNumber f = Some q \<and> 0 \<le> q) (numeric_fields doc)"
    by (simp add: validateFygaroSettings_def numeric_fields_def Let_def usable [symmetric])
qed (rule validated_settings_row, rule validated_settings_ok)

definition ex_settings_doc :: FygaroSettingsDoc where
  "ex_settings_doc =
     \<lparr>doc_processor = Some (FText ''PayPal''), doc_processor_fee_percent = Some (FText ''3.49''),
      doc_processor_fee_fixed = Some (FNumber (Fin (1 / 2))), doc_flash_margin_percent = Some (FNumber (Fin 2)),
      doc_flash_margin_fixed = Some (FText ''0''), doc_auto_credit_limit = Some (FNumber (Fin 250)),
      doc_minimum_topup = Some (FNumber (Fin 10)), doc_auto_credit_enabled = Some (FNumber (Fin 1)),
      doc_l1_daily_limit = Some (FNumber (Fin 125)), doc_l2_daily_limit = Some (FNumber (Fin 500)),
      doc_l3_daily_limit = Some (FText ''2500'')\<rparr>"

theorem settings_validated_witness:
  "(\<exists>st. validateFygaroSettings (Some ex_settings_doc) = Some st \<and> settings_ok st
      \<and> flashMarginPercent st = 2 \<and> dailyTopupLimits st 2 = Some 500)
   \<and> validateFygaroSettings (Some (ex_settings_doc\<lparr>doc_l2_daily_limit := Some (FText ''abc'')\<rparr>)) = None"
proof -
  have "\<not> Option.is_none (validateFygaroSettings (Some ex_settings_doc))" by code_simp
  then obtain st where st: "validateFygaroSettings (Some ex_settings_doc) = Some st"
    by (auto simp: Option.is_none_def)
  with settings_validated [of ex_settings_doc st] have "settings_ok st" "row_says ex_settings_doc st" by blast+
  then have "settings_ok st" "flashMarginPercent st = 2" "dailyTopupLimits st 2 = Some 500"
    by (auto simp: row_says_def numeric_fields_def ex_settings_doc_def)
  moreover have "validateFygaroSettings (Some (ex_settings_doc\<lparr>doc_l2_daily_limit := Some (FText ''abc'')\<rparr>)) = None"
  proof -
    have "toFiniteNumber (Some (FText ''abc'')) = None" by code_simp
    then show ?thesis
      using settings_validated [of "ex_settings_doc\<lparr>doc_l2_daily_limit := Some (FText ''abc'')\<rparr>"]
      by (cases "validateFygaroSettings (Some (ex_settings_doc\<lparr>doc_l2_daily_limit := Some (FText ''abc'')\<rparr>))")
         (simp_all add: numeric_fields_def)
  qed
  ultimately show ?thesis using st by blast
qed

section \<open>Fee bounds\<close>

lemma percent_of_nonneg: "0 \<le> cents \<Longrightarrow> 0 \<le> percent \<Longrightarrow> 0 \<le> percent_of cents percent"
  by (simp add: percent_of_def round_half_up_nonneg fl_nonneg)

lemma usd_to_cents_nonneg: "0 \<le> usd \<Longrightarrow> 0 \<le> usd_to_cents usd"
  by (simp add: usd_to_cents_def round_half_up_nonneg fl_nonneg)

lemma percent_of_mono:
  assumes "0 \<le> cents" "0 \<le> p" "p \<le> q"
  shows "percent_of cents p \<le> percent_of cents q"
  unfolding percent_of_def using assms
  by (intro round_half_up_mono fl_mono divide_right_mono mult_left_mono) (simp_all add: fl_nonneg)

lemma percent_of_0 [simp]: "percent_of cents 0 = 0"
  using round_half_up_int [of 0] by (simp add: percent_of_def fl_def)

lemma percent_of_100:
  assumes "0 \<le> cents" "cents \<le> 2 ^ 46"
  shows "percent_of cents 100 = cents"
proof -
  have "fl (of_int cents * 100) = of_int cents * 100"
    using fl_int [of "cents * 100"] assms by simp
  then show ?thesis using fl_int [of cents] assms by (simp add: percent_of_def)
qed

lemma percent_of_error:
  assumes "0 \<le> cents" "0 \<le> p" "of_int cents * p < 2 ^ 40"
  shows "\<bar>of_int (percent_of cents p) - of_int cents * p / 100\<bar> < 1 / 2 + 1 / 2 ^ 13"
proof -
  define x where "x = of_int cents * p"
  define y where "y = fl x / 100"
  have x: "0 \<le> x" "x < 2 powi 40" using assms by (simp_all add: x_def)
  then have e1: "\<bar>fl x - x\<bar> \<le> 1 / 2 ^ 14" using fl_error_le [of x 40] by (simp add: power_int_def power_divide)
  have "fl x \<le> x + 1" using e1 unfolding abs_le_iff by simp
  then have y: "0 \<le> y" "y < 2 powi 40"
    using x fl_nonneg [of x] by (simp_all add: y_def)
  then have e2: "\<bar>fl y - y\<bar> \<le> 1 / 2 ^ 14" using fl_error_le [of y 40] by (simp add: power_int_def power_divide)
  have "\<bar>of_int (round_half_up (fl y)) - fl y\<bar> \<le> 1 / 2" by (rule round_half_up_error)
  moreover have "\<bar>y - x / 100\<bar> \<le> 1 / 2 ^ 14 / 100" using e1 unfolding y_def abs_le_iff by (simp add: field_simps)
  moreover have "percent_of cents p = round_half_up (fl y)" by (simp add: percent_of_def x_def y_def)
  ultimately show ?thesis using e2 unfolding abs_le_iff abs_less_iff x_def [symmetric] by simp
qed

lemma usd_to_cents_error:
  assumes "0 \<le> usd" "usd * 100 < 2 ^ 40"
  shows "\<bar>of_int (usd_to_cents usd) - usd * 100\<bar> < 1 / 2 + 1 / 2 ^ 13"
proof -
  have e: "\<bar>fl (usd * 100) - usd * 100\<bar> \<le> 1 / 2 ^ 14"
    using fl_error_le [of "usd * 100" 40] assms by (simp add: power_int_def power_divide)
  have "\<bar>of_int (round_half_up (fl (usd * 100))) - fl (usd * 100)\<bar> \<le> 1 / 2" by (rule round_half_up_error)
  with e show ?thesis unfolding usd_to_cents_def abs_le_iff abs_less_iff by simp
qed

text \<open>The undiscounted Flash fee.\<close>

definition full_flash_fee :: "int \<Rightarrow> FygaroSettings \<Rightarrow> int" where
  "full_flash_fee gross st = percent_of gross (flashMarginPercent st) + usd_to_cents (flashMarginFixed st)"

text \<open>The percentage of the Flash fee a discount leaves.\<close>

definition charged_percent :: "rat \<Rightarrow> rat" where
  "charged_percent d = fl (100 - min 100 (max 0 d))"

lemma compute_fields:
  "processorFeeCents (computeFygaroFees g st d) =
     percent_of g (processorFeePercent st) + usd_to_cents (processorFeeFixed st)"
  "flashFeeCents (computeFygaroFees g st d) = percent_of (full_flash_fee g st) (charged_percent d)"
  "grossCents (computeFygaroFees g st d) = g"
  "netCents (computeFygaroFees g st d) =
     g - processorFeeCents (computeFygaroFees g st d) - flashFeeCents (computeFygaroFees g st d)"
  by (simp_all add: computeFygaroFees_def full_flash_fee_def charged_percent_def Let_def)

lemma full_flash_fee_nonneg: "settings_ok st \<Longrightarrow> 0 \<le> g \<Longrightarrow> 0 \<le> full_flash_fee g st"
  by (simp add: full_flash_fee_def settings_ok_def percent_of_nonneg usd_to_cents_nonneg)

lemma fl_small: "fl 0 = 0" "fl 100 = 100"
  using fl_int [of 0] fl_int [of 100] by simp_all

lemma charged_percent_bounds:
  "0 \<le> charged_percent d" "charged_percent d \<le> 100"
  "d \<le> d' \<Longrightarrow> charged_percent d' \<le> charged_percent d"
  "d \<le> 0 \<Longrightarrow> charged_percent d = 100" "100 \<le> d \<Longrightarrow> charged_percent d = 0"
proof -
  show "0 \<le> charged_percent d" unfolding charged_percent_def by (rule fl_nonneg) simp
  have "charged_percent d \<le> fl 100" unfolding charged_percent_def by (rule fl_mono) simp_all
  then show "charged_percent d \<le> 100" by (simp add: fl_small)
  show "charged_percent d' \<le> charged_percent d" if "d \<le> d'"
    unfolding charged_percent_def by (rule fl_mono) (use that in simp_all)
  show "charged_percent d = 100" if "d \<le> 0"
    using that by (simp add: charged_percent_def fl_small max_absorb1)
  show "charged_percent d = 0" if "100 \<le> d"
    using that by (simp add: charged_percent_def fl_small max_absorb2)
qed

text \<open>
  C19: The fees of a top-up. With validated settings, whatever the discount asked for, the credited net
  is the gross less the two fees, neither fee is negative, and the Flash fee is between nothing and the
  undiscounted fee: a discount of zero or less charges all of it, of a hundred or more none of it, and a
  larger discount never charges more. The processor's fee does not depend on the discount, and in spite
  of the double arithmetic it is less than 1.001 cents from its exact value (two components, each
  rounded to the nearest cent). So garbage in the discount list can neither inflate a fee nor credit more
  than the gross less the processor's fee.
\<close>

theorem fee_bounds:
  assumes "settings_ok st" "0 \<le> g" "full_flash_fee g st \<le> 2 ^ 46"
    and small: "of_int g * processorFeePercent st < 2 ^ 40" "processorFeeFixed st * 100 < 2 ^ 40"
  defines "fees d \<equiv> computeFygaroFees g st d"
  shows "netCents (fees d) = g - processorFeeCents (fees d) - flashFeeCents (fees d)
    \<and> 0 \<le> processorFeeCents (fees d) \<and> processorFeeCents (fees d') = processorFeeCents (fees d)
    \<and> 0 \<le> flashFeeCents (fees d) \<and> flashFeeCents (fees d) \<le> full_flash_fee g st
    \<and> (d \<le> d' \<longrightarrow> flashFeeCents (fees d') \<le> flashFeeCents (fees d))
    \<and> (d \<le> 0 \<longrightarrow> flashFeeCents (fees d) = full_flash_fee g st)
    \<and> (100 \<le> d \<longrightarrow> flashFeeCents (fees d) = 0)
    \<and> \<bar>of_int (processorFeeCents (fees d))
         - (of_int g * processorFeePercent st / 100 + processorFeeFixed st * 100)\<bar> < 1001 / 1000"
proof -
  note f = full_flash_fee_nonneg [OF assms(1,2)]
  have "percent_of (full_flash_fee g st) (charged_percent d) \<le> full_flash_fee g st"
    using percent_of_mono [OF f charged_percent_bounds(1,2)] percent_of_100 [OF f assms(3)] by simp
  moreover have "percent_of (full_flash_fee g st) (charged_percent d')
      \<le> percent_of (full_flash_fee g st) (charged_percent d)" if "d \<le> d'"
    by (rule percent_of_mono [OF f charged_percent_bounds(1) charged_percent_bounds(3) [OF that]])
  moreover have "0 \<le> percent_of g (processorFeePercent st)" "0 \<le> usd_to_cents (processorFeeFixed st)"
    using assms(1,2) by (simp_all add: percent_of_nonneg usd_to_cents_nonneg settings_ok_def)
  moreover have "0 \<le> percent_of (full_flash_fee g st) (charged_percent d)"
    by (rule percent_of_nonneg [OF f charged_percent_bounds(1)])
  moreover have "\<bar>of_int (percent_of g (processorFeePercent st) + usd_to_cents (processorFeeFixed st))
      - (of_int g * processorFeePercent st / 100 + processorFeeFixed st * 100)\<bar> < 1001 / 1000"
    using percent_of_error [OF assms(2) _ small(1)] usd_to_cents_error [OF _ small(2)] assms(1)
    unfolding settings_ok_def abs_less_iff by (simp add: power_divide)
  ultimately show ?thesis
    unfolding fees_def
    by (simp add: compute_fields charged_percent_bounds(4,5) percent_of_100 [OF f assms(3)])
qed

definition ex_settings :: FygaroSettings where
  "ex_settings =
     \<lparr>processor = ''PayPal'', processorFeePercent = fl (349 / 100), processorFeeFixed = fl (49 / 100),
      flashMarginPercent = 2, flashMarginFixed = 0, autoCreditLimit = 250, minimumTopup = 10,
      autoCreditEnabled = True, dailyTopupLimits = daily_limits 125 500 2500\<rparr>"

lemma ex_settings_ok: "settings_ok ex_settings"
  by (auto simp: settings_ok_def ex_settings_def daily_limits_def fl_nonneg split: option.splits if_splits)

theorem fee_bounds_witness:
  "processorFeeCents (computeFygaroFees 10000 ex_settings 50) = 398
   \<and> flashFeeCents (computeFygaroFees 10000 ex_settings 50) = 100
   \<and> netCents (computeFygaroFees 10000 ex_settings 50) = 10000 - 398 - 100
   \<and> flashFeeCents (computeFygaroFees 10000 ex_settings 150) = 0"
proof -
  have f: "full_flash_fee 10000 ex_settings = 200" by code_simp
  have v: "processorFeeCents (computeFygaroFees 10000 ex_settings 50) = 398"
    "flashFeeCents (computeFygaroFees 10000 ex_settings 50) = 100" by code_simp+
  have small: "of_int 10000 * processorFeePercent ex_settings < 2 ^ 40" "processorFeeFixed ex_settings * 100 < 2 ^ 40"
    by code_simp+
  have "full_flash_fee 10000 ex_settings \<le> 2 ^ 46" by (simp add: f)
  note fee_bounds [OF ex_settings_ok _ this small, of 50 150] fee_bounds [OF ex_settings_ok _ this small, of 150 150]
  with v show ?thesis by simp
qed

section \<open>The gate\<close>

text \<open>
  The gate credits exactly when every condition holds, with the fees of the settings: crediting is
  on, the settings were read and the operator's switch is on, the currency is USD, the gross is at most
  the single payment limit, the level has a daily limit, the history was read and the gross with it is
  at most that limit, the net is positive, and the gross is at least the minimum. The probe of the
  authorisation with an unknown history stops with the missing history exactly when no earlier gate
  stops, so it never needs the history to refuse.
\<close>

theorem gate_iff:
  "(evaluateCreditGate on currency settings g level prior d = Credit fees \<longleftrightarrow>
     on \<and> currency = ''USD''
     \<and> (\<exists>st limit p. settings = Some st \<and> autoCreditEnabled st \<and> g \<le> usd_to_cents (autoCreditLimit st)
          \<and> dailyTopupLimits st level = Some limit \<and> prior = Some p \<and> g + p \<le> usd_to_cents limit
          \<and> fees = computeFygaroFees g st d \<and> 0 < netCents fees \<and> usd_to_cents (minimumTopup st) \<le> g))
   \<and> (evaluateCreditGate on currency settings g level None d = Record_only r \<and> r \<noteq> History_unavailable \<longleftrightarrow>
        evaluateCreditGate on currency settings g level prior d = Record_only r
          \<and> r \<in> {Credit_disabled, Settings_unavailable, Auto_credit_disabled, Non_usd, Over_limit,
                  No_daily_limit_for_level})"
  by (auto simp: evaluateCreditGate_def Let_def not_less not_le split: option.splits if_splits)

end
