(* ===== verification/FygaroCheckout.thy ===== *)
theory FygaroCheckout
  imports FygaroFees
begin

text \<open>
  The signed checkout link (\<open>src/services/fygaro/checkout.ts\<close>) and the deploy-level gate in front of it
  (\<open>src/app/fygaro/checkout-master-gate.ts\<close>): the custom reference that carries the username and the
  intent, the amount text, the token and the link. The keyed hash of Node's \<open>crypto\<close> is a parameter.
\<close>

section \<open>The configuration and the master gate\<close>

text \<open>
  The \<open>fygaro\<close> section of the configuration. An absent section is \<open>None\<close>, an absent switch is off, and an
  absent or empty text is the empty text, as the code reads them.
\<close>

record FygaroCheckoutConfig =
  co_enabled :: bool
  co_buttonUrl :: string
  co_keyId :: string
  co_ttlSeconds :: "int option"

record FygaroConfig =
  fc_enabled :: bool
  fc_credit_enabled :: bool
  fc_checkout :: "FygaroCheckoutConfig option"
  fc_webhook_secrets :: "(string \<times> string) list"
  fc_timestampSkewMs :: "int option"

record FygaroCheckoutMaster =
  ma_buttonUrl :: string
  ma_keyId :: string
  ma_secret :: string
  ma_ttlSeconds :: int

definition DEFAULT_TTL_SECONDS :: int where "DEFAULT_TTL_SECONDS = 900"

definition fygaroCheckoutMasterGate :: "FygaroConfig option \<Rightarrow> FygaroCheckoutMaster option" where
  "fygaroCheckoutMasterGate config =
     (case config of
        None \<Rightarrow> None
      | Some c \<Rightarrow>
          if \<not> fc_enabled c \<or> \<not> fc_credit_enabled c then None
          else case fc_checkout c of
            None \<Rightarrow> None
          | Some checkout \<Rightarrow>
              if \<not> co_enabled checkout \<or> co_buttonUrl checkout = '''' \<or> co_keyId checkout = '''' then None
              else case map_of (fc_webhook_secrets c) (co_keyId checkout) of
                None \<Rightarrow> None
              | Some secret \<Rightarrow>
                  if secret = '''' then None
                  else Some \<lparr>ma_buttonUrl = co_buttonUrl checkout, ma_keyId = co_keyId checkout, ma_secret = secret,
                        ma_ttlSeconds = (case co_ttlSeconds checkout of Some t \<Rightarrow> t | None \<Rightarrow> DEFAULT_TTL_SECONDS)\<rparr>)"

section \<open>The custom reference\<close>

definition FYGARO_REFERENCE_SEPARATOR :: char where "FYGARO_REFERENCE_SEPARATOR = CHR ''|''"

definition FYGARO_CUSTOM_REFERENCE_MAX_LENGTH :: nat where "FYGARO_CUSTOM_REFERENCE_MAX_LENGTH = 40"

record FygaroCustomReference =
  ref_username :: "string option"
  ref_intentId :: "string option"

definition buildCustomReference :: "string \<Rightarrow> string option \<Rightarrow> string" where
  "buildCustomReference username intent =
     (case intent of
        None \<Rightarrow> username
      | Some intentId \<Rightarrow>
          if intentId = '''' then username
          else
            let withUsername = username @ FYGARO_REFERENCE_SEPARATOR # intentId
            in if length withUsername \<le> FYGARO_CUSTOM_REFERENCE_MAX_LENGTH then withUsername
               else FYGARO_REFERENCE_SEPARATOR # intentId)"

definition parseCustomReference :: "string option \<Rightarrow> FygaroCustomReference option" where
  "parseCustomReference raw =
     (let trimmed = js_trim (case raw of Some s \<Rightarrow> s | None \<Rightarrow> '''')
      in if trimmed = '''' then None
         else
           let parts = js_split FYGARO_REFERENCE_SEPARATOR trimmed;
               username = js_trim (hd parts)
           in if length parts \<noteq> 2
              then (if username = '''' then None else Some \<lparr>ref_username = Some username, ref_intentId = None\<rparr>)
              else
                let intentId = js_trim (parts ! 1)
                in if username = ''''
                   then (if intentId = '''' then None else Some \<lparr>ref_username = None, ref_intentId = Some intentId\<rparr>)
                   else if intentId = '''' then Some \<lparr>ref_username = Some username, ref_intentId = None\<rparr>
                   else Some \<lparr>ref_username = Some username, ref_intentId = Some intentId\<rparr>)"

section \<open>The token\<close>

text \<open>\<open>Buffer.from(text).toString("base64")\<close> with \<open>+\<close> and \<open>/\<close> replaced and the padding stripped.\<close>

definition base64_char :: "nat \<Rightarrow> char" where
  "base64_char n = ''ABCDEFGHIJKLMNOPQRSTUVWXYZabcdefghijklmnopqrstuvwxyz0123456789-_'' ! n"

fun base64Url :: "string \<Rightarrow> string" where
  "base64Url [] = []"
| "base64Url [a] =
     (let x = of_char a in [base64_char (x div 4), base64_char (x mod 4 * 16)])"
| "base64Url [a, b] =
     (let x = of_char a; y = of_char b
      in [base64_char (x div 4), base64_char (x mod 4 * 16 + y div 16), base64_char (y mod 16 * 4)])"
| "base64Url (a # b # c # s) =
     (let x = of_char a; y = of_char b; z = of_char c
      in [base64_char (x div 4), base64_char (x mod 4 * 16 + y div 16),
          base64_char (y mod 16 * 4 + z div 64), base64_char (z mod 64)] @ base64Url s)"

text \<open>\<open>JSON.stringify\<close> of a text, and of an object given as its printed fields.\<close>

definition hex_char :: "nat \<Rightarrow> char" where
  "hex_char n = ''0123456789abcdef'' ! n"

definition json_char :: "char \<Rightarrow> string" where
  "json_char c =
     (let n = of_char c :: nat in
      if n = 34 then [CHR 0x5C, CHR 0x22]
      else if n = 92 then [CHR 0x5C, CHR 0x5C]
      else if n = 8 then [CHR 0x5C, CHR ''b'']
      else if n = 12 then [CHR 0x5C, CHR ''f'']
      else if n = 10 then [CHR 0x5C, CHR ''n'']
      else if n = 13 then [CHR 0x5C, CHR ''r'']
      else if n = 9 then [CHR 0x5C, CHR ''t'']
      else if n < 32 then [CHR 0x5C, CHR ''u'', CHR ''0'', CHR ''0'', hex_char (n div 16), hex_char (n mod 16)]
      else [c])"

definition json_string :: "string \<Rightarrow> string" where
  "json_string s = CHR 0x22 # concat (map json_char s) @ [CHR 0x22]"

definition json_object :: "(string \<times> string) list \<Rightarrow> string" where
  "json_object members =
     CHR ''{'' # js_join (CHR '','') (map (\<lambda>(k, v). json_string k @ CHR '':'' # v) members) @ [CHR ''}'']"

definition formatFygaroAmount :: "int \<Rightarrow> string" where
  "formatFygaroAmount amountCents = num_toFixed (fl (of_int amountCents / 100)) 2"

record FygaroCheckoutJwtPayload =
  jp_amount :: string
  jp_currency :: string
  jp_custom_reference :: string
  jp_exp :: int
  jp_nbf :: int

definition NBF_SKEW_SECONDS :: int where "NBF_SKEW_SECONDS = 60"

definition signFygaroCheckoutJwt ::
  "(string \<Rightarrow> string \<Rightarrow> string) \<Rightarrow> FygaroCheckoutJwtPayload \<Rightarrow> string \<Rightarrow> string \<Rightarrow> string" where
  "signFygaroCheckoutJwt hmac payload keyId secret =
     (let header = json_object [(''alg'', json_string ''HS256''), (''typ'', json_string ''JWT''), (''kid'', json_string keyId)];
          body = json_object
            [(''amount'', json_string (jp_amount payload)), (''currency'', json_string (jp_currency payload)),
             (''custom_reference'', json_string (jp_custom_reference payload)),
             (''nbf'', show_int (jp_nbf payload)), (''exp'', show_int (jp_exp payload))];
          signingInput = base64Url header @ CHR ''.'' # base64Url body
      in signingInput @ CHR ''.'' # base64Url (hmac secret signingInput))"

record FygaroCheckout =
  fy_url :: string
  fy_expiresAt :: int
  fy_customReference :: string
  fy_intentId :: string

definition checkout_payload :: "string \<Rightarrow> string \<Rightarrow> int \<Rightarrow> string \<Rightarrow> int \<Rightarrow> int \<Rightarrow> FygaroCheckoutJwtPayload" where
  "checkout_payload username intentId amountCents currency ttlSeconds nowMs =
     (let nowSecs = nowMs div 1000
      in \<lparr>jp_amount = formatFygaroAmount amountCents, jp_currency = currency,
          jp_custom_reference = buildCustomReference username (Some intentId),
          jp_exp = nowSecs + ttlSeconds, jp_nbf = nowSecs - NBF_SKEW_SECONDS\<rparr>)"

definition buildFygaroCheckout ::
  "(string \<Rightarrow> string \<Rightarrow> string) \<Rightarrow> FygaroCheckoutMaster \<Rightarrow> string \<Rightarrow> string \<Rightarrow> int \<Rightarrow> string \<Rightarrow> int \<Rightarrow> FygaroCheckout" where
  "buildFygaroCheckout hmac master username intentId amountCents currency nowMs =
     (let nowSecs = nowMs div 1000;
          payload = checkout_payload username intentId amountCents currency (ma_ttlSeconds master) nowMs;
          token = signFygaroCheckoutJwt hmac payload (ma_keyId master) (ma_secret master);
          separator = (if js_includes (ma_buttonUrl master) ''?'' then CHR ''&'' else CHR ''?'')
      in \<lparr>fy_url = ma_buttonUrl master @ separator # ''jwt='' @ token,
          fy_expiresAt = (nowSecs + ma_ttlSeconds master) * 1000,
          fy_customReference = jp_custom_reference payload,
          fy_intentId = intentId\<rparr>)"

section \<open>Round trips\<close>

text \<open>What a username and an intent id may be: not empty, no separator, no white space at the ends.\<close>

definition reference_part :: "string \<Rightarrow> bool" where
  "reference_part s \<longleftrightarrow>
     s \<noteq> '''' \<and> FYGARO_REFERENCE_SEPARATOR \<notin> set s \<and> \<not> js_space (hd s) \<and> \<not> js_space (last s)"

lemma js_trim_ends:
  assumes "s \<noteq> []" "\<not> js_space (hd s)" "\<not> js_space (last s)"
  shows "js_trim s = s"
proof -
  have "dropWhile js_space s = s" using assms(1,2) by (cases s) auto
  moreover have "dropWhile js_space (rev s) = rev s"
    using assms(1,3) by (cases "rev s") (auto simp: rev_eq_Cons_iff)
  ultimately show ?thesis by (simp add: js_trim_def)
qed

lemma reference_part_trim: "reference_part s \<Longrightarrow> js_trim s = s"
  by (simp add: reference_part_def js_trim_ends)

lemma separator_not_space: "\<not> js_space FYGARO_REFERENCE_SEPARATOR"
  by (simp add: js_space_def FYGARO_REFERENCE_SEPARATOR_def)

lemma parse_with_username:
  assumes "reference_part u" "reference_part i"
  shows "parseCustomReference (Some (u @ FYGARO_REFERENCE_SEPARATOR # i)) =
     Some \<lparr>ref_username = Some u, ref_intentId = Some i\<rparr>"
proof -
  have "js_trim (u @ FYGARO_REFERENCE_SEPARATOR # i) = u @ FYGARO_REFERENCE_SEPARATOR # i"
    using assms by (intro js_trim_ends) (auto simp: reference_part_def)
  moreover have "js_split FYGARO_REFERENCE_SEPARATOR (u @ FYGARO_REFERENCE_SEPARATOR # i) = [u, i]"
    using assms by (simp add: reference_part_def js_split_append js_split_none)
  ultimately show ?thesis
    using assms reference_part_trim [OF assms(1)] reference_part_trim [OF assms(2)]
    by (simp add: parseCustomReference_def Let_def reference_part_def)
qed

lemma parse_intent_only:
  assumes "reference_part i"
  shows "parseCustomReference (Some (FYGARO_REFERENCE_SEPARATOR # i)) =
     Some \<lparr>ref_username = None, ref_intentId = Some i\<rparr>"
proof -
  have "js_trim (FYGARO_REFERENCE_SEPARATOR # i) = FYGARO_REFERENCE_SEPARATOR # i"
    using assms by (intro js_trim_ends) (auto simp: reference_part_def separator_not_space)
  moreover have "js_split FYGARO_REFERENCE_SEPARATOR (FYGARO_REFERENCE_SEPARATOR # i) = [[], i]"
    using assms js_split_append [of FYGARO_REFERENCE_SEPARATOR "[]" i]
    by (simp add: reference_part_def js_split_none)
  ultimately show ?thesis
    using assms reference_part_trim [OF assms]
    by (simp add: parseCustomReference_def Let_def reference_part_def js_trim_def)
qed

text \<open>An amount as the webhook reads it: \<open>Math.round(Number(amount) * 100)\<close> of a finite number.\<close>

definition paid_cents :: "string \<Rightarrow> int option" where
  "paid_cents amount = map_option usd_to_cents (finite_number (Number_string amount))"

lemma Number_string_format:
  assumes "0 \<le> n" "n < 2 ^ 52"
  shows "Number_string (formatFygaroAmount n) = double (of_int n / 100)"
proof -
  have "formatFygaroAmount n = toFixed_nat (nat n) 2"
    using num_toFixed_units [of n 2] assms by (simp add: formatFygaroAmount_def)
  then obtain w g where t: "formatFygaroAmount n = w @ CHR ''.'' # g" "digits w" "w \<noteq> []" "digits g"
      "length g = 2" "parse_nat w * 10 ^ 2 + parse_nat g = nat n"
    using toFixed_nat_digits [of 2 "nat n"] by (metis pos2)
  then have "parse_nat (w @ g) = nat n" by (simp add: parse_nat_append)
  moreover have "g \<noteq> []" using t(5) by auto
  ultimately show ?thesis
    using Number_string_point [of w g] t assms(1) by (simp add: of_nat_nat)
qed

lemma paid_cents_format:
  assumes "0 \<le> n" "n < 2 ^ 40"
  shows "paid_cents (formatFygaroAmount n) = Some n"
proof -
  define q :: rat where "q = of_int n / 100"
  have n: "of_int n < (2 ^ 40 :: rat)" "(0 :: rat) \<le> of_int n"
    using assms of_int_less_iff [of n "2 ^ 40", where ?'a = rat] by simp_all
  then have q: "0 \<le> q" "\<bar>q\<bar> < 2 powi 34" by (simp_all add: q_def)
  have e1: "\<bar>fl q - q\<bar> \<le> 1 / 2 ^ 20" using fl_error_le [OF q(2)] by (simp add: power_int_def power_divide)
  then have f: "0 \<le> fl q" "fl q < 2 powi 35" using q fl_nonneg [of q] unfolding abs_le_iff by simp_all
  then have "\<bar>fl q * 100\<bar> < 2 powi 42" by simp
  from fl_error_le [OF this] have e2: "\<bar>fl (fl q * 100) - fl q * 100\<bar> \<le> 1 / 2 ^ 12"
    by (simp add: power_int_def power_divide)
  have "q * 100 = of_int n" by (simp add: q_def)
  then have "\<bar>fl (fl q * 100) - of_int n\<bar> < 1 / 2" using e1 e2 unfolding abs_le_iff abs_less_iff by simp
  then have "round_half_up (fl (fl q * 100)) = n"
    unfolding round_half_up_def abs_less_iff by (intro floor_unique) linarith+
  moreover have "double q = Fin (fl q)"
  proof -
    have "(2 :: rat) powi 35 < 2 ^ 1024" by (simp add: power_int_def power_strict_increasing)
    with f show ?thesis by (simp only: double_def Let_def) auto
  qed
  ultimately show ?thesis
    using Number_string_format [of n] assms by (simp add: paid_cents_def q_def usd_to_cents_def)
qed

text \<open>
  C17: What a signed link says is what the webhook reads back. For a username and an intent id without
  separators, the reference in the token is read as that intent, together with the username whenever it
  fits, and it never exceeds the provider's 40 bytes for an id of up to 39 bytes; the amount text in the
  token is read as exactly the authorised cents, in spite of the double arithmetic on both ways.
\<close>

theorem signed_link_reads_back:
  fixes currency :: string and ttl now :: int
  assumes "reference_part u" "reference_part i" "length i \<le> 39" "0 \<le> n" "n < 2 ^ 40"
  defines "payload \<equiv> checkout_payload u i n currency ttl now"
  shows "parseCustomReference (Some (jp_custom_reference payload)) =
      Some \<lparr>ref_username = (if length u + 1 + length i \<le> 40 then Some u else None), ref_intentId = Some i\<rparr>
    \<and> length (jp_custom_reference payload) \<le> 40
    \<and> paid_cents (jp_amount payload) = Some n"
  using assms parse_with_username [OF assms(1,2)] parse_intent_only [OF assms(2)] paid_cents_format [OF assms(4,5)]
  by (auto simp: checkout_payload_def buildCustomReference_def FYGARO_CUSTOM_REFERENCE_MAX_LENGTH_def Let_def
      reference_part_def)

theorem signed_link_reads_back_witness:
  "parseCustomReference (Some (jp_custom_reference (checkout_payload ''alice'' ''A1b2C3d4E5f6G7h8'' 6050 ''USD'' 900 1000))) =
     Some \<lparr>ref_username = Some ''alice'', ref_intentId = Some ''A1b2C3d4E5f6G7h8''\<rparr>
   \<and> paid_cents (jp_amount (checkout_payload ''alice'' ''A1b2C3d4E5f6G7h8'' 6050 ''USD'' 900 1000)) = Some 6050"
proof -
  have "reference_part ''alice''" "reference_part ''A1b2C3d4E5f6G7h8''" by code_simp+
  from signed_link_reads_back [OF this, of 6050 "''USD''" 900 1000] show ?thesis by simp
qed

end
