(* ===== verification/FygaroIo.thy ===== *)
theory FygaroIo
  imports FygaroCheckout Amounts
begin

text \<open>
  The asynchronous programs of the card top-ups and the collaborators they call.

  An asynchronous function is a program: it is done with a value, or it awaits one call of a
  collaborator and goes on with its reply. Between two awaits nothing else runs, so concurrent requests
  interleave exactly at the calls. The collaborators are Redis (\<open>src/services/redis\<close>, the cache of
  \<open>src/services/cache/redis-cache.ts\<close> and the locks of \<open>src/services/lock/index.ts\<close>), ERPNext (the
  requests of \<open>src/services/frappe/ErpNext.ts\<close>), the account and wallet repositories, the identity
  service, IBEX and the alert channels. Their documented behaviour is the function \<open>perform\<close> on the
  state \<open>services\<close>; a call may be lost, or be carried out and still be reported as failed.
\<close>

section \<open>What Redis stores\<close>

text \<open>
  A record is stored as the JSON text of an object; two records have the same text exactly when their
  fields agree. A state that another version of the code wrote is kept as it is.
\<close>

datatype FygaroTopupOutcomeState = Received | Credited | Held_for_review | Credit_failed | Unknown_state string

record FygaroTopupOutcome =
  oc_state :: FygaroTopupOutcomeState
  oc_reason :: "string option"
  oc_netAmountCents :: "int option"
  oc_detailCents :: "int option"
  oc_transactionId :: "string option"
  oc_atMs :: int

record FygaroCheckoutIntent =
  in_intentId :: string
  in_accountId :: string
  in_username :: string
  in_amountCents :: int
  in_currency :: string
  in_createdAtMs :: int
  in_checkoutUrl :: "string option"
  in_expiresAtMs :: "int option"
  in_outcome :: "FygaroTopupOutcome option"

text \<open>
  The outcomes of a send are object constants (\<open>src/domain/bitcoin/lightning/index.ts\<close>), which the code
  compares by identity. An outcome that is read back from its JSON text is a new object: it has the value
  of one of the constants and is none of them.
\<close>

datatype payment_send_status =
  Send_success | Send_failure | Send_pending | Send_already_paid | Read_back payment_send_status

fun status_value :: "payment_send_status \<Rightarrow> payment_send_status" where
  "status_value (Read_back st) = status_value st"
| "status_value st = st"
datatype stored =
    Stored_intent FygaroCheckoutIntent
  | Stored_text string
  | Stored_send string payment_send_status

section \<open>ERPNext rows, accounts and wallets\<close>

datatype BridgeTransferRequestStatus = Pending_status | Fiat_received | Settled | Completed | Failed_status

text \<open>
  A row of the doctype Bridge Transfer Request, with the fields this code reads and writes. A date and
  time is the time in milliseconds of its second.
\<close>

record transfer_row =
  row_request_id :: string
  row_transaction_type :: string
  row_status :: BridgeTransferRequestStatus
  row_provider :: string
  row_amount :: "frappe_value option"
  row_currency :: string
  row_account_id :: "string option"
  row_wallet_id :: "string option"
  row_initial_amount :: "frappe_value option"
  row_processor_fee :: "frappe_value option"
  row_flash_fee :: "frappe_value option"
  row_final_amount :: "frappe_value option"
  row_source_systems_seen :: "string option"
  row_failure_reason :: "string option"
  row_last_seen_at :: "int option"

record fy_account =
  ac_id :: string
  ac_username :: "string option"
  ac_level :: int
  ac_active :: bool
  ac_role :: "string option"
  ac_kratosUserId :: string

record fy_wallet =
  wa_id :: string
  wa_accountId :: string
  wa_currency :: wallet_currency

datatype account_query = By_username string | By_user_id string | By_role string | By_id string

text \<open>A response of IBEX's \<open>payInvoiceV2\<close>: a status and a failure code, and those of the payment in it.\<close>

record ibex_pay_response =
  ip_status :: "frappe_value option"
  ip_failureReason :: "frappe_value option"
  ip_payment_status_id :: "frappe_value option"
  ip_payment_statusId :: "frappe_value option"
  ip_payment_failureId :: "frappe_value option"

section \<open>Programs\<close>

datatype alert_severity = Warning | Critical

datatype notice =
    Alert alert_severity string
  | Ops_event string
  | Push string string int string

datatype unit_call =
    Zadd string int string
  | Expire string int
  | Zremrangebyscore string int
  | Zrem string string
  | Cache_set string stored int
  | Timelock string
  | Acquire string
  | Release string
  | Erp_put string transfer_row
  | Erp_post transfer_row
  | Remember_settings "FygaroSettings option" int
  | Remember_discounts "string \<Rightarrow> FeeDiscount option" int
  | Notify notice

datatype bool_call =
    Del string
  | Cas string stored stored int

datatype 'a io =
    Done 'a
  | Await_unit unit_call "unit result \<Rightarrow> 'a io"
  | Await_bool bool_call "bool result \<Rightarrow> 'a io"
  | Await_now "int \<Rightarrow> 'a io"
  | Await_cache_get string "stored result \<Rightarrow> 'a io"
  | Await_raw_get string "stored option result \<Rightarrow> 'a io"
  | Await_zrange string "(string \<times> int) list result \<Rightarrow> 'a io"
  | Await_settings_cache "(FygaroSettings option \<times> int) option \<Rightarrow> 'a io"
  | Await_discounts_cache "((string \<Rightarrow> FeeDiscount option) \<times> int) option \<Rightarrow> 'a io"
  | Await_erp_settings "FygaroSettingsDoc option result \<Rightarrow> 'a io"
  | Await_erp_discounts "FeeDiscountDoc list result \<Rightarrow> 'a io"
  | Await_erp_topups string int "string option" "transfer_row list result \<Rightarrow> 'a io"
  | Await_erp_find string "transfer_row option result \<Rightarrow> 'a io"
  | Await_account account_query "fy_account result \<Rightarrow> 'a io"
  | Await_user_id string "string result \<Rightarrow> 'a io"
  | Await_wallets string "fy_wallet list result \<Rightarrow> 'a io"
  | Await_wallet string "fy_wallet result \<Rightarrow> 'a io"
  | Await_invoice string money_amount string "string option result \<Rightarrow> 'a io"
  | Await_pay string string "ibex_pay_response result \<Rightarrow> 'a io"

text \<open>Sequencing.\<close>

primrec bindI :: "'a io \<Rightarrow> ('a \<Rightarrow> 'b io) \<Rightarrow> 'b io" where
  "bindI (Done x) f = f x"
| "bindI (Await_unit c k) f = Await_unit c (\<lambda>r. bindI (k r) f)"
| "bindI (Await_bool c k) f = Await_bool c (\<lambda>r. bindI (k r) f)"
| "bindI (Await_now k) f = Await_now (\<lambda>r. bindI (k r) f)"
| "bindI (Await_cache_get key k) f = Await_cache_get key (\<lambda>r. bindI (k r) f)"
| "bindI (Await_raw_get key k) f = Await_raw_get key (\<lambda>r. bindI (k r) f)"
| "bindI (Await_zrange key k) f = Await_zrange key (\<lambda>r. bindI (k r) f)"
| "bindI (Await_settings_cache k) f = Await_settings_cache (\<lambda>r. bindI (k r) f)"
| "bindI (Await_discounts_cache k) f = Await_discounts_cache (\<lambda>r. bindI (k r) f)"
| "bindI (Await_erp_settings k) f = Await_erp_settings (\<lambda>r. bindI (k r) f)"
| "bindI (Await_erp_discounts k) f = Await_erp_discounts (\<lambda>r. bindI (k r) f)"
| "bindI (Await_erp_topups acct since excl k) f = Await_erp_topups acct since excl (\<lambda>r. bindI (k r) f)"
| "bindI (Await_erp_find rid k) f = Await_erp_find rid (\<lambda>r. bindI (k r) f)"
| "bindI (Await_account q k) f = Await_account q (\<lambda>r. bindI (k r) f)"
| "bindI (Await_user_id email k) f = Await_user_id email (\<lambda>r. bindI (k r) f)"
| "bindI (Await_wallets acct k) f = Await_wallets acct (\<lambda>r. bindI (k r) f)"
| "bindI (Await_wallet wid k) f = Await_wallet wid (\<lambda>r. bindI (k r) f)"
| "bindI (Await_invoice wid amt memo k) f = Await_invoice wid amt memo (\<lambda>r. bindI (k r) f)"
| "bindI (Await_pay wid bolt k) f = Await_pay wid bolt (\<lambda>r. bindI (k r) f)"

text \<open>A call whose outcome is only logged.\<close>

definition ignoreI :: "unit_call \<Rightarrow> 'a io \<Rightarrow> 'a io" where
  "ignoreI c m = Await_unit c (\<lambda>r. m)"

section \<open>The services\<close>

record services =
  clock :: int
  zsets :: "string \<Rightarrow> (string \<times> int) list"
  redis_keys :: "string \<Rightarrow> (stored \<times> int) option"
  timelocks :: "string \<Rightarrow> int option"
  mutexes :: "string \<Rightarrow> bool"
  erp_settings :: "FygaroSettingsDoc option"
  erp_discounts :: "FeeDiscountDoc list"
  erp_rows :: "transfer_row list"
  settings_cache :: "(FygaroSettings option \<times> int) option"
  discounts_cache :: "((string \<Rightarrow> FeeDiscount option) \<times> int) option"
  accounts :: "fy_account list"
  wallets :: "fy_wallet list"
  identities :: "(string \<times> string) list"
  notices :: "notice list"
  invoices :: "(string \<times> money_amount \<times> string) list"
  payments :: "(string \<times> string) list"
  pay_replies :: "ibex_pay_response list"

text \<open>
  A sorted set is kept in the order of the scores and, among equal scores, of the members' bytes. Adding
  a member again replaces its score.
\<close>

fun text_less :: "string \<Rightarrow> string \<Rightarrow> bool" where
  "text_less _ [] \<longleftrightarrow> False"
| "text_less [] (_ # _) \<longleftrightarrow> True"
| "text_less (a # s) (b # t) \<longleftrightarrow>
     (of_char a :: nat) < of_char b \<or> a = b \<and> text_less s t"

fun zset_insert :: "string \<times> int \<Rightarrow> (string \<times> int) list \<Rightarrow> (string \<times> int) list" where
  "zset_insert e [] = [e]"
| "zset_insert e (f # zs) =
     (if snd e < snd f \<or> snd e = snd f \<and> text_less (fst e) (fst f) then e # f # zs else f # zset_insert e zs)"

definition zset_add :: "string \<Rightarrow> int \<Rightarrow> (string \<times> int) list \<Rightarrow> (string \<times> int) list" where
  "zset_add member score zs = zset_insert (member, score) (filter (\<lambda>e. fst e \<noteq> member) zs)"

text \<open>A key is readable until its time to live has passed.\<close>

definition redis_get :: "services \<Rightarrow> string \<Rightarrow> stored option" where
  "redis_get s key = (case redis_keys s key of Some (v, expiry) \<Rightarrow> if clock s < expiry then Some v else None | None \<Rightarrow> None)"

definition redis_set :: "string \<Rightarrow> stored \<Rightarrow> int \<Rightarrow> services \<Rightarrow> services" where
  "redis_set key v ttlSecs s = s\<lparr>redis_keys := (redis_keys s)(key \<mapsto> (v, clock s + ttlSecs * 1000))\<rparr>"

text \<open>A row written over an existing one: a field that is not given is left as it is.\<close>

definition keep_given :: "'a option \<Rightarrow> 'a option \<Rightarrow> 'a option" where
  "keep_given new old = (case new of Some x \<Rightarrow> Some x | None \<Rightarrow> old)"

definition merge_row :: "transfer_row \<Rightarrow> transfer_row \<Rightarrow> transfer_row" where
  "merge_row old new = new
     \<lparr>row_request_id := row_request_id old,
      row_amount := keep_given (row_amount new) (row_amount old),
      row_account_id := keep_given (row_account_id new) (row_account_id old),
      row_wallet_id := keep_given (row_wallet_id new) (row_wallet_id old),
      row_initial_amount := keep_given (row_initial_amount new) (row_initial_amount old),
      row_processor_fee := keep_given (row_processor_fee new) (row_processor_fee old),
      row_flash_fee := keep_given (row_flash_fee new) (row_flash_fee old),
      row_final_amount := keep_given (row_final_amount new) (row_final_amount old),
      row_source_systems_seen := keep_given (row_source_systems_seen new) (row_source_systems_seen old),
      row_failure_reason := keep_given (row_failure_reason new) (row_failure_reason old),
      row_last_seen_at := keep_given (row_last_seen_at new) (row_last_seen_at old)\<rparr>"

definition toFrappeDatetime :: "int \<Rightarrow> int" where
  "toFrappeDatetime ms = ms div 1000 * 1000"

definition durationLockIdempotencyKey :: int where "durationLockIdempotencyKey = 1000 * 60 * 60"

text \<open>
  \<open>EXPIRE\<close> on a sorted set bounds how long an idle index is kept, one hour beyond the newest member's
  score; the removal of an idle index is not modelled.
\<close>

fun perform_unit :: "unit_call \<Rightarrow> services \<Rightarrow> unit result \<times> services" where
  "perform_unit (Zadd key score member) s =
     (Inr (), s\<lparr>zsets := (zsets s)(key := zset_add member score (zsets s key))\<rparr>)"
| "perform_unit (Expire key secs) s = (Inr (), s)"
| "perform_unit (Zremrangebyscore key bound) s =
     (Inr (), s\<lparr>zsets := (zsets s)(key := filter (\<lambda>e. bound < snd e) (zsets s key))\<rparr>)"
| "perform_unit (Zrem key member) s =
     (Inr (), s\<lparr>zsets := (zsets s)(key := filter (\<lambda>e. fst e \<noteq> member) (zsets s key))\<rparr>)"
| "perform_unit (Cache_set key v ttlSecs) s = (Inr (), redis_set key v ttlSecs s)"
| "perform_unit (Timelock key) s =
     (case timelocks s key of
        Some until \<Rightarrow> if clock s < until then (Inl ExecutionError, s)
          else (Inr (), s\<lparr>timelocks := (timelocks s)(key \<mapsto> clock s + durationLockIdempotencyKey)\<rparr>)
      | None \<Rightarrow> (Inr (), s\<lparr>timelocks := (timelocks s)(key \<mapsto> clock s + durationLockIdempotencyKey)\<rparr>))"
| "perform_unit (Acquire key) s =
     (if mutexes s key then (Inl ExecutionError, s)
      else (Inr (), s\<lparr>mutexes := (mutexes s)(key := True)\<rparr>))"
| "perform_unit (Release key) s = (Inr (), s\<lparr>mutexes := (mutexes s)(key := False)\<rparr>)"
| "perform_unit (Erp_put name row) s =
     (Inr (), s\<lparr>erp_rows := map (\<lambda>r. if row_request_id r = name then merge_row r row else r) (erp_rows s)\<rparr>)"
| "perform_unit (Erp_post row) s =
     (if row_request_id row \<in> row_request_id ` set (erp_rows s) then (Inl (ServiceError ''duplicate''), s)
      else (Inr (), s\<lparr>erp_rows := erp_rows s @ [row]\<rparr>))"
| "perform_unit (Remember_settings v t) s = (Inr (), s\<lparr>settings_cache := Some (v, t)\<rparr>)"
| "perform_unit (Remember_discounts v t) s = (Inr (), s\<lparr>discounts_cache := Some (v, t)\<rparr>)"
| "perform_unit (Notify n) s = (Inr (), s\<lparr>notices := notices s @ [n]\<rparr>)"

fun perform_bool :: "bool_call \<Rightarrow> services \<Rightarrow> bool result \<times> services" where
  "perform_bool (Del key) s =
     (Inr (redis_get s key \<noteq> None), s\<lparr>redis_keys := (redis_keys s)(key := None)\<rparr>)"
| "perform_bool (Cas key old new ttlSecs) s =
     (if redis_get s key = Some old then (Inr True, redis_set key new ttlSecs s) else (Inr False, s))"

text \<open>The reads.\<close>

definition matches :: "account_query \<Rightarrow> fy_account \<Rightarrow> bool" where
  "matches q a =
     (case q of
        By_username u \<Rightarrow> map_option toLowerCase (ac_username a) = Some (toLowerCase u)
      | By_user_id u \<Rightarrow> ac_kratosUserId a = u
      | By_role r \<Rightarrow> ac_role a = Some r
      | By_id i \<Rightarrow> ac_id a = i)"

definition read_account :: "account_query \<Rightarrow> services \<Rightarrow> fy_account result" where
  "read_account q s =
     (case List.find (matches q) (accounts s) of
        Some a \<Rightarrow> Inr a
      | None \<Rightarrow> Inl (case q of By_username _ \<Rightarrow> CouldNotFindAccountFromUsernameError
                             | _ \<Rightarrow> RepositoryError UnknownRepositoryError))"

definition topup_rows :: "string \<Rightarrow> int \<Rightarrow> string option \<Rightarrow> services \<Rightarrow> transfer_row list" where
  "topup_rows accountId since exclude s =
     filter (\<lambda>r. row_provider r = ''Fygaro'' \<and> row_transaction_type r = ''Topup'' \<and> row_account_id r = Some accountId
               \<and> row_currency r = ''USD'' \<and> row_status r \<in> {Fiat_received, Completed}
               \<and> (case row_last_seen_at r of Some t \<Rightarrow> toFrappeDatetime since \<le> t | None \<Rightarrow> False)
               \<and> exclude \<noteq> Some (row_request_id r)) (erp_rows s)"

definition of_option :: "error \<Rightarrow> 'a option \<Rightarrow> 'a result" where
  "of_option e x = (case x of Some v \<Rightarrow> Inr v | None \<Rightarrow> Inl e)"

text \<open>
  IBEX answers a payment with the next of its responses; an invoice is numbered in the order of creation.
\<close>

definition pay_invoice :: "string \<Rightarrow> string \<Rightarrow> services \<Rightarrow> ibex_pay_response result \<times> services" where
  "pay_invoice wid bolt s =
     (case pay_replies s of
        [] \<Rightarrow> (Inl UnexpectedIbexResponse, s)
      | r # rs \<Rightarrow> (Inr r, s\<lparr>payments := payments s @ [(wid, bolt)], pay_replies := rs\<rparr>))"

definition add_invoice :: "string \<Rightarrow> money_amount \<Rightarrow> string \<Rightarrow> services \<Rightarrow> string option result \<times> services" where
  "add_invoice wid amt memo s =
     (Inr (Some (show_nat (length (invoices s)))), s\<lparr>invoices := invoices s @ [(wid, amt, memo)]\<rparr>)"

section \<open>One call\<close>

text \<open>
  The outcome of a call: it works, it is lost before it takes effect, or it takes effect and its answer is
  lost. An error of the cache client is an \<open>UnknownCacheServiceError\<close>.
\<close>

datatype call_fault = Works | Lost error | Applied error

definition with_fault :: "call_fault \<Rightarrow> 'r result \<times> services \<Rightarrow> services \<Rightarrow> 'r result \<times> services" where
  "with_fault f reply unchanged =
     (case f of Works \<Rightarrow> reply | Lost e \<Rightarrow> (Inl e, unchanged) | Applied e \<Rightarrow> (Inl e, snd reply))"

definition read_fault :: "call_fault \<Rightarrow> 'r result \<Rightarrow> 'r result" where
  "read_fault f r = (case f of Works \<Rightarrow> r | Lost e \<Rightarrow> Inl e | Applied e \<Rightarrow> Inl e)"

definition cache_fault :: "call_fault \<Rightarrow> call_fault" where
  "cache_fault f =
     (case f of Works \<Rightarrow> Works | Lost e \<Rightarrow> Lost UnknownCacheServiceError | Applied e \<Rightarrow> Applied UnknownCacheServiceError)"

text \<open>Calls that cannot fail: the process's own memory, and the channels whose errors are swallowed.\<close>

fun local_call :: "unit_call \<Rightarrow> bool" where
  "local_call (Remember_settings _ _) \<longleftrightarrow> True"
| "local_call (Remember_discounts _ _) \<longleftrightarrow> True"
| "local_call (Notify _) \<longleftrightarrow> True"
| "local_call _ \<longleftrightarrow> False"

fun unit_fault :: "unit_call \<Rightarrow> call_fault \<Rightarrow> call_fault" where
  "unit_fault (Cache_set _ _ _) f = cache_fault f"
| "unit_fault c f = (if local_call c then Works else f)"

text \<open>The reply to each kind of call.\<close>

definition unit_reply :: "call_fault \<Rightarrow> unit_call \<Rightarrow> services \<Rightarrow> unit result \<times> services" where
  "unit_reply f c s = with_fault (unit_fault c f) (perform_unit c s) s"

definition bool_reply :: "call_fault \<Rightarrow> bool_call \<Rightarrow> services \<Rightarrow> bool result \<times> services" where
  "bool_reply f c s = with_fault f (perform_bool c s) s"

definition cache_reply :: "call_fault \<Rightarrow> string \<Rightarrow> services \<Rightarrow> stored result" where
  "cache_reply f key s = read_fault (cache_fault f) (of_option CacheUndefinedError (redis_get s key))"

definition find_row :: "string \<Rightarrow> services \<Rightarrow> transfer_row option" where
  "find_row rid s = List.find (\<lambda>r. row_request_id r = rid) (erp_rows s)"

definition wallets_of :: "string \<Rightarrow> services \<Rightarrow> fy_wallet list" where
  "wallets_of acct s = filter (\<lambda>w. wa_accountId w = acct) (wallets s)"

definition find_wallet :: "string \<Rightarrow> services \<Rightarrow> fy_wallet result" where
  "find_wallet wid s =
     of_option (RepositoryError UnknownRepositoryError) (List.find (\<lambda>w. wa_id w = wid) (wallets s))"

definition find_user_id :: "string \<Rightarrow> services \<Rightarrow> string result" where
  "find_user_id email s = of_option IdentifierNotFoundError (map_of (identities s) email)"

fun step :: "call_fault \<Rightarrow> 'a io \<Rightarrow> services \<Rightarrow> 'a io \<times> services" where
  "step f (Done x) s = (Done x, s)"
| "step f (Await_unit c k) s = (case unit_reply f c s of (r, t) \<Rightarrow> (k r, t))"
| "step f (Await_bool c k) s = (case bool_reply f c s of (r, t) \<Rightarrow> (k r, t))"
| "step f (Await_now k) s = (k (clock s), s)"
| "step f (Await_cache_get key k) s = (k (cache_reply f key s), s)"
| "step f (Await_raw_get key k) s = (k (read_fault f (Inr (redis_get s key))), s)"
| "step f (Await_zrange key k) s = (k (read_fault f (Inr (zsets s key))), s)"
| "step f (Await_settings_cache k) s = (k (settings_cache s), s)"
| "step f (Await_discounts_cache k) s = (k (discounts_cache s), s)"
| "step f (Await_erp_settings k) s = (k (read_fault f (Inr (erp_settings s))), s)"
| "step f (Await_erp_discounts k) s = (k (read_fault f (Inr (erp_discounts s))), s)"
| "step f (Await_erp_topups acct since excl k) s = (k (read_fault f (Inr (topup_rows acct since excl s))), s)"
| "step f (Await_erp_find rid k) s = (k (read_fault f (Inr (find_row rid s))), s)"
| "step f (Await_account q k) s = (k (read_fault f (read_account q s)), s)"
| "step f (Await_user_id email k) s = (k (read_fault f (find_user_id email s)), s)"
| "step f (Await_wallets acct k) s = (k (read_fault f (Inr (wallets_of acct s))), s)"
| "step f (Await_wallet wid k) s = (k (read_fault f (find_wallet wid s)), s)"
| "step f (Await_invoice wid amt memo k) s =
     (case with_fault f (add_invoice wid amt memo s) s of (r, t) \<Rightarrow> (k r, t))"
| "step f (Await_pay wid bolt k) s = (case with_fault f (pay_invoice wid bolt s) s of (r, t) \<Rightarrow> (k r, t))"

text \<open>A program run alone, with a fault for each of its calls (none where the list has ended).\<close>

definition next_fault :: "call_fault list \<Rightarrow> call_fault" where
  "next_fault fs = (case fs of [] \<Rightarrow> Works | f # _ \<Rightarrow> f)"

primrec run_io :: "'a io \<Rightarrow> call_fault list \<Rightarrow> services \<Rightarrow> 'a \<times> services" where
  "run_io (Done x) = (\<lambda>fs s. (x, s))"
| "run_io (Await_unit c k) = (\<lambda>fs s. case unit_reply (next_fault fs) c s of (r, t) \<Rightarrow> run_io (k r) (tl fs) t)"
| "run_io (Await_bool c k) = (\<lambda>fs s. case bool_reply (next_fault fs) c s of (r, t) \<Rightarrow> run_io (k r) (tl fs) t)"
| "run_io (Await_now k) = (\<lambda>fs s. run_io (k (clock s)) (tl fs) s)"
| "run_io (Await_cache_get key k) = (\<lambda>fs s. run_io (k (cache_reply (next_fault fs) key s)) (tl fs) s)"
| "run_io (Await_raw_get key k) = (\<lambda>fs s. run_io (k (read_fault (next_fault fs) (Inr (redis_get s key)))) (tl fs) s)"
| "run_io (Await_zrange key k) = (\<lambda>fs s. run_io (k (read_fault (next_fault fs) (Inr (zsets s key)))) (tl fs) s)"
| "run_io (Await_settings_cache k) = (\<lambda>fs s. run_io (k (settings_cache s)) (tl fs) s)"
| "run_io (Await_discounts_cache k) = (\<lambda>fs s. run_io (k (discounts_cache s)) (tl fs) s)"
| "run_io (Await_erp_settings k) = (\<lambda>fs s. run_io (k (read_fault (next_fault fs) (Inr (erp_settings s)))) (tl fs) s)"
| "run_io (Await_erp_discounts k) = (\<lambda>fs s. run_io (k (read_fault (next_fault fs) (Inr (erp_discounts s)))) (tl fs) s)"
| "run_io (Await_erp_topups acct since excl k) = (\<lambda>fs s.
     run_io (k (read_fault (next_fault fs) (Inr (topup_rows acct since excl s)))) (tl fs) s)"
| "run_io (Await_erp_find rid k) = (\<lambda>fs s. run_io (k (read_fault (next_fault fs) (Inr (find_row rid s)))) (tl fs) s)"
| "run_io (Await_account q k) = (\<lambda>fs s. run_io (k (read_fault (next_fault fs) (read_account q s))) (tl fs) s)"
| "run_io (Await_user_id email k) = (\<lambda>fs s. run_io (k (read_fault (next_fault fs) (find_user_id email s))) (tl fs) s)"
| "run_io (Await_wallets acct k) = (\<lambda>fs s. run_io (k (read_fault (next_fault fs) (Inr (wallets_of acct s)))) (tl fs) s)"
| "run_io (Await_wallet wid k) = (\<lambda>fs s. run_io (k (read_fault (next_fault fs) (find_wallet wid s))) (tl fs) s)"
| "run_io (Await_invoice wid amt memo k) = (\<lambda>fs s.
     case with_fault (next_fault fs) (add_invoice wid amt memo s) s of (r, t) \<Rightarrow> run_io (k r) (tl fs) t)"
| "run_io (Await_pay wid bolt k) = (\<lambda>fs s.
     case with_fault (next_fault fs) (pay_invoice wid bolt s) s of (r, t) \<Rightarrow> run_io (k r) (tl fs) t)"

text \<open>Running alone is taking one step after the other.\<close>

lemma run_io_step: "run_io m fs s = (case step (next_fault fs) m s of (m', t) \<Rightarrow> run_io m' (tl fs) t)"
  if "\<And>x. m \<noteq> Done x"
  using that by (cases m) (auto split: prod.splits)

lemma bindI_assoc: "bindI (bindI m f) g = bindI m (\<lambda>x. bindI (f x) g)"
  by (induction m) simp_all

end
