(* ===== verification/FygaroIntents.thy ===== *)
theory FygaroIntents
  imports FygaroIo
begin

text \<open>
  The store of checkout authorisations (\<open>src/services/fygaro/checkout-intent-store.ts\<close>) and the status
  query on it (\<open>src/app/fygaro/topup-status.ts\<close>): the reservation index of an account, the record and the
  redemption claim of an intent, and the outcome stamped on the record by compare-and-set.
\<close>

section \<open>Keys and members\<close>

definition cacheKey :: "string \<Rightarrow> string" where
  "cacheKey intentId = ''fygaro-checkout-intent:'' @ intentId"

definition claimKey :: "string \<Rightarrow> string" where
  "claimKey intentId = ''fygaro-checkout-claim:'' @ intentId"

definition accountIntentsKey :: "string \<Rightarrow> string" where
  "accountIntentsKey accountId = ''fygaro-checkout-intents:'' @ accountId"

definition reservationMember :: "string \<Rightarrow> int \<Rightarrow> string" where
  "reservationMember intentId amountCents = show_int amountCents @ CHR '':'' # intentId"

text \<open>
  \<open>member.slice(0, member.indexOf(":"))\<close> and \<open>member.slice(member.indexOf(":") + 1)\<close>; without a colon
  the index is \<open>-1\<close>. Amounts are whole cents.
\<close>

definition before_colon :: "string \<Rightarrow> string" where
  "before_colon m = (if CHR '':'' \<in> set m then takeWhile (\<lambda>c. c \<noteq> CHR '':'') m else butlast m)"

definition after_colon :: "string \<Rightarrow> string" where
  "after_colon m = (if CHR '':'' \<in> set m then tl (dropWhile (\<lambda>c. c \<noteq> CHR '':'') m) else m)"

definition reservationAmountCents :: "string \<Rightarrow> int" where
  "reservationAmountCents member =
     (case Number_string (before_colon member) of Fin q \<Rightarrow> if q > 0 then \<lfloor>q\<rfloor> else 0 | _ \<Rightarrow> 0)"

section \<open>The reservation index\<close>

definition saveIntent :: "FygaroCheckoutIntent \<Rightarrow> int \<Rightarrow> unit result io" where
  "saveIntent intent ttlSeconds =
     (let reservationKey = accountIntentsKey (in_accountId intent) in
      Await_unit (Zadd reservationKey (in_createdAtMs intent + ttlSeconds * 1000)
                   (reservationMember (in_intentId intent) (in_amountCents intent))) (\<lambda>added.
      case added of
        Inl e \<Rightarrow> Done (Inl FygaroReservationWriteError)
      | Inr _ \<Rightarrow>
          ignoreI (Expire reservationKey (ttlSeconds + 3600)) (
          Await_unit (Cache_set (cacheKey (in_intentId intent)) (Stored_intent intent) (ttlSeconds + 3600)) (\<lambda>res.
          case res of
            Inl e \<Rightarrow> Done (Inl e)
          | Inr _ \<Rightarrow>
              ignoreI (Cache_set (claimKey (in_intentId intent)) (Stored_text (in_intentId intent)) (ttlSeconds + 3600))
              (Done (Inr ()))))))"

record FygaroReservation =
  rs_intentId :: string
  rs_amountCents :: int
  rs_expiresAtMs :: int

definition reservations_of :: "(string \<times> int) list \<Rightarrow> FygaroReservation list" where
  "reservations_of flat =
     map (\<lambda>(member, score). \<lparr>rs_intentId = after_colon member, rs_amountCents = reservationAmountCents member,
                            rs_expiresAtMs = score\<rparr>)
       (filter (\<lambda>(member, score). 0 < reservationAmountCents member) flat)"

definition readOutstandingReservations :: "string \<Rightarrow> int \<Rightarrow> FygaroReservation list result io" where
  "readOutstandingReservations accountId nowMs =
     (let key = accountIntentsKey accountId in
      Await_unit (Zremrangebyscore key nowMs) (\<lambda>pruned.
      case pruned of
        Inl e \<Rightarrow> Done (Inl e)
      | Inr _ \<Rightarrow> Await_zrange key (\<lambda>flat.
          case flat of Inl e \<Rightarrow> Done (Inl e) | Inr es \<Rightarrow> Done (Inr (reservations_of es)))))"

definition releaseIntentReservation :: "string \<Rightarrow> string \<Rightarrow> int \<Rightarrow> unit io" where
  "releaseIntentReservation accountId intentId amountCents =
     ignoreI (Zrem (accountIntentsKey accountId) (reservationMember intentId amountCents)) (Done ())"

section \<open>The record and the claim\<close>

text \<open>A lookup that did not find the record, and whether that is because the cache could not be read.\<close>

datatype IntentLookup = Found FygaroCheckoutIntent | Not_found bool

definition readIntent :: "string \<Rightarrow> IntentLookup io" where
  "readIntent intentId =
     Await_cache_get (cacheKey intentId) (\<lambda>found.
     case found of
       Inl e \<Rightarrow> Done (Not_found (e \<noteq> CacheUndefinedError))
     | Inr (Stored_intent intent) \<Rightarrow> Done (Found intent)
     | Inr _ \<Rightarrow> Done (Not_found False))"

definition consumeIntent :: "string \<Rightarrow> bool io" where
  "consumeIntent intentId =
     bindI (readIntent intentId) (\<lambda>lookup.
     bindI (case lookup of
              Found intent \<Rightarrow> releaseIntentReservation (in_accountId intent) (in_intentId intent) (in_amountCents intent)
            | Not_found _ \<Rightarrow> Done ()) (\<lambda>_.
     Await_bool (Del (claimKey intentId)) (\<lambda>claimed.
     case claimed of Inl e \<Rightarrow> Done False | Inr removed \<Rightarrow> Done removed)))"

section \<open>The outcome\<close>

definition mergeIntentOutcome ::
  "FygaroTopupOutcome option \<Rightarrow> FygaroTopupOutcome \<Rightarrow> FygaroTopupOutcome option" where
  "mergeIntentOutcome existing incoming =
     (case existing of
        None \<Rightarrow> Some incoming
      | Some old \<Rightarrow>
          if oc_state incoming = Received then None
          else
            let differentPayment = (oc_transactionId old \<noteq> None \<and> oc_transactionId incoming \<noteq> None
                                    \<and> oc_transactionId old \<noteq> oc_transactionId incoming)
            in if oc_state old = Credited \<and> oc_state incoming \<noteq> Credited then None
               else if oc_state old = Credited \<and> \<not> differentPayment
               then Some (incoming\<lparr>oc_netAmountCents := keep_given (oc_netAmountCents incoming) (oc_netAmountCents old)\<rparr>)
               else Some incoming)"

definition RECORD_OUTCOME_ATTEMPTS :: nat where "RECORD_OUTCOME_ATTEMPTS = 3"

text \<open>One attempt reads the record, decides against what it read, and swaps only over that value.\<close>

primrec record_attempts :: "nat \<Rightarrow> string \<Rightarrow> FygaroTopupOutcome \<Rightarrow> int \<Rightarrow> unit io" where
  "record_attempts 0 key outcome ttl = Done ()"
| "record_attempts (Suc n) key outcome ttl =
     Await_raw_get key (\<lambda>raw.
     case raw of
       Inr (Some (Stored_intent found)) \<Rightarrow>
         (case mergeIntentOutcome (in_outcome found) outcome of
            None \<Rightarrow> Done ()
          | Some merged \<Rightarrow>
              Await_bool (Cas key (Stored_intent found) (Stored_intent (found\<lparr>in_outcome := Some merged\<rparr>)) ttl) (\<lambda>swapped.
              case swapped of
                Inl e \<Rightarrow> Done ()
              | Inr ok \<Rightarrow> if ok then Done () else record_attempts n key outcome ttl))
     | _ \<Rightarrow> Done ())"

definition recordIntentOutcome :: "string \<Rightarrow> FygaroTopupOutcome \<Rightarrow> int \<Rightarrow> unit io" where
  "recordIntentOutcome intentId outcome ttlSeconds =
     record_attempts RECORD_OUTCOME_ATTEMPTS (cacheKey intentId) outcome (ttlSeconds + 3600)"

section \<open>The status query\<close>

datatype FygaroTopupState = Unconfirmed | Processing | Status_credited | Status_held_for_review | Status_failed

record FygaroTopupStatus =
  ts_state :: FygaroTopupState
  ts_authorizedAmountCents :: int
  ts_netAmountCents :: "int option"
  ts_reason :: "string option"
  ts_detailCents :: "int option"

datatype FygaroTopupStatusResult = Status FygaroTopupStatus | No_status bool

fun STATE_BY_OUTCOME :: "FygaroTopupOutcomeState \<Rightarrow> FygaroTopupState option" where
  "STATE_BY_OUTCOME Received = Some Processing"
| "STATE_BY_OUTCOME Credited = Some Status_credited"
| "STATE_BY_OUTCOME Held_for_review = Some Status_held_for_review"
| "STATE_BY_OUTCOME Credit_failed = Some Status_failed"
| "STATE_BY_OUTCOME (Unknown_state _) = None"

definition stateFor :: "FygaroTopupOutcome option \<Rightarrow> FygaroTopupState" where
  "stateFor outcome =
     (case outcome of
        None \<Rightarrow> Unconfirmed
      | Some oc \<Rightarrow> (case STATE_BY_OUTCOME (oc_state oc) of Some st \<Rightarrow> st | None \<Rightarrow> Unconfirmed))"

definition recognisedOutcome :: "FygaroTopupOutcome option \<Rightarrow> FygaroTopupOutcome option" where
  "recognisedOutcome outcome =
     (case outcome of
        None \<Rightarrow> None
      | Some oc \<Rightarrow> if STATE_BY_OUTCOME (oc_state oc) \<noteq> None then Some oc else None)"

definition getFygaroTopupStatus :: "string \<Rightarrow> string \<Rightarrow> FygaroTopupStatusResult io" where
  "getFygaroTopupStatus intentId accountId =
     bindI (readIntent intentId) (\<lambda>lookup.
     case lookup of
       Not_found unavailable \<Rightarrow> Done (No_status unavailable)
     | Found intent \<Rightarrow>
         if in_accountId intent \<noteq> accountId then Done (No_status False)
         else
           let known = recognisedOutcome (in_outcome intent)
           in Done (Status \<lparr>ts_state = stateFor (in_outcome intent), ts_authorizedAmountCents = in_amountCents intent,
                ts_netAmountCents = Option.bind known oc_netAmountCents, ts_reason = Option.bind known oc_reason,
                ts_detailCents = Option.bind known oc_detailCents\<rparr>))"

section \<open>Round trips\<close>

lemma takeWhile_colon:
  assumes "digits s"
  shows "takeWhile (\<lambda>c. c \<noteq> CHR '':'') (s @ CHR '':'' # t) = s"
    and "dropWhile (\<lambda>c. c \<noteq> CHR '':'') (s @ CHR '':'' # t) = CHR '':'' # t"
proof -
  have "\<not> is_digit (CHR '':'')" by (simp add: is_digit_def)
  with assms show "takeWhile (\<lambda>c. c \<noteq> CHR '':'') (s @ CHR '':'' # t) = s"
    "dropWhile (\<lambda>c. c \<noteq> CHR '':'') (s @ CHR '':'' # t) = CHR '':'' # t"
    by (induction s) auto
qed

lemma reservation_member_parts:
  assumes "0 \<le> amount" "amount < 2 ^ 53"
  shows "reservationAmountCents (reservationMember i amount) = amount"
    and "after_colon (reservationMember i amount) = i"
proof -
  have d: "digits (show_int amount)" using assms(1) by (simp add: show_int_nonneg)
  have "before_colon (reservationMember i amount) = show_int amount"
    unfolding before_colon_def reservationMember_def by (simp add: takeWhile_colon [OF d])
  moreover have "Number_string (show_int amount) = Fin (of_int amount)"
    by (rule Number_string_show) (use assms in linarith)+
  ultimately show "reservationAmountCents (reservationMember i amount) = amount"
    using assms(1) by (simp add: reservationAmountCents_def)
  show "after_colon (reservationMember i amount) = i"
    unfolding reservationMember_def after_colon_def by (simp add: takeWhile_colon [OF d])
qed

lemma reservationMember_inject:
  assumes "0 \<le> a" "a < 2 ^ 53" "0 \<le> b" "b < 2 ^ 53" "reservationMember i a = reservationMember j b"
  shows "i = j" "a = b"
  using reservation_member_parts [OF assms(1,2), of i] reservation_member_parts [OF assms(3,4), of j] assms(5)
  by metis+

end
