(* ===== verification/FygaroTopups.thy ===== *)
theory FygaroTopups
  imports FygaroIo
begin

text \<open>
  The audit rows of card top-ups in ERPNext and the readers of the operator's settings: the upsert with
  its guards and the trailing-day sum (\<open>src/services/frappe/ErpNext.ts\<close>), the writers on it
  (\<open>src/services/frappe/BridgeTransferRequestWriter.ts\<close>), and the memoised settings and fee discounts
  (\<open>src/services/fygaro/webhook-server/fygaro-settings.ts\<close>, \<open>src/services/frappe/fee-discounts.ts\<close>).
  An ERPNext client that is not configured behaves as one whose calls fail.
\<close>

section \<open>Source systems\<close>

definition EMAIL_ATTRIBUTION_SOURCE_SYSTEM :: string where
  "EMAIL_ATTRIBUTION_SOURCE_SYSTEM = ''email_attribution''"

text \<open>The members of a comma-joined list, trimmed, without the empty ones, each once.\<close>

definition system_members :: "string option \<Rightarrow> string list" where
  "system_members seen =
     (case seen of None \<Rightarrow> [] | Some s \<Rightarrow> filter (\<lambda>p. p \<noteq> '''') (map js_trim (js_split (CHR '','') s)))"

definition join_members :: "string list \<Rightarrow> string option" where
  "join_members members = (if members = [] then None else Some (js_join (CHR '','') members))"

fun unique :: "'a list \<Rightarrow> 'a list" where
  "unique [] = []"
| "unique (x # xs) = x # filter (\<lambda>y. y \<noteq> x) (unique xs)"

definition mergeSourceSystemsSeen :: "string option \<Rightarrow> string option \<Rightarrow> string option" where
  "mergeSourceSystemsSeen existing incoming = join_members (unique (system_members existing @ system_members incoming))"

definition isEmailAttributedRow :: "string option \<Rightarrow> bool" where
  "isEmailAttributedRow seen \<longleftrightarrow>
     list_ex (\<lambda>p. js_trim p = EMAIL_ATTRIBUTION_SOURCE_SYSTEM)
       (js_split (CHR '','') (case seen of Some s \<Rightarrow> s | None \<Rightarrow> ''''))"

definition dropSourceSystem :: "string option \<Rightarrow> string \<Rightarrow> string option" where
  "dropSourceSystem seen system = join_members (filter (\<lambda>p. p \<noteq> system) (system_members seen))"

section \<open>The upsert\<close>

fun BRIDGE_TRANSFER_STATUS_RANK :: "BridgeTransferRequestStatus \<Rightarrow> int" where
  "BRIDGE_TRANSFER_STATUS_RANK Pending_status = 0"
| "BRIDGE_TRANSFER_STATUS_RANK Fiat_received = 1"
| "BRIDGE_TRANSFER_STATUS_RANK Settled = 2"
| "BRIDGE_TRANSFER_STATUS_RANK Completed = 3"
| "BRIDGE_TRANSFER_STATUS_RANK Failed_status = 4"

definition applyUpdateGuards :: "transfer_row \<Rightarrow> transfer_row \<Rightarrow> transfer_row" where
  "applyUpdateGuards payload existing =
     (let merged = mergeSourceSystemsSeen (row_source_systems_seen existing) (row_source_systems_seen payload);
          named = (case row_account_id payload of Some a \<Rightarrow> a \<noteq> '''' | None \<Rightarrow> False);
          guarded = payload\<lparr>row_source_systems_seen :=
            (if named \<and> \<not> isEmailAttributedRow (row_source_systems_seen payload)
             then dropSourceSystem merged EMAIL_ATTRIBUTION_SOURCE_SYSTEM else merged)\<rparr>
      in if row_transaction_type payload = ''Topup''
            \<and> BRIDGE_TRANSFER_STATUS_RANK (row_status payload) < BRIDGE_TRANSFER_STATUS_RANK (row_status existing)
         then guarded\<lparr>row_status := row_status existing\<rparr> else guarded)"

definition isDuplicateRequestError :: "error \<Rightarrow> bool" where
  "isDuplicateRequestError e =
     (case e of
        ServiceError m \<Rightarrow> m = ''409'' \<or> js_includes (toLowerCase m) ''duplicate'' \<or> js_includes (toLowerCase m) ''unique''
      | _ \<Rightarrow> False)"

definition put_guarded :: "transfer_row \<Rightarrow> transfer_row \<Rightarrow> unit result io" where
  "put_guarded payload existing =
     Await_unit (Erp_put (row_request_id existing) (applyUpdateGuards payload existing)) (\<lambda>r.
     case r of Inl e \<Rightarrow> Done (Inl BridgeTransferRequestUpsertError) | Inr _ \<Rightarrow> Done (Inr ()))"

definition upsertBridgeTransferRequest :: "transfer_row \<Rightarrow> unit result io" where
  "upsertBridgeTransferRequest payload =
     Await_erp_find (row_request_id payload) (\<lambda>found.
     case found of
       Inl e \<Rightarrow> Done (Inl BridgeTransferRequestUpsertError)
     | Inr (Some existing) \<Rightarrow> put_guarded payload existing
     | Inr None \<Rightarrow>
         Await_unit (Erp_post payload) (\<lambda>posted.
         case posted of
           Inr _ \<Rightarrow> Done (Inr ())
         | Inl e \<Rightarrow>
             if \<not> isDuplicateRequestError e then Done (Inl BridgeTransferRequestUpsertError)
             else Await_erp_find (row_request_id payload) (\<lambda>raced.
               case raced of
                 Inr (Some existing) \<Rightarrow> put_guarded payload existing
               | _ \<Rightarrow> Done (Inl BridgeTransferRequestUpsertError))))"

section \<open>The writers\<close>

definition fygaro_row :: "string \<Rightarrow> BridgeTransferRequestStatus \<Rightarrow> string \<Rightarrow> string \<Rightarrow> string option \<Rightarrow> string list \<Rightarrow> int \<Rightarrow> transfer_row" where
  "fygaro_row transactionId status amount currency accountId systems now =
     \<lparr>row_request_id = ''fygaro:'' @ transactionId, row_transaction_type = ''Topup'', row_status = status,
      row_provider = ''Fygaro'', row_amount = Some (FText amount), row_currency = currency,
      row_account_id = accountId, row_wallet_id = None, row_initial_amount = None, row_processor_fee = None,
      row_flash_fee = None, row_final_amount = None, row_source_systems_seen = join_members (unique systems),
      row_failure_reason = None, row_last_seen_at = Some (toFrappeDatetime now)\<rparr>"

definition writeFygaroTopupRequest :: "string \<Rightarrow> string \<Rightarrow> string \<Rightarrow> string option \<Rightarrow> bool \<Rightarrow> unit result io" where
  "writeFygaroTopupRequest transactionId amount currency accountId emailAttributed =
     Await_now (\<lambda>now.
     upsertBridgeTransferRequest
       (fygaro_row transactionId Fiat_received amount currency accountId
          (if emailAttributed then [''fygaro_webhook'', EMAIL_ATTRIBUTION_SOURCE_SYSTEM] else [''fygaro_webhook'']) now))"

definition completeFygaroTopup ::
  "string \<Rightarrow> string \<Rightarrow> string \<Rightarrow> string \<Rightarrow> string \<Rightarrow> string \<Rightarrow> string \<Rightarrow> string \<Rightarrow> string \<Rightarrow> unit result io" where
  "completeFygaroTopup transactionId accountId walletId amount currency initialAmount processorFee flashFee finalAmount =
     Await_now (\<lambda>now.
     upsertBridgeTransferRequest
       ((fygaro_row transactionId Completed amount currency (Some accountId)
           [''fygaro_webhook'', ''ibex_intraledger_credit''] now)
        \<lparr>row_wallet_id := Some walletId, row_initial_amount := Some (FText initialAmount),
         row_processor_fee := Some (FText processorFee), row_flash_fee := Some (FText flashFee),
         row_final_amount := Some (FText finalAmount)\<rparr>))"

definition markFygaroTopupNotCredited :: "string \<Rightarrow> string option \<Rightarrow> string \<Rightarrow> string \<Rightarrow> string \<Rightarrow> unit result io" where
  "markFygaroTopupNotCredited transactionId accountId amount currency reason =
     Await_now (\<lambda>now.
     upsertBridgeTransferRequest
       ((fygaro_row transactionId Fiat_received amount currency accountId [''fygaro_webhook''] now)
        \<lparr>row_failure_reason := Some reason\<rparr>))"

record FygaroTopupCompletion =
  fc_completed :: bool
  fc_netAmountCents :: "int option"

text \<open>\<open>Number(value)\<close> of a field that is not null.\<close>

fun Number_of :: "frappe_value \<Rightarrow> js_number" where
  "Number_of (FNumber x) = x"
| "Number_of (FText s) = Number_string s"
| "Number_of (FBool b) = Fin (if b then 1 else 0)"
| "Number_of FOther = NaN"

definition readFygaroTopupCompletion :: "string \<Rightarrow> FygaroTopupCompletion io" where
  "readFygaroTopupCompletion transactionId =
     Await_erp_find (''fygaro:'' @ transactionId) (\<lambda>doc.
     case doc of
       Inr (Some row) \<Rightarrow>
         if row_status row \<noteq> Completed then Done \<lparr>fc_completed = False, fc_netAmountCents = None\<rparr>
         else
           Done \<lparr>fc_completed = True, fc_netAmountCents =
             (case Option.bind (row_final_amount row) (\<lambda>v. finite_number (Number_of v)) of
                Some q \<Rightarrow> if q > 0 then Some (usd_to_cents q) else None
              | None \<Rightarrow> None)\<rparr>
     | _ \<Rightarrow> Done \<lparr>fc_completed = False, fc_netAmountCents = None\<rparr>)"

section \<open>The trailing day\<close>

record FygaroTopupWindow =
  tw_grossCents :: int
  tw_oldestCountedMs :: "int option"

definition failure_reason_set :: "transfer_row \<Rightarrow> bool" where
  "failure_reason_set row \<longleftrightarrow> (case row_failure_reason row of Some r \<Rightarrow> js_trim r \<noteq> '''' | None \<Rightarrow> False)"

text \<open>A row counts unless it was refused and never completed, or its account is only the payer's word.\<close>

definition counts :: "transfer_row \<Rightarrow> bool" where
  "counts row \<longleftrightarrow> \<not> (failure_reason_set row \<and> row_status row \<noteq> Completed)
     \<and> \<not> isEmailAttributedRow (row_source_systems_seen row)"

definition row_cents :: "transfer_row \<Rightarrow> int option" where
  "row_cents row =
     Option.bind (Option.bind (row_amount row) (\<lambda>v. finite_number (Number_of v))) (\<lambda>q.
     map_option round_half_up (finite_number (double (q * 100))))"

definition older :: "int option \<Rightarrow> int option \<Rightarrow> int option" where
  "older oldest seen =
     (case seen of
        None \<Rightarrow> oldest
      | Some t \<Rightarrow> (case oldest of None \<Rightarrow> Some t | Some u \<Rightarrow> if t < u then Some t else Some u))"

fun sum_rows :: "transfer_row list \<Rightarrow> int \<Rightarrow> int option \<Rightarrow> FygaroTopupWindow result" where
  "sum_rows [] acc oldest = Inr \<lparr>tw_grossCents = acc, tw_oldestCountedMs = oldest\<rparr>"
| "sum_rows (row # rows) acc oldest =
     (if \<not> counts row then sum_rows rows acc oldest
      else case row_cents row of
        None \<Rightarrow> Inl FygaroTopupHistoryQueryError
      | Some cents \<Rightarrow> sum_rows rows (acc + cents) (older oldest (row_last_seen_at row)))"

definition sumFygaroTopupGrossCentsSince :: "string \<Rightarrow> int \<Rightarrow> string option \<Rightarrow> FygaroTopupWindow result io" where
  "sumFygaroTopupGrossCentsSince accountId since excludeRequestId =
     Await_erp_topups accountId since excludeRequestId (\<lambda>rows.
     case rows of Inl e \<Rightarrow> Done (Inl FygaroTopupHistoryQueryError) | Inr rs \<Rightarrow> Done (sum_rows rs 0 None))"

definition DAY_MS :: int where "DAY_MS = 24 * 60 * 60 * 1000"

definition readFygaroTopupWindowLast24h :: "string \<Rightarrow> string option \<Rightarrow> FygaroTopupWindow result io" where
  "readFygaroTopupWindowLast24h accountId excludeTransactionId =
     Await_now (\<lambda>now.
     sumFygaroTopupGrossCentsSince accountId (now - DAY_MS)
       (map_option (\<lambda>t. ''fygaro:'' @ t) excludeTransactionId))"

definition sumFygaroTopupGrossCentsLast24h :: "string \<Rightarrow> string option \<Rightarrow> int result io" where
  "sumFygaroTopupGrossCentsLast24h accountId excludeTransactionId =
     bindI (readFygaroTopupWindowLast24h accountId excludeTransactionId) (\<lambda>window.
     case window of Inl e \<Rightarrow> Done (Inl e) | Inr w \<Rightarrow> Done (Inr (tw_grossCents w)))"

section \<open>The memoised readers\<close>

definition CACHE_TTL_MS :: int where "CACHE_TTL_MS = 60000"

definition remember_settings :: "FygaroSettings option \<Rightarrow> int \<Rightarrow> FygaroSettings option io" where
  "remember_settings v now = ignoreI (Remember_settings v now) (Done v)"

definition getFygaroSettings :: "FygaroSettings option io" where
  "getFygaroSettings =
     Await_now (\<lambda>now.
     Await_settings_cache (\<lambda>cache.
     let fetch = Await_erp_settings (\<lambda>doc.
           case doc of
             Inl e \<Rightarrow> remember_settings None now
           | Inr d \<Rightarrow> remember_settings (validateFygaroSettings d) now)
     in case cache of
          Some (v, at_ms) \<Rightarrow> if now - at_ms < CACHE_TTL_MS then Done v else fetch
        | None \<Rightarrow> fetch))"

definition remember_discounts :: "(string \<Rightarrow> FeeDiscount option) \<Rightarrow> int \<Rightarrow> (string \<Rightarrow> FeeDiscount option) io" where
  "remember_discounts v now = ignoreI (Remember_discounts v now) (Done v)"

definition loadDiscounts :: "(string \<Rightarrow> FeeDiscount option) io" where
  "loadDiscounts =
     Await_now (\<lambda>now.
     Await_discounts_cache (\<lambda>cache.
     let fetch = Await_erp_discounts (\<lambda>docs.
           case docs of
             Inl e \<Rightarrow> remember_discounts Map.empty now
           | Inr ds \<Rightarrow> remember_discounts (discounts_of ds) now)
     in case cache of
          Some (v, at_ms) \<Rightarrow> if now - at_ms < CACHE_TTL_MS then Done v else fetch
        | None \<Rightarrow> fetch))"

definition getFlashFeeDiscountPercent :: "string option \<Rightarrow> FeeDiscountFlow \<Rightarrow> rat io" where
  "getFlashFeeDiscountPercent username flow =
     (case username of
        None \<Rightarrow> Done 0
      | Some u \<Rightarrow>
          if u = '''' then Done 0
          else bindI loadDiscounts (\<lambda>discounts. Done (discount_for discounts u flow)))"

end
