(* ===== verification/FygaroAuthorize.thy ===== *)
theory FygaroAuthorize
  imports FygaroIntents FygaroTopups
begin

text \<open>
  The authorisation of a card top-up before the charge (\<open>src/app/fygaro/authorize-topup.ts\<close>) and the query
  of the remaining allowance (\<open>src/app/fygaro/topup-allowance.ts\<close>). The random id of a new intent is an
  argument, and so is the keyed hash that signs the link. The stages of the one source function are
  definitions of their own, in the order of the code.
\<close>

section \<open>Results\<close>

datatype AuthorizeTopupFailure =
    Checkout_disabled | Fail_settings_unavailable | Below_minimum | Fail_non_positive_net
  | Above_single_payment_limit | Fail_no_daily_limit_for_level | Fail_history_unavailable
  | Reservations_unavailable | Exceeds_daily_allowance | Checkout_already_open

record AuthorizeTopupRefusal =
  rf_reason :: AuthorizeTopupFailure
  rf_remainingAllowanceCents :: "int option"
  rf_limitCents :: "int option"
  rf_minimumCents :: "int option"
  rf_holdExpiresAt :: "int option"
  rf_holdAmountCents :: "int option"

text \<open>An authorisation has the link, the allowance that remains and whether the link was handed back.\<close>

datatype AuthorizeTopupResult =
    Authorized FygaroCheckout int bool
  | Refused AuthorizeTopupRefusal

fun FAILURE_BY_GATE_REASON :: "RecordOnlyReason \<Rightarrow> AuthorizeTopupFailure" where
  "FAILURE_BY_GATE_REASON Credit_disabled = Checkout_disabled"
| "FAILURE_BY_GATE_REASON Auto_credit_disabled = Checkout_disabled"
| "FAILURE_BY_GATE_REASON Non_usd = Checkout_disabled"
| "FAILURE_BY_GATE_REASON Intent_mismatch = Checkout_disabled"
| "FAILURE_BY_GATE_REASON Settings_unavailable = Fail_settings_unavailable"
| "FAILURE_BY_GATE_REASON History_unavailable = Fail_history_unavailable"
| "FAILURE_BY_GATE_REASON Over_limit = Above_single_payment_limit"
| "FAILURE_BY_GATE_REASON No_daily_limit_for_level = Fail_no_daily_limit_for_level"
| "FAILURE_BY_GATE_REASON Daily_limit_exceeded = Exceeds_daily_allowance"
| "FAILURE_BY_GATE_REASON Non_positive_net = Fail_non_positive_net"
| "FAILURE_BY_GATE_REASON Under_minimum = Below_minimum"

text \<open>The arguments of a request, with the time it started and the id a new intent gets.\<close>

record topup_request =
  tr_accountId :: string
  tr_username :: string
  tr_level :: int
  tr_amountCents :: int
  tr_nowMs :: int
  tr_intentId :: string

section \<open>Refusals\<close>

definition dailyLimitCents :: "FygaroSettings option \<Rightarrow> int \<Rightarrow> int option" where
  "dailyLimitCents settings level = map_option usd_to_cents (Option.bind settings (\<lambda>st. dailyTopupLimits st level))"

definition refuseWith ::
  "FygaroSettings option \<Rightarrow> int \<Rightarrow> AuthorizeTopupFailure \<Rightarrow> int option \<Rightarrow> int option \<Rightarrow> AuthorizeTopupRefusal" where
  "refuseWith settings level reason remaining limitCents =
     \<lparr>rf_reason = reason, rf_remainingAllowanceCents = remaining,
      rf_limitCents = keep_given limitCents (dailyLimitCents settings level),
      rf_minimumCents = map_option (\<lambda>st. usd_to_cents (minimumTopup st)) settings,
      rf_holdExpiresAt = None, rf_holdAmountCents = None\<rparr>"

definition refuse :: "FygaroSettings option \<Rightarrow> int \<Rightarrow> RecordOnlyReason \<Rightarrow> int option \<Rightarrow> AuthorizeTopupRefusal" where
  "refuse settings level reason remaining =
     refuseWith settings level (FAILURE_BY_GATE_REASON reason) remaining
       (if reason = Over_limit then map_option (\<lambda>st. usd_to_cents (autoCreditLimit st)) settings
        else dailyLimitCents settings level)"

fun transient_text :: "AuthorizeTopupFailure \<Rightarrow> string" where
  "transient_text Fail_settings_unavailable = ''settings-unavailable''"
| "transient_text Fail_history_unavailable = ''history-unavailable''"
| "transient_text _ = ''reservations-unavailable''"

definition refuseTransient :: "FygaroSettings option \<Rightarrow> int \<Rightarrow> AuthorizeTopupFailure \<Rightarrow> AuthorizeTopupResult io" where
  "refuseTransient settings level reason =
     ignoreI (Notify (Alert Warning (''fygaro:authorize-unavailable:'' @ transient_text reason)))
       (Done (Refused (refuseWith settings level reason None None)))"

text \<open>The first of the holds that expire soonest.\<close>

fun soonest :: "FygaroReservation list \<Rightarrow> FygaroReservation option \<Rightarrow> FygaroReservation option" where
  "soonest [] earliest = earliest"
| "soonest (r # rs) earliest =
     soonest rs (case earliest of
                   None \<Rightarrow> Some r
                 | Some e \<Rightarrow> if rs_expiresAtMs r < rs_expiresAtMs e then Some r else Some e)"

text \<open>What the link an account already holds must be to be handed back.\<close>

definition reusable :: "topup_request \<Rightarrow> IntentLookup \<Rightarrow> (FygaroCheckoutIntent \<times> string \<times> int) option" where
  "reusable req lookup =
     (case lookup of
        Found intent \<Rightarrow>
          (case (in_checkoutUrl intent, in_expiresAtMs intent) of
             (Some url, Some expiresAtMs) \<Rightarrow>
               if in_accountId intent = tr_accountId req \<and> in_outcome intent = None \<and> expiresAtMs > tr_nowMs req
               then Some (intent, url, expiresAtMs) else None
           | _ \<Rightarrow> None)
      | Not_found _ \<Rightarrow> None)"

definition open_checkout_refusal ::
  "FygaroSettings option \<Rightarrow> topup_request \<Rightarrow> FygaroReservation list \<Rightarrow> int \<Rightarrow> int \<Rightarrow> AuthorizeTopupResult" where
  "open_checkout_refusal settings req reservations dailyLimit remaining =
     (let hold = soonest reservations None
      in Refused ((refuseWith settings (tr_level req) Checkout_already_open (Some remaining) (Some dailyLimit))
           \<lparr>rf_holdExpiresAt := map_option rs_expiresAtMs hold, rf_holdAmountCents := map_option rs_amountCents hold\<rparr>))"

definition refuseOpenCheckout ::
  "FygaroSettings option \<Rightarrow> topup_request \<Rightarrow> FygaroReservation list \<Rightarrow> int \<Rightarrow> int \<Rightarrow> AuthorizeTopupResult io" where
  "refuseOpenCheckout settings req reservations dailyLimit remaining =
     (case List.find (\<lambda>r. rs_amountCents r = tr_amountCents req) reservations of
        None \<Rightarrow> Done (open_checkout_refusal settings req reservations dailyLimit remaining)
      | Some sameAmount \<Rightarrow>
          bindI (readIntent (rs_intentId sameAmount)) (\<lambda>lookup.
          case reusable req lookup of
            Some (intent, url, expiresAtMs) \<Rightarrow>
              Done (Authorized
                \<lparr>fy_url = url, fy_expiresAt = expiresAtMs,
                 fy_customReference = buildCustomReference (in_username intent) (Some (in_intentId intent)),
                 fy_intentId = in_intentId intent\<rparr> remaining True)
          | None \<Rightarrow> Done (open_checkout_refusal settings req reservations dailyLimit remaining)))"

section \<open>Reserving and checking again\<close>

definition outstanding :: "FygaroReservation list \<Rightarrow> int" where
  "outstanding reservations = sum_list (map rs_amountCents reservations)"

definition new_intent :: "topup_request \<Rightarrow> FygaroCheckout \<Rightarrow> FygaroCheckoutIntent" where
  "new_intent req checkout =
     \<lparr>in_intentId = tr_intentId req, in_accountId = tr_accountId req, in_username = tr_username req,
      in_amountCents = tr_amountCents req, in_currency = ''USD'', in_createdAtMs = tr_nowMs req,
      in_checkoutUrl = Some (fy_url checkout), in_expiresAtMs = Some (fy_expiresAt checkout), in_outcome = None\<rparr>"

definition rolled_back :: "int \<Rightarrow> int \<Rightarrow> int \<Rightarrow> int \<Rightarrow> AuthorizeTopupResult" where
  "rolled_back dailyLimit priorCents outstandingAfter amountCents =
     Refused \<lparr>rf_reason = Exceeds_daily_allowance,
       rf_remainingAllowanceCents = Some (max 0 (dailyLimit - priorCents - (outstandingAfter - amountCents))),
       rf_limitCents = Some dailyLimit, rf_minimumCents = None, rf_holdExpiresAt = None, rf_holdAmountCents = None\<rparr>"

definition check_again ::
  "topup_request \<Rightarrow> FygaroCheckout \<Rightarrow> int option \<Rightarrow> int \<Rightarrow> int \<Rightarrow> AuthorizeTopupResult io" where
  "check_again req checkout dailyLimit priorCents allowanceCents =
     bindI (readOutstandingReservations (tr_accountId req) (tr_nowMs req)) (\<lambda>after.
     let granted = Done (Authorized checkout (allowanceCents - tr_amountCents req) False)
     in case (after, dailyLimit) of
          (Inr rs, Some limit) \<Rightarrow>
            if priorCents + outstanding rs > limit
            then bindI (releaseIntentReservation (tr_accountId req) (tr_intentId req) (tr_amountCents req)) (\<lambda>_.
                 Done (rolled_back limit priorCents (outstanding rs) (tr_amountCents req)))
            else granted
        | _ \<Rightarrow> granted)"

definition mint ::
  "(string \<Rightarrow> string \<Rightarrow> string) \<Rightarrow> FygaroCheckoutMaster \<Rightarrow> FygaroSettings option \<Rightarrow> topup_request \<Rightarrow> int \<Rightarrow> int
   \<Rightarrow> AuthorizeTopupResult io" where
  "mint hmac master settings req priorCents allowanceCents =
     (let checkout = buildFygaroCheckout hmac master (tr_username req) (tr_intentId req) (tr_amountCents req) ''USD'' (tr_nowMs req)
      in bindI (saveIntent (new_intent req checkout) (ma_ttlSeconds master)) (\<lambda>saved.
         if saved = Inl FygaroReservationWriteError
         then refuseTransient settings (tr_level req) Reservations_unavailable
         else check_again req checkout (dailyLimitCents settings (tr_level req)) priorCents allowanceCents))"

section \<open>The decision\<close>

definition decide ::
  "(string \<Rightarrow> string \<Rightarrow> string) \<Rightarrow> FygaroCheckoutMaster \<Rightarrow> FygaroSettings option \<Rightarrow> topup_request \<Rightarrow> int
   \<Rightarrow> FygaroReservation list \<Rightarrow> rat \<Rightarrow> AuthorizeTopupResult io" where
  "decide hmac master settings req priorCents reservations discount =
     (let spentCents = priorCents + outstanding reservations;
          remaining = map_option (\<lambda>limit. max 0 (limit - spentCents)) (dailyLimitCents settings (tr_level req))
      in case evaluateCreditGate True ''USD'' settings (tr_amountCents req) (tr_level req) (Some spentCents) discount of
           Credit fees \<Rightarrow>
             mint hmac master settings req priorCents (case remaining of Some r \<Rightarrow> r | None \<Rightarrow> 0)
         | Record_only reason \<Rightarrow>
             (case dailyLimitCents settings (tr_level req) of
                Some limit \<Rightarrow>
                  if reason = Daily_limit_exceeded \<and> priorCents + tr_amountCents req \<le> limit
                  then refuseOpenCheckout settings req reservations limit (case remaining of Some r \<Rightarrow> r | None \<Rightarrow> 0)
                  else Done (Refused (refuse settings (tr_level req) reason remaining))
              | None \<Rightarrow> Done (Refused (refuse settings (tr_level req) reason remaining))))"

definition read_and_decide ::
  "(string \<Rightarrow> string \<Rightarrow> string) \<Rightarrow> FygaroCheckoutMaster \<Rightarrow> FygaroSettings option \<Rightarrow> topup_request
   \<Rightarrow> AuthorizeTopupResult io" where
  "read_and_decide hmac master settings req =
     bindI (sumFygaroTopupGrossCentsLast24h (tr_accountId req) None) (\<lambda>prior.
     case prior of
       Inl e \<Rightarrow> refuseTransient settings (tr_level req) Fail_history_unavailable
     | Inr priorCents \<Rightarrow>
         bindI (readOutstandingReservations (tr_accountId req) (tr_nowMs req)) (\<lambda>reservations.
         case reservations of
           Inl e \<Rightarrow> refuseTransient settings (tr_level req) Reservations_unavailable
         | Inr rs \<Rightarrow>
             bindI (getFlashFeeDiscountPercent (Some (tr_username req)) Topup_flow) (\<lambda>discount.
             decide hmac master settings req priorCents rs discount)))"

definition with_settings ::
  "(string \<Rightarrow> string \<Rightarrow> string) \<Rightarrow> FygaroCheckoutMaster \<Rightarrow> topup_request \<Rightarrow> FygaroSettings option
   \<Rightarrow> AuthorizeTopupResult io" where
  "with_settings hmac master req settings =
     (case evaluateCreditGate True ''USD'' settings (tr_amountCents req) (tr_level req) None 0 of
        Record_only reason \<Rightarrow>
          if reason = History_unavailable then read_and_decide hmac master settings req
          else if reason = Settings_unavailable then refuseTransient settings (tr_level req) Fail_settings_unavailable
          else Done (Refused (refuse settings (tr_level req) reason None))
      | Credit _ \<Rightarrow> read_and_decide hmac master settings req)"

definition authorizeFygaroTopup ::
  "(string \<Rightarrow> string \<Rightarrow> string) \<Rightarrow> FygaroConfig option \<Rightarrow> string \<Rightarrow> string \<Rightarrow> int \<Rightarrow> int \<Rightarrow> string \<Rightarrow> AuthorizeTopupResult io" where
  "authorizeFygaroTopup hmac config accountId username level amountCents intentId =
     Await_now (\<lambda>nowMs.
     case fygaroCheckoutMasterGate config of
       None \<Rightarrow>
         Done (Refused \<lparr>rf_reason = Checkout_disabled, rf_remainingAllowanceCents = None, rf_limitCents = None,
           rf_minimumCents = None, rf_holdExpiresAt = None, rf_holdAmountCents = None\<rparr>)
     | Some master \<Rightarrow>
         bindI getFygaroSettings
           (with_settings hmac master
              \<lparr>tr_accountId = accountId, tr_username = username, tr_level = level, tr_amountCents = amountCents,
               tr_nowMs = nowMs, tr_intentId = intentId\<rparr>))"

section \<open>The allowance query\<close>

record FygaroTopupAllowance =
  al_limitCents :: int
  al_spentCents :: int
  al_heldCents :: int
  al_remainingCents :: int
  al_singlePaymentLimitCents :: int
  al_minimumCents :: int
  al_resetsAt :: "int option"
  al_holdsExpireAt :: "int option"

datatype FygaroTopupAllowanceResult = Available FygaroTopupAllowance | Unavailable AuthorizeTopupFailure

definition soonest_expiry :: "FygaroReservation list \<Rightarrow> int option" where
  "soonest_expiry rs =
     fold (\<lambda>r acc. Some (case acc of None \<Rightarrow> rs_expiresAtMs r | Some t \<Rightarrow> min t (rs_expiresAtMs r))) rs None"

definition allowance_of ::
  "FygaroSettings \<Rightarrow> int \<Rightarrow> FygaroTopupWindow \<Rightarrow> FygaroReservation list \<Rightarrow> FygaroTopupAllowance" where
  "allowance_of st limit window rs =
     \<lparr>al_limitCents = limit, al_spentCents = tw_grossCents window, al_heldCents = outstanding rs,
      al_remainingCents = max 0 (limit - tw_grossCents window - outstanding rs),
      al_singlePaymentLimitCents = usd_to_cents (autoCreditLimit st),
      al_minimumCents = usd_to_cents (minimumTopup st),
      al_resetsAt = map_option (\<lambda>t. t + DAY_MS) (tw_oldestCountedMs window),
      al_holdsExpireAt = soonest_expiry rs\<rparr>"

definition getFygaroTopupAllowance :: "FygaroConfig option \<Rightarrow> string \<Rightarrow> int \<Rightarrow> FygaroTopupAllowanceResult io" where
  "getFygaroTopupAllowance config accountId level =
     Await_now (\<lambda>nowMs.
     case fygaroCheckoutMasterGate config of
       None \<Rightarrow> Done (Unavailable Checkout_disabled)
     | Some _ \<Rightarrow>
         bindI getFygaroSettings (\<lambda>settings.
         case settings of
           None \<Rightarrow> Done (Unavailable Fail_settings_unavailable)
         | Some st \<Rightarrow>
             if \<not> autoCreditEnabled st then Done (Unavailable Checkout_disabled)
             else case dailyTopupLimits st level of
               None \<Rightarrow> Done (Unavailable Fail_no_daily_limit_for_level)
             | Some dailyLimitUsd \<Rightarrow>
                 bindI (readFygaroTopupWindowLast24h accountId None) (\<lambda>window.
                 case window of
                   Inl e \<Rightarrow> Done (Unavailable Fail_history_unavailable)
                 | Inr w \<Rightarrow>
                     bindI (readOutstandingReservations accountId nowMs) (\<lambda>reservations.
                     case reservations of
                       Inl e \<Rightarrow> Done (Unavailable Reservations_unavailable)
                     | Inr rs \<Rightarrow> Done (Available (allowance_of st (usd_to_cents dailyLimitUsd) w rs))))))"

end
