(* ===== verification/FygaroConcurrency.thy ===== *)
theory FygaroConcurrency
  imports FygaroIo
begin

text \<open>
  Programs that run concurrently on the same services: each event is one call of one of them, with or
  without a fault, or time passing. Properties of every interleaving are proved by rely and guarantee:
  a program is safe when each of its calls keeps its guarantee and it ends well, whatever the others do
  within what it relies on.
\<close>

section \<open>Interleaved runs\<close>

datatype event = Step nat call_fault | Tick nat

fun fire :: "event \<Rightarrow> 'a io list \<times> services \<Rightarrow> 'a io list \<times> services" where
  "fire (Step i f) (ms, s) =
     (if i < length ms then case step f (ms ! i) s of (m, t) \<Rightarrow> (ms[i := m], t) else (ms, s))"
| "fire (Tick n) (ms, s) = (ms, s\<lparr>clock := clock s + int n\<rparr>)"

text \<open>A run whose faults are among those allowed for the call that a program makes.\<close>

fun allowed_run :: "('a io \<Rightarrow> call_fault \<Rightarrow> bool) \<Rightarrow> event list \<Rightarrow> 'a io list \<times> services \<Rightarrow> bool" where
  "allowed_run ok [] sys \<longleftrightarrow> True"
| "allowed_run ok (e # es) sys \<longleftrightarrow>
     (case e of Step i f \<Rightarrow> i < length (fst sys) \<longrightarrow> ok (fst sys ! i) f | Tick n \<Rightarrow> True)
     \<and> allowed_run ok es (fire e sys)"

fun run_events :: "event list \<Rightarrow> 'a io list \<times> services \<Rightarrow> 'a io list \<times> services" where
  "run_events [] sys = sys"
| "run_events (e # es) sys = run_events es (fire e sys)"

definition faultless :: "event list \<Rightarrow> bool" where
  "faultless evs \<longleftrightarrow> list_all (\<lambda>e. case e of Step i f \<Rightarrow> f = Works | Tick n \<Rightarrow> True) evs"

lemma allowed_faultless: "(\<And>m. ok m Works) \<Longrightarrow> faultless evs \<Longrightarrow> allowed_run ok evs sys"
  by (induction evs arbitrary: sys) (auto simp: faultless_def split: event.splits)

text \<open>The programs in turns, one call each, all of which work.\<close>

definition in_turns :: "nat \<Rightarrow> nat \<Rightarrow> event list" where
  "in_turns rounds n = concat (replicate rounds (map (\<lambda>i. Step i Works) [0 ..< n]))"

lemma in_turns_faultless: "faultless (in_turns rounds n)"
  by (auto simp: faultless_def in_turns_def list_all_iff)

definition is_done :: "'a io \<Rightarrow> bool" where
  "is_done m \<longleftrightarrow> (case m of Done _ \<Rightarrow> True | _ \<Rightarrow> False)"

lemma is_done_simps [simp]:
  "is_done (Done x)" "\<not> is_done (Await_unit c ku)" "\<not> is_done (Await_bool b kb)" "\<not> is_done (Await_now kn)"
  "\<not> is_done (Await_cache_get key kg)" "\<not> is_done (Await_raw_get key kr)" "\<not> is_done (Await_zrange key kz)"
  "\<not> is_done (Await_settings_cache ks)" "\<not> is_done (Await_discounts_cache kd)"
  "\<not> is_done (Await_erp_settings es)" "\<not> is_done (Await_erp_discounts ed)"
  "\<not> is_done (Await_erp_topups a since excl et)" "\<not> is_done (Await_erp_find rid ef)"
  "\<not> is_done (Await_account q ka)" "\<not> is_done (Await_user_id email kid)" "\<not> is_done (Await_wallets a kws)"
  "\<not> is_done (Await_wallet wid kw)" "\<not> is_done (Await_invoice wid amt memo ki)" "\<not> is_done (Await_pay wid bolt kp)"
  by (simp_all add: is_done_def)

lemma is_done_iff: "is_done m \<longleftrightarrow> (\<exists>x. m = Done x)"
  by (cases m) simp_all

lemma step_done [simp]: "is_done m \<Longrightarrow> step f m s = (m, s)"
  by (auto simp: is_done_iff)

section \<open>Safe programs\<close>

text \<open>
  \<open>endg\<close> holds at the moment a program ends, \<open>post\<close> from then on.
\<close>

inductive safe ::
  "('a io \<Rightarrow> call_fault \<Rightarrow> bool) \<Rightarrow> (services \<Rightarrow> services \<Rightarrow> bool) \<Rightarrow> (services \<Rightarrow> services \<Rightarrow> bool)
   \<Rightarrow> ('a \<Rightarrow> services \<Rightarrow> bool) \<Rightarrow> ('a \<Rightarrow> services \<Rightarrow> bool) \<Rightarrow> 'a io \<Rightarrow> services \<Rightarrow> bool"
  for ok rely guar endg post where
  safe_done: "(\<And>t. rely s t \<Longrightarrow> post x t) \<Longrightarrow> safe ok rely guar endg post (Done x) s"
| safe_await: "\<not> is_done m
    \<Longrightarrow> (\<And>t f. rely s t \<Longrightarrow> ok m f \<Longrightarrow> guar t (snd (step f m t)))
    \<Longrightarrow> (\<And>t f x. rely s t \<Longrightarrow> ok m f \<Longrightarrow> fst (step f m t) = Done x \<Longrightarrow> endg x (snd (step f m t)))
    \<Longrightarrow> (\<And>t f. rely s t \<Longrightarrow> ok m f \<Longrightarrow> safe ok rely guar endg post (fst (step f m t)) (snd (step f m t)))
    \<Longrightarrow> safe ok rely guar endg post m s"

inductive_cases safe_DoneE: "safe ok rely guar endg post (Done x) s"

lemma safe_later:
  assumes "safe ok rely guar endg post m s" "rely s t"
    and trans: "\<And>a b c. rely a b \<Longrightarrow> rely b c \<Longrightarrow> rely a c"
  shows "safe ok rely guar endg post m t"
  using assms(1,2)
proof (cases rule: safe.cases)
  case (safe_done x)
  then show ?thesis using assms(2) trans by (metis safe.safe_done)
next
  case safe_await
  show ?thesis
    by (rule safe.safe_await) (use safe_await trans [OF assms(2)] in blast)+
qed

lemma safe_step:
  assumes "safe ok rely guar endg post m s" "ok m f" "\<And>a. rely a a"
  shows "safe ok rely guar endg post (fst (step f m s)) (snd (step f m s))"
    and "\<not> is_done m \<Longrightarrow> guar s (snd (step f m s))"
    and "\<not> is_done m \<Longrightarrow> fst (step f m s) = Done x \<Longrightarrow> endg x (snd (step f m s))"
  using assms by (cases rule: safe.cases; simp; blast)+

text \<open>One call: what holds after it for every outcome.\<close>

lemma safe_call:
  assumes "\<not> is_done m"
    and "\<And>t f. rely s t \<Longrightarrow> ok m f \<Longrightarrow>
      (case step f m t of (m', u) \<Rightarrow>
         guar t u \<and> (\<forall>x. m' = Done x \<longrightarrow> endg x u) \<and> safe ok rely guar endg post m' u)"
  shows "safe ok rely guar endg post m s"
proof (rule safe_await [OF assms(1)])
  fix t f
  assume "rely s t" "ok m f"
  from assms(2) [OF this] have *: "guar t (snd (step f m t)) \<and> (\<forall>x. fst (step f m t) = Done x \<longrightarrow> endg x (snd (step f m t)))
      \<and> safe ok rely guar endg post (fst (step f m t)) (snd (step f m t))" by (simp add: case_prod_beta)
  from * show "guar t (snd (step f m t))" by simp
  from * show "safe ok rely guar endg post (fst (step f m t)) (snd (step f m t))" by simp
  from * show "endg x (snd (step f m t))" if "fst (step f m t) = Done x" for x using that by simp
qed

section \<open>Concurrent programs\<close>

text \<open>
  Several programs with their own relies and guarantees, where each one's guarantee is among what the
  others rely on.
\<close>

locale concurrent =
  fixes rely guar :: "nat \<Rightarrow> services \<Rightarrow> services \<Rightarrow> bool"
  assumes rely_refl: "rely i s s"
    and rely_trans: "rely i s t \<Longrightarrow> rely i t u \<Longrightarrow> rely i s u"
    and guar_refl: "guar i s s"
    and rely_guar: "i \<noteq> j \<Longrightarrow> guar i s t \<Longrightarrow> rely j s t"
    and rely_tick: "rely i s (s\<lparr>clock := clock s + int n\<rparr>)"
begin

definition all_safe where
  "all_safe ok endg post sys \<longleftrightarrow>
     (\<forall>i < length (fst sys). safe ok (rely i) (guar i) (endg i) (post i) (fst sys ! i) (snd sys))"

lemma fire_safe:
  assumes "all_safe ok endg post sys" "allowed_run ok [e] sys"
  shows "all_safe ok endg post (fire e sys)"
    and "length (fst sys) \<le> j \<Longrightarrow> rely j (snd sys) (snd (fire e sys))"
proof -
  obtain ms s where sys: "sys = (ms, s)" by (cases sys)
  have sf: "safe ok (rely i) (guar i) (endg i) (post i) (ms ! i) s" if "i < length ms" for i
    using assms(1) that by (simp add: sys all_safe_def)
  have others: "rely j s (snd (step f (ms ! i) s))" if "i < length ms" "j \<noteq> i" "ok (ms ! i) f" for i j f
  proof (cases "is_done (ms ! i)")
    case True then show ?thesis by (simp add: rely_refl)
  next
    case False
    with safe_step(2) [OF sf [OF that(1)] that(3) rely_refl]
    have "guar i s (snd (step f (ms ! i) s))" by simp
    then show ?thesis by (rule rely_guar [OF that(2) [symmetric]])
  qed
  show "all_safe ok endg post (fire e sys)"
  proof (cases e)
    case (Tick n)
    then show ?thesis
      by (auto simp: all_safe_def sys intro!: safe_later [OF sf rely_tick] elim: rely_trans)
  next
    case (Step i f)
    show ?thesis
    proof (cases "i < length ms")
      case True
      with assms(2) Step have ok: "ok (ms ! i) f" by (simp add: sys)
      have "safe ok (rely j) (guar j) (endg j) (post j) (ms[i := fst (step f (ms ! i) s)] ! j) (snd (step f (ms ! i) s))"
        if "j < length ms" for j
      proof (cases "j = i")
        case True
        then show ?thesis using safe_step(1) [OF sf [OF \<open>i < length ms\<close>] ok rely_refl] \<open>i < length ms\<close> by simp
      next
        case False
        have "safe ok (rely j) (guar j) (endg j) (post j) (ms ! j) (snd (step f (ms ! i) s))"
          by (rule safe_later [OF sf [OF that] others [OF True False ok]]) (rule rely_trans)
        with False show ?thesis by simp
      qed
      then show ?thesis using Step True by (simp add: all_safe_def sys case_prod_beta)
    qed (use assms(1) Step in \<open>simp add: sys\<close>)
  qed
  show "rely j (snd sys) (snd (fire e sys))" if "length (fst sys) \<le> j"
  proof (cases e)
    case (Step i f)
    with that assms(2) show ?thesis by (auto simp: sys case_prod_beta rely_refl intro: others)
  qed (simp add: sys rely_tick)
qed

lemma all_safe_post:
  assumes "all_safe ok endg post (ms, s)" "i < length ms" "ms ! i = Done x"
  shows "post i x s"
proof -
  have "safe ok (rely i) (guar i) (endg i) (post i) (Done x) s" using assms by (auto simp: all_safe_def)
  then show ?thesis by (rule safe_DoneE) (auto intro: rely_refl)
qed

text \<open>
  From every state with \<open>J\<close> the program is safe: the rules go through a program call by call, with a
  condition at each point that no other program can invalidate.
\<close>

definition stable where "stable i J \<longleftrightarrow> (\<forall>s t. J s \<longrightarrow> rely i s t \<longrightarrow> J t)"

definition safely where
  "safely ok endg post i J m \<longleftrightarrow>
     (\<forall>s. J s \<longrightarrow> safe ok (rely i) (guar i) (endg i) (post i) m s \<and> (\<forall>x. m = Done x \<longrightarrow> endg i x s))"

lemma safely_safe: "safely ok endg post i J m \<Longrightarrow> J s \<Longrightarrow> safe ok (rely i) (guar i) (endg i) (post i) m s"
  by (simp add: safely_def)

lemma safely_weaken: "safely ok endg post i J m \<Longrightarrow> (\<And>s. K s \<Longrightarrow> J s) \<Longrightarrow> safely ok endg post i K m"
  by (simp add: safely_def)

lemma safely_done:
  assumes "stable i K" "\<And>s. J s \<Longrightarrow> endg i x s" "\<And>s. J s \<Longrightarrow> K s" "\<And>s. K s \<Longrightarrow> post i x s"
  shows "safely ok endg post i J (Done x)"
  unfolding safely_def
proof (intro allI impI conjI)
  fix s
  assume "J s"
  then show "safe ok (rely i) (guar i) (endg i) (post i) (Done x) s"
    using assms(1,3,4) by (intro safe_done) (auto simp: stable_def)
qed (use assms(2) in auto)

lemma safely_call:
  assumes "stable i J" "\<not> is_done m"
    and "\<And>s f. J s \<Longrightarrow> ok m f \<Longrightarrow> guar i s (snd (step f m s))"
    and "\<And>s f. J s \<Longrightarrow> ok m f \<Longrightarrow> K (fst (step f m s)) (snd (step f m s))"
    and "\<And>m'. safely ok endg post i (K m') m'"
  shows "safely ok endg post i J m"
  unfolding safely_def
proof (intro allI impI conjI)
  fix s
  assume "J s"
  show "safe ok (rely i) (guar i) (endg i) (post i) m s"
  proof (rule safe_call [OF assms(2)])
    fix t f
    assume "rely i s t" and ok: "ok m f"
    with \<open>J s\<close> assms(1) have "J t" by (auto simp: stable_def)
    show "case step f m t of (m', u) \<Rightarrow>
        guar i t u \<and> (\<forall>x. m' = Done x \<longrightarrow> endg i x u) \<and> safe ok (rely i) (guar i) (endg i) (post i) m' u"
      using assms(3) [OF \<open>J t\<close> ok] assms(4) [OF \<open>J t\<close> ok] assms(5) [of "fst (step f m t)"]
      unfolding case_prod_beta safely_def by blast
  qed
qed (use assms(2) in auto)

lemma safely_unit:
  assumes "stable i J"
    and "\<And>s f r t. J s \<Longrightarrow> ok (Await_unit c k) f \<Longrightarrow> unit_reply f c s = (r, t) \<Longrightarrow> guar i s t \<and> K r t"
    and "\<And>r. safely ok endg post i (K r) (k r)"
  shows "safely ok endg post i J (Await_unit c k)"
  by (rule safely_call [where K = "\<lambda>m' t. \<exists>r. m' = k r \<and> K r t"])
     (use assms in \<open>auto simp: case_prod_beta safely_def prod_eq_iff\<close>)

text \<open>Reads leave the services as they are.\<close>

lemma safely_read:
  assumes "stable i J" "\<not> is_done m" "\<And>s f. snd (step f m s) = s"
    and "\<And>s f. J s \<Longrightarrow> ok m f \<Longrightarrow> \<exists>K. K s \<and> safely ok endg post i K (fst (step f m s))"
  shows "safely ok endg post i J m"
  by (rule safely_call [where K = "\<lambda>m' t. \<exists>K. K t \<and> safely ok endg post i K m'"])
     (use assms in \<open>auto simp: safely_def guar_refl\<close>)

lemma safely_now:
  "stable i J \<Longrightarrow> (\<And>n. safely ok endg post i (\<lambda>s. J s \<and> n \<le> clock s) (k n)) \<Longrightarrow> safely ok endg post i J (Await_now k)"
  by (rule safely_read) (auto intro!: exI [of _ "\<lambda>s. J s \<and> n \<le> clock s" for n])

lemma safely_reads:
  assumes "stable i J"
  shows "(\<And>r. safely ok endg post i J (kc r)) \<Longrightarrow> safely ok endg post i J (Await_cache_get key kc)"
    and "(\<And>r. safely ok endg post i J (kd r)) \<Longrightarrow> safely ok endg post i J (Await_discounts_cache kd)"
    and "(\<And>r. safely ok endg post i J (ke r)) \<Longrightarrow> safely ok endg post i J (Await_erp_discounts ke)"
  by (rule safely_read [OF assms]; auto intro: exI [of _ J])+

end

text \<open>Time does not pass during a call.\<close>

lemma perform_clock: "clock (snd (perform_unit c s)) = clock s" "clock (snd (perform_bool b s)) = clock s"
  by (cases c; auto simp: redis_set_def split: option.splits) (cases b; auto simp: redis_set_def)

lemma step_clock: "clock (snd (step f m s)) = clock s"
  by (cases m) (simp_all add: case_prod_beta unit_reply_def bool_reply_def with_fault_def add_invoice_def pay_invoice_def
      perform_clock split: call_fault.splits list.splits)

lemma fire_clock: "clock (snd sys) \<le> clock (snd (fire e sys))"
  by (cases sys; cases e) (auto simp: case_prod_beta step_clock)

lemma run_clock: "clock (snd sys) \<le> clock (snd (run_events evs sys))"
proof (induction evs arbitrary: sys)
  case (Cons e evs)
  then show ?case using fire_clock [of sys e] order_trans by (metis run_events.simps(2))
qed simp

lemma length_fire [simp]: "length (fst (fire e sys)) = length (fst sys)"
  by (cases sys; cases e) (auto split: prod.splits)

end
