(* ===== verification/FygaroReservations.thy ===== *)
theory FygaroReservations
  imports FygaroAuthorize FygaroConcurrency
begin

text \<open>
  Concurrent authorisations and the daily allowance. Each request reserves its amount in the account's
  index and then reads the index again; the theorems say when that is enough for the links an account
  holds never to exceed what its daily limit leaves, and when it is not.
\<close>

section \<open>What is spent and what is held\<close>

definition cents_or_0 :: "transfer_row \<Rightarrow> int" where
  "cents_or_0 row = (case row_cents row of Some c \<Rightarrow> c | None \<Rightarrow> 0)"

definition window_cents :: "string \<Rightarrow> int \<Rightarrow> services \<Rightarrow> int" where
  "window_cents accountId since s = sum_list (map cents_or_0 (filter counts (topup_rows accountId since None s)))"

text \<open>The gross of the day that ends now.\<close>

definition spent_cents :: "string \<Rightarrow> services \<Rightarrow> int" where
  "spent_cents accountId s = window_cents accountId (clock s - DAY_MS) s"

definition holds :: "string \<Rightarrow> services \<Rightarrow> (string \<times> int) list" where
  "holds accountId s = zsets s (accountIntentsKey accountId)"

definition entry_cents :: "string \<times> int \<Rightarrow> int" where
  "entry_cents e = reservationAmountCents (fst e)"

definition held_cents :: "(string \<times> int) list \<Rightarrow> int" where
  "held_cents es = sum_list (map entry_cents es)"

definition amounts_nonneg :: "services \<Rightarrow> bool" where
  "amounts_nonneg s \<longleftrightarrow> list_all (\<lambda>row. 0 \<le> cents_or_0 row) (erp_rows s)"

lemma sum_rows_gross: "sum_rows rows acc oldest = Inr w \<Longrightarrow> tw_grossCents w = acc + sum_list (map cents_or_0 (filter counts rows))"
  by (induction rows acc oldest rule: sum_rows.induct) (auto simp: cents_or_0_def split: if_splits option.splits)

lemma sum_filter_mono:
  assumes "list_all (\<lambda>x. 0 \<le> f x) xs" "\<And>x. P x \<Longrightarrow> Q x"
  shows "sum_list (map f (filter P xs)) \<le> (sum_list (map f (filter Q xs)) :: int)"
  using assms(1) by (induction xs) (auto simp: assms(2))

lemma sum_part_le:
  assumes "distinct xs" "set xs \<subseteq> set ys" "\<And>y. 0 \<le> f y"
  shows "sum_list (map f xs) \<le> (sum_list (map f ys) :: int)"
proof -
  have "sum_list (map f xs) = sum f (set xs)" using assms(1) by (rule sum_list_distinct_conv_sum_set)
  also have "\<dots> \<le> sum f (set ys)" using assms(2,3) by (intro sum_mono2) auto
  also have "\<dots> \<le> sum_list (map f ys)"
  proof (induction ys)
    case (Cons y ys)
    then show ?case using assms(3) [of y] by (cases "y \<in> set ys") (auto simp: insert_absorb)
  qed simp
  finally show ?thesis .
qed

lemma entry_cents_nonneg: "0 \<le> entry_cents e"
  by (auto simp: entry_cents_def reservationAmountCents_def split: js_number.splits)

lemma outstanding_held: "outstanding (reservations_of es) = held_cents es"
proof (induction es)
  case (Cons e es)
  then show ?case
    using entry_cents_nonneg [of e]
    by (cases e) (auto simp: outstanding_def reservations_of_def held_cents_def entry_cents_def)
qed (simp add: outstanding_def reservations_of_def held_cents_def)

lemma window_cents_mono:
  assumes "erp_rows t = erp_rows s" "amounts_nonneg s" "since \<le> since'"
  shows "window_cents acct since' t \<le> window_cents acct since s"
proof -
  have "toFrappeDatetime since \<le> toFrappeDatetime since'"
    using assms(3) by (simp add: toFrappeDatetime_def zdiv_mono1)
  then show ?thesis
    using assms(1,2) unfolding window_cents_def topup_rows_def amounts_nonneg_def filter_filter
    by (auto intro!: sum_filter_mono split: option.splits)
qed

section \<open>Rely and guarantee\<close>

text \<open>The settings row reads as \<open>st\<close>, and so does what the process remembers of it.\<close>

definition known_settings :: "FygaroSettings \<Rightarrow> services \<Rightarrow> bool" where
  "known_settings st s \<longleftrightarrow> validateFygaroSettings (erp_settings s) = Some st
     \<and> (case settings_cache s of Some (Some st', _) \<Rightarrow> st' = st | _ \<Rightarrow> True)"

text \<open>The members of the index belong to the requests: each to the first that has it, the rest to none.\<close>

definition position :: "string list \<Rightarrow> string \<Rightarrow> nat" where
  "position ms m = length (takeWhile (\<lambda>x. x \<noteq> m) ms)"

definition keeps :: "string \<Rightarrow> (string \<Rightarrow> bool) \<Rightarrow> services \<Rightarrow> services \<Rightarrow> bool" where
  "keeps acct K s t \<longleftrightarrow> (\<forall>e \<in> set (holds acct s). K (fst e) \<longrightarrow> clock t < snd e \<longrightarrow> e \<in> set (holds acct t))"

definition res_frame :: "FygaroSettings \<Rightarrow> services \<Rightarrow> services \<Rightarrow> bool" where
  "res_frame st s t \<longleftrightarrow> clock s \<le> clock t \<and> erp_rows t = erp_rows s \<and> (known_settings st s \<longrightarrow> known_settings st t)"

definition res_rely :: "string \<Rightarrow> FygaroSettings \<Rightarrow> string list \<Rightarrow> nat \<Rightarrow> services \<Rightarrow> services \<Rightarrow> bool" where
  "res_rely acct st ms i s t \<longleftrightarrow> res_frame st s t \<and> keeps acct (\<lambda>m. position ms m = i) s t"

definition res_guar :: "string \<Rightarrow> FygaroSettings \<Rightarrow> string list \<Rightarrow> nat \<Rightarrow> services \<Rightarrow> services \<Rightarrow> bool" where
  "res_guar acct st ms i s t \<longleftrightarrow> res_frame st s t \<and> keeps acct (\<lambda>m. position ms m \<noteq> i) s t"

interpretation reserve: concurrent "res_rely acct st ms" "res_guar acct st ms" for acct st ms
proof unfold_locales
  fix i j s t u n
  show "res_rely acct st ms i s s" "res_guar acct st ms i s s"
    by (simp_all add: res_rely_def res_guar_def res_frame_def keeps_def)
  show "res_rely acct st ms i s u" if "res_rely acct st ms i s t" "res_rely acct st ms i t u"
    using that by (fastforce simp: res_rely_def res_frame_def keeps_def)
  show "res_rely acct st ms j s t" if "i \<noteq> j" "res_guar acct st ms i s t"
    using that by (auto simp: res_rely_def res_guar_def keeps_def)
  show "res_rely acct st ms i s (s\<lparr>clock := clock s + int n\<rparr>)"
    by (simp add: res_rely_def res_frame_def keeps_def known_settings_def holds_def)
qed

section \<open>The points of an authorisation\<close>

definition member_of :: "topup_request \<Rightarrow> string" where
  "member_of req = reservationMember (tr_intentId req) (tr_amountCents req)"

text \<open>
  What a request knows: the settings, that its start is past, and, when it is a request of this account,
  a sum that is at least what is spent, and the entry it has written.
\<close>

definition stage ::
  "string \<Rightarrow> FygaroSettings \<Rightarrow> topup_request \<Rightarrow> int option \<Rightarrow> int option \<Rightarrow> services \<Rightarrow> bool" where
  "stage acct st req prior expiry s \<longleftrightarrow>
     known_settings st s \<and> amounts_nonneg s \<and> tr_nowMs req \<le> clock s
     \<and> (tr_accountId req = acct \<longrightarrow>
          (\<forall>p. prior = Some p \<longrightarrow> spent_cents acct s \<le> p)
          \<and> (\<forall>sc. expiry = Some sc \<longrightarrow> clock s < sc \<longrightarrow> (member_of req, sc) \<in> set (holds acct s)))"

text \<open>A link minted for the account: the limit is kept at that moment, and its hold stays while it is live.\<close>

definition issue_end :: "string \<Rightarrow> int \<Rightarrow> topup_request \<Rightarrow> AuthorizeTopupResult \<Rightarrow> services \<Rightarrow> bool" where
  "issue_end acct limit req x s \<longleftrightarrow>
     (case x of
        Authorized c rem reused \<Rightarrow>
          \<not> reused \<and> tr_accountId req = acct \<longrightarrow> spent_cents acct s + held_cents (holds acct s) \<le> limit
      | Refused _ \<Rightarrow> True)"

definition issue_post :: "string \<Rightarrow> topup_request \<Rightarrow> AuthorizeTopupResult \<Rightarrow> services \<Rightarrow> bool" where
  "issue_post acct req x s \<longleftrightarrow>
     (case x of
        Authorized c rem reused \<Rightarrow>
          \<not> reused \<and> tr_accountId req = acct \<longrightarrow>
            (\<exists>sc. fy_expiresAt c \<le> sc \<and> (clock s < sc \<longrightarrow> (member_of req, sc) \<in> set (holds acct s)))
      | Refused _ \<Rightarrow> True)"

text \<open>Every call may fail but the two that read the index.\<close>

definition index_reads_work :: "'a io \<Rightarrow> call_fault \<Rightarrow> bool" where
  "index_reads_work m f \<longleftrightarrow>
     (case m of
        Await_zrange _ _ \<Rightarrow> f = Works
      | Await_unit (Zremrangebyscore _ _) _ \<Rightarrow> f = Works
      | _ \<Rightarrow> True)"

abbreviation good ::
  "string \<Rightarrow> FygaroSettings \<Rightarrow> string list \<Rightarrow> int \<Rightarrow> topup_request \<Rightarrow> nat \<Rightarrow> (services \<Rightarrow> bool)
   \<Rightarrow> AuthorizeTopupResult io \<Rightarrow> bool" where
  "good acct st ms limit req i J m \<equiv>
     reserve.safely acct st ms index_reads_work (\<lambda>_. issue_end acct limit req) (\<lambda>_. issue_post acct req) i J m"

lemma spent_frame:
  "res_frame st s t \<Longrightarrow> amounts_nonneg s \<Longrightarrow> spent_cents acct t \<le> spent_cents acct s"
  unfolding spent_cents_def by (rule window_cents_mono) (auto simp: res_frame_def)

lemma amounts_frame: "res_frame st s t \<Longrightarrow> amounts_nonneg t \<longleftrightarrow> amounts_nonneg s"
  by (simp add: res_frame_def amounts_nonneg_def)

lemma stage_frame:
  assumes "stage acct st req prior expiry s" "res_frame st s t"
    and "tr_accountId req = acct \<Longrightarrow> keeps acct (\<lambda>m. m = member_of req) s t"
  shows "stage acct st req prior expiry t"
  unfolding stage_def
proof (intro conjI impI allI)
  show "known_settings st t" "tr_nowMs req \<le> clock t" "amounts_nonneg t"
    using assms(1,2) by (auto simp: stage_def res_frame_def amounts_frame [OF assms(2)])
  have a: "amounts_nonneg s" using assms(1) by (simp add: stage_def)
  show "spent_cents acct t \<le> p" if "tr_accountId req = acct" "prior = Some p" for p
    using assms(1) that spent_frame [OF assms(2) a, of acct] by (simp add: stage_def)
  show "(member_of req, sc) \<in> set (holds acct t)" if "tr_accountId req = acct" "expiry = Some sc" "clock t < sc" for sc
    using assms that by (fastforce simp: stage_def keeps_def res_frame_def)
qed

lemma stage_stable:
  assumes "position ms (member_of req) = i"
  shows "reserve.stable acct st ms i (stage acct st req prior expiry)"
  unfolding reserve.stable_def
proof (intro allI impI)
  fix s t
  assume s: "stage acct st req prior expiry s" and r: "res_rely acct st ms i s t"
  have "keeps acct (\<lambda>m. m = member_of req) s t" using r assms by (auto simp: res_rely_def keeps_def)
  with s show "stage acct st req prior expiry t"
    using r by (auto simp: res_rely_def intro: stage_frame)
qed

text \<open>Calls that touch neither the index nor the settings.\<close>

fun neutral :: "unit_call \<Rightarrow> bool" where
  "neutral (Expire _ _) \<longleftrightarrow> True"
| "neutral (Cache_set _ _ _) \<longleftrightarrow> True"
| "neutral (Notify _) \<longleftrightarrow> True"
| "neutral (Remember_discounts _ _) \<longleftrightarrow> True"
| "neutral _ \<longleftrightarrow> False"

lemma neutral_reply:
  assumes "neutral c" "unit_reply f c s = (r, t)"
  shows "clock t = clock s" "erp_rows t = erp_rows s" "erp_settings t = erp_settings s"
    "settings_cache t = settings_cache s" "zsets t = zsets s"
  using assms by (cases c; auto simp: unit_reply_def with_fault_def redis_set_def split: call_fault.splits if_splits)+

lemma same_guar:
  assumes "clock t = clock s" "erp_rows t = erp_rows s" "erp_settings t = erp_settings s"
    "settings_cache t = settings_cache s" "zsets t = zsets s"
  shows "res_guar acct st ms i s t" and "stage acct st req prior expiry s \<Longrightarrow> stage acct st req prior expiry t"
  using assms by (auto simp: res_guar_def res_frame_def keeps_def known_settings_def holds_def stage_def
      amounts_nonneg_def spent_cents_def window_cents_def topup_rows_def)

lemma good_neutral:
  assumes "position ms (member_of req) = i" "neutral c"
    and "\<And>r. good acct st ms limit req i (stage acct st req prior expiry) (k r)"
  shows "good acct st ms limit req i (stage acct st req prior expiry) (Await_unit c k)"
proof (rule reserve.safely_unit [OF stage_stable [OF assms(1)] _ assms(3)])
  fix s f r t
  assume s: "stage acct st req prior expiry s" and u: "unit_reply f c s = (r, t)"
  note n = neutral_reply [OF assms(2) u]
  show "res_guar acct st ms i s t \<and> stage acct st req prior expiry t"
    using same_guar(1) [OF n] same_guar(2) [OF n s] by blast
qed

lemma good_refused:
  assumes "position ms (member_of req) = i"
  shows "good acct st ms limit req i (stage acct st req prior expiry) (Done (Refused rf))"
    and "good acct st ms limit req i (stage acct st req prior expiry) (Done (Authorized c rem True))"
  by (rule reserve.safely_done [OF stage_stable [OF assms], of _ _ _ _ _ prior expiry];
      simp add: issue_end_def issue_post_def)+

lemma good_refuseTransient:
  "position ms (member_of req) = i \<Longrightarrow>
     good acct st ms limit req i (stage acct st req prior expiry) (refuseTransient settings level reason)"
  unfolding refuseTransient_def ignoreI_def by (rule good_neutral) (simp_all add: good_refused)

section \<open>The calls on the index\<close>

lemma accountIntentsKey_eq [simp]: "accountIntentsKey a = accountIntentsKey b \<longleftrightarrow> a = b"
  by (simp add: accountIntentsKey_def)

lemma set_zset_insert: "set (zset_insert e zs) = insert e (set zs)"
  by (induction zs) auto

lemma set_zset_add: "set (zset_add m sc zs) = insert (m, sc) {e \<in> set zs. fst e \<noteq> m}"
  by (auto simp: zset_add_def set_zset_insert)

text \<open>A change of one account's index alone.\<close>

lemma index_frame: "res_frame st s (s\<lparr>zsets := z\<rparr>)"
  by (simp add: res_frame_def known_settings_def)

lemma good_prune:
  assumes p: "position ms (member_of req) = i"
    and k: "good acct st ms limit req i (stage acct st req prior expiry) (k (Inr ()))"
  shows "good acct st ms limit req i (stage acct st req prior expiry)
    (Await_unit (Zremrangebyscore (accountIntentsKey (tr_accountId req)) (tr_nowMs req)) k)"
proof (rule reserve.safely_unit [OF stage_stable [OF p], where K = "\<lambda>r s. r = Inr () \<and> stage acct st req prior expiry s"])
  fix s f r t
  assume s: "stage acct st req prior expiry s"
    and ok: "index_reads_work (Await_unit (Zremrangebyscore (accountIntentsKey (tr_accountId req)) (tr_nowMs req)) k) f"
    and u: "unit_reply f (Zremrangebyscore (accountIntentsKey (tr_accountId req)) (tr_nowMs req)) s = (r, t)"
  from ok u have r: "r = Inr ()" and t: "t = s\<lparr>zsets := (zsets s)(accountIntentsKey (tr_accountId req) :=
      filter (\<lambda>e. tr_nowMs req < snd e) (zsets s (accountIntentsKey (tr_accountId req))))\<rparr>"
    by (simp_all add: index_reads_work_def unit_reply_def with_fault_def)
  have "tr_nowMs req \<le> clock s" using s by (simp add: stage_def)
  then have kp: "keeps acct K s t" for K by (auto simp: keeps_def holds_def t)
  have fr: "res_frame st s t" unfolding t by (rule index_frame)
  show "res_guar acct st ms i s t \<and> r = Inr () \<and> stage acct st req prior expiry t"
    using r kp fr stage_frame [OF s fr] by (simp add: res_guar_def)
next
  fix r
  show "good acct st ms limit req i (\<lambda>s. r = Inr () \<and> stage acct st req prior expiry s) (k r)"
    using k by (cases "r = Inr ()") (auto simp: reserve.safely_def)
qed

lemma good_zrange:
  assumes p: "position ms (member_of req) = i"
    and k: "\<And>es. good acct st ms limit req i
      (\<lambda>s. stage acct st req prior expiry s \<and> es = holds (tr_accountId req) s) (k (Inr es))"
  shows "good acct st ms limit req i (stage acct st req prior expiry)
    (Await_zrange (accountIntentsKey (tr_accountId req)) k)"
proof (rule reserve.safely_read [OF stage_stable [OF p]])
  fix s f
  assume s: "stage acct st req prior expiry s"
    and "index_reads_work (Await_zrange (accountIntentsKey (tr_accountId req)) k) f"
  then have eq: "fst (step f (Await_zrange (accountIntentsKey (tr_accountId req)) k) s) = k (Inr (holds (tr_accountId req) s))"
    by (simp add: index_reads_work_def read_fault_def holds_def)
  show "\<exists>K. K s \<and> good acct st ms limit req i K (fst (step f (Await_zrange (accountIntentsKey (tr_accountId req)) k) s))"
    unfolding eq using s k [of "holds (tr_accountId req) s"] by (intro exI conjI) (rule conjI [OF s refl], assumption)
qed simp_all

lemma good_zadd:
  assumes p: "position ms (member_of req) = i"
    and k: "\<And>e. good acct st ms limit req i (stage acct st req prior None) (k (Inl e))"
      "good acct st ms limit req i (stage acct st req prior (Some score)) (k (Inr ()))"
  shows "good acct st ms limit req i (stage acct st req prior None)
    (Await_unit (Zadd (accountIntentsKey (tr_accountId req)) score (member_of req)) k)"
proof (rule reserve.safely_unit [where K = "\<lambda>r. stage acct st req prior (case r of Inl _ \<Rightarrow> None | Inr _ \<Rightarrow> Some score)"])
  fix s f r t
  assume s: "stage acct st req prior None s"
    and u: "unit_reply f (Zadd (accountIntentsKey (tr_accountId req)) score (member_of req)) s = (r, t)"
  define t' where "t' = s\<lparr>zsets := (zsets s)(accountIntentsKey (tr_accountId req) :=
      zset_add (member_of req) score (zsets s (accountIntentsKey (tr_accountId req))))\<rparr>"
  have t: "t = s \<and> (\<exists>e. r = Inl e) \<or> t = t'"
    using u by (cases f) (auto simp: unit_reply_def with_fault_def t'_def)
  have "res_guar acct st ms i s t'"
    using p index_frame by (auto simp: res_guar_def keeps_def holds_def t'_def set_zset_add)
  moreover have "stage acct st req prior x t'" if "x \<in> {None, Some score}" for x
  proof -
    have "stage acct st req prior None t'"
      using s spent_frame [OF index_frame] index_frame [of st s]
      by (auto simp: stage_def t'_def res_frame_def amounts_nonneg_def spent_cents_def window_cents_def topup_rows_def)
    then show ?thesis using that by (auto simp: stage_def t'_def holds_def set_zset_add)
  qed
  ultimately show "res_guar acct st ms i s t
      \<and> stage acct st req prior (case r of Inl _ \<Rightarrow> None | Inr _ \<Rightarrow> Some score) t"
    using t s reserve.guar_refl by (auto split: sum.splits)
qed (use k stage_stable [OF p] in \<open>auto split: sum.splits\<close>)

lemma good_zrem:
  assumes p: "position ms (member_of req) = i"
    and k: "\<And>r. good acct st ms limit req i (stage acct st req prior None) (k r)"
  shows "good acct st ms limit req i (stage acct st req prior expiry)
    (Await_unit (Zrem (accountIntentsKey (tr_accountId req)) (member_of req)) k)"
proof (rule reserve.safely_unit [OF stage_stable [OF p] _ k])
  fix s f r t
  assume s: "stage acct st req prior expiry s"
    and u: "unit_reply f (Zrem (accountIntentsKey (tr_accountId req)) (member_of req)) s = (r, t)"
  define t' where "t' = s\<lparr>zsets := (zsets s)(accountIntentsKey (tr_accountId req) :=
      filter (\<lambda>e. fst e \<noteq> member_of req) (zsets s (accountIntentsKey (tr_accountId req))))\<rparr>"
  have t: "t = s \<or> t = t'" using u by (cases f) (auto simp: unit_reply_def with_fault_def t'_def)
  have "res_guar acct st ms i s t'"
    using p index_frame by (auto simp: res_guar_def keeps_def holds_def t'_def)
  moreover have "stage acct st req prior None t'"
    using s index_frame [of st s]
    by (auto simp: stage_def t'_def res_frame_def amounts_nonneg_def spent_cents_def window_cents_def topup_rows_def)
  moreover have "stage acct st req prior None s" using s by (simp add: stage_def)
  ultimately show "res_guar acct st ms i s t \<and> stage acct st req prior None t"
    using t reserve.guar_refl by auto
qed

section \<open>Every authorisation is safe\<close>

lemma good_check_again:
  assumes p: "position ms (member_of req) = i" and "fy_expiresAt checkout \<le> sc"
    and dl: "tr_accountId req = acct \<Longrightarrow> dl = Some limit"
  shows "good acct st ms limit req i (stage acct st req (Some prior) (Some sc)) (check_again req checkout dl prior allow)"
proof -
  have granted: "good acct st ms limit req i J (Done (Authorized checkout (allow - tr_amountCents req) False))"
    if "\<And>s. J s \<Longrightarrow> stage acct st req (Some prior) (Some sc) s"
      "\<And>s. J s \<Longrightarrow> tr_accountId req = acct \<Longrightarrow> prior + held_cents (holds acct s) \<le> limit" for J
  proof (rule reserve.safely_done [OF stage_stable [OF p] _ that(1)])
    fix s
    assume "J s"
    with that have "stage acct st req (Some prior) (Some sc) s"
      "tr_accountId req = acct \<Longrightarrow> prior + held_cents (holds acct s) \<le> limit" by auto
    then show "issue_end acct limit req (Authorized checkout (allow - tr_amountCents req) False) s"
      by (auto simp: issue_end_def stage_def)
  qed (use assms(2) in \<open>auto simp: issue_post_def stage_def\<close>)
  have rolled: "good acct st ms limit req i (stage acct st req (Some prior) (Some sc))
      (bindI (releaseIntentReservation (tr_accountId req) (tr_intentId req) (tr_amountCents req)) (\<lambda>_. Done (Refused rf)))" for rf
    unfolding releaseIntentReservation_def ignoreI_def bindI.simps member_of_def [symmetric]
    by (intro good_zrem good_refused p)
  show ?thesis
    unfolding check_again_def readOutstandingReservations_def Let_def bindI.simps
  proof (intro good_prune [OF p], unfold sum.case bindI.simps, rule good_zrange [OF p])
    fix es
    show "good acct st ms limit req i (\<lambda>s. stage acct st req (Some prior) (Some sc) s \<and> es = holds (tr_accountId req) s)
      (bindI (case Inr es of Inl e \<Rightarrow> Done (Inl e) | Inr es \<Rightarrow> Done (Inr (reservations_of es)))
        (\<lambda>after. case (after, dl) of
            (Inr rs, Some limit) \<Rightarrow>
              if limit < prior + outstanding rs
              then bindI (releaseIntentReservation (tr_accountId req) (tr_intentId req) (tr_amountCents req))
                     (\<lambda>_. Done (rolled_back limit prior (outstanding rs) (tr_amountCents req)))
              else Done (Authorized checkout (allow - tr_amountCents req) False)
          | _ \<Rightarrow> Done (Authorized checkout (allow - tr_amountCents req) False)))"
      using dl
      by (auto simp: outstanding_held rolled_back_def not_less split: option.splits
          intro!: granted rolled [THEN reserve.safely_weaken])
  qed
qed

lemma checkout_expiry: "fy_expiresAt (buildFygaroCheckout hmac master u i n cur now) \<le> now + ma_ttlSeconds master * 1000"
proof -
  have "now div 1000 * 1000 \<le> now" by presburger
  then show ?thesis by (simp add: buildFygaroCheckout_def Let_def algebra_simps)
qed

lemma good_mint:
  assumes p: "position ms (member_of req) = i"
    and dl: "tr_accountId req = acct \<Longrightarrow> dailyLimitCents settings (tr_level req) = Some limit"
  shows "good acct st ms limit req i (stage acct st req (Some prior) None) (mint hmac master settings req prior allow)"
proof -
  define checkout where "checkout = buildFygaroCheckout hmac master (tr_username req) (tr_intentId req)
    (tr_amountCents req) ''USD'' (tr_nowMs req)"
  define sc where "sc = tr_nowMs req + ma_ttlSeconds master * 1000"
  have c: "good acct st ms limit req i (stage acct st req (Some prior) (Some sc))
      (check_again req checkout (dailyLimitCents settings (tr_level req)) prior allow)"
    using checkout_expiry dl by (intro good_check_again p) (simp_all add: checkout_def sc_def)
  show ?thesis
    unfolding mint_def saveIntent_def Let_def ignoreI_def bindI.simps checkout_def [symmetric]
    by (simp add: new_intent_def member_of_def [symmetric] sc_def [symmetric])
       (intro good_zadd [OF p], auto split: sum.splits intro!: good_refuseTransient good_neutral c p)
qed

lemma good_refuseOpenCheckout:
  assumes p: "position ms (member_of req) = i"
  shows "good acct st ms limit req i (stage acct st req prior expiry) (refuseOpenCheckout settings req rs dl rem)"
  unfolding refuseOpenCheckout_def readIntent_def open_checkout_refusal_def Let_def bindI.simps
  by (auto split: option.splits sum.splits stored.splits
      intro!: reserve.safely_reads(1) [OF stage_stable [OF p]] good_refused [OF p])

lemma good_decide:
  assumes p: "position ms (member_of req) = i"
    and dl: "tr_accountId req = acct \<Longrightarrow> dailyLimitCents settings (tr_level req) = Some limit"
  shows "good acct st ms limit req i (stage acct st req (Some prior) None) (decide hmac master settings req prior rs d)"
  unfolding decide_def Let_def
  by (auto split: CreditGate.splits option.splits
      intro!: good_refuseOpenCheckout [OF p] good_refused [OF p] good_mint [OF p] dl)

lemma stage_now_stable:
  assumes "position ms (member_of req) = i"
  shows "reserve.stable acct st ms i (\<lambda>s. stage acct st req prior expiry s \<and> n \<le> clock s)"
  using stage_stable [OF assms, of acct st prior expiry]
  by (auto simp: reserve.stable_def res_rely_def res_frame_def)

lemma good_history:
  assumes p: "position ms (member_of req) = i"
    and k: "\<And>prior. good acct st ms limit req i (stage acct st req (Some prior) None) (k (Inr prior))"
      "\<And>e. good acct st ms limit req i (stage acct st req None None) (k (Inl e))"
  shows "good acct st ms limit req i (stage acct st req None None)
    (bindI (sumFygaroTopupGrossCentsLast24h (tr_accountId req) None) k)"
  unfolding sumFygaroTopupGrossCentsLast24h_def readFygaroTopupWindowLast24h_def sumFygaroTopupGrossCentsSince_def
    bindI.simps option.map
proof (rule reserve.safely_now [OF stage_stable [OF p]], rule reserve.safely_read [OF stage_now_stable [OF p]])
  fix n s f
  assume s: "stage acct st req None None s \<and> n \<le> clock s"
  have nice: "stage acct st req (Some (tw_grossCents w)) None s"
    if "sum_rows (topup_rows (tr_accountId req) (n - DAY_MS) None s) 0 None = Inr w" for w
  proof -
    have "window_cents (tr_accountId req) (clock s - DAY_MS) s \<le> window_cents (tr_accountId req) (n - DAY_MS) s"
      using s by (intro window_cents_mono) (auto simp: stage_def)
    then show ?thesis
      using s sum_rows_gross [OF that] by (auto simp: stage_def window_cents_def spent_cents_def)
  qed
  show "\<exists>K. K s \<and> good acct st ms limit req i K (fst (step f (Await_erp_topups (tr_accountId req) (n - DAY_MS) None
      (\<lambda>r. bindI (bindI (case r of Inl e \<Rightarrow> Done (Inl FygaroTopupHistoryQueryError) | Inr rs \<Rightarrow> Done (sum_rows rs 0 None))
          (\<lambda>window. case window of Inl e \<Rightarrow> Done (Inl e) | Inr w \<Rightarrow> Done (Inr (tw_grossCents w)))) k)) s))"
  proof (cases "read_fault f (Inr (topup_rows (tr_accountId req) (n - DAY_MS) None s))")
    case (Inl e)
    then show ?thesis using s k(2) by (auto intro!: exI [of _ "stage acct st req None None"])
  next
    case (Inr rs)
    then have rs: "rs = topup_rows (tr_accountId req) (n - DAY_MS) None s"
      by (auto simp: read_fault_def split: call_fault.splits)
    show ?thesis
    proof (cases "sum_rows rs 0 None")
      case (Inl e)
      then show ?thesis using \<open>read_fault f _ = Inr rs\<close> s k(2) by (auto intro!: exI [of _ "stage acct st req None None"])
    next
      case (Inr w)
      then show ?thesis
        using \<open>read_fault f _ = Inr rs\<close> nice [of w] rs k(1)
        by (auto intro!: exI [of _ "stage acct st req (Some (tw_grossCents w)) None"])
    qed
  qed
qed simp_all

lemma good_discount:
  assumes p: "position ms (member_of req) = i"
    and k: "\<And>d. good acct st ms limit req i (stage acct st req prior expiry) (k d)"
  shows "good acct st ms limit req i (stage acct st req prior expiry) (bindI (getFlashFeeDiscountPercent u flow) k)"
proof -
  have "good acct st ms limit req i (stage acct st req prior expiry)
      (bindI (bindI loadDiscounts (\<lambda>discounts. Done (discount_for discounts x flow))) k)" for x
    unfolding loadDiscounts_def remember_discounts_def ignoreI_def Let_def bindI.simps
    apply (rule reserve.safely_now [OF stage_stable [OF p]])
    apply (rule reserve.safely_weaken [of _ _ _ _ _ _ _ "stage acct st req prior expiry"])
    apply (rule reserve.safely_reads(2) [OF stage_stable [OF p]])
    apply (auto split: option.splits sum.splits
        intro!: k reserve.safely_reads(3) [OF stage_stable [OF p]] good_neutral [OF p])
    done
  then show ?thesis by (auto simp: getFlashFeeDiscountPercent_def k split: option.splits)
qed

lemma good_read_and_decide:
  assumes p: "position ms (member_of req) = i"
    and dl: "tr_accountId req = acct \<Longrightarrow> dailyLimitCents settings (tr_level req) = Some limit"
  shows "good acct st ms limit req i (stage acct st req None None) (read_and_decide hmac master settings req)"
proof -
  have "good acct st ms limit req i (stage acct st req (Some prior) None)
      (bindI (readOutstandingReservations (tr_accountId req) (tr_nowMs req)) (\<lambda>reservations.
         case reservations of
           Inl e \<Rightarrow> refuseTransient settings (tr_level req) Reservations_unavailable
         | Inr rs \<Rightarrow> bindI (getFlashFeeDiscountPercent (Some (tr_username req)) Topup_flow)
             (decide hmac master settings req prior rs)))" for prior
    unfolding readOutstandingReservations_def Let_def bindI.simps
    by (auto intro!: good_prune [OF p] good_zrange [OF p]
        reserve.safely_weaken [OF good_discount [OF p good_decide [OF p dl]]])
  then show ?thesis
    unfolding read_and_decide_def
    by (auto split: sum.splits intro!: good_history [OF p] good_refuseTransient [OF p])
qed

lemma good_with_settings:
  assumes p: "position ms (member_of req) = i" and v: "v = None \<or> v = Some st"
    and dl: "tr_accountId req = acct \<Longrightarrow> dailyLimitCents (Some st) (tr_level req) = Some limit"
  shows "good acct st ms limit req i (stage acct st req None None) (with_settings hmac master req v)"
proof (cases v)
  case None
  then show ?thesis
    by (simp add: with_settings_def evaluateCreditGate_def good_refuseTransient [OF p])
next
  case (Some st')
  with v have "v = Some st" by simp
  then show ?thesis
    by (auto simp: with_settings_def split: CreditGate.splits
        intro!: good_read_and_decide [OF p] good_refuseTransient [OF p] good_refused [OF p] dl)
qed

lemma good_remember:
  assumes p: "position ms (member_of req) = i" and v: "v = None \<or> v = Some st"
    and k: "good acct st ms limit req i (stage acct st req prior expiry) m"
  shows "good acct st ms limit req i (stage acct st req prior expiry) (Await_unit (Remember_settings v n) (\<lambda>r. m))"
proof (rule reserve.safely_unit [OF stage_stable [OF p] _ k])
  fix s f r t
  assume s: "stage acct st req prior expiry s" and u: "unit_reply f (Remember_settings v n) s = (r, t)"
  then have t: "t = s\<lparr>settings_cache := Some (v, n)\<rparr>" by (simp add: unit_reply_def with_fault_def)
  have fr: "res_frame st s t" using v by (auto simp: t res_frame_def known_settings_def)
  have kp: "keeps acct K s t" for K by (simp add: t keeps_def holds_def)
  show "res_guar acct st ms i s t \<and> stage acct st req prior expiry t"
    using stage_frame [OF s fr kp] fr kp by (simp add: res_guar_def)
qed

lemma good_settings:
  assumes p: "position ms (member_of req) = i"
    and k: "\<And>v. v = None \<or> v = Some st \<Longrightarrow> good acct st ms limit req i (stage acct st req None None) (k v)"
  shows "good acct st ms limit req i (stage acct st req None None) (bindI getFygaroSettings k)"
proof -
  let ?J = "stage acct st req None None"
  define fetch where "fetch n = Await_erp_settings (\<lambda>doc. case doc of
      Inl e \<Rightarrow> remember_settings None n | Inr d \<Rightarrow> remember_settings (validateFygaroSettings d) n)" for n
  have f: "good acct st ms limit req i ?J (bindI (fetch n) k)" for n
    unfolding fetch_def bindI.simps
  proof (rule reserve.safely_read [OF stage_stable [OF p]])
    fix s f
    assume s: "?J s"
    let ?k = "\<lambda>r. bindI (case r of Inl e \<Rightarrow> remember_settings None n | Inr d \<Rightarrow> remember_settings (validateFygaroSettings d) n) k"
    have "validateFygaroSettings (erp_settings s) = Some st" using s by (simp add: stage_def known_settings_def)
    then have "good acct st ms limit req i ?J (fst (step f (Await_erp_settings ?k) s))"
      using k by (cases f) (auto simp: read_fault_def remember_settings_def ignoreI_def intro!: good_remember [OF p])
    with s show "\<exists>K. K s \<and> good acct st ms limit req i K (fst (step f (Await_erp_settings ?k) s))" by blast
  qed simp_all
  define cached where "cached n cache = (case cache of
      Some (v, at_ms) \<Rightarrow> if n - at_ms < CACHE_TTL_MS then Done v else fetch n | None \<Rightarrow> fetch n)"
    for n and cache :: "(FygaroSettings option \<times> int) option"
  have c: "good acct st ms limit req i ?J (Await_settings_cache (\<lambda>cache. bindI (cached n cache) k))" for n
  proof (rule reserve.safely_read [OF stage_stable [OF p]])
    fix s f
    assume s: "?J s"
    then have "case settings_cache s of Some (Some st', _) \<Rightarrow> st' = st | _ \<Rightarrow> True"
      by (simp add: stage_def known_settings_def)
    then have "good acct st ms limit req i ?J (bindI (cached n (settings_cache s)) k)"
      using f [of n] k by (auto simp: cached_def split: option.splits)
    with s show "\<exists>K. K s \<and> good acct st ms limit req i K
        (fst (step f (Await_settings_cache (\<lambda>cache. bindI (cached n cache) k)) s))" by auto
  qed simp_all
  show ?thesis
    unfolding getFygaroSettings_def Let_def bindI.simps fetch_def [symmetric] cached_def [symmetric]
    by (rule reserve.safely_now [OF stage_stable [OF p]], rule reserve.safely_weaken [OF c]) simp
qed

text \<open>The program of a request; the time in it is read by the program itself.\<close>

definition authorize_of :: "(string \<Rightarrow> string \<Rightarrow> string) \<Rightarrow> FygaroConfig option \<Rightarrow> topup_request \<Rightarrow> AuthorizeTopupResult io" where
  "authorize_of hmac config r =
     authorizeFygaroTopup hmac config (tr_accountId r) (tr_username r) (tr_level r) (tr_amountCents r) (tr_intentId r)"

lemma authorize_safe:
  assumes "known_settings st s" "amounts_nonneg s" "position ms (member_of r) = i"
    and dl: "tr_accountId r = acct \<Longrightarrow> dailyLimitCents (Some st) (tr_level r) = Some limit"
  shows "safe index_reads_work (res_rely acct st ms i) (res_guar acct st ms i) (issue_end acct limit r) (issue_post acct r)
    (authorize_of hmac config r) s"
proof -
  let ?J = "\<lambda>s. known_settings st s \<and> amounts_nonneg s"
  define at_time where "at_time n = \<lparr>tr_accountId = tr_accountId r, tr_username = tr_username r, tr_level = tr_level r,
    tr_amountCents = tr_amountCents r, tr_nowMs = n, tr_intentId = tr_intentId r\<rparr>" for n
  have same: "issue_end acct limit (at_time n) = issue_end acct limit r" "issue_post acct (at_time n) = issue_post acct r"
    "member_of (at_time n) = member_of r" "tr_accountId (at_time n) = tr_accountId r" "tr_level (at_time n) = tr_level r" for n
    by (auto simp: at_time_def issue_end_def issue_post_def member_of_def intro!: ext split: AuthorizeTopupResult.splits)
  have st: "reserve.stable acct st ms i ?J"
    by (auto simp: reserve.stable_def res_rely_def res_frame_def amounts_nonneg_def)
  have "good acct st ms limit r i (\<lambda>s. ?J s \<and> n \<le> clock s) (case fygaroCheckoutMasterGate config of
      None \<Rightarrow> Done (Refused \<lparr>rf_reason = Checkout_disabled, rf_remainingAllowanceCents = None, rf_limitCents = None,
           rf_minimumCents = None, rf_holdExpiresAt = None, rf_holdAmountCents = None\<rparr>)
    | Some master \<Rightarrow> bindI getFygaroSettings (with_settings hmac master (at_time n)))" for n
  proof (rule reserve.safely_weaken [of _ _ _ _ _ _ _ "stage acct st (at_time n) None None"])
    have p: "position ms (member_of (at_time n)) = i" using assms(3) by (simp add: same)
    have "good acct st ms limit (at_time n) i (stage acct st (at_time n) None None)
        (bindI getFygaroSettings (with_settings hmac master (at_time n)))" for master
      by (rule good_settings [OF p], rule good_with_settings [OF p]) (use dl in \<open>auto simp: same\<close>)
    then show "good acct st ms limit r i (stage acct st (at_time n) None None) (case fygaroCheckoutMasterGate config of
        None \<Rightarrow> Done (Refused \<lparr>rf_reason = Checkout_disabled, rf_remainingAllowanceCents = None, rf_limitCents = None,
             rf_minimumCents = None, rf_holdExpiresAt = None, rf_holdAmountCents = None\<rparr>)
      | Some master \<Rightarrow> bindI getFygaroSettings (with_settings hmac master (at_time n)))"
      using good_refused(1) [OF p, of acct st limit] by (auto simp: same split: option.splits)
  qed (simp add: stage_def at_time_def)
  from reserve.safely_now [OF st this]
  have "good acct st ms limit r i ?J (authorize_of hmac config r)"
    unfolding authorize_of_def authorizeFygaroTopup_def at_time_def [symmetric] .
  from reserve.safely_safe [OF this] assms(1,2) show ?thesis by blast
qed

section \<open>Links are not over-issued\<close>

text \<open>A request of the account that ended with a new link, and that the link can still be paid.\<close>

definition issue_of :: "AuthorizeTopupResult io \<Rightarrow> FygaroCheckout option" where
  "issue_of m = (case m of Done (Authorized c rem reused) \<Rightarrow> if reused then None else Some c | _ \<Rightarrow> None)"

definition issued :: "string \<Rightarrow> topup_request list \<Rightarrow> AuthorizeTopupResult io list \<Rightarrow> nat \<Rightarrow> bool" where
  "issued acct reqs ms i \<longleftrightarrow> tr_accountId (reqs ! i) = acct \<and> issue_of (ms ! i) \<noteq> None"

definition live_issue :: "string \<Rightarrow> topup_request list \<Rightarrow> AuthorizeTopupResult io list \<Rightarrow> services \<Rightarrow> nat \<Rightarrow> bool" where
  "live_issue acct reqs ms s i \<longleftrightarrow>
     tr_accountId (reqs ! i) = acct \<and> (case issue_of (ms ! i) of Some c \<Rightarrow> clock s < fy_expiresAt c | None \<Rightarrow> False)"

definition issued_cents :: "string \<Rightarrow> topup_request list \<Rightarrow> AuthorizeTopupResult io list \<Rightarrow> services \<Rightarrow> int" where
  "issued_cents acct reqs ms s =
     sum_list (map (\<lambda>i. tr_amountCents (reqs ! i)) (filter (live_issue acct reqs ms s) [0 ..< length ms]))"

text \<open>The part of the entries that has not expired.\<close>

definition live_entries :: "(string \<times> int) list \<Rightarrow> services \<Rightarrow> (string \<times> int) list" where
  "live_entries es s = filter (\<lambda>e. clock s < snd e) es"

lemma issue_of_post:
  assumes "issue_of m = Some c" "\<And>x. m = Done x \<Longrightarrow> issue_post acct r x s" "tr_accountId r = acct"
  obtains sc where "fy_expiresAt c \<le> sc" "clock s < sc \<Longrightarrow> (member_of r, sc) \<in> set (holds acct s)"
  using assms by (fastforce simp: issue_of_def issue_post_def split: io.splits AuthorizeTopupResult.splits if_splits)

lemma member_cents:
  assumes "0 \<le> tr_amountCents r" "tr_amountCents r < 2 ^ 53"
  shows "entry_cents (member_of r, sc) = tr_amountCents r"
  using reservation_member_parts(1) [OF assms] by (simp add: entry_cents_def member_of_def)

lemma issued_le_held:
  assumes len: "length ms = length reqs"
    and post: "\<And>i x. i < length ms \<Longrightarrow> ms ! i = Done x \<Longrightarrow> issue_post acct (reqs ! i) x s"
    and amounts: "list_all (\<lambda>r. 0 \<le> tr_amountCents r \<and> tr_amountCents r < 2 ^ 53) reqs"
    and members: "distinct (map member_of reqs)"
    and old: "distinct es" "set (live_entries es s) \<subseteq> set (holds acct s)" "fst ` set es \<inter> member_of ` set reqs = {}"
  shows "held_cents (live_entries es s) + issued_cents acct reqs ms s \<le> held_cents (holds acct s)"
proof -
  let ?live = "filter (live_issue acct reqs ms s) [0 ..< length ms]"
  have "\<exists>sc. (member_of (reqs ! i), sc) \<in> set (holds acct s)" if "i \<in> set ?live" for i
  proof -
    from that obtain c where i: "i < length ms" "tr_accountId (reqs ! i) = acct" "issue_of (ms ! i) = Some c"
        "clock s < fy_expiresAt c" by (auto simp: live_issue_def split: option.splits)
    from issue_of_post [OF i(3) post [OF i(1)] i(2)] i(4) show ?thesis by (metis order_less_le_trans)
  qed
  then obtain sc where sc: "\<And>i. i \<in> set ?live \<Longrightarrow> (member_of (reqs ! i), sc i) \<in> set (holds acct s)" by metis
  define new where "new = map (\<lambda>i. (member_of (reqs ! i), sc i)) ?live"
  have inj: "inj_on (\<lambda>i. member_of (reqs ! i)) (set ?live)"
    using members len by (auto simp: inj_on_def distinct_conv_nth)
  have mem: "fst ` set new \<subseteq> member_of ` set reqs" using len by (auto simp: new_def)
  have "distinct new" using inj by (auto simp: new_def distinct_map inj_on_def)
  moreover have "set (live_entries es s) \<inter> set new = {}"
  proof -
    have "fst ` set (live_entries es s) \<subseteq> fst ` set es" by (auto simp: live_entries_def)
    with old(3) mem have "fst ` set (live_entries es s) \<inter> fst ` set new = {}" by blast
    then show ?thesis by blast
  qed
  ultimately have "distinct (live_entries es s @ new)" using old(1) by (simp add: live_entries_def)
  then have "held_cents (live_entries es s @ new) \<le> held_cents (holds acct s)"
    unfolding held_cents_def using old(2) sc entry_cents_nonneg by (intro sum_part_le) (auto simp: new_def)
  moreover have "held_cents new = issued_cents acct reqs ms s"
  proof -
    have "map entry_cents new = map (\<lambda>i. tr_amountCents (reqs ! i)) ?live"
      using amounts len by (auto simp: new_def list_all_length intro!: member_cents)
    then show ?thesis by (simp add: held_cents_def issued_cents_def)
  qed
  ultimately show ?thesis by (simp add: held_cents_def)
qed

lemma position_nth: "distinct xs \<Longrightarrow> i < length xs \<Longrightarrow> position xs (xs ! i) = i"
  unfolding position_def
proof (induction xs arbitrary: i)
  case (Cons x xs)
  then show ?case by (cases i) auto
qed simp

lemma position_absent: "m \<notin> set xs \<Longrightarrow> position xs m = length xs"
  by (induction xs) (auto simp: position_def)

text \<open>A step that mints no link leaves the sum of the live links at most what it was.\<close>

lemma issued_cents_mono:
  assumes "clock s \<le> clock t" "length ms' = length ms"
    and amounts: "list_all (\<lambda>r. 0 \<le> tr_amountCents r \<and> tr_amountCents r < 2 ^ 53) reqs" "length ms = length reqs"
    and same: "\<And>i. i < length ms \<Longrightarrow> tr_accountId (reqs ! i) = acct \<Longrightarrow> issue_of (ms' ! i) = issue_of (ms ! i)"
  shows "issued_cents acct reqs ms' t \<le> issued_cents acct reqs ms s"
proof -
  have "filter (live_issue acct reqs ms' t) [0 ..< length ms] =
      filter (\<lambda>i. live_issue acct reqs ms s i \<and> live_issue acct reqs ms' t i) [0 ..< length ms]"
    using assms(1) same by (auto simp: live_issue_def intro!: filter_cong split: option.splits)
  then show ?thesis
    unfolding issued_cents_def assms(2) using amounts
    by (auto simp: list_all_length intro!: sum_filter_mono)
qed

lemma live_entries_mono:
  assumes "clock s \<le> clock t"
  shows "held_cents (live_entries es t) \<le> held_cents (live_entries es s)"
  unfolding held_cents_def live_entries_def
  by (rule sum_filter_mono) (use assms entry_cents_nonneg in \<open>auto simp: list_all_iff\<close>)

text \<open>The limit is kept, once a link has been minted.\<close>

definition within_limit ::
  "string \<Rightarrow> int \<Rightarrow> topup_request list \<Rightarrow> (string \<times> int) list \<Rightarrow> AuthorizeTopupResult io list \<times> services \<Rightarrow> bool" where
  "within_limit acct limit reqs es sys \<longleftrightarrow>
     (\<exists>i < length reqs. issued acct reqs (fst sys) i) \<longrightarrow>
       spent_cents acct (snd sys) + held_cents (live_entries es (snd sys)) + issued_cents acct reqs (fst sys) (snd sys) \<le> limit"

lemma issue_of_await: "\<not> is_done m \<Longrightarrow> issue_of m = None"
  by (cases m) (simp_all add: issue_of_def)

lemma fire_within_limit:
  fixes ms :: "AuthorizeTopupResult io list" and acct :: string and limit :: int and reqs :: "topup_request list"
  defines "endg \<equiv> \<lambda>i. issue_end acct limit (reqs ! i)" and "post \<equiv> \<lambda>i. issue_post acct (reqs ! i)"
    and "mem \<equiv> map member_of reqs"
  assumes safe: "reserve.all_safe acct st mem index_reads_work endg post (ms, s)"
    and ok: "allowed_run index_reads_work [e] (ms, s)" and len: "length ms = length reqs"
    and amounts: "list_all (\<lambda>r. 0 \<le> tr_amountCents r \<and> tr_amountCents r < 2 ^ 53) reqs"
    and members: "distinct (map member_of reqs)" "amounts_nonneg s"
    and old: "distinct es" "fst ` set es \<inter> member_of ` set reqs = {}"
      "set (live_entries es (snd (fire e (ms, s)))) \<subseteq> set (holds acct (snd (fire e (ms, s))))"
    and within: "within_limit acct limit reqs es (ms, s)"
  shows "within_limit acct limit reqs es (fire e (ms, s))"
proof -
  obtain ms' t where fire: "fire e (ms, s) = (ms', t)" by (cases "fire e (ms, s)")
  have safe': "reserve.all_safe acct st mem index_reads_work endg post (ms', t)"
    using reserve.fire_safe(1) [OF safe ok] by (simp add: fire)
  have len': "length ms' = length reqs" using length_fire [of e "(ms, s)"] fire len by simp
  have fr: "res_frame st s t"
    using reserve.fire_safe(2) [OF safe ok, of "length reqs"] len by (simp add: fire res_rely_def)
  have quiet: "within_limit acct limit reqs es (ms', t)"
    if "\<And>i. i < length ms \<Longrightarrow> tr_accountId (reqs ! i) = acct \<Longrightarrow> issue_of (ms' ! i) = issue_of (ms ! i)"
  proof -
    have "clock s \<le> clock t" using fr by (simp add: res_frame_def)
    with spent_frame [OF fr members(2), of acct] issued_cents_mono [OF _ _ amounts len that, of s t]
      live_entries_mono [of s t es] within len len' that
    show ?thesis by (fastforce simp: within_limit_def issued_def)
  qed
  have noisy: "within_limit acct limit reqs es (ms', t)" if "spent_cents acct t + held_cents (holds acct t) \<le> limit"
  proof -
    have "issue_post acct (reqs ! i) x t" if "i < length ms'" "ms' ! i = Done x" for i x
      using reserve.all_safe_post [OF safe' that] by (simp add: post_def)
    from issued_le_held [OF len' this amounts members(1) old(1)] old(2,3) that fire
    show ?thesis by (simp add: within_limit_def)
  qed
  show ?thesis
  proof (cases e)
    case (Tick n)
    then show ?thesis using quiet fire by auto
  next
    case (Step i f)
    show ?thesis
    proof (cases "i < length ms \<and> \<not> is_done (ms ! i) \<and> issue_of (ms' ! i) \<noteq> None \<and> tr_accountId (reqs ! i) = acct")
      case True
      then obtain c rem where r: "ms' ! i = Done (Authorized c rem False)"
        by (auto simp: issue_of_def split: io.splits AuthorizeTopupResult.splits if_splits)
      with True Step fire have m: "fst (step f (ms ! i) s) = Done (Authorized c rem False)" "t = snd (step f (ms ! i) s)"
        by (auto simp: case_prod_beta)
      have "safe index_reads_work (res_rely acct st mem i) (res_guar acct st mem i) (endg i) (post i) (ms ! i) s"
        using safe True by (simp add: reserve.all_safe_def)
      from safe_step(3) [OF this _ _ _ m(1)] ok Step True
      have "endg i (Authorized c rem False) t" by (auto simp: m(2) intro: reserve.rely_refl)
      with True show ?thesis using noisy by (simp add: fire endg_def issue_end_def)
    next
      case False
      have "issue_of (ms' ! j) = issue_of (ms ! j)" if "j < length ms" "tr_accountId (reqs ! j) = acct" for j
        using False Step fire that
        by (cases "j = i"; cases "is_done (ms ! i)") (auto simp: issue_of_await split: prod.splits if_splits)
      then show ?thesis using quiet by (simp add: fire)
    qed
  qed
qed

lemma run_within_limit:
  fixes acct :: string and limit :: int and reqs :: "topup_request list" and sys :: "AuthorizeTopupResult io list \<times> services"
  defines "endg \<equiv> \<lambda>i. issue_end acct limit (reqs ! i)" and "post \<equiv> \<lambda>i. issue_post acct (reqs ! i)"
    and "mem \<equiv> map member_of reqs"
  assumes amounts: "list_all (\<lambda>r. 0 \<le> tr_amountCents r \<and> tr_amountCents r < 2 ^ 53) reqs"
    and members: "distinct (map member_of reqs)" "amounts_nonneg s0"
    and old: "distinct (holds acct s0)" "fst ` set (holds acct s0) \<inter> member_of ` set reqs = {}"
  shows "reserve.all_safe acct st mem index_reads_work endg post sys \<Longrightarrow> allowed_run index_reads_work evs sys
    \<Longrightarrow> length (fst sys) = length reqs \<Longrightarrow> res_rely acct st mem (length reqs) s0 (snd sys)
    \<Longrightarrow> within_limit acct limit reqs (holds acct s0) sys \<Longrightarrow> within_limit acct limit reqs (holds acct s0) (run_events evs sys)"
proof (induction evs arbitrary: sys)
  case (Cons e evs)
  obtain ms s where sys: "sys = (ms, s)" by (cases sys)
  have ok: "allowed_run index_reads_work [e] sys" using Cons.prems(2) by simp
  have rely: "res_rely acct st mem (length reqs) s0 (snd (fire e sys))"
    using reserve.fire_safe(2) [OF Cons.prems(1) ok, of "length reqs"] Cons.prems(3,4) reserve.rely_trans by force
  have "set (live_entries (holds acct s0) (snd (fire e sys))) \<subseteq> set (holds acct (snd (fire e sys)))"
  proof
    fix x
    assume x: "x \<in> set (live_entries (holds acct s0) (snd (fire e sys)))"
    then have "fst x \<notin> set mem" using old(2) by (auto simp: live_entries_def mem_def)
    from position_absent [OF this] x rely show "x \<in> set (holds acct (snd (fire e sys)))"
      by (auto simp: live_entries_def res_rely_def keeps_def mem_def)
  qed
  moreover have "amounts_nonneg s"
    using members(2) Cons.prems(4) by (auto simp: sys res_rely_def res_frame_def amounts_nonneg_def)
  ultimately have "within_limit acct limit reqs (holds acct s0) (fire e sys)"
    using fire_within_limit [of acct st reqs limit ms s e "holds acct s0"] Cons.prems ok amounts members(1) old
    by (simp add: sys endg_def post_def mem_def)
  then show ?case
    using Cons.IH [OF reserve.fire_safe(1) [OF Cons.prems(1) ok]] Cons.prems rely by simp
qed simp

text \<open>
  C7: Concurrent authorisations never over-issue a daily allowance. Any number of authorisations of any
  accounts run interleaved in any order, with time passing and with any of their calls lost or only
  reported as failed, except the two reads of the reservation index. The settings row is valid and does
  not change, the amounts on the audit rows are not negative and no payment settles meanwhile, and the
  ids of the new intents are fresh. Then, once a link has been minted for an account, what it spent in
  the trailing day, what it already held, and all its new links that can still be paid are together
  within its daily limit, at every later moment. Reserving before reading again is what makes this so.
\<close>

theorem no_over_issue:
  fixes reqs :: "topup_request list" and config :: "FygaroConfig option" and hmac :: "string \<Rightarrow> string \<Rightarrow> string"
  assumes "known_settings st s" "amounts_nonneg s" "dailyTopupLimits st lv = Some limit"
    and reqs: "list_all (\<lambda>r. tr_accountId r = acct \<longrightarrow> tr_level r = lv) reqs"
      "list_all (\<lambda>r. 0 \<le> tr_amountCents r \<and> tr_amountCents r < 2 ^ 53) reqs"
      "distinct (map tr_intentId reqs)"
    and old: "distinct (holds acct s)" "fst ` set (holds acct s) \<inter> member_of ` set reqs = {}"
    and run: "allowed_run index_reads_work evs (map (authorize_of hmac config) reqs, s)"
  defines "final \<equiv> run_events evs (map (authorize_of hmac config) reqs, s)"
  shows "(\<exists>i < length reqs. issued acct reqs (fst final) i) \<longrightarrow>
    spent_cents acct (snd final) + held_cents (live_entries (holds acct s) (snd final))
      + issued_cents acct reqs (fst final) (snd final) \<le> usd_to_cents limit"
proof -
  let ?sys = "(map (authorize_of hmac config) reqs, s)" and ?mem = "map member_of reqs"
  have mem: "distinct ?mem"
    unfolding distinct_map
  proof (intro conjI inj_onI)
    fix a b
    assume ab: "a \<in> set reqs" "b \<in> set reqs" "member_of a = member_of b"
    then have "tr_intentId a = tr_intentId b"
      using reqs(2) unfolding member_of_def list_all_iff by (blast dest: reservationMember_inject(1))
    with reqs(3) ab show "a = b" by (auto simp: distinct_map inj_on_def)
  qed (use reqs(3) in \<open>simp add: distinct_map\<close>)
  have "safe index_reads_work (res_rely acct st ?mem i) (res_guar acct st ?mem i)
      (issue_end acct (usd_to_cents limit) (reqs ! i)) (issue_post acct (reqs ! i)) (authorize_of hmac config (reqs ! i)) s"
    if "i < length reqs" for i
    using position_nth [OF mem, of i] that reqs(1) assms(3)
    by (intro authorize_safe [OF assms(1,2)]) (auto simp: dailyLimitCents_def list_all_length)
  then have safe: "reserve.all_safe acct st ?mem index_reads_work
      (\<lambda>i. issue_end acct (usd_to_cents limit) (reqs ! i)) (\<lambda>i. issue_post acct (reqs ! i)) ?sys"
    by (simp add: reserve.all_safe_def)
  have "\<not> issued acct reqs (map (authorize_of hmac config) reqs) i" if "i < length reqs" for i
    using that by (simp add: issued_def issue_of_def authorize_of_def authorizeFygaroTopup_def)
  then have "within_limit acct (usd_to_cents limit) reqs (holds acct s) ?sys" by (auto simp: within_limit_def)
  from run_within_limit [OF reqs(2) mem assms(2) old safe run _ _ this]
  show ?thesis by (simp add: final_def within_limit_def reserve.rely_refl)
qed

definition ex_config :: FygaroConfig where
  "ex_config =
     \<lparr>fc_enabled = True, fc_credit_enabled = True,
      fc_checkout = Some \<lparr>co_enabled = True, co_buttonUrl = ''https://pay.example/b/1'', co_keyId = ''k1'', co_ttlSeconds = None\<rparr>,
      fc_webhook_secrets = [(''k1'', ''secret'')], fc_timestampSkewMs = None\<rparr>"

definition ex_services :: services where
  "ex_services =
     \<lparr>clock = 1800000000000, zsets = (\<lambda>_. []), redis_keys = Map.empty, timelocks = Map.empty, mutexes = (\<lambda>_. False),
      erp_settings = Some ex_settings_doc, erp_discounts = [], erp_rows = [], settings_cache = None,
      discounts_cache = None, accounts = [], wallets = [], identities = [], notices = [], invoices = [],
      payments = [], pay_replies = []\<rparr>"

definition ex_request :: "string \<Rightarrow> int \<Rightarrow> topup_request" where
  "ex_request i amount =
     \<lparr>tr_accountId = ''acc1'', tr_username = ''alice'', tr_level = 1, tr_amountCents = amount, tr_nowMs = 0, tr_intentId = i\<rparr>"

definition ex_hmac :: "string \<Rightarrow> string \<Rightarrow> string" where "ex_hmac key text = ''sig''"

lemma index_reads_work_Works: "index_reads_work m Works"
  by (auto simp: index_reads_work_def split: io.splits unit_call.splits)

definition ex_reqs :: "topup_request list" where
  "ex_reqs = [ex_request ''A1'' 6000, ex_request ''A2'' 6000]"

definition ex_links :: "AuthorizeTopupResult io list \<times> services" where
  "ex_links = run_events (in_turns 19 2) (map (authorize_of ex_hmac (Some ex_config)) ex_reqs, ex_services)"

theorem no_over_issue_witness:
  "map (\<lambda>m. map_option fy_expiresAt (issue_of m)) (fst ex_links) = [Some 1800000900000, Some 1800000900000]
   \<and> spent_cents ''acc1'' (snd ex_links) + held_cents (live_entries [] (snd ex_links))
      + issued_cents ''acc1'' ex_reqs (fst ex_links) (snd ex_links) \<le> 12500"
proof -
  have v: "\<not> Option.is_none (validateFygaroSettings (Some ex_settings_doc))" by code_simp
  then obtain st where st: "validateFygaroSettings (Some ex_settings_doc) = Some st" by (auto simp: Option.is_none_def)
  have "map_option (\<lambda>st. dailyTopupLimits st 1) (validateFygaroSettings (Some ex_settings_doc)) = Some (Some 125)"
    by code_simp
  then have lim: "dailyTopupLimits st 1 = Some 125" by (simp add: st)
  have known: "known_settings st ex_services" "amounts_nonneg ex_services"
    by (simp_all add: known_settings_def ex_services_def st amounts_nonneg_def)
  have links: "map (\<lambda>m. map_option fy_expiresAt (issue_of m)) (fst ex_links) = [Some 1800000900000, Some 1800000900000]"
    by code_simp
  have "issue_of (fst ex_links ! 0) \<noteq> None" using arg_cong [OF links, of "\<lambda>l. l ! 0"] arg_cong [OF links, of length]
    by (cases "fst ex_links") auto
  then have "\<exists>i < length ex_reqs. issued ''acc1'' ex_reqs (fst ex_links) i"
    by (auto simp: issued_def ex_reqs_def ex_request_def intro!: exI [of _ 0])
  moreover have "usd_to_cents 125 = 12500" by code_simp
  moreover have reqs: "list_all (\<lambda>r. tr_accountId r = ''acc1'' \<longrightarrow> tr_level r = 1) ex_reqs"
    "list_all (\<lambda>r. 0 \<le> tr_amountCents r \<and> tr_amountCents r < 2 ^ 53) ex_reqs" "distinct (map tr_intentId ex_reqs)"
    by (simp_all add: ex_reqs_def ex_request_def)
  have none: "holds ''acc1'' ex_services = []" by (simp add: holds_def ex_services_def)
  then have "distinct (holds ''acc1'' ex_services)" "fst ` set (holds ''acc1'' ex_services) \<inter> member_of ` set ex_reqs = {}"
    by simp_all
  note no_over_issue [OF known lim reqs this allowed_faultless [of index_reads_work, OF index_reads_work_Works in_turns_faultless [of 19 2]],
      of ex_hmac "Some ex_config", folded ex_links_def, unfolded none]
  ultimately show ?thesis using links by simp
qed

end
