(* ===== verification/FygaroAllowance.thy ===== *)
theory FygaroAllowance
  imports FygaroReservations
begin

text \<open>
  What one request after another sees: the allowance query (\<open>src/app/fygaro/topup-allowance.ts\<close>) and the
  authorisation (\<open>src/app/fygaro/authorize-topup.ts\<close>) give the same answer about the same account.
\<close>

section \<open>Runs without faults\<close>

lemma no_faults [simp]:
  "next_fault [] = Works" "unit_fault c Works = Works" "cache_fault Works = Works"
  "with_fault Works x s = x" "read_fault Works r = r"
  by (cases c; simp add: next_fault_def cache_fault_def with_fault_def read_fault_def)+

lemma reply_works [simp]:
  "unit_reply Works c s = perform_unit c s" "bool_reply Works b s = perform_bool b s"
  "cache_reply Works key s = of_option CacheUndefinedError (redis_get s key)"
  by (simp_all add: unit_reply_def bool_reply_def cache_reply_def)

lemma run_bind: "run_io (bindI m k) [] s = (case run_io m [] s of (x, t) \<Rightarrow> run_io (k x) [] t)"
proof (induction m arbitrary: s)
  case (Await_unit c f)
  then show ?case by (auto split: prod.splits)
next
  case (Await_bool c f)
  then show ?case by (auto split: prod.splits)
next
  case (Await_invoice wid amt memo f)
  then show ?case by (auto split: prod.splits)
next
  case (Await_pay wid bolt f)
  then show ?case by (auto split: prod.splits)
qed simp_all

definition settings_at :: "services \<Rightarrow> FygaroSettings option" where
  "settings_at s =
     (case settings_cache s of
        Some (v, at_ms) \<Rightarrow> if clock s - at_ms < CACHE_TTL_MS then v else validateFygaroSettings (erp_settings s)
      | None \<Rightarrow> validateFygaroSettings (erp_settings s))"

definition discounts_at :: "services \<Rightarrow> string \<Rightarrow> FeeDiscount option" where
  "discounts_at s =
     (case discounts_cache s of
        Some (v, at_ms) \<Rightarrow> if clock s - at_ms < CACHE_TTL_MS then v else discounts_of (erp_discounts s)
      | None \<Rightarrow> discounts_of (erp_discounts s))"

definition discount_at :: "services \<Rightarrow> string \<Rightarrow> rat" where
  "discount_at s username = (if username = '''' then 0 else discount_for (discounts_at s) username Topup_flow)"

text \<open>A read changes nothing but what the process remembers.\<close>

lemma run_settings:
  obtains c where "run_io getFygaroSettings [] s = (settings_at s, s\<lparr>settings_cache := c\<rparr>)"
    "settings_at (s\<lparr>settings_cache := c\<rparr>) = settings_at s"
proof -
  have "\<exists>c. run_io getFygaroSettings [] s = (settings_at s, s\<lparr>settings_cache := c\<rparr>)
      \<and> settings_at (s\<lparr>settings_cache := c\<rparr>) = settings_at s"
  proof (cases "\<exists>v t. settings_cache s = Some (v, t) \<and> clock s - t < CACHE_TTL_MS")
    case True
    then show ?thesis by (auto simp: getFygaroSettings_def settings_at_def intro!: exI [of _ "settings_cache s"])
  next
    case False
    then show ?thesis
      by (auto simp: getFygaroSettings_def settings_at_def remember_settings_def ignoreI_def CACHE_TTL_MS_def Let_def
          split: option.splits prod.splits intro!: exI [of _ "Some (validateFygaroSettings (erp_settings s), clock s)"])
  qed
  with that show thesis by blast
qed

lemma run_discount:
  obtains c where "run_io (getFlashFeeDiscountPercent (Some u) Topup_flow) [] s = (discount_at s u, s\<lparr>discounts_cache := c\<rparr>)"
proof -
  have "\<exists>c. run_io (getFlashFeeDiscountPercent (Some u) Topup_flow) [] s = (discount_at s u, s\<lparr>discounts_cache := c\<rparr>)"
  proof (cases "u = [] \<or> (\<exists>v t. discounts_cache s = Some (v, t) \<and> clock s - t < CACHE_TTL_MS)")
    case True
    then show ?thesis
      by (auto simp: getFlashFeeDiscountPercent_def loadDiscounts_def run_bind discount_at_def discounts_at_def
          intro!: exI [of _ "discounts_cache s"])
  next
    case False
    then show ?thesis
      by (auto simp: getFlashFeeDiscountPercent_def loadDiscounts_def run_bind discount_at_def discounts_at_def
          remember_discounts_def ignoreI_def Let_def split: option.splits prod.splits
          intro!: exI [of _ "Some (discounts_of (erp_discounts s), clock s)"])
  qed
  with that show thesis by blast
qed

definition pruned :: "string \<Rightarrow> int \<Rightarrow> services \<Rightarrow> services" where
  "pruned acct now s = s\<lparr>zsets := (zsets s)(accountIntentsKey acct := filter (\<lambda>e. now < snd e) (holds acct s))\<rparr>"

lemma pruned_fields [simp]:
  "settings_at (pruned acct now s) = settings_at s" "discount_at (pruned acct now s) = discount_at s"
  "clock (pruned acct now s) = clock s" "erp_rows (pruned acct now s) = erp_rows s"
  by (auto simp: pruned_def settings_at_def discounts_at_def discount_at_def intro!: ext split: option.splits)

lemma run_outstanding:
  "run_io (readOutstandingReservations acct now) [] s =
     (Inr (reservations_of (holds acct (pruned acct now s))), pruned acct now s)"
  by (simp add: readOutstandingReservations_def pruned_def holds_def Let_def)

lemma run_window:
  "run_io (readFygaroTopupWindowLast24h acct None) [] s = (sum_rows (topup_rows acct (clock s - DAY_MS) None s) 0 None, s)"
  by (simp add: readFygaroTopupWindowLast24h_def sumFygaroTopupGrossCentsSince_def)

section \<open>The query\<close>

lemma sum_rows_window:
  "sum_rows (topup_rows acct (clock s - DAY_MS) None s) 0 None = Inr w \<Longrightarrow> tw_grossCents w = spent_cents acct s"
  using sum_rows_gross [of "topup_rows acct (clock s - DAY_MS) None s" 0 None w] by (simp add: spent_cents_def window_cents_def)

lemma run_allowance:
  assumes "run_io (getFygaroTopupAllowance config acct lv) [] s = (Available al, t)"
  obtains master st limit w c where "fygaroCheckoutMasterGate config = Some master" "settings_at s = Some st"
    "autoCreditEnabled st" "dailyTopupLimits st lv = Some limit"
    "sum_rows (topup_rows acct (clock s - DAY_MS) None s) 0 None = Inr w"
    "t = pruned acct (clock s) (s\<lparr>settings_cache := c\<rparr>)" "settings_at t = Some st"
    "al = allowance_of st (usd_to_cents limit) w (reservations_of (holds acct t))"
proof -
  obtain c where c: "run_io getFygaroSettings [] s = (settings_at s, s\<lparr>settings_cache := c\<rparr>)"
    "settings_at (s\<lparr>settings_cache := c\<rparr>) = settings_at s" by (rule run_settings)
  have same: "topup_rows acct since None (s\<lparr>settings_cache := c\<rparr>) = topup_rows acct since None s" for since
    by (simp add: topup_rows_def)
  have st: "settings_at (pruned acct (clock s) (s\<lparr>settings_cache := c\<rparr>)) = settings_at s"
    using c(2) by simp
  have "\<exists>master st limit w. fygaroCheckoutMasterGate config = Some master \<and> settings_at s = Some st
      \<and> autoCreditEnabled st \<and> dailyTopupLimits st lv = Some limit
      \<and> sum_rows (topup_rows acct (clock s - DAY_MS) None s) 0 None = Inr w
      \<and> t = pruned acct (clock s) (s\<lparr>settings_cache := c\<rparr>)
      \<and> al = allowance_of st (usd_to_cents limit) w (reservations_of (holds acct t))"
    using assms
    by (auto simp: getFygaroTopupAllowance_def run_bind c(1) run_window run_outstanding same
        split: option.splits if_splits sum.splits prod.splits)
  then show thesis using that [where c = c] st by metis
qed

section \<open>The authorisation\<close>

lemma held_zset_insert: "held_cents (zset_insert e es) = entry_cents e + held_cents es"
  by (induction es) (auto simp: held_cents_def)

lemma held_filter_le: "held_cents (filter P es) \<le> held_cents es"
  using sum_filter_mono [of entry_cents es P "\<lambda>_. True"] entry_cents_nonneg by (simp add: held_cents_def list_all_iff)

lemma held_zset_add: "held_cents (filter P (zset_add m sc es)) \<le> entry_cents (m, sc) + held_cents es"
  using held_filter_le [of P "zset_add m sc es"] held_filter_le [of "\<lambda>e. fst e \<noteq> m" es]
  by (simp add: zset_add_def held_zset_insert)

lemma run_mint:
  assumes "0 \<le> tr_amountCents req" "tr_amountCents req < 2 ^ 53"
    and "dailyLimitCents settings (tr_level req) = Some limit"
    and room: "prior + held_cents (holds (tr_accountId req) s) + tr_amountCents req \<le> limit"
  shows "\<exists>c. fst (run_io (mint hmac master settings req prior allow) [] s) = Authorized c (allow - tr_amountCents req) False"
proof -
  define key where "key = accountIntentsKey (tr_accountId req)"
  define checkout where "checkout = buildFygaroCheckout hmac master (tr_username req) (tr_intentId req)
    (tr_amountCents req) ''USD'' (tr_nowMs req)"
  define sc where "sc = tr_nowMs req + ma_ttlSeconds master * 1000"
  obtain t where t: "run_io (saveIntent (new_intent req checkout) (ma_ttlSeconds master)) [] s = (Inr (), t)"
    "zsets t key = zset_add (member_of req) sc (zsets s key)"
    by (simp add: saveIntent_def new_intent_def ignoreI_def Let_def key_def member_of_def sc_def redis_set_def)
  have "outstanding (reservations_of (holds (tr_accountId req) (pruned (tr_accountId req) (tr_nowMs req) t)))
      \<le> entry_cents (member_of req, sc) + held_cents (holds (tr_accountId req) s)"
    unfolding outstanding_held using held_zset_add
    by (simp add: pruned_def holds_def t(2) [unfolded key_def])
  then have "prior + outstanding (reservations_of (holds (tr_accountId req) (pruned (tr_accountId req) (tr_nowMs req) t))) \<le> limit"
    using room member_cents [OF assms(1,2), of sc] by linarith
  then show ?thesis
    by (simp add: mint_def Let_def run_bind checkout_def [symmetric] t(1) check_again_def run_outstanding assms(3))
qed

lemma run_decide:
  assumes "0 < tr_amountCents req" "tr_amountCents req < 2 ^ 53"
    and lim: "dailyTopupLimits st (tr_level req) = Some limit"
    and rs: "rs = reservations_of (holds (tr_accountId req) s)"
  shows "(\<exists>c rem. fst (run_io (decide hmac master (Some st) req prior rs d) [] s) = Authorized c rem False)
    \<longleftrightarrow> (\<exists>fees. evaluateCreditGate True ''USD'' (Some st) (tr_amountCents req) (tr_level req)
          (Some (prior + held_cents (holds (tr_accountId req) s))) d = Credit fees)"
proof -
  have dl: "dailyLimitCents (Some st) (tr_level req) = Some (usd_to_cents limit)" by (simp add: dailyLimitCents_def lim)
  have o: "outstanding rs = held_cents (holds (tr_accountId req) s)" by (simp add: rs outstanding_held)
  have gate: "prior + held_cents (holds (tr_accountId req) s) + tr_amountCents req \<le> usd_to_cents limit"
    if "evaluateCreditGate True ''USD'' (Some st) (tr_amountCents req) (tr_level req)
          (Some (prior + held_cents (holds (tr_accountId req) s))) d = Credit fees" for fees
    using that lim by (auto simp: evaluateCreditGate_def Let_def split: if_splits)
  have "\<exists>c rem. fst (run_io (mint hmac master (Some st) req prior allow) [] s) = Authorized c rem False"
    if "evaluateCreditGate True ''USD'' (Some st) (tr_amountCents req) (tr_level req)
          (Some (prior + held_cents (holds (tr_accountId req) s))) d = Credit fees" for fees allow
    using run_mint [OF _ assms(2) dl gate [OF that], of hmac master allow] assms(1) by fastforce
  then show ?thesis
    by (auto simp: decide_def Let_def o dl refuseOpenCheckout_def open_checkout_refusal_def run_bind
        split: CreditGate.splits option.splits prod.splits)
qed

lemma gate_iff_allowance:
  assumes "autoCreditEnabled st" "dailyTopupLimits st lv = Some limit" "0 < a"
  shows "(\<exists>fees. evaluateCreditGate True ''USD'' (Some st) a lv (Some spent) d = Credit fees) \<longleftrightarrow>
    a \<le> max 0 (usd_to_cents limit - spent) \<and> a \<le> usd_to_cents (autoCreditLimit st) \<and> usd_to_cents (minimumTopup st) \<le> a
    \<and> 0 < netCents (computeFygaroFees a st d)"
  using assms by (auto simp: evaluateCreditGate_def Let_def not_less not_le max_def)

lemma probe_unavailable:
  assumes "autoCreditEnabled st" "dailyTopupLimits st lv = Some limit" "a \<le> usd_to_cents (autoCreditLimit st)"
  shows "evaluateCreditGate True ''USD'' (Some st) a lv None d = Record_only History_unavailable"
  using assms by (auto simp: evaluateCreditGate_def)

lemma run_authorize:
  assumes master: "fygaroCheckoutMasterGate config = Some master" and st: "settings_at s = Some st"
    and on: "autoCreditEnabled st" "dailyTopupLimits st (tr_level r) = Some limit"
    and w: "sum_rows (topup_rows (tr_accountId r) (clock s - DAY_MS) None s) 0 None = Inr w"
    and a: "0 < tr_amountCents r" "tr_amountCents r < 2 ^ 53"
  shows "(\<exists>c rem. fst (run_io (authorize_of hmac config r) [] s) = Authorized c rem False) \<longleftrightarrow>
    tr_amountCents r \<le> max 0 (usd_to_cents limit - (spent_cents (tr_accountId r) s
        + held_cents (holds (tr_accountId r) (pruned (tr_accountId r) (clock s) s))))
    \<and> tr_amountCents r \<le> usd_to_cents (autoCreditLimit st) \<and> usd_to_cents (minimumTopup st) \<le> tr_amountCents r
    \<and> 0 < netCents (computeFygaroFees (tr_amountCents r) st (discount_at s (tr_username r)))"
proof -
  define req where "req = \<lparr>tr_accountId = tr_accountId r, tr_username = tr_username r, tr_level = tr_level r,
    tr_amountCents = tr_amountCents r, tr_nowMs = clock s, tr_intentId = tr_intentId r\<rparr>"
  obtain c where c: "run_io getFygaroSettings [] s = (settings_at s, s\<lparr>settings_cache := c\<rparr>)" by (rule run_settings)
  have run: "run_io (authorize_of hmac config r) [] s = run_io (with_settings hmac master req (Some st)) [] (s\<lparr>settings_cache := c\<rparr>)"
    by (simp add: authorize_of_def authorizeFygaroTopup_def master run_bind c st req_def)
  show ?thesis
  proof (cases "tr_amountCents r \<le> usd_to_cents (autoCreditLimit st)")
    case False
    then have "evaluateCreditGate True ''USD'' (Some st) (tr_amountCents r) (tr_level r) None 0 = Record_only Over_limit"
      using on by (simp add: evaluateCreditGate_def)
    with False show ?thesis by (simp add: run with_settings_def req_def)
  next
    case True
    define u where "u = pruned (tr_accountId r) (clock s) (s\<lparr>settings_cache := c\<rparr>)"
    obtain cd where d: "run_io (getFlashFeeDiscountPercent (Some (tr_username r)) Topup_flow) [] u =
        (discount_at u (tr_username r), u\<lparr>discounts_cache := cd\<rparr>)" by (rule run_discount)
    have same: "topup_rows (tr_accountId r) since None (s\<lparr>settings_cache := c\<rparr>) = topup_rows (tr_accountId r) since None s"
      "discount_at u = discount_at s" "holds (tr_accountId r) u = holds (tr_accountId r) (pruned (tr_accountId r) (clock s) s)"
      "holds (tr_accountId r) (u\<lparr>discounts_cache := cd\<rparr>) = holds (tr_accountId r) u" for since
      by (auto simp: topup_rows_def u_def discount_at_def discounts_at_def pruned_def holds_def intro!: ext split: option.splits)
    have "run_io (authorize_of hmac config r) [] s =
        run_io (decide hmac master (Some st) req (tw_grossCents w) (reservations_of (holds (tr_accountId r) u))
          (discount_at s (tr_username r))) [] (u\<lparr>discounts_cache := cd\<rparr>)"
      using probe_unavailable [OF on True, of 0]
      by (simp add: run with_settings_def req_def read_and_decide_def sumFygaroTopupGrossCentsLast24h_def run_bind
          run_window run_outstanding same w u_def [symmetric] d)
    then show ?thesis
      using run_decide [of req st limit _ "u\<lparr>discounts_cache := cd\<rparr>", OF _ _ _ refl] a on(2)
        gate_iff_allowance [OF on a(1)] sum_rows_window [OF w]
      by (simp add: req_def same)
  qed
qed

text \<open>
  C15: The allowance an account is shown is the allowance it is granted. If the query answers with an
  allowance, an authorisation that follows it mints a link for an amount exactly when the amount is within
  the remaining allowance and the single-payment limit and not below the minimum, all as reported, and
  leaves something after fees. So a client that respects the reported numbers, and asks for an amount that
  leaves something after fees, is never invited to a top-up that is then refused, and no amount beyond the
  numbers gets a new link. It is about new links: a link of that amount which the account already holds
  open may be handed back, marked as reused, also when the amount is above the remaining allowance.
\<close>

theorem allowance_is_granted:
  assumes "run_io (getFygaroTopupAllowance config acct lv) [] s = (Available al, t)" "0 < a" "a < 2 ^ 53"
  shows "(\<exists>c rem. fst (run_io (authorizeFygaroTopup hmac config acct username lv a intentId) [] t) = Authorized c rem False)
    \<longleftrightarrow> a \<le> al_remainingCents al \<and> a \<le> al_singlePaymentLimitCents al \<and> al_minimumCents al \<le> a
      \<and> (\<exists>st. settings_at t = Some st \<and> 0 < netCents (computeFygaroFees a st (discount_at t username)))"
proof -
  obtain master st limit w c where q: "fygaroCheckoutMasterGate config = Some master" "settings_at s = Some st"
    "autoCreditEnabled st" "dailyTopupLimits st lv = Some limit"
    "sum_rows (topup_rows acct (clock s - DAY_MS) None s) 0 None = Inr w"
    "t = pruned acct (clock s) (s\<lparr>settings_cache := c\<rparr>)" "settings_at t = Some st"
    "al = allowance_of st (usd_to_cents limit) w (reservations_of (holds acct t))"
    by (rule run_allowance [OF assms(1)])
  define r where "r = \<lparr>tr_accountId = acct, tr_username = username, tr_level = lv, tr_amountCents = a, tr_nowMs = 0,
    tr_intentId = intentId\<rparr>"
  have rows: "topup_rows acct since None t = topup_rows acct since None s" for since by (simp add: q(6) topup_rows_def pruned_def)
  have cl: "clock t = clock s" by (simp add: q(6))
  have h: "holds acct (pruned acct (clock t) t) = holds acct t" by (simp add: q(6) pruned_def holds_def)
  have sp: "spent_cents acct t = tw_grossCents w"
    using sum_rows_window [OF q(5)] by (simp add: spent_cents_def window_cents_def rows cl)
  have "fst (run_io (authorizeFygaroTopup hmac config acct username lv a intentId) [] t) =
      fst (run_io (authorize_of hmac config r) [] t)" by (simp add: authorize_of_def r_def)
  moreover have "al_remainingCents al = max 0 (usd_to_cents limit - (spent_cents acct t + held_cents (holds acct t)))"
    by (simp add: q(8) allowance_of_def sp outstanding_held algebra_simps)
  ultimately show ?thesis
    using run_authorize [of config master t st r limit w hmac] q assms(2,3) rows cl h
    by (simp add: r_def allowance_of_def)
qed

definition ex_allowance :: "FygaroTopupAllowanceResult \<times> services" where
  "ex_allowance = run_io (getFygaroTopupAllowance (Some ex_config) ''acc1'' 1) [] ex_services"

theorem allowance_is_granted_witness:
  "(\<exists>al. fst ex_allowance = Available al \<and> al_remainingCents al = 12500 \<and> al_singlePaymentLimitCents al = 25000
      \<and> al_minimumCents al = 1000)
   \<and> (\<exists>c rem. fst (run_io (authorizeFygaroTopup ex_hmac (Some ex_config) ''acc1'' ''alice'' 1 12500 ''A1'') [] (snd ex_allowance))
        = Authorized c rem False)
   \<and> \<not> (\<exists>c rem. fst (run_io (authorizeFygaroTopup ex_hmac (Some ex_config) ''acc1'' ''alice'' 1 12501 ''A1'') [] (snd ex_allowance))
        = Authorized c rem False)"
proof -
  have v: "(case fst ex_allowance of
      Available al \<Rightarrow> (al_remainingCents al, al_singlePaymentLimitCents al, al_minimumCents al) | _ \<Rightarrow> (0, 0, 0)) =
      (12500, 25000, 1000)" by code_simp
  then obtain al where al: "fst ex_allowance = Available al" by (cases "fst ex_allowance") auto
  have n: "(case settings_at (snd ex_allowance) of
      Some st \<Rightarrow> 0 < netCents (computeFygaroFees 12500 st (discount_at (snd ex_allowance) ''alice'')) | None \<Rightarrow> False)"
    by code_simp
  have "run_io (getFygaroTopupAllowance (Some ex_config) ''acc1'' 1) [] ex_services = (Available al, snd ex_allowance)"
    using al by (simp add: ex_allowance_def prod_eq_iff)
  note * = allowance_is_granted [OF this, where hmac = ex_hmac and username = "''alice''" and intentId = "''A1''"]
  from v al n * [of 12500] * [of 12501] show ?thesis by (auto split: option.splits)
qed

end
