(* ===== verification/PaymentIdempotency.thy ===== *)
theory PaymentIdempotency
  imports FygaroConcurrency
begin

text \<open>
  The intraledger send a top-up is credited with (\<open>src/app/payments/send-intraledger.ts\<close>), the reader of
  IBEX's payment status (\<open>src/services/ibex/payment-status.ts\<close>) and the idempotency around a send
  (\<open>src/app/payments/idempotency.ts\<close>, with the lock of \<open>src/services/lock/index.ts\<close>). The lock is held
  until it is released, since the lock client extends it while the holder runs. SHA-256 is a parameter.
\<close>

section \<open>The status of a payment\<close>

definition statusFromField :: "frappe_value option \<Rightarrow> payment_send_status option" where
  "statusFromField v =
     (if v = Some (FNumber (Fin 1)) then Some Send_pending
      else if v = Some (FNumber (Fin 2)) then Some Send_success
      else if v = Some (FNumber (Fin 3)) then Some Send_failure
      else None)"

fun reportsFailureCode :: "frappe_value option \<Rightarrow> bool" where
  "reportsFailureCode (Some (FText s)) \<longleftrightarrow>
     js_trim s \<noteq> '''' \<and> (case Number_string (js_trim s) of NaN \<Rightarrow> True | Fin q \<Rightarrow> 0 < q | _ \<Rightarrow> False)"
| "reportsFailureCode (Some (FNumber x)) \<longleftrightarrow> (case x of Fin q \<Rightarrow> 0 < q | _ \<Rightarrow> False)"
| "reportsFailureCode _ \<longleftrightarrow> False"

text \<open>\<open>None\<close> is an \<open>UnconfirmedIbexPayment\<close>.\<close>

definition paymentSendStatusFromIbex :: "ibex_pay_response \<Rightarrow> payment_send_status option" where
  "paymentSendStatusFromIbex response =
     (case keep_given (statusFromField (ip_payment_status_id response)) (statusFromField (ip_payment_statusId response)) of
        Some st \<Rightarrow> Some st
      | None \<Rightarrow>
          let topLevel = statusFromField (ip_status response)
          in if topLevel = Some Send_pending then topLevel
             else if topLevel = Some Send_failure
                  \<and> (reportsFailureCode (ip_failureReason response) \<or> reportsFailureCode (ip_payment_failureId response))
             then topLevel
             else None)"

definition paymentSendStatusOrPending :: "ibex_pay_response \<Rightarrow> payment_send_status" where
  "paymentSendStatusOrPending response =
     (case paymentSendStatusFromIbex response of Some st \<Rightarrow> st | None \<Rightarrow> Send_pending)"

section \<open>The send\<close>

definition hex_digit :: "char \<Rightarrow> bool" where
  "hex_digit c \<longleftrightarrow> is_digit c \<or> to_lower c \<in> set ''abcdef''"

text \<open>\<open>/^[0-9a-f]{8}-[0-9a-f]{4}-[1-5][0-9a-f]{3}-[89ab][0-9a-f]{3}-[0-9a-f]{12}$/i\<close>\<close>

definition checkedToWalletId :: "string \<Rightarrow> string result" where
  "checkedToWalletId walletId =
     (case js_split (CHR ''-'') walletId of
        [a, b, c, d, e] \<Rightarrow>
          if map length [a, b, c, d, e] = [8, 4, 4, 4, 12] \<and> list_all hex_digit (a @ b @ c @ d @ e)
             \<and> hd c \<in> set ''12345'' \<and> to_lower (hd d) \<in> set ''89ab''
          then Inr walletId else Inl InvalidWalletId
      | _ \<Rightarrow> Inl InvalidWalletId)"

definition usdWalletAmountFromInput :: "string \<Rightarrow> wallet_currency \<Rightarrow> money_amount result" where
  "usdWalletAmountFromInput raw currency =
     (if currency = Usd then USDAmount_cents (InString raw)
      else if currency = Usdt then usdCents raw
      else Inl UnsupportedCurrencyError)"

text \<open>A wallet of an active account, or the error.\<close>

definition active_wallet :: "string \<Rightarrow> (fy_wallet result \<Rightarrow> 'a io) \<Rightarrow> 'a io" where
  "active_wallet unchecked k =
     (case checkedToWalletId unchecked of
        Inl e \<Rightarrow> k (Inl e)
      | Inr wid \<Rightarrow>
          Await_wallet wid (\<lambda>w.
          case w of
            Inl e \<Rightarrow> k (Inl e)
          | Inr wallet \<Rightarrow>
              Await_account (By_id (wa_accountId wallet)) (\<lambda>a.
              case a of
                Inl e \<Rightarrow> k (Inl e)
              | Inr account \<Rightarrow> if \<not> ac_active account then k (Inl InactiveAccountError) else k (Inr wallet))))"

definition validateIntraledgerPaymentInputs ::
  "string \<Rightarrow> string \<Rightarrow> ((fy_wallet \<times> fy_wallet) result \<Rightarrow> 'a io) \<Rightarrow> 'a io" where
  "validateIntraledgerPaymentInputs sender recipient k =
     active_wallet sender (\<lambda>s.
     case s of
       Inl e \<Rightarrow> k (Inl e)
     | Inr senderWallet \<Rightarrow>
         active_wallet recipient (\<lambda>r.
         case r of Inl e \<Rightarrow> k (Inl e) | Inr recipientWallet \<Rightarrow> k (Inr (senderWallet, recipientWallet))))"

record IntraLedgerPaymentSendWalletIdArgs =
  pi_senderWalletId :: string
  pi_recipientWalletId :: string
  pi_amount :: int
  pi_memo :: "string option"
  pi_idempotencyKey :: "string option"

definition intraledgerPaymentSendWalletId :: "IntraLedgerPaymentSendWalletIdArgs \<Rightarrow> payment_send_status result io" where
  "intraledgerPaymentSendWalletId args =
     validateIntraledgerPaymentInputs (pi_senderWalletId args) (pi_recipientWalletId args) (\<lambda>validated.
     case validated of
       Inl e \<Rightarrow> Done (Inl e)
     | Inr (senderWallet, recipientWallet) \<Rightarrow>
         if wa_currency senderWallet \<noteq> wa_currency recipientWallet then Done (Inl MismatchedCurrencyForWalletError)
         else case usdWalletAmountFromInput (show_int (pi_amount args)) (wa_currency senderWallet) of
           Inl e \<Rightarrow> Done (Inl e)
         | Inr amt \<Rightarrow>
             Await_invoice (wa_id recipientWallet) amt
               (case pi_memo args of Some m \<Rightarrow> if m = '''' then ''flash-to-flash'' else m | None \<Rightarrow> ''flash-to-flash'') (\<lambda>inv.
             case inv of
               Inl e \<Rightarrow> Done (Inl e)
             | Inr None \<Rightarrow> Done (Inl UnexpectedIbexResponse)
             | Inr (Some bolt11) \<Rightarrow>
                 Await_pay (pi_senderWalletId args) bolt11 (\<lambda>payResp.
                 case payResp of
                   Inl e \<Rightarrow> Done (Inl e)
                 | Inr resp \<Rightarrow> Done (Inr (paymentSendStatusOrPending resp)))))"

definition validateIsUsdWallet :: "string \<Rightarrow> bool \<Rightarrow> (unit result \<Rightarrow> 'a io) \<Rightarrow> 'a io" where
  "validateIsUsdWallet walletId includeUsdt k =
     Await_wallet walletId (\<lambda>w.
     case w of
       Inl e \<Rightarrow> k (Inl e)
     | Inr wallet \<Rightarrow>
         if wa_currency wallet = Usd \<or> includeUsdt \<and> wa_currency wallet = Usdt then k (Inr ())
         else k (Inl MismatchedCurrencyForWalletError))"

definition notifyIntraledgerSendResult :: "payment_send_status result \<Rightarrow> notice" where
  "notifyIntraledgerSendResult r =
     Ops_event (case r of
       Inl _ \<Rightarrow> ''transfer:failed''
     | Inr st \<Rightarrow> if st = Send_failure then ''transfer:failed''
                 else if st = Send_pending then ''transfer:pending'' else ''transfer:succeeded'')"

section \<open>Idempotency\<close>

definition IDEMPOTENCY_TTL_SECS :: int where "IDEMPOTENCY_TTL_SECS = 24 * 60 * 60"

definition MAX_KEY_LENGTH :: nat where "MAX_KEY_LENGTH = 256"

definition cacheKeyFor :: "string \<Rightarrow> string" where
  "cacheKeyFor scopedKey = ''payment-idempotency:'' @ scopedKey"

definition getPaymentIdempotencyKeyLockResource :: "string \<Rightarrow> string" where
  "getPaymentIdempotencyKeyLockResource path = ''locks:payment-idempotency:'' @ path"

definition resolveCached :: "string \<Rightarrow> stored \<Rightarrow> payment_send_status result" where
  "resolveCached fingerprint entry =
     (case entry of
        Stored_send fp st \<Rightarrow> if fp = fingerprint then Inr (Read_back st) else Inl IdempotencyKeyReuseError
      | _ \<Rightarrow> Inl IdempotencyKeyReuseError)"

text \<open>\<open>redlock\<close>: the callback runs between the two calls of the lock client, whose errors win.\<close>

definition lock_error :: "error \<Rightarrow> error" where
  "lock_error e = (if e = ExecutionError then ResourceAttemptsLockServiceError else UnknownLockServiceError)"

definition leave :: "string \<Rightarrow> 'a result \<Rightarrow> 'a result io" where
  "leave path outcome =
     Await_unit (Release path) (\<lambda>r. case r of Inl e \<Rightarrow> Done (Inl (lock_error e)) | Inr _ \<Rightarrow> Done outcome)"

definition redlock :: "string \<Rightarrow> 'a result io \<Rightarrow> 'a result io" where
  "redlock path asyncFn =
     Await_unit (Acquire path) (\<lambda>r. case r of Inl e \<Rightarrow> Done (Inl (lock_error e)) | Inr _ \<Rightarrow> bindI asyncFn (leave path))"

definition store_outcome :: "string \<Rightarrow> string \<Rightarrow> payment_send_status result \<Rightarrow> payment_send_status result io" where
  "store_outcome cacheKey fingerprint outcome =
     (case outcome of
        Inl e \<Rightarrow> Done (Inl e)
      | Inr st \<Rightarrow> ignoreI (Cache_set cacheKey (Stored_send fingerprint (status_value st)) IDEMPOTENCY_TTL_SECS) (Done (Inr st)))"

definition in_lock :: "string \<Rightarrow> string \<Rightarrow> payment_send_status result io \<Rightarrow> payment_send_status result io" where
  "in_lock cacheKey fingerprint execute =
     Await_cache_get cacheKey (\<lambda>cachedInLock.
     case cachedInLock of
       Inr entry \<Rightarrow> Done (resolveCached fingerprint entry)
     | Inl _ \<Rightarrow> bindI execute (store_outcome cacheKey fingerprint))"

text \<open>The send under a key that has been scoped and fingerprinted.\<close>

definition guarded_send :: "string \<Rightarrow> string \<Rightarrow> payment_send_status result io \<Rightarrow> payment_send_status result io" where
  "guarded_send scopedKey fingerprint execute =
     (let cacheKey = cacheKeyFor scopedKey in
      Await_cache_get cacheKey (\<lambda>cached.
      case cached of
        Inr entry \<Rightarrow> Done (resolveCached fingerprint entry)
      | Inl _ \<Rightarrow> redlock (getPaymentIdempotencyKeyLockResource scopedKey) (in_lock cacheKey fingerprint execute)))"

definition withPaymentIdempotency ::
  "(string \<Rightarrow> string) \<Rightarrow> string option \<Rightarrow> string \<Rightarrow> string \<Rightarrow> payment_send_status result io \<Rightarrow> payment_send_status result io" where
  "withPaymentIdempotency sha256 idempotencyKey senderWalletId requestFingerprint execute =
     (case idempotencyKey of
        None \<Rightarrow> execute
      | Some key \<Rightarrow>
          let trimmedKey = js_trim key
          in if trimmedKey = '''' then execute
             else if length trimmedKey > MAX_KEY_LENGTH then Done (Inl InvalidIdempotencyKeyError)
             else guarded_send (senderWalletId @ CHR '':'' # trimmedKey) (sha256 requestFingerprint) execute)"

definition send_and_notify :: "IntraLedgerPaymentSendWalletIdArgs \<Rightarrow> payment_send_status result io" where
  "send_and_notify args =
     bindI (validateIsUsdWallet (pi_senderWalletId args) True (\<lambda>validated.
       case validated of Inl e \<Rightarrow> Done (Inl e) | Inr _ \<Rightarrow> intraledgerPaymentSendWalletId args)) (\<lambda>result.
     ignoreI (Notify (notifyIntraledgerSendResult result)) (Done result))"

definition intraledgerPaymentSendWalletIdForUsdWallet ::
  "(string \<Rightarrow> string) \<Rightarrow> IntraLedgerPaymentSendWalletIdArgs \<Rightarrow> payment_send_status result io" where
  "intraledgerPaymentSendWalletIdForUsdWallet sha256 args =
     withPaymentIdempotency sha256 (pi_idempotencyKey args) (pi_senderWalletId args)
       (''intraledger|'' @ pi_recipientWalletId args @ CHR ''|'' # show_int (pi_amount args))
       (send_and_notify args)"

section \<open>What a send does\<close>

text \<open>
  A program that has paid and only reports, and a program that pays at most once: after a payment that
  was answered it only reports, and it returns an outcome.
\<close>

primrec settled :: "'a result io \<Rightarrow> bool" where
  "settled (Done x) \<longleftrightarrow> \<not> isl x"
| "settled (Await_unit c k) \<longleftrightarrow> (\<exists>n. c = Notify n) \<and> (\<forall>r. settled (k r))"
| "settled (Await_bool c k) \<longleftrightarrow> False"
| "settled (Await_now k) \<longleftrightarrow> False"
| "settled (Await_cache_get key k) \<longleftrightarrow> False"
| "settled (Await_raw_get key k) \<longleftrightarrow> False"
| "settled (Await_zrange key k) \<longleftrightarrow> False"
| "settled (Await_settings_cache k) \<longleftrightarrow> False"
| "settled (Await_discounts_cache k) \<longleftrightarrow> False"
| "settled (Await_erp_settings k) \<longleftrightarrow> False"
| "settled (Await_erp_discounts k) \<longleftrightarrow> False"
| "settled (Await_erp_topups acct since excl k) \<longleftrightarrow> False"
| "settled (Await_erp_find rid k) \<longleftrightarrow> False"
| "settled (Await_account q k) \<longleftrightarrow> False"
| "settled (Await_user_id email k) \<longleftrightarrow> False"
| "settled (Await_wallets acct k) \<longleftrightarrow> False"
| "settled (Await_wallet wid k) \<longleftrightarrow> False"
| "settled (Await_invoice wid amt memo k) \<longleftrightarrow> False"
| "settled (Await_pay wid bolt k) \<longleftrightarrow> False"

primrec pay_once :: "'a result io \<Rightarrow> bool" where
  "pay_once (Done x) \<longleftrightarrow> True"
| "pay_once (Await_unit c k) \<longleftrightarrow> (\<exists>n. c = Notify n) \<and> (\<forall>r. pay_once (k r))"
| "pay_once (Await_bool c k) \<longleftrightarrow> False"
| "pay_once (Await_now k) \<longleftrightarrow> False"
| "pay_once (Await_cache_get key k) \<longleftrightarrow> False"
| "pay_once (Await_raw_get key k) \<longleftrightarrow> False"
| "pay_once (Await_zrange key k) \<longleftrightarrow> False"
| "pay_once (Await_settings_cache k) \<longleftrightarrow> False"
| "pay_once (Await_discounts_cache k) \<longleftrightarrow> False"
| "pay_once (Await_erp_settings k) \<longleftrightarrow> False"
| "pay_once (Await_erp_discounts k) \<longleftrightarrow> False"
| "pay_once (Await_erp_topups acct since excl k) \<longleftrightarrow> False"
| "pay_once (Await_erp_find rid k) \<longleftrightarrow> False"
| "pay_once (Await_account q k) \<longleftrightarrow> (\<forall>r. pay_once (k r))"
| "pay_once (Await_user_id email k) \<longleftrightarrow> False"
| "pay_once (Await_wallets acct k) \<longleftrightarrow> False"
| "pay_once (Await_wallet wid k) \<longleftrightarrow> (\<forall>r. pay_once (k r))"
| "pay_once (Await_invoice wid amt memo k) \<longleftrightarrow> (\<forall>r. pay_once (k r))"
| "pay_once (Await_pay wid bolt k) \<longleftrightarrow> (\<forall>r. settled (k (Inr r))) \<and> (\<forall>e. pay_once (k (Inl e)))"

lemma pay_once_bind:
  assumes "pay_once m" "\<And>x. pay_once (k x)" "\<And>x. \<not> isl x \<Longrightarrow> settled (k x)"
  shows "pay_once (bindI m k)"
proof -
  have s: "settled m \<Longrightarrow> settled (bindI m k)" for m by (induction m) (auto simp: assms(3))
  show ?thesis using assms(1) by (induction m) (auto simp: assms(2) s)
qed

lemma send_pays_once: "pay_once (send_and_notify args)"
proof -
  have "pay_once (intraledgerPaymentSendWalletId args)"
    by (auto simp: intraledgerPaymentSendWalletId_def validateIntraledgerPaymentInputs_def active_wallet_def
        split: sum.splits option.splits)
  then show ?thesis
    unfolding send_and_notify_def
    by (intro pay_once_bind) (auto simp: validateIsUsdWallet_def ignoreI_def split: sum.splits)
qed

text \<open>
  The calls that must work: the cache of outcomes, and the payment must not be carried out and reported
  as failed.
\<close>

definition outcome_key :: "string \<Rightarrow> bool" where
  "outcome_key key \<longleftrightarrow> take 20 key = ''payment-idempotency:''"

lemma outcome_key_cacheKeyFor [simp]: "outcome_key (cacheKeyFor key)"
  by (simp add: outcome_key_def cacheKeyFor_def)

definition sends_reported :: "'a io \<Rightarrow> call_fault \<Rightarrow> bool" where
  "sends_reported m f \<longleftrightarrow>
     (case m of
        Await_cache_get key _ \<Rightarrow> outcome_key key \<longrightarrow> f = Works
      | Await_unit (Cache_set key _ _) _ \<Rightarrow> outcome_key key \<longrightarrow> f = Works
      | Await_pay _ _ _ \<Rightarrow> (case f of Applied _ \<Rightarrow> False | _ \<Rightarrow> True)
      | _ \<Rightarrow> True)"

lemma status_value_idem [simp]: "status_value (status_value st) = status_value st"
  by (induction st) simp_all

lemma step_bind: "\<not> is_done m \<Longrightarrow> step f (bindI m k) s = (bindI (fst (step f m s)) k, snd (step f m s))"
  by (cases m) (auto split: prod.splits)

lemma bind_not_done: "\<not> is_done m \<Longrightarrow> \<not> is_done (bindI m k)"
  by (cases m) auto

lemma reported_bind: "\<not> is_done m \<Longrightarrow> sends_reported (bindI m k) f \<longleftrightarrow> sends_reported m f"
  by (cases m) (auto simp: sends_reported_def)

text \<open>The stored outcome of a key and its lock are as they were.\<close>

definition same_locks :: "string \<Rightarrow> services \<Rightarrow> services \<Rightarrow> bool" where
  "same_locks key s t \<longleftrightarrow> redis_keys t (cacheKeyFor key) = redis_keys s (cacheKeyFor key)
     \<and> mutexes t (getPaymentIdempotencyKeyLockResource key) = mutexes s (getPaymentIdempotencyKeyLockResource key)
     \<and> clock t = clock s"

lemma settled_step:
  assumes "settled m" "\<not> is_done m"
  shows "settled (fst (step f m s)) \<and> same_locks key s (snd (step f m s)) \<and> payments (snd (step f m s)) = payments s"
  using assms by (cases m) (auto simp: same_locks_def unit_reply_def with_fault_def)

lemma pay_once_step:
  assumes "pay_once m" "\<not> is_done m" "sends_reported m f"
  shows "same_locks key s (snd (step f m s)) \<and>
    (pay_once (fst (step f m s)) \<and> payments (snd (step f m s)) = payments s
     \<or> settled (fst (step f m s)) \<and> length (payments (snd (step f m s))) = Suc (length (payments s)))"
  using assms
  by (cases m) (auto simp: same_locks_def unit_reply_def with_fault_def add_invoice_def pay_invoice_def
      sends_reported_def split: call_fault.splits list.splits prod.splits)

section \<open>Phases of a guarded send\<close>

datatype phase = Outside | Checking | Running | Paid | Leaving "payment_send_status result" | Finished "payment_send_status result"

inductive in_phase :: "string \<Rightarrow> phase \<Rightarrow> payment_send_status result io \<Rightarrow> bool" for key where
  "pay_once ex \<Longrightarrow> in_phase key Outside (guarded_send key fp ex)"
| "pay_once ex \<Longrightarrow> in_phase key Outside (redlock (getPaymentIdempotencyKeyLockResource key) (in_lock (cacheKeyFor key) fp ex))"
| "pay_once ex \<Longrightarrow> in_phase key Checking
     (bindI (in_lock (cacheKeyFor key) fp ex) (leave (getPaymentIdempotencyKeyLockResource key)))"
| "pay_once ex \<Longrightarrow> in_phase key Running
     (bindI (bindI ex (store_outcome (cacheKeyFor key) fp)) (leave (getPaymentIdempotencyKeyLockResource key)))"
| "settled ex \<Longrightarrow> in_phase key Paid
     (bindI (bindI ex (store_outcome (cacheKeyFor key) fp)) (leave (getPaymentIdempotencyKeyLockResource key)))"
| "in_phase key (Leaving r) (leave (getPaymentIdempotencyKeyLockResource key) r)"
| "in_phase key (Finished r) (Done r)"

fun inside :: "phase \<Rightarrow> bool" where
  "inside Outside \<longleftrightarrow> False"
| "inside (Finished _) \<longleftrightarrow> False"
| "inside _ \<longleftrightarrow> True"

text \<open>
  One call of a program in a phase, as what it does to the lock, the cached outcome and the payments. The
  cached outcome is read as present when it is stored, which it is for a day.
\<close>

inductive move :: "string \<Rightarrow> phase \<times> services \<Rightarrow> phase \<times> services \<Rightarrow> bool" for key where
  move_keep: "same_locks key s t \<Longrightarrow> payments t = payments s \<Longrightarrow>
     ph' = ph \<or> \<not> inside ph \<and> (\<exists>e. ph' = Finished (Inl e)) \<Longrightarrow> move key (ph, s) (ph', t)"
| move_hit: "same_locks key s t \<Longrightarrow> payments t = payments s \<Longrightarrow> ph = Outside \<and> ph' = Finished \<or> ph = Checking \<and> ph' = Leaving
     \<Longrightarrow> redis_keys s (cacheKeyFor key) = Some (v, expiry) \<Longrightarrow> move key (ph, s) (ph' (resolveCached fp v), t)"
| move_enter: "\<not> mutexes s (getPaymentIdempotencyKeyLockResource key)
     \<Longrightarrow> redis_keys t (cacheKeyFor key) = redis_keys s (cacheKeyFor key) \<Longrightarrow> clock t = clock s
     \<Longrightarrow> payments t = payments s \<Longrightarrow> mutexes t (getPaymentIdempotencyKeyLockResource key)
     \<Longrightarrow> ph' = Checking \<or> ph' = Finished (Inl e) \<Longrightarrow> move key (Outside, s) (ph', t)"
| move_run: "same_locks key s t \<Longrightarrow> payments t = payments s \<Longrightarrow> redis_keys s (cacheKeyFor key) = None
     \<Longrightarrow> move key (Checking, s) (Running, t)"
| move_pay: "same_locks key s t \<Longrightarrow> length (payments t) = Suc (length (payments s)) \<Longrightarrow> move key (Running, s) (Paid, t)"
| move_store: "redis_keys t (cacheKeyFor key) = Some (Stored_send fp (status_value st), clock s + IDEMPOTENCY_TTL_SECS * 1000)
     \<Longrightarrow> mutexes t (getPaymentIdempotencyKeyLockResource key) = mutexes s (getPaymentIdempotencyKeyLockResource key) \<Longrightarrow> clock t = clock s \<Longrightarrow> payments t = payments s \<Longrightarrow> ph = Running \<or> ph = Paid
     \<Longrightarrow> move key (ph, s) (Leaving (Inr st), t)"
| move_leave: "redis_keys t (cacheKeyFor key) = redis_keys s (cacheKeyFor key) \<Longrightarrow> clock t = clock s \<Longrightarrow> payments t = payments s
     \<Longrightarrow> ph = Leaving r \<or> ph = Running \<and> isl r \<Longrightarrow> r' = r \<or> isl r' \<Longrightarrow> move key (ph, s) (Finished r', t)"

lemma leave_moves:
  assumes "ph = Leaving r \<or> ph = Running \<and> isl r"
    and "step f (leave (getPaymentIdempotencyKeyLockResource key) r) s = (m', t)"
  shows "\<exists>ph'. in_phase key ph' m' \<and> move key (ph, s) (ph', t)"
proof -
  have "redis_keys t (cacheKeyFor key) = redis_keys s (cacheKeyFor key) \<and> clock t = clock s \<and> payments t = payments s
      \<and> (\<exists>r'. m' = Done r' \<and> (r' = r \<or> isl r'))"
    using assms(2) by (cases f) (auto simp: leave_def unit_reply_def with_fault_def)
  then show ?thesis using assms(1) by (blast intro: in_phase.intros move_leave)
qed

lemma running_moves:
  assumes "pay_once ex \<and> ph = Running \<or> settled ex \<and> ph = Paid"
    and m: "m = bindI (bindI ex (store_outcome (cacheKeyFor key) fp)) (leave (getPaymentIdempotencyKeyLockResource key))"
    and ok: "sends_reported m f" and st: "step f m s = (m', t)"
  shows "\<exists>ph'. in_phase key ph' m' \<and> move key (ph, s) (ph', t)"
proof (cases "is_done ex")
  case False
  have b: "\<not> is_done (bindI ex k)" for k :: "payment_send_status result \<Rightarrow> payment_send_status result io"
    using False by (rule bind_not_done)
  have m': "m' = bindI (bindI (fst (step f ex s)) (store_outcome (cacheKeyFor key) fp)) (leave (getPaymentIdempotencyKeyLockResource key))"
    "t = snd (step f ex s)"
    using st unfolding m by (simp_all add: step_bind [OF b] step_bind [OF False])
  have "sends_reported ex f" using ok unfolding m by (simp add: reported_bind [OF b] reported_bind [OF False])
  from assms(1) show ?thesis
  proof
    assume a: "pay_once ex \<and> ph = Running"
    with pay_once_step [OF _ False \<open>sends_reported ex f\<close>, where s = s and key = key] show ?thesis
      unfolding m' by (blast intro: in_phase.intros move_keep move_pay)
  next
    assume a: "settled ex \<and> ph = Paid"
    with settled_step [OF _ False, where f = f and s = s and key = key] show ?thesis
      unfolding m' by (blast intro: in_phase.intros move_keep)
  qed
next
  case True
  then obtain x where x: "ex = Done x" by (auto simp: is_done_iff)
  show ?thesis
  proof (cases x)
    case (Inl e)
    with x assms(1) have "ph = Running" by auto
    then show ?thesis using leave_moves [of ph "Inl e"] st unfolding m by (simp add: x Inl store_outcome_def)
  next
    case (Inr st')
    have "f = Works" using ok unfolding m by (simp add: x Inr store_outcome_def ignoreI_def sends_reported_def)
    then have "m' = leave (getPaymentIdempotencyKeyLockResource key) (Inr st')"
      "t = redis_set (cacheKeyFor key) (Stored_send fp (status_value st')) IDEMPOTENCY_TTL_SECS s"
      using st unfolding m
      by (simp_all add: x Inr store_outcome_def ignoreI_def unit_reply_def with_fault_def cache_fault_def)
    moreover have "move key (ph, s) (Leaving (Inr st'), redis_set (cacheKeyFor key) (Stored_send fp (status_value st')) IDEMPOTENCY_TTL_SECS s)"
      using assms(1) by (intro move_store) (auto simp: redis_set_def)
    ultimately show ?thesis by (auto intro: in_phase.intros)
  qed
qed

definition unexpired :: "string \<Rightarrow> services \<Rightarrow> bool" where
  "unexpired key s \<longleftrightarrow> (case redis_keys s (cacheKeyFor key) of Some (v, expiry) \<Rightarrow> clock s < expiry | None \<Rightarrow> True)"

lemma cache_reply_unexpired:
  assumes "unexpired key s"
  shows "cache_reply Works (cacheKeyFor key) s =
    (case redis_keys s (cacheKeyFor key) of Some (v, expiry) \<Rightarrow> Inr v | None \<Rightarrow> Inl CacheUndefinedError)"
  using assms by (auto simp: unexpired_def cache_reply_def redis_get_def of_option_def read_fault_def cache_fault_def
      split: option.splits)

lemma same_locks_refl: "same_locks key s s"
  by (simp add: same_locks_def)

lemma phase_step:
  assumes "in_phase key ph m" "sends_reported m f" "unexpired key s" "step f m s = (m', t)"
  shows "\<exists>ph'. in_phase key ph' m' \<and> move key (ph, s) (ph', t)"
  using assms(1)
proof cases
  case (1 ex fp)
  have w: "f = Works" using assms(2) by (simp add: 1 guarded_send_def sends_reported_def Let_def)
  show ?thesis
  proof (cases "redis_keys s (cacheKeyFor key)")
    case None
    with assms(4) 1 show ?thesis
      by (auto simp: w guarded_send_def Let_def cache_reply_unexpired [OF assms(3)]
          intro!: exI [of _ Outside] in_phase.intros move_keep same_locks_refl)
  next
    case (Some ve)
    then obtain v ex' where ve: "redis_keys s (cacheKeyFor key) = Some (v, ex')" by (cases ve) auto
    with assms(4) have "m' = Done (resolveCached fp v)" "t = s"
      by (simp_all add: 1 w guarded_send_def Let_def cache_reply_unexpired [OF assms(3)])
    moreover have "move key (Outside, s) (Finished (resolveCached fp v), s)"
      by (rule move_hit [where ph' = Finished]) (auto simp: same_locks_refl ve)
    ultimately show ?thesis using 1 by (auto intro: in_phase.intros)
  qed
next
  case (2 ex fp)
  define lock where "lock = getPaymentIdempotencyKeyLockResource key"
  have st: "(case unit_reply f (Acquire lock) s of (r, t) \<Rightarrow>
      (case r of Inl e \<Rightarrow> Done (Inl (lock_error e)) | Inr _ \<Rightarrow> bindI (in_lock (cacheKeyFor key) fp ex) (leave lock), t)) = (m', t)"
    using assms(4) unfolding 2 redlock_def lock_def [symmetric] step.simps .
  show ?thesis
  proof (cases "unit_reply f (Acquire lock) s = (Inr (), t)")
    case True
    then have a: "\<not> mutexes s lock" "t = s\<lparr>mutexes := (mutexes s)(lock := True)\<rparr>"
      by (auto simp: unit_reply_def with_fault_def split: call_fault.splits if_splits)
    with st True have "m' = bindI (in_lock (cacheKeyFor key) fp ex) (leave lock)" by simp
    moreover have "move key (Outside, s) (Checking, t)"
      using a by (intro move_enter) (auto simp: lock_def)
    ultimately show ?thesis using 2 by (auto simp: lock_def intro: in_phase.intros)
  next
    case False
    with st obtain e where e: "m' = Done (Inl (lock_error e))"
      "t = s \<or> \<not> mutexes s lock \<and> t = s\<lparr>mutexes := (mutexes s)(lock := True)\<rparr>"
      by (cases f) (auto simp: unit_reply_def with_fault_def split: if_splits)
    have "move key (Outside, s) (Finished (Inl (lock_error e)), t)"
      using e(2)
    proof
      assume "t = s"
      then show ?thesis by (intro move_keep) (auto simp: same_locks_refl)
    next
      assume "\<not> mutexes s lock \<and> t = s\<lparr>mutexes := (mutexes s)(lock := True)\<rparr>"
      then show ?thesis by (intro move_enter) (auto simp: lock_def)
    qed
    then show ?thesis using 2 e(1) by (auto intro: in_phase.intros)
  qed
next
  case (3 ex fp)
  have w: "f = Works" using assms(2) by (simp add: 3 in_lock_def sends_reported_def)
  show ?thesis
  proof (cases "redis_keys s (cacheKeyFor key)")
    case None
    with assms(4) have "m' = bindI (bindI ex (store_outcome (cacheKeyFor key) fp)) (leave (getPaymentIdempotencyKeyLockResource key))"
      "t = s" by (simp_all add: 3 w in_lock_def cache_reply_unexpired [OF assms(3)])
    then show ?thesis using 3 None by (auto intro: in_phase.intros move_run same_locks_refl)
  next
    case (Some ve)
    then obtain v ex' where ve: "redis_keys s (cacheKeyFor key) = Some (v, ex')" by (cases ve) auto
    with assms(4) have "m' = leave (getPaymentIdempotencyKeyLockResource key) (resolveCached fp v)" "t = s"
      by (simp_all add: 3 w in_lock_def cache_reply_unexpired [OF assms(3)])
    moreover have "move key (Checking, s) (Leaving (resolveCached fp v), s)"
      by (rule move_hit [where ph' = Leaving]) (auto simp: same_locks_refl ve)
    ultimately show ?thesis using 3 by (auto intro: in_phase.intros)
  qed
next
  case (4 ex fp)
  then show ?thesis using running_moves [of ex ph m key fp f s] assms(2,4) by blast
next
  case (5 ex fp)
  then show ?thesis using running_moves [of ex ph m key fp f s] assms(2,4) by blast
next
  case (6 r)
  then show ?thesis using leave_moves [of ph r f key s] assms(4) by simp
next
  case (7 r)
  then show ?thesis using assms(4) by (auto intro!: exI [of _ ph] in_phase.intros move_keep same_locks_refl)
qed

section \<open>At most one payment\<close>

text \<open>
  The invariant of the programs on one key, started at time \<open>since\<close> with \<open>paid\<close> payments: at most one is
  inside the lock, and then the lock is held; while no outcome is stored, the one payment there may be
  was made by the program that is about to store it, and nobody has reported an outcome; once it is
  stored, nobody runs, and everybody who reports an outcome reports that one.
\<close>

definition one_send :: "string \<Rightarrow> int \<Rightarrow> nat \<Rightarrow> phase list \<Rightarrow> services \<Rightarrow> bool" where
  "one_send key since paid phs s \<longleftrightarrow>
     since \<le> clock s
     \<and> (\<forall>i < length phs. inside (phs ! i) \<longrightarrow>
          mutexes s (getPaymentIdempotencyKeyLockResource key) \<and> (\<forall>j < length phs. inside (phs ! j) \<longrightarrow> j = i))
     \<and> (case redis_keys s (cacheKeyFor key) of
          None \<Rightarrow>
            (\<forall>i < length phs. phs ! i = Paid \<longrightarrow> length (payments s) = Suc paid)
            \<and> ((\<forall>i < length phs. phs ! i \<noteq> Paid) \<longrightarrow> length (payments s) = paid)
            \<and> (\<forall>i < length phs. \<forall>st. phs ! i \<noteq> Leaving (Inr st) \<and> phs ! i \<noteq> Finished (Inr st))
        | Some (v, expiry) \<Rightarrow>
            since + IDEMPOTENCY_TTL_SECS * 1000 \<le> expiry \<and> length (payments s) \<le> Suc paid
            \<and> (\<forall>i < length phs. phs ! i \<noteq> Running \<and> phs ! i \<noteq> Paid)
            \<and> (\<exists>fp st. v = Stored_send fp st \<and> status_value st = st
                 \<and> (\<forall>i < length phs. \<forall>st'. phs ! i = Leaving (Inr st') \<or> phs ! i = Finished (Inr st') \<longrightarrow> status_value st' = st)))"

lemma one_send_unexpired:
  "one_send key since paid phs s \<Longrightarrow> clock s < since + IDEMPOTENCY_TTL_SECS * 1000 \<Longrightarrow> unexpired key s"
  by (auto simp: one_send_def unexpired_def split: option.splits)

lemma one_send_parts:
  assumes "one_send key since paid phs s"
  shows "since \<le> clock s"
    and "\<And>i. i < length phs \<Longrightarrow> inside (phs ! i) \<Longrightarrow> mutexes s (getPaymentIdempotencyKeyLockResource key)"
    and "\<And>i j. i < length phs \<Longrightarrow> j < length phs \<Longrightarrow> inside (phs ! i) \<Longrightarrow> inside (phs ! j) \<Longrightarrow> j = i"
  using assms by (auto simp: one_send_def)

text \<open>A program outside, or one that is inside alone, may change its phase without a payment.\<close>

lemma one_send_quiet:
  assumes inv: "one_send key since paid phs s" and i: "i < length phs"
    and same: "redis_keys t (cacheKeyFor key) = redis_keys s (cacheKeyFor key)" "clock t = clock s" "payments t = payments s"
    and ph: "phs ! i \<noteq> Paid \<or> ph' = Paid" "ph' \<noteq> Paid \<or> phs ! i = Paid"
      "ph' = Running \<Longrightarrow> phs ! i = Running \<or> redis_keys s (cacheKeyFor key) = None"
      "\<And>st. ph' = Leaving (Inr st) \<or> ph' = Finished (Inr st) \<Longrightarrow>
         phs ! i = Leaving (Inr st) \<or> phs ! i = Finished (Inr st)
         \<or> (\<exists>fp st' expiry. st = Read_back st' \<and> redis_keys s (cacheKeyFor key) = Some (Stored_send fp st', expiry))"
    and locks: "\<And>j. j < length phs \<Longrightarrow> inside (phs[i := ph'] ! j) \<Longrightarrow>
        mutexes t (getPaymentIdempotencyKeyLockResource key) \<and> (\<forall>k < length phs. inside (phs[i := ph'] ! k) \<longrightarrow> k = j)"
  shows "one_send key since paid (phs[i := ph']) t"
proof (cases "redis_keys s (cacheKeyFor key)")
  case None
  have old: "\<And>j. j < length phs \<Longrightarrow> phs ! j = Paid \<Longrightarrow> length (payments s) = Suc paid"
    "(\<And>j. j < length phs \<Longrightarrow> phs ! j \<noteq> Paid) \<Longrightarrow> length (payments s) = paid"
    "\<And>j st. j < length phs \<Longrightarrow> phs ! j \<noteq> Leaving (Inr st) \<and> phs ! j \<noteq> Finished (Inr st)"
    using inv None by (simp_all add: one_send_def)
  have "length (payments s) = Suc paid" if "j < length phs" "phs[i := ph'] ! j = Paid" for j
    using that old(1) [of j] old(1) [of i] ph(2) i by (cases "j = i") auto
  moreover have "length (payments s) = paid" if "\<And>j. j < length phs \<Longrightarrow> phs[i := ph'] ! j \<noteq> Paid"
  proof (rule old(2))
    fix j
    assume "j < length phs"
    then show "phs ! j \<noteq> Paid" using that [of j] that [of i] ph(1) i by (cases "j = i") auto
  qed
  moreover have "phs[i := ph'] ! j \<noteq> Leaving (Inr st) \<and> phs[i := ph'] ! j \<noteq> Finished (Inr st)" if "j < length phs" for j st
    using that old(3) [of j st] old(3) [OF i, of st] ph(4) [of st] i None by (cases "j = i") auto
  ultimately show ?thesis
    unfolding one_send_def using None same one_send_parts(1) [OF inv] locks by simp
next
  case (Some ve)
  then obtain v expiry where ve: "redis_keys s (cacheKeyFor key) = Some (v, expiry)" by (cases ve) auto
  then obtain fp st where old: "since + IDEMPOTENCY_TTL_SECS * 1000 \<le> expiry" "length (payments s) \<le> Suc paid"
    "\<And>j. j < length phs \<Longrightarrow> phs ! j \<noteq> Running \<and> phs ! j \<noteq> Paid" "v = Stored_send fp st" "status_value st = st"
    "\<And>j st'. j < length phs \<Longrightarrow> phs ! j = Leaving (Inr st') \<or> phs ! j = Finished (Inr st') \<Longrightarrow> status_value st' = st"
    using inv by (simp add: one_send_def) blast
  have "phs[i := ph'] ! j \<noteq> Running \<and> phs[i := ph'] ! j \<noteq> Paid" if "j < length phs" for j
    using that old(3) [of j] old(3) [OF i] ph(2,3) ve i by (cases "j = i") auto
  moreover have "status_value st' = st"
    if "j < length phs" "phs[i := ph'] ! j = Leaving (Inr st') \<or> phs[i := ph'] ! j = Finished (Inr st')" for j st'
    using that old(6) [of j st'] old(6) [OF i, of st'] ph(4) [of st'] ve old(4,5) i by (cases "j = i") auto
  ultimately show ?thesis
    unfolding one_send_def using ve same old(1,2,4,5) one_send_parts(1) [OF inv] locks by simp
qed

lemma one_send_move:
  assumes inv: "one_send key since paid phs s" and i: "i < length phs" and mv: "move key (phs ! i, s) (ph', t)"
  shows "one_send key since paid (phs[i := ph']) t"
  using mv
proof (cases rule: move.cases)
  case move_keep
  show ?thesis
    by (rule one_send_quiet [OF inv i])
       (use move_keep one_send_parts [OF inv] i in \<open>auto simp: same_locks_def nth_list_update split: if_splits\<close>)
next
  case (move_hit v expiry fp ph'')
  have held: "phs ! i = Checking \<Longrightarrow> mutexes s (getPaymentIdempotencyKeyLockResource key)"
    using one_send_parts(2) [OF inv i] by simp
  show ?thesis
    by (rule one_send_quiet [OF inv i])
       (use move_hit one_send_parts(1,3) [OF inv] held i in
         \<open>auto simp: same_locks_def nth_list_update resolveCached_def dest: one_send_parts(2) [OF inv]
            split: if_splits stored.splits\<close>)
next
  case (move_enter e)
  show ?thesis
    by (rule one_send_quiet [OF inv i])
       (use move_enter one_send_parts [OF inv] i in \<open>auto simp: nth_list_update split: if_splits\<close>)
next
  case move_run
  show ?thesis
    by (rule one_send_quiet [OF inv i])
       (use move_run one_send_parts [OF inv] i in \<open>auto simp: same_locks_def nth_list_update split: if_splits\<close>)
next
  case (move_leave r r')
  show ?thesis
    by (rule one_send_quiet [OF inv i])
       (use move_leave one_send_parts [OF inv] i in \<open>auto simp: nth_list_update split: if_splits\<close>)
next
  case move_pay
  have alone: "\<not> inside (phs ! j)" if "j < length phs" "j \<noteq> i" for j
    using one_send_parts(3) [OF inv i that(1)] that(2) move_pay by auto
  have none: "redis_keys s (cacheKeyFor key) = None"
    using inv i move_pay by (auto simp: one_send_def split: option.splits)
  have "phs ! j \<noteq> Paid" if "j < length phs" for j using alone [OF that] move_pay by (cases "j = i") auto
  then have "length (payments s) = paid" using inv none by (simp add: one_send_def)
  then show ?thesis
    using inv i none alone move_pay by (auto simp: one_send_def same_locks_def nth_list_update)
next
  case (move_store fp st)
  have alone: "\<not> inside (phs ! j)" if "j < length phs" "j \<noteq> i" for j
    using one_send_parts(3) [OF inv i that(1)] that(2) move_store by auto
  have none: "redis_keys s (cacheKeyFor key) = None"
    using inv i move_store by (auto simp: one_send_def split: option.splits)
  then have "length (payments s) \<le> Suc paid" using inv by (auto simp: one_send_def)
  moreover have "phs ! j \<noteq> Running \<and> phs ! j \<noteq> Paid \<and> (\<forall>r. phs ! j \<noteq> Leaving r)" if "j < length phs" "j \<noteq> i" for j
    using alone [OF that] by (cases "phs ! j") auto
  moreover have "phs ! j \<noteq> Finished (Inr st')" if "j < length phs" for j st' using inv none that by (simp add: one_send_def)
  moreover have "mutexes s (getPaymentIdempotencyKeyLockResource key)"
    using one_send_parts(2) [OF inv i] move_store by auto
  ultimately show ?thesis
    using alone move_store one_send_parts(1) [OF inv] i
    by (auto simp: one_send_def nth_list_update)
qed

text \<open>Programs with phases, each call of which is a move, run together.\<close>

locale phased =
  fixes key :: string and phase_of :: "phase \<Rightarrow> 'a io \<Rightarrow> bool" and inv :: "services \<Rightarrow> bool"
  assumes phased_step: "phase_of ph m \<Longrightarrow> inv s \<Longrightarrow> unexpired key s \<Longrightarrow> sends_reported m f \<Longrightarrow> step f m s = (m', t)
      \<Longrightarrow> inv t \<and> (\<exists>ph'. phase_of ph' m' \<and> move key (ph, s) (ph', t))"
    and phased_tick: "inv s \<Longrightarrow> inv (s\<lparr>clock := clock s + int n\<rparr>)"
begin

lemma run_one_send:
  assumes "list_all2 phase_of phs (fst sys)" "one_send key since paid phs (snd sys)" "inv (snd sys)"
    and "allowed_run sends_reported evs sys" "clock (snd (run_events evs sys)) < since + IDEMPOTENCY_TTL_SECS * 1000"
  shows "\<exists>phs'. list_all2 phase_of phs' (fst (run_events evs sys))
    \<and> one_send key since paid phs' (snd (run_events evs sys))"
  using assms
proof (induction evs arbitrary: phs sys)
  case (Cons e evs)
  obtain ms s where sys: "sys = (ms, s)" by (cases sys)
  have "unexpired key s"
    using one_send_unexpired [OF Cons.prems(2)] Cons.prems(5) run_clock [of sys "e # evs"] by (simp add: sys)
  show ?case
  proof (cases e)
    case (Tick n)
    have "one_send key since paid phs (s\<lparr>clock := clock s + int n\<rparr>)"
      using Cons.prems(2) by (auto simp: sys one_send_def split: option.splits)
    with Cons.IH [of phs "fire e sys"] Cons.prems phased_tick show ?thesis by (simp add: sys Tick)
  next
    case (Step i f)
    show ?thesis
    proof (cases "i < length ms")
      case False
      with Cons.IH [of phs sys] Cons.prems show ?thesis by (simp add: sys Step)
    next
      case True
      obtain m' t where st: "step f (ms ! i) s = (m', t)" by (cases "step f (ms ! i) s")
      have len: "length phs = length ms" using Cons.prems(1) by (simp add: sys list_all2_lengthD)
      have "phase_of (phs ! i) (ms ! i)" using Cons.prems(1) True by (simp add: sys list_all2_conv_all_nth)
      moreover have "sends_reported (ms ! i) f" using Cons.prems(4) True by (simp add: sys Step)
      moreover have "inv s" using Cons.prems(3) by (simp add: sys)
      ultimately obtain ph' where ph: "phase_of ph' m'" "move key (phs ! i, s) (ph', t)" and "inv t"
        using phased_step [OF _ _ \<open>unexpired key s\<close> _ st] by blast
      have "one_send key since paid (phs[i := ph']) t"
        using one_send_move [OF _ _ ph(2)] Cons.prems(2) True len by (simp add: sys)
      moreover have "list_all2 phase_of (phs[i := ph']) (ms[i := m'])"
        using Cons.prems(1) ph(1) by (simp add: sys list_all2_update_cong)
      ultimately show ?thesis
        using Cons.IH [of "phs[i := ph']" "fire e sys"] Cons.prems True \<open>inv t\<close> by (simp add: sys Step st)
    qed
  qed
qed auto

text \<open>Programs that start outside make at most one payment.\<close>

lemma at_most_one:
  assumes "list_all (phase_of Outside) ms" "inv s" "redis_keys s (cacheKeyFor key) = None"
    and "allowed_run sends_reported evs (ms, s)"
    and "clock (snd (run_events evs (ms, s))) < clock s + IDEMPOTENCY_TTL_SECS * 1000"
  obtains phs where "list_all2 phase_of phs (fst (run_events evs (ms, s)))"
    "one_send key (clock s) (length (payments s)) phs (snd (run_events evs (ms, s)))"
    "length (payments (snd (run_events evs (ms, s)))) \<le> Suc (length (payments s))"
proof -
  let ?phs = "replicate (length ms) Outside"
  have "list_all2 phase_of ?phs (fst (ms, s))" using assms(1) by (simp add: list_all2_conv_all_nth list_all_length)
  moreover have "one_send key (clock s) (length (payments s)) ?phs (snd (ms, s))" by (simp add: one_send_def assms(3))
  ultimately obtain phs where phs: "list_all2 phase_of phs (fst (run_events evs (ms, s)))"
      "one_send key (clock s) (length (payments s)) phs (snd (run_events evs (ms, s)))"
    using run_one_send [of ?phs "(ms, s)" "clock s" "length (payments s)" evs] assms(2,4,5) by auto
  moreover have "length (payments (snd (run_events evs (ms, s)))) \<le> Suc (length (payments s))"
    using phs(2) by (auto simp: one_send_def split: option.splits)
  ultimately show ?thesis by (rule that)
qed

end

interpretation sends: phased key "in_phase key" "\<lambda>_. True" for key
  by unfold_locales (simp_all add: phase_step)

lemma bind_never_done: "(\<And>x. \<not> is_done (k x)) \<Longrightarrow> \<not> is_done (bindI m k)"
  by (cases m) auto

lemma phase_done: "in_phase key ph m \<Longrightarrow> m = Done r \<Longrightarrow> ph = Finished r"
proof -
  have l: "\<not> is_done (bindI m (leave lock))" for m :: "payment_send_status result io" and lock
    by (rule bind_never_done) (simp add: leave_def)
  assume "in_phase key ph m" "m = Done r"
  then show ?thesis
    using l by cases (auto simp: guarded_send_def redlock_def leave_def Let_def dest!: arg_cong [of _ "Done r" is_done])
qed

lemma guarded_at_most_once:
  fixes jobs :: "(string \<times> payment_send_status result io) list"
  assumes "list_all (\<lambda>(fp, ex). pay_once ex) jobs" "redis_keys s (cacheKeyFor key) = None"
    and "allowed_run sends_reported evs (map (\<lambda>(fp, ex). guarded_send key fp ex) jobs, s)"
  defines "final \<equiv> run_events evs (map (\<lambda>(fp, ex). guarded_send key fp ex) jobs, s)"
  assumes "clock (snd final) < clock s + IDEMPOTENCY_TTL_SECS * 1000"
  shows "length (payments (snd final)) \<le> Suc (length (payments s))
    \<and> (\<exists>st. list_all (\<lambda>m. \<forall>st'. m = Done (Inr st') \<longrightarrow> status_value st' = st) (fst final))"
proof -
  let ?sys = "(map (\<lambda>(fp, ex). guarded_send key fp ex) jobs, s)"
  have "list_all (in_phase key Outside) (fst ?sys)"
    using assms(1) by (auto simp: list_all_length case_prod_beta intro: in_phase.intros)
  from sends.at_most_one [OF this, of s evs] assms(2,3,5)
  obtain phs where phs: "list_all2 (in_phase key) phs (fst final)"
      "one_send key (clock s) (length (payments s)) phs (snd final)"
    by (auto simp: final_def)
  have finished: "phs ! i = Finished (Inr st)" if "i < length phs" "fst final ! i = Done (Inr st)" for i st
  proof -
    have "in_phase key (phs ! i) (fst final ! i)" using phs(1) that(1) by (auto simp: list_all2_conv_all_nth)
    then show ?thesis using phase_done that(2) by fastforce
  qed
  have len: "length phs = length (fst final)" using phs(1) by (rule list_all2_lengthD)
  show ?thesis
  proof (cases "redis_keys (snd final) (cacheKeyFor key)")
    case None
    then have "\<And>i st. i < length phs \<Longrightarrow> phs ! i \<noteq> Finished (Inr st)"
      "length (payments (snd final)) \<le> Suc (length (payments s))"
      using phs(2) by (auto simp: one_send_def)
    then show ?thesis using finished len by (fastforce simp: list_all_length)
  next
    case (Some ve)
    then obtain st where "length (payments (snd final)) \<le> Suc (length (payments s))"
      "\<And>i st'. i < length phs \<Longrightarrow> phs ! i = Finished (Inr st') \<Longrightarrow> status_value st' = st"
      using phs(2) by (cases ve) (simp add: one_send_def, blast)
    then show ?thesis using finished len by (auto simp: list_all_length intro!: exI [of _ st])
  qed
qed

text \<open>
  C14: A payment under an idempotency key is made at most once. Any number of intraledger sends from one
  wallet under the same key, for the same or for different payments, run interleaved in any order, with
  time passing within the day an outcome is kept and with any of their calls lost or only reported as
  failed, except that the cache of outcomes answers and that IBEX does not carry out a payment which it
  reports as failed. Then at most one payment is made, and all the sends that report an outcome report the
  same value.
\<close>

theorem paid_at_most_once:
  fixes sends :: "IntraLedgerPaymentSendWalletIdArgs list" and hash :: "string \<Rightarrow> string"
  assumes key: "js_trim key \<noteq> ''''" "length (js_trim key) \<le> 256"
    and sends: "list_all (\<lambda>a. pi_senderWalletId a = wid \<and> pi_idempotencyKey a = Some key) sends"
    and fresh: "redis_keys s (cacheKeyFor (wid @ CHR '':'' # js_trim key)) = None"
    and run: "allowed_run sends_reported evs (map (intraledgerPaymentSendWalletIdForUsdWallet hash) sends, s)"
  defines "final \<equiv> run_events evs (map (intraledgerPaymentSendWalletIdForUsdWallet hash) sends, s)"
  assumes day: "clock (snd final) < clock s + 24 * 60 * 60 * 1000"
  shows "length (payments (snd final)) \<le> Suc (length (payments s))
    \<and> (\<exists>st. list_all (\<lambda>m. \<forall>st'. m = Done (Inr st') \<longrightarrow> status_value st' = st) (fst final))"
proof -
  define jobs where "jobs = map (\<lambda>a.
    (hash (''intraledger|'' @ pi_recipientWalletId a @ CHR ''|'' # show_int (pi_amount a)), send_and_notify a)) sends"
  have eq: "map (intraledgerPaymentSendWalletIdForUsdWallet hash) sends =
      map (\<lambda>(fp, ex). guarded_send (wid @ CHR '':'' # js_trim key) fp ex) jobs"
    using sends key
    by (auto simp: jobs_def list_all_iff intraledgerPaymentSendWalletIdForUsdWallet_def withPaymentIdempotency_def
        MAX_KEY_LENGTH_def Let_def)
  have "list_all (\<lambda>(fp, ex). pay_once ex) jobs" by (simp add: jobs_def list_all_iff send_pays_once)
  from guarded_at_most_once [OF this fresh, of evs] run day show ?thesis
    by (simp add: eq final_def IDEMPOTENCY_TTL_SECS_def)
qed

definition ex_wallet_a :: string where "ex_wallet_a = ''aaaaaaaa-0000-4000-8000-000000000001''"

definition ex_wallet_b :: string where "ex_wallet_b = ''aaaaaaaa-0000-4000-8000-000000000002''"

definition ex_account :: "string \<Rightarrow> string option \<Rightarrow> string option \<Rightarrow> fy_account" where
  "ex_account i username role =
     \<lparr>ac_id = i, ac_username = username, ac_level = 1, ac_active = True, ac_role = role, ac_kratosUserId = ''u'' @ i\<rparr>"

definition ex_paid :: ibex_pay_response where
  "ex_paid =
     \<lparr>ip_status = None, ip_failureReason = None, ip_payment_status_id = Some (FNumber (Fin 2)),
      ip_payment_statusId = None, ip_payment_failureId = None\<rparr>"

definition ex_bank :: services where
  "ex_bank =
     \<lparr>clock = 1800000000000, zsets = (\<lambda>_. []), redis_keys = Map.empty, timelocks = Map.empty, mutexes = (\<lambda>_. False),
      erp_settings = None, erp_discounts = [], erp_rows = [], settings_cache = None, discounts_cache = None,
      accounts = [ex_account ''bank'' None (Some ''bankowner''), ex_account ''acc1'' (Some ''alice'') None],
      wallets = [\<lparr>wa_id = ex_wallet_a, wa_accountId = ''bank'', wa_currency = Usd\<rparr>,
                 \<lparr>wa_id = ex_wallet_b, wa_accountId = ''acc1'', wa_currency = Usd\<rparr>],
      identities = [], notices = [], invoices = [], payments = [], pay_replies = [ex_paid, ex_paid]\<rparr>"

definition ex_send :: IntraLedgerPaymentSendWalletIdArgs where
  "ex_send =
     \<lparr>pi_senderWalletId = ex_wallet_a, pi_recipientWalletId = ex_wallet_b, pi_amount = 5502, pi_memo = None,
      pi_idempotencyKey = Some ''fygaro:T1''\<rparr>"

definition ex_sha256 :: "string \<Rightarrow> string" where "ex_sha256 text = text"

text \<open>
  Three deliveries: the first and the second race for the lock, the third comes after them.
\<close>

definition ex_race :: "event list" where
  "ex_race = concat (replicate 14 [Step 0 Works, Step 1 Works]) @ [Step 2 Works, Step 2 Works]"

definition ex_raced :: "payment_send_status result io list \<times> services" where
  "ex_raced = run_events ex_race (map (intraledgerPaymentSendWalletIdForUsdWallet ex_sha256) (replicate 3 ex_send), ex_bank)"

definition result_of :: "'a result io \<Rightarrow> 'a option" where
  "result_of m = (case m of Done (Inr x) \<Rightarrow> Some x | _ \<Rightarrow> None)"

lemma sends_reported_Works: "sends_reported m Works"
  by (auto simp: sends_reported_def split: io.splits unit_call.splits)

theorem paid_at_most_once_witness:
  "map result_of (fst ex_raced) = [Some Send_success, None, Some (Read_back Send_success)]
   \<and> length (payments (snd ex_raced)) \<le> 1"
proof -
  have "js_trim ''fygaro:T1'' \<noteq> ''''" "length (js_trim ''fygaro:T1'') \<le> 256" by code_simp+
  moreover have "list_all (\<lambda>a. pi_senderWalletId a = ex_wallet_a \<and> pi_idempotencyKey a = Some ''fygaro:T1'') (replicate 3 ex_send)"
    by (simp add: ex_send_def list_all_iff)
  moreover have "redis_keys ex_bank k = None" for k by (simp add: ex_bank_def)
  moreover have "faultless ex_race" by code_simp
  ultimately have "clock (snd ex_raced) < clock ex_bank + 24 * 60 * 60 * 1000 \<Longrightarrow>
      length (payments (snd ex_raced)) \<le> Suc (length (payments ex_bank))"
    using paid_at_most_once [where s = ex_bank and hash = ex_sha256 and evs = ex_race]
      allowed_faultless [of sends_reported, OF sends_reported_Works]
    unfolding ex_raced_def by blast
  moreover have "map result_of (fst ex_raced) = [Some Send_success, None, Some (Read_back Send_success)]
      \<and> clock (snd ex_raced) = 1800000000000" by code_simp
  ultimately show ?thesis by (simp add: ex_bank_def)
qed

end
