(* ===== verification/FygaroWebhook.thy ===== *)
theory FygaroWebhook
  imports FygaroIntents FygaroTopups PaymentIdempotency
begin

text \<open>
  The payment webhook (\<open>src/services/fygaro/webhook-server/routes/payment.ts\<close>) and the credit it makes
  (\<open>src/services/fygaro/webhook-server/credit-topup.ts\<close>). The one handler of the source is a program made
  of its branches in the order of the code; a delivery is what the handler computes from the request
  before its first await. Alerts carry the severity and the deduplication key, operations events the
  phase, pushes the account, the outcome, the amount and the currency; logging, the creation time and
  the raw payload of the audit row are left out.
\<close>

section \<open>The credit\<close>

definition TREASURY_ROLE :: string where "TREASURY_ROLE = ''bankowner''"

definition INSUFFICIENT_TREASURY_FLOAT_STEP :: string where
  "INSUFFICIENT_TREASURY_FLOAT_STEP = ''insufficient-treasury-float''"

text \<open>A \<open>FygaroCreditError\<close> with its step, or the wallet and whether the send was reported as pending.\<close>

datatype credit_result = FygaroCreditError string | Sent_to string bool

definition isInsufficientTreasuryBalance :: "error \<Rightarrow> bool" where
  "isInsufficientTreasuryBalance e \<longleftrightarrow> e = InsufficientIbexBalance \<or> e = InsufficientBalanceError"

definition resolveFygaroTreasuryFundingWallet :: "(string + fy_wallet) io" where
  "resolveFygaroTreasuryFundingWallet =
     Await_account (By_role TREASURY_ROLE) (\<lambda>account.
     case account of
       Inl e \<Rightarrow> Done (Inl ''resolve-treasury'')
     | Inr a \<Rightarrow>
         Await_wallets (ac_id a) (\<lambda>wallets.
         case wallets of
           Inl e \<Rightarrow> Done (Inl ''list-treasury-wallets'')
         | Inr ws \<Rightarrow>
             (case keep_given (List.find (\<lambda>w. wa_currency w = Usdt) ws) (List.find (\<lambda>w. wa_currency w = Usd) ws) of
                None \<Rightarrow> Done (Inl ''resolve-treasury-wallet'')
              | Some w \<Rightarrow> Done (Inr w))))"

definition walletsFor :: "string \<Rightarrow> fy_wallet list io" where
  "walletsFor accountId = Await_wallets accountId (\<lambda>r. case r of Inl e \<Rightarrow> Done [] | Inr ws \<Rightarrow> Done ws)"

definition credit_args :: "fy_wallet \<Rightarrow> fy_wallet \<Rightarrow> int \<Rightarrow> string \<Rightarrow> IntraLedgerPaymentSendWalletIdArgs" where
  "credit_args fundingWallet recipientWallet amountCents transactionId =
     \<lparr>pi_senderWalletId = wa_id fundingWallet, pi_recipientWalletId = wa_id recipientWallet, pi_amount = amountCents,
      pi_memo = Some (''Card top-up (Fygaro '' @ transactionId @ '')''),
      pi_idempotencyKey = Some (''fygaro:'' @ transactionId)\<rparr>"

definition creditFygaroTopup :: "(string \<Rightarrow> string) \<Rightarrow> string \<Rightarrow> int \<Rightarrow> string \<Rightarrow> credit_result io" where
  "creditFygaroTopup sha256 recipientAccountId amountCents transactionId =
     (if amountCents \<le> 0 then Done (FygaroCreditError ''validate-amount'')
      else
        bindI resolveFygaroTreasuryFundingWallet (\<lambda>funding.
        case funding of
          Inl step_name \<Rightarrow> Done (FygaroCreditError step_name)
        | Inr fundingWallet \<Rightarrow>
            bindI (walletsFor recipientAccountId) (\<lambda>ws.
            case List.find (\<lambda>w. wa_currency w = wa_currency fundingWallet) ws of
              None \<Rightarrow> Done (FygaroCreditError ''resolve-recipient-wallet'')
            | Some recipientWallet \<Rightarrow>
                bindI (intraledgerPaymentSendWalletIdForUsdWallet sha256
                        (credit_args fundingWallet recipientWallet amountCents transactionId)) (\<lambda>result.
                case result of
                  Inl e \<Rightarrow>
                    Done (FygaroCreditError
                      (if isInsufficientTreasuryBalance e then INSUFFICIENT_TREASURY_FLOAT_STEP else ''intraledger-send''))
                | Inr st \<Rightarrow>
                    if st = Send_success then Done (Sent_to (wa_id recipientWallet) False)
                    else if st = Send_pending then Done (Sent_to (wa_id recipientWallet) True)
                    else Done (FygaroCreditError ''intraledger-send'')))))"

section \<open>Refusals\<close>

fun reason_text :: "RecordOnlyReason \<Rightarrow> string" where
  "reason_text Credit_disabled = ''credit-disabled''"
| "reason_text Settings_unavailable = ''settings-unavailable''"
| "reason_text Auto_credit_disabled = ''auto-credit-disabled''"
| "reason_text Non_usd = ''non-usd''"
| "reason_text Over_limit = ''over-limit''"
| "reason_text No_daily_limit_for_level = ''no-daily-limit-for-level''"
| "reason_text History_unavailable = ''history-unavailable''"
| "reason_text Daily_limit_exceeded = ''daily-limit-exceeded''"
| "reason_text Under_minimum = ''under-minimum''"
| "reason_text Non_positive_net = ''non-positive-net''"
| "reason_text Intent_mismatch = ''intent-mismatch''"

definition thresholdCentsFor :: "RecordOnlyReason \<Rightarrow> FygaroSettings option \<Rightarrow> int \<Rightarrow> int option \<Rightarrow> int option" where
  "thresholdCentsFor reason settings level priorDayGrossCents =
     (case settings of
        None \<Rightarrow> None
      | Some st \<Rightarrow>
          if reason = Daily_limit_exceeded
          then (case (dailyTopupLimits st level, priorDayGrossCents) of
                  (Some capUsd, Some prior) \<Rightarrow> Some (max 0 (usd_to_cents capUsd - prior))
                | _ \<Rightarrow> None)
          else if reason = Over_limit then Some (usd_to_cents (autoCreditLimit st))
          else if reason = Under_minimum then Some (usd_to_cents (minimumTopup st))
          else None)"

fun REFUSAL_NOTIFIES_CUSTOMER :: "RecordOnlyReason \<Rightarrow> bool" where
  "REFUSAL_NOTIFIES_CUSTOMER Non_usd \<longleftrightarrow> True"
| "REFUSAL_NOTIFIES_CUSTOMER Over_limit \<longleftrightarrow> True"
| "REFUSAL_NOTIFIES_CUSTOMER No_daily_limit_for_level \<longleftrightarrow> True"
| "REFUSAL_NOTIFIES_CUSTOMER Daily_limit_exceeded \<longleftrightarrow> True"
| "REFUSAL_NOTIFIES_CUSTOMER Under_minimum \<longleftrightarrow> True"
| "REFUSAL_NOTIFIES_CUSTOMER _ \<longleftrightarrow> False"

fun REFUSAL_NEEDS_VERIFIED_REFERENCE :: "RecordOnlyReason \<Rightarrow> bool" where
  "REFUSAL_NEEDS_VERIFIED_REFERENCE Over_limit \<longleftrightarrow> False"
| "REFUSAL_NEEDS_VERIFIED_REFERENCE _ \<longleftrightarrow> True"

definition centsToDollars :: "int \<Rightarrow> string" where
  "centsToDollars cents = num_toFixed (fl (of_int cents / 100)) 2"

section \<open>A delivery\<close>

record FygaroPaymentPayload =
  pp_transactionId :: "string option"
  pp_customReference :: "string option"
  pp_amount :: "string option"
  pp_currency :: "string option"
  pp_client_email :: "string option"

datatype response_body =
    Body_error string
  | Body_status string
  | Recorded_unattributed
  | Recorded_uncredited
  | Success_credited

datatype fy_response = Response int response_body

record delivery =
  dv_transactionId :: string
  dv_amount :: string
  dv_grossCents :: int
  dv_currency :: string
  dv_reference :: "FygaroCustomReference option"
  dv_email :: "string option"
  dv_creditEnabled :: bool
  dv_ttlSeconds :: int

definition dv_intentId :: "delivery \<Rightarrow> string option" where
  "dv_intentId d = Option.bind (dv_reference d) ref_intentId"

text \<open>The outcome is stamped on the intent the reference names, if it names one.\<close>

definition recordOutcome ::
  "delivery \<Rightarrow> FygaroTopupOutcomeState \<Rightarrow> string option \<Rightarrow> int option \<Rightarrow> int option \<Rightarrow> unit io" where
  "recordOutcome d state reason netAmountCents detailCents =
     (case dv_intentId d of
        None \<Rightarrow> Done ()
      | Some intentId \<Rightarrow>
          Await_now (\<lambda>now.
          recordIntentOutcome intentId
            \<lparr>oc_state = state, oc_reason = reason, oc_netAmountCents = netAmountCents, oc_detailCents = detailCents,
             oc_transactionId = Some (dv_transactionId d), oc_atMs = now\<rparr> (dv_ttlSeconds d)))"

definition releaseAuthorizedHold :: "FygaroCheckoutIntent option \<Rightarrow> unit io" where
  "releaseAuthorizedHold authorizedIntent =
     (case authorizedIntent of
        None \<Rightarrow> Done ()
      | Some i \<Rightarrow> releaseIntentReservation (in_accountId i) (in_intentId i) (in_amountCents i))"

definition redeemIntent :: "delivery \<Rightarrow> unit io" where
  "redeemIntent d =
     (case dv_intentId d of None \<Rightarrow> Done () | Some intentId \<Rightarrow> bindI (consumeIntent intentId) (\<lambda>_. Done ()))"

text \<open>The catch-all, and \<open>lockIdempotencyKey\<close>, which throws what is not a contended lock.\<close>

definition catch_all :: "delivery \<Rightarrow> fy_response io" where
  "catch_all d =
     ignoreI (Notify (Alert Critical (''fygaro-webhook:payment:'' @ dv_transactionId d)))
     (ignoreI (Notify (Ops_event ''failed:exception''))
     (Done (Response 500 (Body_error ''Internal server error''))))"

definition lockIdempotencyKey :: "string \<Rightarrow> 'a io \<Rightarrow> 'a io \<Rightarrow> 'a io \<Rightarrow> 'a io" where
  "lockIdempotencyKey key taken duplicate throw =
     Await_unit (Timelock (''locks:idempotencykey:'' @ key)) (\<lambda>r.
     case r of Inr _ \<Rightarrow> taken | Inl e \<Rightarrow> if e = ExecutionError then duplicate else throw)"

section \<open>The branches of the handler\<close>

definition payment_key :: "delivery \<Rightarrow> string" where
  "payment_key d = ''fygaro-payment:'' @ dv_transactionId d"

definition already_processed :: "fy_response" where
  "already_processed = Response 200 (Body_status ''already_processed'')"

definition then_answer :: "unit io \<Rightarrow> 'a \<Rightarrow> 'a io" where
  "then_answer m answer = bindI m (\<lambda>_. Done answer)"

text \<open>No account owns the reference.\<close>

definition answer_unattributed :: "delivery \<Rightarrow> FygaroCheckoutIntent option \<Rightarrow> fy_response io" where
  "answer_unattributed d authorizedIntent =
     (let held = recordOutcome d Held_for_review (Some ''unattributed'') None None in
      lockIdempotencyKey (payment_key d)
        (ignoreI (Notify (Alert Warning (''fygaro:unattributed:'' @ dv_transactionId d)))
        (ignoreI (Notify (Ops_event ''fygaro-unattributed''))
        (bindI (releaseAuthorizedHold authorizedIntent) (\<lambda>_. then_answer held (Response 200 Recorded_unattributed)))))
        (then_answer held already_processed)
        (catch_all d))"

text \<open>The account repository failed: the payment is recorded without an account, and the provider retries.\<close>

definition answer_lookup_fault :: "delivery \<Rightarrow> fy_response io" where
  "answer_lookup_fault d =
     bindI (writeFygaroTopupRequest (dv_transactionId d) (dv_amount d) (dv_currency d) None False) (\<lambda>_.
     ignoreI (Notify (Alert Critical ''fygaro:account-lookup-failed''))
     (Done (Response 500 (Body_error ''account lookup unavailable; will retry''))))"

definition answer_audit_fault :: "delivery \<Rightarrow> fy_response io" where
  "answer_audit_fault d =
     ignoreI (Notify (Alert Critical (''erpnext-audit:fygaro:'' @ dv_transactionId d)))
     (ignoreI (Notify (Ops_event ''failed:erpnext-audit''))
     (Done (Response 500 (Body_error ''Failed to persist audit row''))))"

text \<open>The stamp of this very payment as credited, if the record has it.\<close>

definition credited_outcome :: "delivery \<Rightarrow> FygaroCheckoutIntent option \<Rightarrow> FygaroTopupOutcome option" where
  "credited_outcome d authorizedIntent =
     (case Option.bind authorizedIntent in_outcome of
        None \<Rightarrow> None
      | Some oc \<Rightarrow> if oc_state oc = Credited \<and> oc_transactionId oc = Some (dv_transactionId d) then Some oc else None)"

definition notify_refusal ::
  "delivery \<Rightarrow> fy_account \<Rightarrow> FygaroCheckoutIntent option \<Rightarrow> RecordOnlyReason \<Rightarrow> fy_response io" where
  "notify_refusal d account authorizedIntent reason =
     (let answer = Done (Response 200 Recorded_uncredited)
      in if REFUSAL_NOTIFIES_CUSTOMER reason \<and> (authorizedIntent \<noteq> None \<or> \<not> REFUSAL_NEEDS_VERIFIED_REFERENCE reason)
         then ignoreI (Notify (Push (ac_id account) ''heldForReview'' (dv_grossCents d) (dv_currency d))) answer
         else answer)"

definition refuse_for_good ::
  "delivery \<Rightarrow> fy_account \<Rightarrow> FygaroSettings option \<Rightarrow> int option \<Rightarrow> FygaroCheckoutIntent option \<Rightarrow> RecordOnlyReason
   \<Rightarrow> fy_response io" where
  "refuse_for_good d account settings prior authorizedIntent reason =
     (let held = recordOutcome d Held_for_review (Some (reason_text reason)) None
            (thresholdCentsFor reason settings (ac_level account) prior);
          stamped = bindI held (\<lambda>_. notify_refusal d account authorizedIntent reason);
          marking = bindI (redeemIntent d) (\<lambda>_.
            bindI (markFygaroTopupNotCredited (dv_transactionId d) (Some (ac_id account)) (dv_amount d) (dv_currency d)
                     (reason_text reason)) (\<lambda>marked.
            case marked of
              Inr _ \<Rightarrow> stamped
            | Inl _ \<Rightarrow> ignoreI (Notify (Alert Critical (''fygaro:refusal-not-stamped:'' @ dv_transactionId d))) stamped));
          recorded = ignoreI (Notify (Ops_event ''fygaro-recorded'')) marking
      in lockIdempotencyKey (payment_key d)
           (if reason \<noteq> Credit_disabled
            then ignoreI (Notify (Alert Warning (''fygaro:not-credited:'' @ dv_transactionId d))) recorded
            else recorded)
           (then_answer held already_processed)
           (catch_all d))"

definition record_only ::
  "delivery \<Rightarrow> fy_account \<Rightarrow> FygaroSettings option \<Rightarrow> int option \<Rightarrow> FygaroCheckoutIntent option \<Rightarrow> RecordOnlyReason
   \<Rightarrow> fy_response io" where
  "record_only d account settings prior authorizedIntent reason =
     (if reason = Settings_unavailable \<or> reason = History_unavailable
      then ignoreI (Notify (Alert Warning (''fygaro:not-credited:'' @ dv_transactionId d)))
             (Done (Response 500 (Body_error ''ERPNext read unavailable; will retry'')))
      else
        bindI (readFygaroTopupCompletion (dv_transactionId d)) (\<lambda>priorCompletion.
        if fc_completed priorCompletion \<or> credited_outcome d authorizedIntent \<noteq> None
        then then_answer
               (recordOutcome d Credited None
                  (keep_given (fc_netAmountCents priorCompletion)
                     (Option.bind (credited_outcome d authorizedIntent) oc_netAmountCents)) None)
               already_processed
        else refuse_for_good d account settings prior authorizedIntent reason))"

section \<open>The credit path\<close>

text \<open>
  The block under the lock. What it throws is answered by the lock client with an
  \<open>UnknownLockServiceError\<close>.
\<close>

definition announce_credit :: "delivery \<Rightarrow> fy_account \<Rightarrow> FygaroFees \<Rightarrow> bool \<Rightarrow> fy_response result io" where
  "announce_credit d account fees pending =
     (let answer = Done (Inr (Response 200 Success_credited))
      in lockIdempotencyKey (''fygaro-credit-push:'' @ dv_transactionId d)
           (ignoreI (Notify (Push (ac_id account) (if pending then ''crediting'' else ''credited'') (netCents fees) (dv_currency d)))
              answer)
           answer
           (Done (Inl UnknownLockServiceError)))"

definition credit_failed ::
  "delivery \<Rightarrow> fy_account \<Rightarrow> FygaroFees \<Rightarrow> FygaroCheckoutIntent option \<Rightarrow> string \<Rightarrow> fy_response result io" where
  "credit_failed d account fees authorizedIntent step_name =
     ignoreI (Notify (Alert Critical (if step_name = INSUFFICIENT_TREASURY_FLOAT_STEP then ''fygaro:float-exhausted''
                                      else ''fygaro:credit-failed:'' @ dv_transactionId d)))
     (ignoreI (Notify (Ops_event (''failed:credit:'' @ step_name)))
     (bindI (releaseAuthorizedHold authorizedIntent) (\<lambda>_.
      bindI (recordOutcome d Credit_failed (Some ''credit-failed'') None None) (\<lambda>_.
      ignoreI (Notify (Push (ac_id account) ''heldForReview'' (grossCents fees) (dv_currency d)))
      (Done (Inr (Response 200 Recorded_uncredited)))))))"

definition credit_done ::
  "delivery \<Rightarrow> fy_account \<Rightarrow> FygaroFees \<Rightarrow> string \<Rightarrow> bool \<Rightarrow> fy_response result io" where
  "credit_done d account fees walletId pending =
     bindI (completeFygaroTopup (dv_transactionId d) (ac_id account) walletId (dv_amount d) (dv_currency d)
              (centsToDollars (grossCents fees)) (centsToDollars (processorFeeCents fees))
              (centsToDollars (flashFeeCents fees)) (centsToDollars (netCents fees))) (\<lambda>completed.
     let rest = bindI (recordOutcome d Credited None (Some (netCents fees)) None) (\<lambda>_.
           ignoreI (Notify (Ops_event ''succeeded''))
           (bindI (redeemIntent d) (\<lambda>_. announce_credit d account fees pending)))
     in case completed of
          Inr _ \<Rightarrow> rest
        | Inl _ \<Rightarrow> ignoreI (Notify (Alert Warning (''erpnext-audit:fygaro:'' @ dv_transactionId d))) rest)"

definition credit_block ::
  "(string \<Rightarrow> string) \<Rightarrow> delivery \<Rightarrow> fy_account \<Rightarrow> FygaroFees \<Rightarrow> FygaroCheckoutIntent option \<Rightarrow> fy_response result io" where
  "credit_block sha256 d account fees authorizedIntent =
     bindI (readFygaroTopupCompletion (dv_transactionId d)) (\<lambda>priorCompletion.
     if fc_completed priorCompletion
     then then_answer
            (recordOutcome d Credited None (keep_given (fc_netAmountCents priorCompletion) (Some (netCents fees))) None)
            (Inr already_processed)
     else
       bindI (creditFygaroTopup sha256 (ac_id account) (netCents fees) (dv_transactionId d)) (\<lambda>credit.
       case credit of
         FygaroCreditError step_name \<Rightarrow> credit_failed d account fees authorizedIntent step_name
       | Sent_to walletId pending \<Rightarrow> credit_done d account fees walletId pending))"

definition credit_path ::
  "(string \<Rightarrow> string) \<Rightarrow> delivery \<Rightarrow> fy_account \<Rightarrow> FygaroFees \<Rightarrow> FygaroCheckoutIntent option \<Rightarrow> fy_response io" where
  "credit_path sha256 d account fees authorizedIntent =
     bindI (redlock (getPaymentIdempotencyKeyLockResource (payment_key d)) (credit_block sha256 d account fees authorizedIntent)) (\<lambda>outcome.
     case outcome of
       Inr answer \<Rightarrow> Done answer
     | Inl e \<Rightarrow>
         if e = ResourceAttemptsLockServiceError then Done (Response 200 (Body_status ''already_processing''))
         else catch_all d)"

section \<open>The handler\<close>

definition intent_mismatch :: "delivery \<Rightarrow> fy_account \<Rightarrow> FygaroCheckoutIntent option \<Rightarrow> bool" where
  "intent_mismatch d account authorizedIntent \<longleftrightarrow>
     (case authorizedIntent of
        None \<Rightarrow> False
      | Some i \<Rightarrow> in_amountCents i \<noteq> dv_grossCents d \<or> in_accountId i \<noteq> ac_id account)"

definition delivery_gate ::
  "delivery \<Rightarrow> fy_account \<Rightarrow> FygaroCheckoutIntent option \<Rightarrow> FygaroSettings option \<Rightarrow> int option \<Rightarrow> rat \<Rightarrow> CreditGate" where
  "delivery_gate d account authorizedIntent settings prior discount =
     (if intent_mismatch d account authorizedIntent then Record_only Intent_mismatch
      else evaluateCreditGate (dv_creditEnabled d) (dv_currency d) settings (dv_grossCents d) (ac_level account) prior discount)"

definition decide_delivery ::
  "(string \<Rightarrow> string) \<Rightarrow> delivery \<Rightarrow> fy_account \<Rightarrow> FygaroCheckoutIntent option \<Rightarrow> FygaroSettings option \<Rightarrow> int option
   \<Rightarrow> rat \<Rightarrow> fy_response io" where
  "decide_delivery sha256 d account authorizedIntent settings prior discount =
     (case delivery_gate d account authorizedIntent settings prior discount of
        Record_only reason \<Rightarrow> record_only d account settings prior authorizedIntent reason
      | Credit fees \<Rightarrow> credit_path sha256 d account fees authorizedIntent)"

definition process_account ::
  "(string \<Rightarrow> string) \<Rightarrow> delivery \<Rightarrow> fy_account \<Rightarrow> FygaroCheckoutIntent option \<Rightarrow> fy_response io" where
  "process_account sha256 d account authorizedIntent =
     bindI (if dv_creditEnabled d then getFygaroSettings else Done None) (\<lambda>settings.
     if dv_creditEnabled d \<and> (case settings of Some st \<Rightarrow> autoCreditEnabled st | None \<Rightarrow> False) \<and> dv_currency d = ''USD''
     then
       bindI (sumFygaroTopupGrossCentsLast24h (ac_id account) (Some (dv_transactionId d))) (\<lambda>priorSum.
       bindI (getFlashFeeDiscountPercent (ac_username account) Topup_flow) (\<lambda>discount.
       decide_delivery sha256 d account authorizedIntent settings
         (case priorSum of Inl _ \<Rightarrow> None | Inr p \<Rightarrow> Some p) discount))
     else decide_delivery sha256 d account authorizedIntent settings None 0)"

text \<open>The intent is read at most once in a delivery; \<open>known\<close> is what an earlier read gave.\<close>

definition lookupIntent :: "delivery \<Rightarrow> IntentLookup option \<Rightarrow> IntentLookup option io" where
  "lookupIntent d known =
     (case (dv_intentId d, known) of
        (None, _) \<Rightarrow> Done None
      | (Some intentId, Some lookup) \<Rightarrow> Done (Some lookup)
      | (Some intentId, None) \<Rightarrow> bindI (readIntent intentId) (\<lambda>l. Done (Some l)))"

definition found_intent :: "IntentLookup option \<Rightarrow> FygaroCheckoutIntent option" where
  "found_intent lookup = (case lookup of Some (Found i) \<Rightarrow> Some i | _ \<Rightarrow> None)"

definition process_recorded ::
  "(string \<Rightarrow> string) \<Rightarrow> delivery \<Rightarrow> fy_account option \<Rightarrow> IntentLookup option \<Rightarrow> fy_response io" where
  "process_recorded sha256 d account known =
     bindI (recordOutcome d Received None None None) (\<lambda>_.
     bindI (lookupIntent d known) (\<lambda>lookup.
     case account of
       None \<Rightarrow> answer_unattributed d (found_intent lookup)
     | Some a \<Rightarrow> process_account sha256 d a (found_intent lookup)))"

definition record_first ::
  "(string \<Rightarrow> string) \<Rightarrow> delivery \<Rightarrow> fy_account option \<Rightarrow> fy_account option \<Rightarrow> IntentLookup option \<Rightarrow> fy_response io" where
  "record_first sha256 d account emailAttributedAccount known =
     bindI (writeFygaroTopupRequest (dv_transactionId d) (dv_amount d) (dv_currency d)
              (map_option ac_id (keep_given account emailAttributedAccount)) (emailAttributedAccount \<noteq> None)) (\<lambda>audit.
     case audit of
       Inl e \<Rightarrow> answer_audit_fault d
     | Inr _ \<Rightarrow> process_recorded sha256 d account known)"

definition resolveAccountByPayerEmail :: "string option \<Rightarrow> fy_account option io" where
  "resolveAccountByPayerEmail email =
     (let trimmed = toLowerCase (js_trim (case email of Some e \<Rightarrow> e | None \<Rightarrow> ''''))
      in if trimmed = '''' then Done None
         else
           Await_user_id trimmed (\<lambda>userId.
           case userId of
             Inl e \<Rightarrow> Done None
           | Inr u \<Rightarrow> Await_account (By_user_id u) (\<lambda>a. case a of Inl e \<Rightarrow> Done None | Inr account \<Rightarrow> Done (Some account))))"

definition without_account ::
  "(string \<Rightarrow> string) \<Rightarrow> delivery \<Rightarrow> IntentLookup option \<Rightarrow> fy_response io" where
  "without_account sha256 d known =
     bindI (resolveAccountByPayerEmail (dv_email d)) (\<lambda>emailAccount. record_first sha256 d None emailAccount known)"

definition attribute ::
  "(string \<Rightarrow> string) \<Rightarrow> delivery \<Rightarrow> string option \<Rightarrow> IntentLookup option \<Rightarrow> fy_response io" where
  "attribute sha256 d username known =
     (case username of
        None \<Rightarrow> without_account sha256 d known
      | Some u \<Rightarrow>
          if u = '''' then without_account sha256 d known
          else
            Await_account (By_username u) (\<lambda>found.
            case found of
              Inr account \<Rightarrow> record_first sha256 d (Some account) None known
            | Inl e \<Rightarrow>
                if e = CouldNotFindAccountFromUsernameError then without_account sha256 d known
                else answer_lookup_fault d))"

definition handle_delivery :: "(string \<Rightarrow> string) \<Rightarrow> delivery \<Rightarrow> fy_response io" where
  "handle_delivery sha256 d =
     (case Option.bind (dv_reference d) ref_username of
        Some u \<Rightarrow> attribute sha256 d (Some u) None
      | None \<Rightarrow>
          bindI (lookupIntent d None) (\<lambda>lookup.
          attribute sha256 d (map_option in_username (found_intent lookup)) lookup))"

text \<open>The delivery of a payload, unless a field is missing or the amount is not a finite number.\<close>

definition delivery_of :: "FygaroConfig \<Rightarrow> FygaroPaymentPayload \<Rightarrow> delivery option" where
  "delivery_of config payload =
     (case (pp_transactionId payload, pp_amount payload) of
        (Some transactionId, Some amount) \<Rightarrow>
          if transactionId = '''' \<or> amount = '''' then None
          else
            map_option (\<lambda>grossAmount.
              \<lparr>dv_transactionId = transactionId, dv_amount = amount, dv_grossCents = usd_to_cents grossAmount,
               dv_currency = toUpperCase (case pp_currency payload of Some c \<Rightarrow> c | None \<Rightarrow> ''USD''),
               dv_reference = parseCustomReference (pp_customReference payload), dv_email = pp_client_email payload,
               dv_creditEnabled = fc_credit_enabled config,
               dv_ttlSeconds = (case Option.bind (fc_checkout config) co_ttlSeconds of Some t \<Rightarrow> t | None \<Rightarrow> DEFAULT_TTL_SECONDS)\<rparr>)
              (finite_number (Number_string amount))
      | _ \<Rightarrow> None)"

definition paymentHandler :: "(string \<Rightarrow> string) \<Rightarrow> FygaroConfig \<Rightarrow> FygaroPaymentPayload \<Rightarrow> fy_response io" where
  "paymentHandler sha256 config payload =
     (case delivery_of config payload of
        None \<Rightarrow> Done (Response 400 (Body_error ''Invalid payload''))
      | Some d \<Rightarrow> handle_delivery sha256 d)"

end
