(* ===== verification/FygaroPrograms.thy ===== *)
theory FygaroPrograms
  imports FygaroConcurrency
begin

text \<open>
  What a program may call. A program is within a set of calls when every call it can come to is one of
  them and every result it can return has a given property, whatever the replies are, except that the
  accounts, the wallets, the stored values, the settings and the discounts that it reads are those of a
  given world, and the time and the audit rows those of a state that is given as possible. The rules follow the construction of programs; the locale shows once that programs within a
  discipline stay in the world and do nothing else, however they interleave and whatever calls fail.
\<close>

section \<open>Programs within a set of calls\<close>

datatype call =
    Call_unit unit_call
  | Call_bool bool_call
  | Call_invoice string money_amount string
  | Call_pay string string

record world =
  wd_accounts :: "fy_account list"
  wd_wallets :: "fy_wallet list"
  wd_known :: "string \<Rightarrow> stored \<Rightarrow> bool"
  wd_settings :: "FygaroSettings \<Rightarrow> bool"
  wd_discounts :: "(string \<Rightarrow> FeeDiscount option) \<Rightarrow> bool"
  wd_state :: "services \<Rightarrow> bool"

definition settings_reply :: "(FygaroSettings option \<times> int) option \<Rightarrow> bool" where
  "settings_reply r \<longleftrightarrow> (\<forall>st t. r = Some (Some st, t) \<longrightarrow> settings_ok st)"

definition settings_known :: "world \<Rightarrow> (FygaroSettings option \<times> int) option \<Rightarrow> bool" where
  "settings_known wd r \<longleftrightarrow> (\<forall>st t. r = Some (Some st, t) \<longrightarrow> wd_settings wd st)"

definition listed :: "world \<Rightarrow> (string \<Rightarrow> FeeDiscount option) \<Rightarrow> bool" where
  "listed wd ds \<longleftrightarrow> ds = Map.empty \<or> wd_discounts wd ds"

definition discounts_known :: "world \<Rightarrow> ((string \<Rightarrow> FeeDiscount option) \<times> int) option \<Rightarrow> bool" where
  "discounts_known wd r \<longleftrightarrow> (\<forall>ds t. r = Some (ds, t) \<longrightarrow> listed wd ds)"

definition row_reply :: "world \<Rightarrow> FygaroSettingsDoc option result \<Rightarrow> bool" where
  "row_reply wd r \<longleftrightarrow> (\<forall>row st. r = Inr row \<longrightarrow> validateFygaroSettings row = Some st \<longrightarrow> wd_settings wd st)"

definition docs_reply :: "world \<Rightarrow> FeeDiscountDoc list result \<Rightarrow> bool" where
  "docs_reply wd r \<longleftrightarrow> (\<forall>docs. r = Inr docs \<longrightarrow> wd_discounts wd (discounts_of docs))"

definition topups_reply :: "world \<Rightarrow> string \<Rightarrow> int \<Rightarrow> string option \<Rightarrow> transfer_row list result \<Rightarrow> bool" where
  "topups_reply wd acct since excl r \<longleftrightarrow>
     (\<forall>rows. r = Inr rows \<longrightarrow> (\<exists>u. wd_state wd u \<and> rows = topup_rows acct since excl u))"

definition account_reply :: "world \<Rightarrow> account_query \<Rightarrow> fy_account result \<Rightarrow> bool" where
  "account_reply wd q r \<longleftrightarrow> (\<forall>a. r = Inr a \<longrightarrow> List.find (matches q) (wd_accounts wd) = Some a)"

definition wallets_reply :: "world \<Rightarrow> string \<Rightarrow> fy_wallet list result \<Rightarrow> bool" where
  "wallets_reply wd acct r \<longleftrightarrow> (\<forall>ws. r = Inr ws \<longrightarrow> ws = filter (\<lambda>w. wa_accountId w = acct) (wd_wallets wd))"

definition wallet_reply :: "world \<Rightarrow> string \<Rightarrow> fy_wallet result \<Rightarrow> bool" where
  "wallet_reply wd wid r \<longleftrightarrow> (\<forall>w. r = Inr w \<longrightarrow> List.find (\<lambda>w. wa_id w = wid) (wd_wallets wd) = Some w)"

primrec confined :: "world \<Rightarrow> (call \<Rightarrow> bool) \<Rightarrow> ('a \<Rightarrow> bool) \<Rightarrow> 'a io \<Rightarrow> bool" where
  "confined wd may ends (Done x) \<longleftrightarrow> ends x"
| "confined wd may ends (Await_unit c k) \<longleftrightarrow> may (Call_unit c) \<and> (\<forall>r. confined wd may ends (k r))"
| "confined wd may ends (Await_bool c k) \<longleftrightarrow> may (Call_bool c) \<and> (\<forall>r. confined wd may ends (k r))"
| "confined wd may ends (Await_now k) \<longleftrightarrow> (\<forall>r. (\<exists>u. wd_state wd u \<and> r = clock u) \<longrightarrow> confined wd may ends (k r))"
| "confined wd may ends (Await_cache_get key k) \<longleftrightarrow>
     (\<forall>r. (\<forall>v. r = Inr v \<longrightarrow> wd_known wd key v) \<longrightarrow> confined wd may ends (k r))"
| "confined wd may ends (Await_raw_get key k) \<longleftrightarrow>
     (\<forall>r. (\<forall>v. r = Inr (Some v) \<longrightarrow> wd_known wd key v) \<longrightarrow> confined wd may ends (k r))"
| "confined wd may ends (Await_zrange key k) \<longleftrightarrow> (\<forall>r. confined wd may ends (k r))"
| "confined wd may ends (Await_settings_cache k) \<longleftrightarrow> (\<forall>r. settings_known wd r \<longrightarrow> confined wd may ends (k r))"
| "confined wd may ends (Await_discounts_cache k) \<longleftrightarrow> (\<forall>r. discounts_known wd r \<longrightarrow> confined wd may ends (k r))"
| "confined wd may ends (Await_erp_settings k) \<longleftrightarrow> (\<forall>r. row_reply wd r \<longrightarrow> confined wd may ends (k r))"
| "confined wd may ends (Await_erp_discounts k) \<longleftrightarrow> (\<forall>r. docs_reply wd r \<longrightarrow> confined wd may ends (k r))"
| "confined wd may ends (Await_erp_topups acct since excl k) \<longleftrightarrow>
     (\<forall>r. topups_reply wd acct since excl r \<longrightarrow> confined wd may ends (k r))"
| "confined wd may ends (Await_erp_find rid k) \<longleftrightarrow> (\<forall>r. confined wd may ends (k r))"
| "confined wd may ends (Await_account q k) \<longleftrightarrow> (\<forall>r. account_reply wd q r \<longrightarrow> confined wd may ends (k r))"
| "confined wd may ends (Await_user_id email k) \<longleftrightarrow> (\<forall>r. confined wd may ends (k r))"
| "confined wd may ends (Await_wallets acct k) \<longleftrightarrow> (\<forall>r. wallets_reply wd acct r \<longrightarrow> confined wd may ends (k r))"
| "confined wd may ends (Await_wallet wid k) \<longleftrightarrow> (\<forall>r. wallet_reply wd wid r \<longrightarrow> confined wd may ends (k r))"
| "confined wd may ends (Await_invoice wid amt memo k) \<longleftrightarrow>
     may (Call_invoice wid amt memo) \<and> (\<forall>r. confined wd may ends (k r))"
| "confined wd may ends (Await_pay wid bolt k) \<longleftrightarrow> may (Call_pay wid bolt) \<and> (\<forall>r. confined wd may ends (k r))"

lemma confined_mono:
  assumes "confined wd may ends m" "\<And>c. may c \<Longrightarrow> may' c" "\<And>x. ends x \<Longrightarrow> ends' x"
  shows "confined wd may' ends' m"
  using assms(1) by (induction m) (auto simp: assms(2,3))

lemma confined_bind:
  assumes "confined wd may mid m" "\<And>x. mid x \<Longrightarrow> confined wd may ends (k x)"
  shows "confined wd may ends (bindI m k)"
  using assms(1) by (induction m) (auto simp: assms(2))

text \<open>The form for automation: what the first program may call, and what follows each of its results.\<close>

abbreviation (input) ends_anyhow :: "'a \<Rightarrow> bool" where "ends_anyhow \<equiv> \<lambda>_. True"

lemma confined_bind_any:
  assumes "confined wd may ends_anyhow m" "\<And>x. confined wd may ends (k x)"
  shows "confined wd may ends (bindI m k)"
  using assms by (rule confined_bind)

section \<open>Programs of a discipline\<close>

definition in_world :: "world \<Rightarrow> services \<Rightarrow> bool" where
  "in_world wd s \<longleftrightarrow> accounts s = wd_accounts wd \<and> wallets s = wd_wallets wd
     \<and> (\<forall>key v expiry. redis_keys s key = Some (v, expiry) \<longrightarrow> wd_known wd key v)
     \<and> settings_known wd (settings_cache s) \<and> discounts_known wd (discounts_cache s)
     \<and> row_reply wd (Inr (erp_settings s)) \<and> docs_reply wd (Inr (erp_discounts s))"

text \<open>What one allowed call does to a stored value, to the invoices and to the payments.\<close>

definition stored_by :: "(call \<Rightarrow> bool) \<Rightarrow> string \<Rightarrow> (stored \<times> int) option \<Rightarrow> (stored \<times> int) option \<Rightarrow> bool" where
  "stored_by may key old new \<longleftrightarrow>
     new = old
     \<or> (\<exists>v ttl expiry. may (Call_unit (Cache_set key v ttl)) \<and> new = Some (v, expiry))
     \<or> (\<exists>v w ttl e expiry. may (Call_bool (Cas key v w ttl)) \<and> old = Some (v, e) \<and> new = Some (w, expiry))
     \<or> may (Call_bool (Del key)) \<and> new = None"

definition effect :: "(call \<Rightarrow> bool) \<Rightarrow> services \<Rightarrow> services \<Rightarrow> bool" where
  "effect may s t \<longleftrightarrow>
     (\<forall>key. stored_by may key (redis_keys s key) (redis_keys t key))
     \<and> (invoices t = invoices s
        \<or> (\<exists>wid amt memo. may (Call_invoice wid amt memo) \<and> invoices t = invoices s @ [(wid, amt, memo)]))
     \<and> (payments t = payments s \<or> (\<exists>wid bolt. may (Call_pay wid bolt) \<and> payments t = payments s @ [(wid, bolt)]))"

lemma effect_same:
  "redis_keys t = redis_keys s \<Longrightarrow> invoices t = invoices s \<Longrightarrow> payments t = payments s \<Longrightarrow> effect may s t"
  by (simp add: effect_def stored_by_def)

lemma perform_unit_effect: "may (Call_unit c) \<Longrightarrow> effect may s (snd (perform_unit c s))"
  by (cases c) (auto simp: effect_def stored_by_def redis_set_def split: option.splits)

lemma perform_bool_effect:
  assumes "may (Call_bool c)"
  shows "effect may s (snd (perform_bool c s))"
  using assms by (cases c) (auto simp: effect_def stored_by_def redis_set_def redis_get_def split: option.splits if_splits)

lemma perform_keeps:
  "accounts (snd (perform_unit c s)) = accounts s" "wallets (snd (perform_unit c s)) = wallets s"
  "erp_settings (snd (perform_unit c s)) = erp_settings s" "erp_discounts (snd (perform_unit c s)) = erp_discounts s"
  by (cases c; auto simp: redis_set_def split: option.splits)+

lemma perform_bool_keeps:
  "accounts (snd (perform_bool b s)) = accounts s" "wallets (snd (perform_bool b s)) = wallets s"
  "erp_settings (snd (perform_bool b s)) = erp_settings s" "erp_discounts (snd (perform_bool b s)) = erp_discounts s"
  "settings_cache (snd (perform_bool b s)) = settings_cache s" "discounts_cache (snd (perform_bool b s)) = discounts_cache s"
  by (cases b; auto simp: redis_set_def)+

lemma with_fault_snd: "snd (with_fault f r s) = (case f of Lost e \<Rightarrow> s | _ \<Rightarrow> snd r)"
  by (simp add: with_fault_def split: call_fault.splits)

lemma read_fault_Inr: "read_fault f r = Inr x \<Longrightarrow> r = Inr x"
  by (auto simp: read_fault_def split: call_fault.splits)

text \<open>The replies to reads in a world.\<close>

lemma world_replies:
  assumes "in_world wd s"
  shows "account_reply wd q (read_fault f (read_account q s))"
    and "wallets_reply wd acct (read_fault f (Inr (wallets_of acct s)))"
    and "wallet_reply wd wid (read_fault f (find_wallet wid s))"
    and "settings_known wd (settings_cache s)" "discounts_known wd (discounts_cache s)"
    and "row_reply wd (read_fault f (Inr (erp_settings s)))" "docs_reply wd (read_fault f (Inr (erp_discounts s)))"
    and "wd_state wd s \<Longrightarrow> topups_reply wd acct since excl (read_fault f (Inr (topup_rows acct since excl s)))"
    and "cache_reply f key s = Inr v \<Longrightarrow> wd_known wd key v"
    and "read_fault f (Inr (redis_get s key)) = Inr (Some v) \<Longrightarrow> wd_known wd key v"
proof -
  have reply: "wd_known wd key v" if "redis_get s key = Some v" for key v
    using assms that by (auto simp: in_world_def redis_get_def split: option.splits if_splits)
  show "cache_reply f key s = Inr v \<Longrightarrow> wd_known wd key v"
    "read_fault f (Inr (redis_get s key)) = Inr (Some v) \<Longrightarrow> wd_known wd key v"
    by (auto simp: cache_reply_def of_option_def dest!: read_fault_Inr intro: reply split: option.splits)
  show "account_reply wd q (read_fault f (read_account q s))"
    "wallets_reply wd acct (read_fault f (Inr (wallets_of acct s)))"
    "wallet_reply wd wid (read_fault f (find_wallet wid s))"
    "settings_known wd (settings_cache s)" "discounts_known wd (discounts_cache s)"
    "row_reply wd (read_fault f (Inr (erp_settings s)))" "docs_reply wd (read_fault f (Inr (erp_discounts s)))"
    "wd_state wd s \<Longrightarrow> topups_reply wd acct since excl (read_fault f (Inr (topup_rows acct since excl s)))"
    using assms
    by (auto simp: in_world_def row_reply_def docs_reply_def topups_reply_def account_reply_def wallets_reply_def wallet_reply_def read_account_def find_wallet_def
        wallets_of_def of_option_def dest!: read_fault_Inr split: option.splits)
qed

lemma ibex_effect:
  "may (Call_invoice wid amt memo) \<Longrightarrow> effect may s (snd (add_invoice wid amt memo s))"
  "may (Call_pay wid bolt) \<Longrightarrow> effect may s (snd (pay_invoice wid bolt s))"
  by (auto simp: effect_def stored_by_def add_invoice_def pay_invoice_def split: list.splits)

lemma ibex_world:
  "in_world wd s \<Longrightarrow> in_world wd (snd (add_invoice wid amt memo s))"
  "in_world wd s \<Longrightarrow> in_world wd (snd (pay_invoice wid bolt s))"
  by (auto simp: in_world_def add_invoice_def pay_invoice_def split: list.splits)

text \<open>What a run adds to the invoices and the payments.\<close>

definition only_allowed :: "(call \<Rightarrow> bool) \<Rightarrow> services \<Rightarrow> services \<Rightarrow> bool" where
  "only_allowed may s t \<longleftrightarrow>
     (\<exists>new. invoices t = invoices s @ new \<and> list_all (\<lambda>(wid, amt, memo). may (Call_invoice wid amt memo)) new)
     \<and> (\<exists>new. payments t = payments s @ new \<and> list_all (\<lambda>(wid, bolt). may (Call_pay wid bolt)) new)"

lemma only_allowed_refl: "only_allowed may s s"
  by (simp add: only_allowed_def)

lemma only_allowed_trans: "only_allowed may s t \<Longrightarrow> only_allowed may t u \<Longrightarrow> only_allowed may s u"
proof -
  assume "only_allowed may s t" "only_allowed may t u"
  then obtain i j p q where "invoices t = invoices s @ i" "list_all (\<lambda>(wid, amt, memo). may (Call_invoice wid amt memo)) i"
    "invoices u = invoices t @ j" "list_all (\<lambda>(wid, amt, memo). may (Call_invoice wid amt memo)) j"
    "payments t = payments s @ p" "list_all (\<lambda>(wid, bolt). may (Call_pay wid bolt)) p"
    "payments u = payments t @ q" "list_all (\<lambda>(wid, bolt). may (Call_pay wid bolt)) q"
    unfolding only_allowed_def by blast
  then show "only_allowed may s u"
    unfolding only_allowed_def by (intro conjI exI [of _ "i @ j"] exI [of _ "p @ q"]) simp_all
qed

lemma effect_only_allowed: "effect may s t \<Longrightarrow> only_allowed may s t"
  by (auto simp: effect_def only_allowed_def)

text \<open>The states a run comes through.\<close>

definition visits :: "event list \<Rightarrow> 'a io list \<times> services \<Rightarrow> services \<Rightarrow> bool" where
  "visits evs sys u \<longleftrightarrow> (\<exists>k. u = snd (run_events (take k evs) sys))"

lemma visits_start: "visits evs sys (snd sys)"
  unfolding visits_def by (rule exI [of _ 0]) simp

lemma visits_later: "visits evs (fire e sys) u \<Longrightarrow> visits (e # evs) sys u"
proof -
  assume "visits evs (fire e sys) u"
  then obtain k where "u = snd (run_events (take k evs) (fire e sys))" by (auto simp: visits_def)
  then show ?thesis unfolding visits_def by (intro exI [of _ "Suc k"]) simp
qed

lemma visits_prefix: "visits [e] sys u \<Longrightarrow> visits (e # evs) sys u"
proof -
  assume "visits [e] sys u"
  then obtain k where "u = snd (run_events (take k [e]) sys)" by (auto simp: visits_def)
  then show ?thesis unfolding visits_def by (intro exI [of _ "min k 1"]) (cases k; simp)
qed

locale discipline =
  fixes wd :: world and may :: "call \<Rightarrow> bool"
  assumes may_set: "may (Call_unit (Cache_set key v ttl)) \<Longrightarrow> wd_known wd key v"
    and may_cas: "may (Call_bool (Cas key old new ttl)) \<Longrightarrow> wd_known wd key old \<Longrightarrow> wd_known wd key new"
    and may_remember: "may (Call_unit (Remember_settings (Some st) t)) \<Longrightarrow> wd_settings wd st"
    and may_discount: "may (Call_unit (Remember_discounts ds t)) \<Longrightarrow> listed wd ds"
begin

lemma effect_known:
  assumes "effect may s t" "in_world wd s" "redis_keys t key = Some (v, expiry)"
  shows "wd_known wd key v"
proof -
  have "stored_by may key (redis_keys s key) (redis_keys t key)" using assms(1) by (simp add: effect_def)
  then consider "redis_keys s key = Some (v, expiry)" | ttl where "may (Call_unit (Cache_set key v ttl))"
    | old e ttl where "may (Call_bool (Cas key old v ttl))" "redis_keys s key = Some (old, e)"
    using assms(3) by (auto simp: stored_by_def)
  then show ?thesis
  proof cases
    case 1
    then show ?thesis using assms(2) by (simp add: in_world_def)
  next
    case 2
    then show ?thesis by (rule may_set)
  next
    case 3
    from may_cas [OF 3(1)] show ?thesis using assms(2) 3(2) by (simp add: in_world_def)
  qed
qed

lemma effect_in_world:
  assumes "in_world wd s" "effect may s t" "accounts t = accounts s" "wallets t = wallets s"
    and "erp_settings t = erp_settings s" "erp_discounts t = erp_discounts s"
    and "settings_known wd (settings_cache t)" "discounts_known wd (discounts_cache t)"
  shows "in_world wd t"
  using assms effect_known [OF assms(2,1)] by (simp add: in_world_def)

lemma perform_unit_world:
  assumes "in_world wd s" "may (Call_unit c)"
  shows "in_world wd (snd (perform_unit c s))"
proof (rule effect_in_world [OF assms(1) perform_unit_effect [of may, OF assms(2)]])
  have cached: "settings_known wd (settings_cache s)" "discounts_known wd (discounts_cache s)"
    using assms(1) by (simp_all add: in_world_def)
  show "settings_known wd (settings_cache (snd (perform_unit c s)))"
    using cached may_remember assms(2)
    by (cases c) (auto simp: settings_known_def redis_set_def split: option.splits)
  show "discounts_known wd (discounts_cache (snd (perform_unit c s)))"
    using cached may_discount assms(2)
    by (cases c) (auto simp: discounts_known_def redis_set_def split: option.splits)
qed (simp_all add: perform_keeps)

lemma perform_bool_world:
  "in_world wd s \<Longrightarrow> may (Call_bool c) \<Longrightarrow> in_world wd (snd (perform_bool c s))"
  by (rule effect_in_world [OF _ perform_bool_effect [of may]]) (simp_all add: perform_bool_keeps in_world_def)

text \<open>One call keeps the world, and the program stays within its calls.\<close>

lemma step_confined:
  assumes "in_world wd s" "wd_state wd s" "confined wd may ends m"
  shows "in_world wd (snd (step f m s)) \<and> effect may s (snd (step f m s)) \<and> confined wd may ends (fst (step f m s))"
proof -
  have refl: "effect may s s" by (simp add: effect_same)
  show ?thesis
    using assms
    by (cases m)
       (simp_all add: unit_reply_def bool_reply_def with_fault_snd perform_unit_world perform_unit_effect perform_bool_world
          perform_bool_effect ibex_effect ibex_world refl case_prod_beta world_replies [OF assms(1)]
          exI [of _ s] split: call_fault.splits)
qed

lemma run_confined:
  assumes "in_world wd s" "list_all (confined wd may ends) ms" "\<And>u. visits evs (ms, s) u \<Longrightarrow> wd_state wd u"
  shows "in_world wd (snd (run_events evs (ms, s))) \<and> only_allowed may s (snd (run_events evs (ms, s)))
    \<and> list_all (confined wd may ends) (fst (run_events evs (ms, s)))"
  using assms
proof (induction evs arbitrary: ms s)
  case Nil
  then show ?case by (simp add: only_allowed_refl)
next
  case (Cons e evs)
  obtain ms' t where fire: "fire e (ms, s) = (ms', t)" by (cases "fire e (ms, s)")
  have "in_world wd t \<and> only_allowed may s t \<and> list_all (confined wd may ends) ms'"
  proof (cases e)
    case (Tick n)
    with fire Cons.prems show ?thesis by (auto simp: in_world_def only_allowed_def)
  next
    case (Step i f)
    show ?thesis
    proof (cases "i < length ms")
      case True
      with Cons.prems have "confined wd may ends (ms ! i)" by (simp add: list_all_length)
      note st = step_confined [OF Cons.prems(1) Cons.prems(3) [OF visits_start [of _ "(ms, s)", simplified]] this, of f]
      have "t = snd (step f (ms ! i) s)" "ms' = ms[i := fst (step f (ms ! i) s)]"
        using fire True Step by (auto simp: case_prod_beta)
      with st Cons.prems(2) True show ?thesis
        by (auto simp: effect_only_allowed list_all_length nth_list_update)
    qed (use fire Cons.prems Step in \<open>auto simp: only_allowed_refl\<close>)
  qed
  moreover have "wd_state wd u" if "visits evs (ms', t) u" for u
    using Cons.prems(3) visits_later [of evs e "(ms, s)" u] that fire by simp
  ultimately show ?case using Cons.IH [of t ms'] fire only_allowed_trans by (simp, blast)
qed

text \<open>A stored value that is only ever compared and swapped moves along the swaps.\<close>

lemma run_stored:
  assumes "in_world wd s" "list_all (confined wd may ends) ms" "redis_keys s key = Some (v, e)"
    and seen: "\<And>u. visits evs (ms, s) u \<Longrightarrow> wd_state wd u"
    and kept: "\<And>v ttl. \<not> may (Call_unit (Cache_set key v ttl))" "\<not> may (Call_bool (Del key))"
    and swap: "\<And>v w ttl. may (Call_bool (Cas key v w ttl)) \<Longrightarrow> advance v w"
    and order: "\<And>v. advance v v" "\<And>u v w. advance u v \<Longrightarrow> advance v w \<Longrightarrow> advance u w"
  shows "\<exists>w e'. redis_keys (snd (run_events evs (ms, s))) key = Some (w, e') \<and> advance v w"
  using assms(1-4)
proof (induction evs arbitrary: ms s v e)
  case Nil
  then show ?case by (simp add: order(1))
next
  case (Cons ev evs)
  obtain ms' t where fire: "fire ev (ms, s) = (ms', t)" by (cases "fire ev (ms, s)")
  have inv: "in_world wd t" "list_all (confined wd may ends) ms'"
    using run_confined [where evs = "[ev]", OF Cons.prems(1,2)] Cons.prems(4) [OF visits_prefix] fire by auto
  have "\<exists>w e'. redis_keys t key = Some (w, e') \<and> advance v w"
  proof (cases "redis_keys t = redis_keys s")
    case False
    then obtain i f where i: "ev = Step i f" "i < length ms" and t: "t = snd (step f (ms ! i) s)"
      using fire by (cases ev) (auto simp: case_prod_beta split: if_splits)
    then have "effect may s t"
      using step_confined [OF Cons.prems(1) Cons.prems(4) [OF visits_start [of _ "(ms, s)", simplified]], of ends "ms ! i" f]
        Cons.prems(2) by (simp add: list_all_length)
    then have "stored_by may key (redis_keys s key) (redis_keys t key)" by (simp add: effect_def)
    with Cons.prems(3) kept swap order(1) show ?thesis by (auto simp: stored_by_def)
  qed (use Cons.prems(3) order(1) in auto)
  then obtain w e' where w: "redis_keys t key = Some (w, e')" "advance v w" by blast
  have "wd_state wd u" if "visits evs (ms', t) u" for u
    using Cons.prems(4) visits_later [of evs ev "(ms, s)" u] that fire by simp
  from Cons.IH [OF inv w(1) this] obtain u e'' where
    "redis_keys (snd (run_events evs (ms', t))) key = Some (u, e'')" "advance w u" by blast
  with order(2) [OF w(2)] fire show ?case by simp
qed

end

end
