(* ===== verification/FygaroCredits.thy ===== *)
theory FygaroCredits
  imports FygaroWebhook FygaroPrograms
begin

text \<open>
  What deliveries of the payment webhook can do. The calls outside the send are bookkeeping: they pay
  nothing, and they change a stored intent only by merging an outcome into it. So an invoice is only ever
  made for a payment that passed the credit gate, on a wallet of the account the reference names; and the
  outcome of a stored intent only advances.
\<close>

section \<open>Bookkeeping\<close>

text \<open>The calls of every branch of the handler other than the send itself.\<close>

fun bookkeeping :: "world \<Rightarrow> call \<Rightarrow> bool" where
  "bookkeeping wd (Call_unit c) \<longleftrightarrow>
     (case c of
        Cache_set _ _ _ \<Rightarrow> False
      | Acquire _ \<Rightarrow> False
      | Release _ \<Rightarrow> False
      | Remember_settings v _ \<Rightarrow> (\<forall>st. v = Some st \<longrightarrow> wd_settings wd st)
      | Remember_discounts ds _ \<Rightarrow> listed wd ds
      | _ \<Rightarrow> True)"
| "bookkeeping wd (Call_bool c) \<longleftrightarrow>
     (case c of
        Del key \<Rightarrow> (\<exists>intentId. key = claimKey intentId)
      | Cas key old new ttl \<Rightarrow>
          (\<exists>intentId i outcome merged. key = cacheKey intentId \<and> old = Stored_intent i
             \<and> mergeIntentOutcome (in_outcome i) outcome = Some merged \<and> new = Stored_intent (i\<lparr>in_outcome := Some merged\<rparr>)))"
| "bookkeeping wd (Call_invoice _ _ _) \<longleftrightarrow> False"
| "bookkeeping wd (Call_pay _ _) \<longleftrightarrow> False"

lemma read_intent_confined:
  "confined wd may (\<lambda>l. \<forall>i. l = Found i \<longrightarrow> wd_known wd (cacheKey intentId) (Stored_intent i)) (readIntent intentId)"
  by (auto simp: readIntent_def split: sum.splits stored.splits)

lemma read_intent_any: "confined wd may ends_anyhow (readIntent intentId)"
  by (rule confined_mono [OF read_intent_confined]) auto

text \<open>
  The account a delivery may credit: the one with the username of the reference or, if the reference has
  only an intent, the one that intent was authorised for, with the amount that was authorised.
\<close>

definition attributed :: "world \<Rightarrow> delivery \<Rightarrow> fy_account \<Rightarrow> bool" where
  "attributed wd d a \<longleftrightarrow>
     (case Option.bind (dv_reference d) ref_username of
        Some u \<Rightarrow> matches (By_username u) a
      | None \<Rightarrow>
          (\<exists>intentId i. dv_intentId d = Some intentId \<and> wd_known wd (cacheKey intentId) (Stored_intent i)
             \<and> matches (By_username (in_username i)) a \<and> in_accountId i = ac_id a \<and> in_amountCents i = dv_grossCents d))"

text \<open>
  What a delivery reads before it decides: a discount of one of the known lists, and what the audit rows of
  one possible state counted for the account since a day before another, without the payment itself.
\<close>

definition known_discount :: "world \<Rightarrow> string option \<Rightarrow> rat \<Rightarrow> bool" where
  "known_discount wd username discount \<longleftrightarrow>
     (case username of
        None \<Rightarrow> discount = 0
      | Some u \<Rightarrow> if u = '''' then discount = 0 else (\<exists>ds. listed wd ds \<and> discount = discount_for ds u Topup_flow))"

definition day_sum :: "world \<Rightarrow> string \<Rightarrow> string \<Rightarrow> int \<Rightarrow> bool" where
  "day_sum wd acct tx p \<longleftrightarrow>
     (\<exists>now seen w. wd_state wd now \<and> wd_state wd seen
        \<and> sum_rows (topup_rows acct (clock now - DAY_MS) (Some (''fygaro:'' @ tx)) seen) 0 None = Inr w \<and> p = tw_grossCents w)"

text \<open>The gate accepts the payment with what was read for the account.\<close>

definition accepts :: "world \<Rightarrow> delivery \<Rightarrow> fy_account \<Rightarrow> FygaroFees \<Rightarrow> bool" where
  "accepts wd d a fees \<longleftrightarrow>
     (\<exists>st p discount. wd_settings wd st \<and> day_sum wd (ac_id a) (dv_transactionId d) p \<and> known_discount wd (ac_username a) discount
        \<and> evaluateCreditGate (dv_creditEnabled d) (dv_currency d) (Some st) (dv_grossCents d) (ac_level a) (Some p) discount = Credit fees)"

text \<open>Programs of a handler that allows the bookkeeping.\<close>

locale webhook_calls =
  fixes wd :: world and may :: "call \<Rightarrow> bool"
  assumes allowed: "bookkeeping wd c \<Longrightarrow> may c"
begin

lemma unit_allowed [simp]:
  "may (Call_unit (Zadd key score member))" "may (Call_unit (Expire key secs))"
  "may (Call_unit (Zremrangebyscore key bound))" "may (Call_unit (Zrem key member))"
  "may (Call_unit (Timelock key))" "may (Call_unit (Erp_put name row))" "may (Call_unit (Erp_post row))"
  "may (Call_unit (Notify n))"
  "may (Call_unit (Remember_settings None t))" "may (Call_bool (Del (claimKey intentId)))"
  by (rule allowed; auto)+

lemma remember_allowed [simp]:
  "wd_settings wd st \<Longrightarrow> may (Call_unit (Remember_settings (Some st) t))"
  "listed wd ds \<Longrightarrow> may (Call_unit (Remember_discounts ds t))"
  by (rule allowed; simp)+

lemma stamp_allowed [simp]:
  "mergeIntentOutcome (in_outcome i) outcome = Some merged \<Longrightarrow>
   may (Call_bool (Cas (cacheKey intentId) (Stored_intent i) (Stored_intent (i\<lparr>in_outcome := Some merged\<rparr>)) ttl))"
  by (rule allowed) (simp, blast)

lemma attempts_confined: "confined wd may ends_anyhow (record_attempts n (cacheKey intentId) outcome ttl)"
  by (induction n) (auto split: sum.splits option.splits stored.splits)

lemma record_confined [simp]: "confined wd may ends_anyhow (recordOutcome d state reason net detail)"
  by (auto simp: recordOutcome_def recordIntentOutcome_def attempts_confined split: option.splits)

lemma release_confined [simp]: "confined wd may ends_anyhow (releaseIntentReservation acct intentId amount)"
  by (auto simp: releaseIntentReservation_def ignoreI_def split: sum.splits)

lemma release_hold_confined [simp]: "confined wd may ends_anyhow (releaseAuthorizedHold authorized)"
  by (auto simp: releaseAuthorizedHold_def split: option.splits)

lemma redeem_confined [simp]: "confined wd may ends_anyhow (redeemIntent d)"
  by (auto simp: redeemIntent_def consumeIntent_def read_intent_any split: option.splits sum.splits IntentLookup.splits
      intro!: confined_bind_any)

lemma upsert_confined [simp]: "confined wd may ends_anyhow (upsertBridgeTransferRequest row)"
  by (auto simp: upsertBridgeTransferRequest_def put_guarded_def split: sum.splits option.splits)

lemma writers_confined [simp]:
  "confined wd may ends_anyhow (writeFygaroTopupRequest tx amount currency acct email)"
  "confined wd may ends_anyhow (completeFygaroTopup tx a wid amount currency i p f n)"
  "confined wd may ends_anyhow (markFygaroTopupNotCredited tx acct amount currency reason)"
  "confined wd may ends_anyhow (readFygaroTopupCompletion tx)"
  by (simp_all add: writeFygaroTopupRequest_def completeFygaroTopup_def markFygaroTopupNotCredited_def
      readFygaroTopupCompletion_def split: sum.splits option.splits)

lemma settings_confined: "confined wd may (\<lambda>r. \<forall>st. r = Some st \<longrightarrow> wd_settings wd st) getFygaroSettings"
proof -
  have "confined wd may (\<lambda>r. \<forall>st. r = Some st \<longrightarrow> wd_settings wd st) (remember_settings v t)"
    if "\<forall>st. v = Some st \<longrightarrow> wd_settings wd st" for v t
    using that by (cases v) (auto simp: remember_settings_def ignoreI_def)
  then show ?thesis
    by (auto simp: getFygaroSettings_def Let_def settings_known_def row_reply_def split: sum.splits option.splits)
qed

lemma discount_confined: "confined wd may (known_discount wd username) (getFlashFeeDiscountPercent username Topup_flow)"
proof -
  have "confined wd may (listed wd) (remember_discounts ds t)" if "listed wd ds" for ds t
    using that by (auto simp: remember_discounts_def ignoreI_def)
  then have "confined wd may (listed wd) loadDiscounts"
    by (auto simp: loadDiscounts_def listed_def Let_def discounts_known_def docs_reply_def split: sum.splits option.splits)
  then show ?thesis
    by (auto simp: getFlashFeeDiscountPercent_def known_discount_def split: option.splits intro!: confined_bind)
qed

lemma day_confined:
  "confined wd may (\<lambda>r. \<forall>p. r = Inr p \<longrightarrow> day_sum wd acct tx p) (sumFygaroTopupGrossCentsLast24h acct (Some tx))"
  by (auto simp: sumFygaroTopupGrossCentsLast24h_def readFygaroTopupWindowLast24h_def sumFygaroTopupGrossCentsSince_def
      topups_reply_def day_sum_def split: sum.splits)

lemma readers_confined [simp]:
  "confined wd may ends_anyhow (sumFygaroTopupGrossCentsLast24h acct (Some tx))"
  "confined wd may ends_anyhow (getFlashFeeDiscountPercent username Topup_flow)"
  by (rule confined_mono [OF day_confined]; simp) (rule confined_mono [OF discount_confined]; simp)

lemma catch_all_confined [simp]: "confined wd may ends_anyhow (catch_all d)"
  by (simp add: catch_all_def ignoreI_def)

lemma lock_confined:
  "confined wd may ends taken \<Longrightarrow> confined wd may ends duplicate \<Longrightarrow> confined wd may ends throw
   \<Longrightarrow> confined wd may ends (lockIdempotencyKey key taken duplicate throw)"
  by (auto simp: lockIdempotencyKey_def split: sum.splits)

lemma answer_confined [simp]: "confined wd may ends_anyhow m \<Longrightarrow> confined wd may ends_anyhow (then_answer m x)"
  by (simp add: then_answer_def confined_bind_any)

lemma answers_confined [simp]:
  "confined wd may ends_anyhow (answer_unattributed d authorized)"
  "confined wd may ends_anyhow (answer_lookup_fault d)" "confined wd may ends_anyhow (answer_audit_fault d)"
  by (auto simp: answer_unattributed_def answer_lookup_fault_def answer_audit_fault_def ignoreI_def Let_def
      intro!: lock_confined confined_bind_any)

lemma refuse_confined [simp]: "confined wd may ends_anyhow (refuse_for_good d account settings prior authorized reason)"
  by (auto simp: refuse_for_good_def notify_refusal_def ignoreI_def Let_def split: sum.splits
      intro!: lock_confined confined_bind_any)

lemma record_only_confined [simp]: "confined wd may ends_anyhow (record_only d account settings prior authorized reason)"
  by (auto simp: record_only_def ignoreI_def intro!: confined_bind_any)

lemma credit_done_confined [simp]: "confined wd may ends_anyhow (credit_done d account fees wid pending)"
  by (auto simp: credit_done_def announce_credit_def ignoreI_def Let_def split: sum.splits
      intro!: lock_confined confined_bind_any)

lemma credit_failed_confined [simp]: "confined wd may ends_anyhow (credit_failed d account fees authorized step_name)"
  by (auto simp: credit_failed_def ignoreI_def intro!: confined_bind_any)

lemma email_confined [simp]: "confined wd may ends_anyhow (resolveAccountByPayerEmail email)"
  by (auto simp: resolveAccountByPayerEmail_def Let_def split: sum.splits)

lemma lookup_confined:
  "confined wd may (\<lambda>l. (known = None \<or> dv_intentId d = None \<or> l = known) \<and>
      (\<forall>i. l = Some (Found i) \<longrightarrow> known = l \<or>
        (\<exists>intentId. dv_intentId d = Some intentId \<and> wd_known wd (cacheKey intentId) (Stored_intent i)))) (lookupIntent d known)"
  by (auto simp: lookupIntent_def split: option.splits
      intro!: confined_bind [OF read_intent_confined])

text \<open>The handler is confined if the credit path is, for the payments that pass the gate.\<close>

lemma decide_confined:
  assumes "\<And>st p fees. delivery_gate d a authorized (Some st) (Some p) discount = Credit fees \<Longrightarrow> settings = Some st \<Longrightarrow>
      prior = Some p \<Longrightarrow> confined wd may ends_anyhow (credit_path sha d a fees authorized)"
  shows "confined wd may ends_anyhow (decide_delivery sha d a authorized settings prior discount)"
proof (cases "delivery_gate d a authorized settings prior discount")
  case (Credit fees)
  then obtain st p where "settings = Some st" "prior = Some p"
    by (auto simp: delivery_gate_def evaluateCreditGate_def split: if_splits option.splits)
  with assms Credit show ?thesis by (simp add: decide_delivery_def)
qed (simp add: decide_delivery_def)

lemma account_confined:
  assumes "\<And>fees. \<not> intent_mismatch d a authorized \<Longrightarrow> accepts wd d a fees
      \<Longrightarrow> confined wd may ends_anyhow (credit_path sha d a fees authorized)"
  shows "confined wd may ends_anyhow (process_account sha d a authorized)"
proof -
  have decided: "confined wd may ends_anyhow (decide_delivery sha d a authorized settings prior discount)"
    if "\<forall>st. settings = Some st \<longrightarrow> wd_settings wd st" "\<forall>p. prior = Some p \<longrightarrow> day_sum wd (ac_id a) (dv_transactionId d) p"
      "prior \<noteq> None \<longrightarrow> known_discount wd (ac_username a) discount" for settings prior discount
    using that by (intro decide_confined assms) (auto simp: delivery_gate_def accepts_def split: if_splits)
  show ?thesis
    unfolding process_account_def
  proof (rule confined_bind)
    show "confined wd may (\<lambda>r. \<forall>st. r = Some st \<longrightarrow> wd_settings wd st)
        (if dv_creditEnabled d then getFygaroSettings else Done None)" by (simp add: settings_confined)
  qed (auto intro!: confined_bind [OF day_confined] confined_bind [OF discount_confined] decided split: sum.splits)
qed

lemma recorded_confined:
  assumes "\<And>a lookup. account = Some a \<Longrightarrow>
      known = None \<or> dv_intentId d = None \<or> lookup = known \<Longrightarrow>
      confined wd may ends_anyhow (process_account sha d a (found_intent lookup))"
  shows "confined wd may ends_anyhow (record_first sha d account email known)"
  unfolding record_first_def process_recorded_def
  by (auto split: sum.splits option.splits intro!: confined_bind_any confined_bind [OF lookup_confined] assms)

lemma found_account: "account_reply wd q (Inr a) \<Longrightarrow> a \<in> set (wd_accounts wd) \<and> matches q a"
  by (auto simp: account_reply_def find_Some_iff)

lemma attribute_confined:
  assumes "\<And>a lookup u. username = Some u \<Longrightarrow> a \<in> set (wd_accounts wd) \<Longrightarrow> matches (By_username u) a \<Longrightarrow>
      known = None \<or> dv_intentId d = None \<or> lookup = known \<Longrightarrow>
      confined wd may ends_anyhow (process_account sha d a (found_intent lookup))"
  shows "confined wd may ends_anyhow (attribute sha d username known)"
proof -
  have without: "confined wd may ends_anyhow (without_account sha d known)"
    by (auto simp: without_account_def intro!: confined_bind_any recorded_confined)
  then show ?thesis
    unfolding attribute_def
    by (auto split: option.splits sum.splits intro!: recorded_confined assms dest: found_account)
qed

lemma handler_confined:
  assumes credit: "\<And>a fees authorized. a \<in> set (wd_accounts wd) \<Longrightarrow> attributed wd d a \<Longrightarrow> accepts wd d a fees
      \<Longrightarrow> confined wd may ends_anyhow (credit_path sha d a fees authorized)"
  shows "confined wd may ends_anyhow (handle_delivery sha d)"
proof (cases "Option.bind (dv_reference d) ref_username")
  case (Some u)
  then show ?thesis
    by (auto simp: handle_delivery_def attributed_def intro!: attribute_confined account_confined credit)
next
  case None
  have "confined wd may ends_anyhow (attribute sha d (map_option in_username (found_intent lookup)) lookup)"
    if "\<forall>i. lookup = Some (Found i) \<longrightarrow>
      (\<exists>intentId. dv_intentId d = Some intentId \<and> wd_known wd (cacheKey intentId) (Stored_intent i))" for lookup
  proof (intro attribute_confined account_confined credit)
    fix a lookup' u fees
    assume a: "map_option in_username (found_intent lookup) = Some u" "matches (By_username u) a"
      "lookup = None \<or> dv_intentId d = None \<or> lookup' = lookup" "\<not> intent_mismatch d a (found_intent lookup')"
    then obtain i where i: "lookup = Some (Found i)" "u = in_username i"
      by (auto simp: found_intent_def split: option.splits IntentLookup.splits)
    with that obtain intentId where "dv_intentId d = Some intentId" "wd_known wd (cacheKey intentId) (Stored_intent i)" by blast
    with a i None show "attributed wd d a"
      by (auto simp: attributed_def intent_mismatch_def found_intent_def)
  qed
  with None show ?thesis
    unfolding handle_delivery_def by (auto intro!: confined_bind [OF lookup_confined])
qed

end


section \<open>Credits go through the gate\<close>

text \<open>The wallet credits are paid from, and the invoices that may be made for a delivery.\<close>

definition treasury :: "world \<Rightarrow> fy_wallet option" where
  "treasury wd =
     Option.bind (List.find (matches (By_role TREASURY_ROLE)) (wd_accounts wd)) (\<lambda>a.
     let ws = filter (\<lambda>w. wa_accountId w = ac_id a) (wd_wallets wd)
     in keep_given (List.find (\<lambda>w. wa_currency w = Usdt) ws) (List.find (\<lambda>w. wa_currency w = Usd) ws))"

definition credit_memo :: "string \<Rightarrow> string" where
  "credit_memo transactionId = ''Card top-up (Fygaro '' @ transactionId @ '')''"

definition justified :: "world \<Rightarrow> delivery \<Rightarrow> string \<Rightarrow> money_amount \<Rightarrow> string \<Rightarrow> bool" where
  "justified wd d wid amt memo \<longleftrightarrow>
     (\<exists>a w fees.
        a \<in> set (wd_accounts wd) \<and> attributed wd d a
        \<and> w \<in> set (wd_wallets wd) \<and> wa_id w = wid \<and> wa_accountId w = ac_id a
        \<and> accepts wd d a fees
        \<and> usdWalletAmountFromInput (show_int (netCents fees)) (wa_currency w) = Inr amt
        \<and> memo = credit_memo (dv_transactionId d))"

fun credit_call :: "world \<Rightarrow> delivery \<Rightarrow> call \<Rightarrow> bool" where
  "credit_call wd d (Call_invoice wid amt memo) \<longleftrightarrow> justified wd d wid amt memo"
| "credit_call wd d (Call_pay wid bolt) \<longleftrightarrow> map_option wa_id (treasury wd) = Some wid"
| "credit_call wd d (Call_unit c) \<longleftrightarrow>
     (case c of
        Cache_set key v ttl \<Rightarrow> outcome_key key \<and> (\<exists>fp st. v = Stored_send fp st)
      | Acquire _ \<Rightarrow> True
      | Release _ \<Rightarrow> True
      | _ \<Rightarrow> bookkeeping wd (Call_unit c))"
| "credit_call wd d (Call_bool c) \<longleftrightarrow> bookkeeping wd (Call_bool c)"

interpretation credit: webhook_calls wd "credit_call wd d" for wd d
proof
  show "credit_call wd d c" if "bookkeeping wd c" for c
    using that by (cases c) (auto split: unit_call.splits)
qed

lemma find_by_id: "distinct (map wa_id ws) \<Longrightarrow> w \<in> set ws \<Longrightarrow> List.find (\<lambda>v. wa_id v = wa_id w) ws = Some w"
  by (induction ws) auto

lemma treasury_confined: "confined wd may (\<lambda>r. \<forall>w. r = Inr w \<longrightarrow> treasury wd = Some w) resolveFygaroTreasuryFundingWallet"
  unfolding resolveFygaroTreasuryFundingWallet_def
  by (auto simp: account_reply_def wallets_reply_def treasury_def Let_def split: sum.splits option.splits)

lemma wallets_confined:
  "confined wd may (\<lambda>ws. \<forall>w \<in> set ws. w \<in> set (wd_wallets wd) \<and> wa_accountId w = acct) (walletsFor acct)"
  by (auto simp: walletsFor_def wallets_reply_def split: sum.splits)

lemma treasury_wallet: "treasury wd = Some w \<Longrightarrow> w \<in> set (wd_wallets wd)"
  by (auto simp: treasury_def keep_given_def Let_def find_Some_iff split: bind_splits option.splits dest!: nth_mem)

lemma send_confined:
  assumes "distinct (map wa_id (wd_wallets wd))" "treasury wd = Some fw" "w \<in> set (wd_wallets wd)"
    and "wa_currency w = wa_currency fw"
    and "\<And>amt. usdWalletAmountFromInput (show_int n) (wa_currency w) = Inr amt \<Longrightarrow> may (Call_invoice (wa_id w) amt (credit_memo tx))"
    and "\<And>bolt. may (Call_pay (wa_id fw) bolt)" "\<And>x. may (Call_unit (Notify x))"
  shows "confined wd may ends_anyhow (send_and_notify (credit_args fw w n tx))"
proof -
  have "confined wd may ends_anyhow (intraledgerPaymentSendWalletId (credit_args fw w n tx))"
    using assms find_by_id [OF assms(1) treasury_wallet [OF assms(2)]] find_by_id [OF assms(1,3)]
    by (auto simp: intraledgerPaymentSendWalletId_def validateIntraledgerPaymentInputs_def active_wallet_def credit_args_def
        wallet_reply_def credit_memo_def checkedToWalletId_def
        split: sum.splits option.splits list.splits if_splits)
  then show ?thesis
    using assms(7) by (auto simp: send_and_notify_def validateIsUsdWallet_def ignoreI_def split: sum.splits intro!: confined_bind_any)
qed


lemma guarded_confined:
  assumes "confined wd may ends_anyhow execute" "\<And>v ttl. may (Call_unit (Cache_set (cacheKeyFor key) (Stored_send fp v) ttl))"
    and "\<And>path. may (Call_unit (Acquire path))" "\<And>path. may (Call_unit (Release path))"
  shows "confined wd may ends_anyhow (guarded_send key fp execute)"
proof -
  have "confined wd may ends_anyhow (in_lock (cacheKeyFor key) fp execute)"
    using assms(1,2) by (auto simp: in_lock_def store_outcome_def ignoreI_def split: sum.splits intro!: confined_bind_any)
  then show ?thesis
    using assms(3,4) by (auto simp: guarded_send_def redlock_def leave_def Let_def split: sum.splits intro!: confined_bind_any)
qed

lemma idempotent_confined:
  assumes "confined wd may ends_anyhow execute"
    and "\<And>scoped fp v ttl. may (Call_unit (Cache_set (cacheKeyFor scoped) (Stored_send fp v) ttl))"
    and "\<And>path. may (Call_unit (Acquire path))" "\<And>path. may (Call_unit (Release path))"
  shows "confined wd may ends_anyhow (withPaymentIdempotency hash key wid request execute)"
  using assms by (auto simp: withPaymentIdempotency_def Let_def split: option.splits intro!: guarded_confined)

lemma credit_confined:
  assumes ids: "distinct (map wa_id (wd_wallets wd))"
    and a: "a \<in> set (wd_accounts wd)" "attributed wd d a" "accepts wd d a fees"
  shows "confined wd (credit_call wd d) ends_anyhow
    (creditFygaroTopup hash (ac_id a) (netCents fees) (dv_transactionId d))"
proof -
  have send: "confined wd (credit_call wd d) ends_anyhow
      (intraledgerPaymentSendWalletIdForUsdWallet hash (credit_args fw w (netCents fees) (dv_transactionId d)))"
    if "treasury wd = Some fw" "w \<in> set (wd_wallets wd)" "wa_accountId w = ac_id a" "wa_currency w = wa_currency fw" for fw w
  proof -
    have "credit_call wd d (Call_invoice (wa_id w) amt (credit_memo (dv_transactionId d)))"
      if "usdWalletAmountFromInput (show_int (netCents fees)) (wa_currency w) = Inr amt" for amt
      using a that \<open>w \<in> _\<close> \<open>wa_accountId w = _\<close> unfolding credit_call.simps justified_def by blast
    with that ids show ?thesis
      unfolding intraledgerPaymentSendWalletIdForUsdWallet_def
      by (intro idempotent_confined send_confined) auto
  qed
  show ?thesis
    unfolding creditFygaroTopup_def
    by (auto split: sum.splits option.splits dest!: find_SomeD
        intro!: confined_bind [OF treasury_confined] confined_bind [OF wallets_confined] confined_bind_any send)
qed

lemma credit_path_confined:
  assumes "confined wd (credit_call wd d) ends_anyhow (creditFygaroTopup hash (ac_id a) (netCents fees) (dv_transactionId d))"
  shows "confined wd (credit_call wd d) ends_anyhow (credit_path hash d a fees authorized)"
proof -
  have "confined wd (credit_call wd d) ends_anyhow (credit_block hash d a fees authorized)"
    using assms by (auto simp: credit_block_def split: credit_result.splits intro!: confined_bind_any)
  then show ?thesis
    by (auto simp: credit_path_def redlock_def leave_def split: sum.splits intro!: confined_bind_any)
qed

lemma delivery_confined:
  assumes "distinct (map wa_id (wd_wallets wd))"
  shows "confined wd (credit_call wd d) ends_anyhow (handle_delivery hash d)"
  by (rule credit.handler_confined) (rule credit_path_confined, rule credit_confined [OF assms])

text \<open>
  The intents the deliveries can read are those that were stored before, up to their outcomes; the settings
  are the cached ones or those of the operator's row, and validated; a list of discounts is the cached one
  or that of the stored documents. The states they may see are given.
\<close>

definition world_of :: "services \<Rightarrow> (services \<Rightarrow> bool) \<Rightarrow> world" where
  "world_of s seen =
     \<lparr>wd_accounts = accounts s, wd_wallets = wallets s,
      wd_known = (\<lambda>key v. \<forall>i. v = Stored_intent i \<longrightarrow>
        (\<exists>i0 expiry. redis_keys s key = Some (Stored_intent i0, expiry) \<and> i\<lparr>in_outcome := None\<rparr> = i0\<lparr>in_outcome := None\<rparr>)),
      wd_settings = (\<lambda>st. settings_ok st \<and>
        ((\<exists>t. settings_cache s = Some (Some st, t)) \<or> validateFygaroSettings (erp_settings s) = Some st)),
      wd_discounts = (\<lambda>ds. (\<exists>t. discounts_cache s = Some (ds, t)) \<or> ds = discounts_of (erp_discounts s)),
      wd_state = seen\<rparr>"

definition delivery_calls :: "services \<Rightarrow> (services \<Rightarrow> bool) \<Rightarrow> delivery list \<Rightarrow> call \<Rightarrow> bool" where
  "delivery_calls s seen ds c \<longleftrightarrow> (\<exists>d \<in> set ds. credit_call (world_of s seen) d c)"

interpretation deliveries: discipline "world_of s seen" "delivery_calls s seen ds" for s seen ds
proof
  show "wd_known (world_of s seen) key v" if "delivery_calls s seen ds (Call_unit (Cache_set key v ttl))" for key v ttl
    using that by (auto simp: delivery_calls_def world_of_def)
  show "wd_known (world_of s seen) key new"
    if "delivery_calls s seen ds (Call_bool (Cas key old new ttl))" "wd_known (world_of s seen) key old" for key old new ttl
    using that by (auto simp: delivery_calls_def world_of_def)
  show "wd_settings (world_of s seen) st" if "delivery_calls s seen ds (Call_unit (Remember_settings (Some st) t))" for st t
    using that by (auto simp: delivery_calls_def)
  show "listed (world_of s seen) v" if "delivery_calls s seen ds (Call_unit (Remember_discounts v t))" for v t
    using that by (auto simp: delivery_calls_def)
qed

lemma handlers_confined:
  assumes "distinct (map wa_id (wallets s))"
  shows "list_all (confined (world_of s seen) (delivery_calls s seen (List.map_filter (delivery_of config) payloads)) ends_anyhow)
    (map (paymentHandler hash config) payloads)"
proof -
  have "confined (world_of s seen) (delivery_calls s seen (List.map_filter (delivery_of config) payloads)) ends_anyhow
      (paymentHandler hash config p)" if "p \<in> set payloads" for p
  proof (cases "delivery_of config p")
    case (Some d)
    then have d: "d \<in> set (List.map_filter (delivery_of config) payloads)"
      using that by (force simp: map_filter_def)
    have "distinct (map wa_id (wd_wallets (world_of s seen)))" using assms by (simp add: world_of_def)
    then have "confined (world_of s seen) (delivery_calls s seen (List.map_filter (delivery_of config) payloads)) ends_anyhow
        (handle_delivery hash d)"
      by (rule confined_mono [OF delivery_confined]) (use d in \<open>auto simp: delivery_calls_def\<close>)
    with Some show ?thesis by (simp add: paymentHandler_def)
  qed (simp add: paymentHandler_def)
  then show ?thesis by (simp add: list_all_iff)
qed

lemma own_world: "settings_reply (settings_cache s) \<Longrightarrow> in_world (world_of s seen) s"
  by (auto simp: in_world_def world_of_def settings_known_def settings_reply_def discounts_known_def listed_def
      row_reply_def docs_reply_def validated_settings_ok)

text \<open>
  C9: Only payments that pass the gate are credited. Any number of deliveries of any payloads run interleaved
  in any order, with any of their calls lost or only reported as failed, starting from validated cached
  settings. Every invoice they make is on a wallet of the account that the reference of one of the payloads
  names, by its username or by an intent that was authorised for that account and that amount; never of an
  account found by the payer's email. Its amount is the net for which the credit gate accepted that payment:
  with the settings that were cached or that the operator's row validates to, with the account's
  discount in the cached or the stored list (or none, if the list could not be read), and with what
  the audit rows, as they were at a moment of the run, counted for the account in the day before a moment of
  the run, without that payment. Every payment is made from the treasury's funding wallet.
\<close>

theorem credits_through_the_gate:
  fixes hash :: "string \<Rightarrow> string" and config :: FygaroConfig and payloads :: "FygaroPaymentPayload list" and evs :: "event list"
  assumes "distinct (map wa_id (wallets s))" "settings_reply (settings_cache s)"
  defines "start \<equiv> (map (paymentHandler hash config) payloads, s)"
  defines "final \<equiv> snd (run_events evs start)" and "wd \<equiv> world_of s (visits evs start)"
  shows "(\<exists>new. invoices final = invoices s @ new
      \<and> list_all (\<lambda>(wid, amt, memo). \<exists>p d. p \<in> set payloads \<and> delivery_of config p = Some d \<and> justified wd d wid amt memo) new)
    \<and> (\<exists>new. payments final = payments s @ new
      \<and> list_all (\<lambda>(wid, bolt). map_option wa_id (treasury wd) = Some wid) new)"
proof -
  let ?ds = "List.map_filter (delivery_of config) payloads"
  have seen: "wd_state wd u" if "visits evs start u" for u using that by (simp add: wd_def world_of_def)
  have "only_allowed (delivery_calls s (visits evs start) ?ds) s final"
    unfolding final_def start_def
    using deliveries.run_confined [OF own_world [OF assms(2)] handlers_confined [OF assms(1)]] seen
    unfolding wd_def start_def by blast
  moreover have "\<exists>p. p \<in> set payloads \<and> delivery_of config p = Some d" if "d \<in> set ?ds" for d
    using that by (auto simp: map_filter_def)
  ultimately show ?thesis
    unfolding only_allowed_def delivery_calls_def list_all_iff credit_call.simps wd_def
    by (auto simp: split_beta) (metis fst_conv snd_conv)+
qed

definition ex_hook :: FygaroConfig where
  "ex_hook = \<lparr>fc_enabled = True, fc_credit_enabled = True, fc_checkout = None, fc_webhook_secrets = [], fc_timestampSkewMs = None\<rparr>"

definition ex_payload :: FygaroPaymentPayload where
  "ex_payload =
     \<lparr>pp_transactionId = Some ''T1'', pp_customReference = Some ''Alice'', pp_amount = Some ''60.00'', pp_currency = None,
      pp_client_email = Some ''bob@example.com''\<rparr>"

definition ex_shop :: services where
  "ex_shop = ex_bank\<lparr>erp_settings := Some ex_settings_doc\<rparr>"

definition ex_one :: "fy_response io list \<times> services" where
  "ex_one = run_events (replicate 39 (Step 0 Works)) (map (paymentHandler ex_sha256 ex_hook) [ex_payload], ex_shop)"

definition ex_seen :: "services \<Rightarrow> bool" where
  "ex_seen = visits (replicate 39 (Step 0 Works)) (map (paymentHandler ex_sha256 ex_hook) [ex_payload], ex_shop)"

theorem credits_through_the_gate_witness:
  "\<exists>wid amt memo d. (wid, amt, memo) \<in> set (invoices (snd ex_one)) \<and> delivery_of ex_hook ex_payload = Some d
     \<and> justified (world_of ex_shop ex_seen) d wid amt memo"
proof -
  have "distinct (map wa_id (wallets ex_shop))" by (simp add: ex_shop_def ex_bank_def ex_wallet_a_def ex_wallet_b_def)
  moreover have "settings_reply (settings_cache ex_shop)" by (simp add: ex_shop_def ex_bank_def settings_reply_def)
  ultimately obtain new where new: "invoices (snd ex_one) = invoices ex_shop @ new"
    "list_all (\<lambda>(wid, amt, memo). \<exists>p d. p \<in> set [ex_payload] \<and> delivery_of ex_hook p = Some d
       \<and> justified (world_of ex_shop ex_seen) d wid amt memo) new"
    using credits_through_the_gate [of ex_shop "replicate 39 (Step 0 Works)" ex_sha256 ex_hook "[ex_payload]"]
    unfolding ex_one_def ex_seen_def by blast
  moreover have "length (invoices (snd ex_one)) = 1" by code_simp
  ultimately show ?thesis by (cases new) (auto simp: ex_shop_def ex_bank_def)
qed

section \<open>Outcomes\<close>

definition outcome_rank :: "FygaroTopupOutcome option \<Rightarrow> nat" where
  "outcome_rank outcome =
     (case outcome of
        None \<Rightarrow> 0
      | Some oc \<Rightarrow> (case oc_state oc of Received \<Rightarrow> 1 | Credited \<Rightarrow> 3 | _ \<Rightarrow> 2))"

lemma merge_advances: "mergeIntentOutcome old incoming = Some merged \<Longrightarrow> outcome_rank old \<le> outcome_rank (Some merged)"
  by (auto simp: mergeIntentOutcome_def outcome_rank_def Let_def split: option.splits FygaroTopupOutcomeState.splits if_splits)

lemma rank_credited: "outcome_rank outcome = 3 \<longleftrightarrow> stateFor outcome = Status_credited"
  by (auto simp: outcome_rank_def stateFor_def split: option.splits FygaroTopupOutcomeState.splits)

definition advances :: "stored \<Rightarrow> stored \<Rightarrow> bool" where
  "advances v w \<longleftrightarrow>
     (\<forall>i. v = Stored_intent i \<longrightarrow>
        (\<exists>j. w = Stored_intent j \<and> j\<lparr>in_outcome := None\<rparr> = i\<lparr>in_outcome := None\<rparr>
           \<and> outcome_rank (in_outcome i) \<le> outcome_rank (in_outcome j)))"

text \<open>
  C12: What an intent records is never taken back. While any number of deliveries of any payloads run
  interleaved, with any of their calls lost or only reported as failed, a stored intent stays stored until
  it expires; its authorisation (account, username, amount, link) is not changed; and its outcome only
  advances, from none over a received payment and a decision to a credit. So once an intent is recorded as
  credited its status is reported as credited by every later answer that can read it.
\<close>

theorem outcome_only_advances:
  fixes hash :: "string \<Rightarrow> string" and config :: FygaroConfig and payloads :: "FygaroPaymentPayload list" and evs :: "event list"
  assumes "distinct (map wa_id (wallets s))" "settings_reply (settings_cache s)"
    and "redis_keys s (cacheKey intentId) = Some (Stored_intent i, expiry)"
  defines "final \<equiv> snd (run_events evs (map (paymentHandler hash config) payloads, s))"
  shows "\<exists>j expiry'. redis_keys final (cacheKey intentId) = Some (Stored_intent j, expiry')
    \<and> j\<lparr>in_outcome := None\<rparr> = i\<lparr>in_outcome := None\<rparr> \<and> outcome_rank (in_outcome i) \<le> outcome_rank (in_outcome j)
    \<and> (stateFor (in_outcome i) = Status_credited \<longrightarrow> stateFor (in_outcome j) = Status_credited)"
proof -
  let ?may = "delivery_calls s (\<lambda>_. True) (List.map_filter (delivery_of config) payloads)"
  have "\<exists>w e'. redis_keys final (cacheKey intentId) = Some (w, e') \<and> advances (Stored_intent i) w"
    unfolding final_def
  proof (rule deliveries.run_stored [OF own_world [OF assms(2)] handlers_confined [OF assms(1)] assms(3)])
    show "wd_state (world_of s (\<lambda>_. True)) u" for u by (simp add: world_of_def)
    show "\<not> ?may (Call_unit (Cache_set (cacheKey intentId) v ttl))" for v ttl
      by (auto simp: delivery_calls_def outcome_key_def cacheKey_def)
    show "\<not> ?may (Call_bool (Del (cacheKey intentId)))"
      by (auto simp: delivery_calls_def cacheKey_def claimKey_def)
    show "advances v w" if "?may (Call_bool (Cas (cacheKey intentId) v w ttl))" for v w ttl
      using that merge_advances by (auto simp: delivery_calls_def advances_def)
    show "advances v v" for v by (simp add: advances_def)
    show "advances u w" if "advances u v" "advances v w" for u v w
      using that by (fastforce simp: advances_def)
  qed
  then obtain j e' where "redis_keys final (cacheKey intentId) = Some (Stored_intent j, e')"
    "j\<lparr>in_outcome := None\<rparr> = i\<lparr>in_outcome := None\<rparr>" "outcome_rank (in_outcome i) \<le> outcome_rank (in_outcome j)"
    by (auto simp: advances_def)
  moreover have "outcome_rank (in_outcome j) \<le> 3"
    by (auto simp: outcome_rank_def split: option.splits FygaroTopupOutcomeState.splits)
  ultimately show ?thesis
    using rank_credited [of "in_outcome i"] rank_credited [of "in_outcome j"] by auto
qed


definition ex_checkout :: FygaroCheckoutIntent where
  "ex_checkout =
     \<lparr>in_intentId = ''i1'', in_accountId = ''acc1'', in_username = ''alice'', in_amountCents = 6000, in_currency = ''USD'',
      in_createdAtMs = 1799999900000, in_checkoutUrl = None, in_expiresAtMs = Some 1800001800000,
      in_outcome = Some \<lparr>oc_state = Credited, oc_reason = None, oc_netAmountCents = Some 5502, oc_detailCents = None,
        oc_transactionId = Some ''T0'', oc_atMs = 1799999950000\<rparr>\<rparr>"

definition ex_credited :: services where
  "ex_credited = ex_shop\<lparr>redis_keys := [cacheKey ''i1'' \<mapsto> (Stored_intent ex_checkout, 1800100000000)]\<rparr>"

definition ex_euros :: FygaroPaymentPayload where
  "ex_euros = ex_payload\<lparr>pp_customReference := Some (FYGARO_REFERENCE_SEPARATOR # ''i1''), pp_currency := Some ''eur''\<rparr>"

theorem outcome_only_advances_witness:
  "\<exists>j expiry. redis_keys (snd (run_events (replicate 30 (Step 0 Works))
       (map (paymentHandler ex_sha256 ex_hook) [ex_euros], ex_credited))) (cacheKey ''i1'') = Some (Stored_intent j, expiry)
     \<and> in_amountCents j = 6000 \<and> stateFor (in_outcome j) = Status_credited"
proof -
  have "distinct (map wa_id (wallets ex_credited))" "settings_reply (settings_cache ex_credited)"
    "redis_keys ex_credited (cacheKey ''i1'') = Some (Stored_intent ex_checkout, 1800100000000)"
    by (simp_all add: ex_credited_def ex_shop_def ex_bank_def ex_wallet_a_def ex_wallet_b_def settings_reply_def)
  from outcome_only_advances [OF this, of "replicate 30 (Step 0 Works)" ex_sha256 ex_hook "[ex_euros]"]
  obtain j expiry where "redis_keys (snd (run_events (replicate 30 (Step 0 Works))
       (map (paymentHandler ex_sha256 ex_hook) [ex_euros], ex_credited))) (cacheKey ''i1'') = Some (Stored_intent j, expiry)"
    "j\<lparr>in_outcome := None\<rparr> = ex_checkout\<lparr>in_outcome := None\<rparr>"
    "stateFor (in_outcome ex_checkout) = Status_credited \<longrightarrow> stateFor (in_outcome j) = Status_credited"
    by blast
  moreover from this(2) have "in_amountCents j = 6000"
    by (cases j) (simp add: ex_checkout_def)
  ultimately show ?thesis by (auto simp: ex_checkout_def stateFor_def)
qed

end
