(* ===== verification/FygaroOnce.thy ===== *)
theory FygaroOnce
  imports FygaroCredits
begin

text \<open>
  A card payment is credited at most once. Deliveries of one transaction are programs that keep away from
  the stored outcome of its send and from the lock on it until they come to the send, which they come to
  at most once, and keep away from them again afterwards. So their phases are those of the send inside.
\<close>

section \<open>Keeping away from a send\<close>

fun harmless :: "string \<Rightarrow> call \<Rightarrow> bool" where
  "harmless key (Call_unit c) \<longleftrightarrow>
     (case c of
        Cache_set k _ _ \<Rightarrow> k \<noteq> cacheKeyFor key
      | Acquire path \<Rightarrow> path \<noteq> getPaymentIdempotencyKeyLockResource key
      | Release path \<Rightarrow> path \<noteq> getPaymentIdempotencyKeyLockResource key
      | _ \<Rightarrow> True)"
| "harmless key (Call_bool c) \<longleftrightarrow>
     (case c of Del k \<Rightarrow> k \<noteq> cacheKeyFor key | Cas k _ _ _ \<Rightarrow> k \<noteq> cacheKeyFor key)"
| "harmless key (Call_invoice _ _ _) \<longleftrightarrow> True"
| "harmless key (Call_pay _ _) \<longleftrightarrow> False"

text \<open>The world of accounts and wallets, in which any value may be stored and read.\<close>

definition plain :: "services \<Rightarrow> world" where
  "plain s = \<lparr>wd_accounts = accounts s, wd_wallets = wallets s, wd_known = (\<lambda>_ _. True), wd_settings = (\<lambda>_. True),
     wd_discounts = (\<lambda>_. True), wd_state = (\<lambda>_. True)\<rparr>"

lemma plain_simps [simp]:
  "wd_accounts (plain s) = accounts s" "wd_wallets (plain s) = wallets s" "wd_known (plain s) key v" "wd_settings (plain s) st"
  "wd_discounts (plain s) ds" "listed (plain s) ds" "wd_state (plain s) u"
  by (simp_all add: plain_def listed_def)

interpretation away: discipline "plain s" "harmless key" for s key
  by unfold_locales simp_all

definition forgets :: "call \<Rightarrow> bool" where
  "forgets c \<longleftrightarrow> (\<forall>v t. c \<noteq> Call_unit (Remember_settings v t))"

lemma forgets_simps [simp]:
  "forgets (Call_unit c) \<longleftrightarrow> (\<forall>v t. c \<noteq> Remember_settings v t)" "forgets (Call_bool b)"
  "forgets (Call_invoice wid amt memo)" "forgets (Call_pay wid bolt)"
  by (simp_all add: forgets_def)

interpretation paying: discipline "plain s" forgets for s
  by unfold_locales simp_all

interpretation hook: webhook_calls wd "harmless key" for wd key
proof
  show "harmless key c" if "bookkeeping wd c" for c
    using that
    by (cases c) (auto simp: cacheKey_def claimKey_def cacheKeyFor_def split: unit_call.splits bool_call.splits)
qed

lemma harmless_mutex:
  "harmless key (Call_unit c) \<Longrightarrow>
   mutexes (snd (perform_unit c s)) (getPaymentIdempotencyKeyLockResource key) = mutexes s (getPaymentIdempotencyKeyLockResource key)"
  "mutexes (snd (perform_bool b s)) = mutexes s"
  by (cases c; auto simp: redis_set_def split: option.splits) (cases b; auto simp: redis_set_def)

lemma harmless_step:
  assumes "in_world (plain w) s" "confined (plain w) (harmless key) ends m"
  shows "same_locks key s (snd (step f m s)) \<and> payments (snd (step f m s)) = payments s
    \<and> in_world (plain w) (snd (step f m s)) \<and> confined (plain w) (harmless key) ends (fst (step f m s))"
proof -
  note st = away.step_confined [OF assms(1) plain_simps(7) assms(2), of f]
  have "mutexes (snd (step f m s)) (getPaymentIdempotencyKeyLockResource key) = mutexes s (getPaymentIdempotencyKeyLockResource key)"
    using assms(2)
    by (cases m) (simp_all add: unit_reply_def bool_reply_def with_fault_snd harmless_mutex add_invoice_def pay_invoice_def
        case_prod_beta split: call_fault.splits list.splits)
  moreover have "redis_keys (snd (step f m s)) (cacheKeyFor key) = redis_keys s (cacheKeyFor key)"
    using st by (fastforce simp: effect_def stored_by_def)
  moreover have "payments (snd (step f m s)) = payments s" using st by (auto simp: effect_def)
  ultimately show ?thesis using st by (simp add: same_locks_def step_clock)
qed

section \<open>Programs that come to a send\<close>

inductive launches :: "world \<Rightarrow> string \<Rightarrow> 'a io \<Rightarrow> bool" for wd key where
  launch_never: "confined wd (harmless key) ends_anyhow m \<Longrightarrow> launches wd key m"
| launch_send: "pay_once ex \<Longrightarrow> (\<And>r. confined wd (harmless key) ends_anyhow (k r))
    \<Longrightarrow> launches wd key (bindI (guarded_send key fp ex) k)"
| launch_later: "\<not> is_done m
    \<Longrightarrow> (\<And>s f. in_world wd s \<Longrightarrow> same_locks key s (snd (step f m s)) \<and> payments (snd (step f m s)) = payments s
          \<and> in_world wd (snd (step f m s)))
    \<Longrightarrow> (\<And>s f. in_world wd s \<Longrightarrow> launches wd key (fst (step f m s)))
    \<Longrightarrow> launches wd key m"

lemma bindI_Done [simp]: "bindI m Done = m"
  by (induction m) simp_all


lemma launches_child:
  assumes "\<not> is_done m" "confined (plain w) (harmless key) mid m"
    and "\<And>s f. in_world (plain w) s \<Longrightarrow> launches (plain w) key (bindI (fst (step f m s)) k)"
  shows "launches (plain w) key (bindI m k)"
  by (rule launch_later [OF bind_not_done [OF assms(1)]])
     (use harmless_step [OF _ assms(2)] assms(3) in \<open>simp_all add: step_bind [OF assms(1)]\<close>)

lemma launches_bind:
  assumes "confined (plain w) (harmless key) mid m" "\<And>x. mid x \<Longrightarrow> launches (plain w) key (k x)"
  shows "launches (plain w) key (bindI m k)"
  using assms(1)
proof (induction m)
  case (Done x)
  then show ?case by (simp add: assms(2))
qed (rule launches_child, simp, assumption, (auto simp: case_prod_beta world_replies)[1])+

lemma launches_any:
  "confined (plain w) (harmless key) ends_anyhow m \<Longrightarrow> (\<And>x. launches (plain w) key (k x)) \<Longrightarrow> launches (plain w) key (bindI m k)"
  by (rule launches_bind)

lemma launches_Done [simp]: "launches wd key (Done x)"
  by (rule launch_never) simp

lemma launches_account:
  assumes "\<And>r. account_reply (plain w) q r \<Longrightarrow> launches (plain w) key (k r)"
  shows "launches (plain w) key (Await_account q k)"
  using launches_bind [of w key "account_reply (plain w) q" "Await_account q Done" k] assms by simp

lemma launches_acquire:
  assumes "path \<noteq> getPaymentIdempotencyKeyLockResource key" "\<And>r. launches (plain w) key (k r)"
  shows "launches (plain w) key (Await_unit (Acquire path) k)"
  using launches_bind [of w key ends_anyhow "Await_unit (Acquire path) Done" k] assms by simp

lemma launches_then:
  assumes "launches (plain w) key m" "\<And>x. confined (plain w) (harmless key) ends_anyhow (k x)"
  shows "launches (plain w) key (bindI m k)"
  using assms(1)
proof (induction rule: launches.induct)
  case (launch_never m)
  then show ?case using assms(2) by (intro launches.launch_never confined_bind_any)
next
  case (launch_send ex k' fp)
  then show ?case
    unfolding bindI_assoc using assms(2) by (intro launches.launch_send) (auto intro: confined_bind_any)
next
  case (launch_later m)
  then show ?case
    by - (rule launches.launch_later, simp_all add: bind_not_done step_bind)
qed


section \<open>A delivery comes to one send\<close>

text \<open>The key of the send of a transaction, from the treasury's funding wallet.\<close>

definition send_key :: "fy_wallet \<Rightarrow> string \<Rightarrow> string" where
  "send_key fundingWallet transactionId = wa_id fundingWallet @ CHR '':'' # js_trim (''fygaro:'' @ transactionId)"

lemma trim_key: "js_trim (''fygaro:'' @ tx) \<noteq> ''''"
proof -
  have "\<not> js_space (CHR ''f'')" by (simp add: js_space_def)
  then show ?thesis by (simp add: js_trim_def dropWhile_eq_Nil_conv)
qed

lemma send_launches:
  assumes "treasury (plain s) = Some fw"
  shows "launches (plain s) (send_key fw tx) (intraledgerPaymentSendWalletIdForUsdWallet hash (credit_args fw w n tx))"
proof -
  have "launches (plain s) (send_key fw tx) (bindI (guarded_send (send_key fw tx) fp (send_and_notify args)) Done)" for fp args
    by (rule launch_send) (simp_all add: send_pays_once)
  then show ?thesis
    using trim_key [of tx]
    by (auto simp: intraledgerPaymentSendWalletIdForUsdWallet_def withPaymentIdempotency_def credit_args_def send_key_def Let_def
        intro: launch_never)
qed

lemma credit_launches:
  assumes "treasury (plain s) = Some fw"
  shows "launches (plain s) (send_key fw tx) (creditFygaroTopup hash acct n tx)"
  unfolding creditFygaroTopup_def
  by (auto split: sum.splits option.splits simp: assms
      intro!: launches_bind [OF treasury_confined] launches_bind [OF wallets_confined] launches_then send_launches)



lemma lock_apart:
  assumes "\<not> isl (checkedToWalletId (wa_id fw))"
  shows "payment_key d \<noteq> send_key fw tx"
proof
  assume eq: "payment_key d = send_key fw tx"
  have len: "\<exists>a b c d e. js_split (CHR ''-'') (wa_id fw) = [a, b, c, d, e] \<and> length a = 8"
    using assms by (auto simp: checkedToWalletId_def split: list.splits if_splits)
  show False
  proof (cases "length (wa_id fw) \<ge> 7")
    case True
    then have "take 7 (wa_id fw) = take 7 (send_key fw tx)" by (simp add: send_key_def)
    also have "\<dots> = ''fygaro-''" unfolding eq [symmetric] by (simp add: payment_key_def)
    finally obtain rest where "wa_id fw = ''fygaro'' @ CHR ''-'' # rest"
      using append_take_drop_id [of 7 "wa_id fw"] by (metis append_Cons append_Nil)
    with len show False by (auto simp: js_split_append)
  next
    case False
    have "payment_key d = ''fygaro'' @ ''-payment:'' @ dv_transactionId d" by (simp add: payment_key_def)
    with False have "take (length (wa_id fw)) (payment_key d) = take (length (wa_id fw)) ''fygaro''"
      by (simp only: take_append) simp
    then have "wa_id fw = take (length (wa_id fw)) ''fygaro''" by (simp add: eq send_key_def)
    then have "set (wa_id fw) \<subseteq> set ''fygaro''" by (metis set_take_subset)
    then have "CHR ''-'' \<notin> set (wa_id fw)" by auto
    with len show False by (auto simp: js_split_none)
  qed
qed


lemma quiet_launches [simp]:
  "launches wd key (answer_unattributed d authorized)" "launches wd key (answer_lookup_fault d)"
  "launches wd key (answer_audit_fault d)" "launches wd key (record_only d account settings prior authorized reason)"
  "launches wd key (then_answer (recordOutcome d state why net detail) x)"
  by (rule launch_never; simp)+

lemma credit_path_launches:
  assumes "treasury (plain s) = Some fw" "\<not> isl (checkedToWalletId (wa_id fw))"
  shows "launches (plain s) (send_key fw (dv_transactionId d)) (credit_path hash d a fees authorized)"
proof -
  define key where "key = send_key fw (dv_transactionId d)"
  have apart: "getPaymentIdempotencyKeyLockResource (payment_key d) \<noteq> getPaymentIdempotencyKeyLockResource key"
    using lock_apart [OF assms(2)] by (simp add: getPaymentIdempotencyKeyLockResource_def key_def)
  have "launches (plain s) key (bindI (creditFygaroTopup hash (ac_id a) (netCents fees) (dv_transactionId d))
      (\<lambda>credit. case credit of FygaroCreditError step_name \<Rightarrow> credit_failed d a fees authorized step_name
        | Sent_to walletId pending \<Rightarrow> credit_done d a fees walletId pending))"
    unfolding key_def by (rule launches_then [OF credit_launches [OF assms(1)]]) (simp split: credit_result.splits)
  then have block: "launches (plain s) key (credit_block hash d a fees authorized)"
    unfolding credit_block_def by (intro launches_any) simp_all
  have "launches (plain s) key (redlock (getPaymentIdempotencyKeyLockResource (payment_key d)) (credit_block hash d a fees authorized))"
    unfolding redlock_def using apart
    by (auto simp: leave_def split: sum.splits intro!: launches_acquire launches_then block)
  then show ?thesis
    unfolding credit_path_def key_def by (auto split: sum.splits intro!: launches_then)
qed

lemma process_launches:
  assumes "treasury (plain s) = Some fw" "\<not> isl (checkedToWalletId (wa_id fw))"
  shows "launches (plain s) (send_key fw (dv_transactionId d)) (process_account hash d a authorized)"
proof -
  have "launches (plain s) (send_key fw (dv_transactionId d)) (decide_delivery hash d a authorized settings prior discount)"
    for settings prior discount
    unfolding decide_delivery_def
    by (auto split: CreditGate.splits intro: credit_path_launches [OF assms])
  then show ?thesis
    unfolding process_account_def
    by (auto intro!: launches_any confined_mono [OF hook.settings_confined])
qed

lemma record_first_launches:
  assumes "treasury (plain s) = Some fw" "\<not> isl (checkedToWalletId (wa_id fw))"
  shows "launches (plain s) (send_key fw (dv_transactionId d)) (record_first hash d account email known)"
  unfolding record_first_def process_recorded_def
  by (auto split: sum.splits option.splits
      intro!: launches_any process_launches [OF assms] confined_mono [OF hook.lookup_confined])

lemma attribute_launches:
  assumes "treasury (plain s) = Some fw" "\<not> isl (checkedToWalletId (wa_id fw))"
  shows "launches (plain s) (send_key fw (dv_transactionId d)) (attribute hash d username known)"
  unfolding attribute_def without_account_def
  by (auto split: sum.splits option.splits
      intro!: launches_any launches_account record_first_launches [OF assms])

lemma delivery_launches:
  assumes "treasury (plain s) = Some fw" "\<not> isl (checkedToWalletId (wa_id fw))"
  shows "launches (plain s) (send_key fw (dv_transactionId d)) (handle_delivery hash d)"
  unfolding handle_delivery_def
  by (auto split: option.splits
      intro!: launches_any attribute_launches [OF assms] confined_mono [OF hook.lookup_confined])


section \<open>The phases of a delivery\<close>

lemma settled_forgets: "settled m \<Longrightarrow> confined wd forgets ends_anyhow m"
  by (induction m) auto

lemma pay_once_forgets: "pay_once m \<Longrightarrow> confined wd forgets ends_anyhow m"
proof (induction m)
  case (Await_pay wid bolt k)
  have "confined wd forgets ends_anyhow (k r)" for r
    using Await_pay settled_forgets [of "k r"] by (cases r) auto
  then show ?case by simp
qed auto

lemma in_phase_forgets: "in_phase key ph m \<Longrightarrow> confined wd forgets ends_anyhow m"
proof -
  have stored: "confined wd forgets ends_anyhow (store_outcome ck fp r)" for ck fp r
    by (auto simp: store_outcome_def ignoreI_def split: sum.splits)
  have locked: "confined wd forgets ends_anyhow (in_lock ck fp ex)" if "confined wd forgets ends_anyhow ex" for ck fp ex
    using that by (auto simp: in_lock_def stored split: sum.splits intro!: confined_bind_any)
  have left: "confined wd forgets ends_anyhow (leave path r)" for path and r :: "payment_send_status result"
    by (auto simp: leave_def split: sum.splits)
  assume "in_phase key ph m"
  then show ?thesis
    by cases (auto simp: guarded_send_def redlock_def Let_def stored locked left pay_once_forgets settled_forgets
        split: sum.splits intro!: confined_bind_any)
qed

inductive hook_phase :: "world \<Rightarrow> string \<Rightarrow> phase \<Rightarrow> 'a io \<Rightarrow> bool" for wd key where
  hook_outside: "launches wd key m \<Longrightarrow> hook_phase wd key Outside m"
| hook_inside: "in_phase key ph m \<Longrightarrow> (\<And>r. confined wd (harmless key) ends_anyhow (k r)) \<Longrightarrow> hook_phase wd key ph (bindI m k)"
| hook_after: "confined wd (harmless key) ends_anyhow m \<Longrightarrow> hook_phase wd key (Finished r) m"

lemma away_step:
  fixes m :: "'a io"
  assumes "confined (plain w) (harmless key) ends_anyhow m" "in_world (plain w) s" "step f m s = (m', t)"
    and "\<And>m :: 'a io. confined (plain w) (harmless key) ends_anyhow m \<Longrightarrow> hook_phase (plain w) key ph m"
  shows "in_world (plain w) t \<and> (\<exists>ph'. hook_phase (plain w) key ph' m' \<and> move key (ph, s) (ph', t))"
  using harmless_step [OF assms(2,1), of f] assms(3,4) by (auto intro!: exI [of _ ph] move_keep)

lemma inside_step:
  assumes "in_phase key ph m" "\<And>r. confined (plain w) (harmless key) ends_anyhow (k r)" "in_world (plain w) s"
    and "unexpired key s" "sends_reported (bindI m k) f" "step f (bindI m k) s = (m', t)"
  shows "in_world (plain w) t \<and> (\<exists>ph'. hook_phase (plain w) key ph' m' \<and> move key (ph, s) (ph', t))"
proof (cases "is_done m")
  case True
  then obtain r where r: "m = Done r" by (auto simp: is_done_iff)
  with assms(1) have "ph = Finished r" using phase_done by blast
  then show ?thesis
    using away_step [OF assms(2) [of r] assms(3), of f m' t ph] assms(6) by (simp add: r hook_after)
next
  case False
  then have st: "m' = bindI (fst (step f m s)) k" "t = snd (step f m s)"
    using assms(6) by (simp_all add: step_bind)
  have "sends_reported m f" using assms(5) False by (simp add: reported_bind)
  from phase_step [OF assms(1) this assms(4), of "fst (step f m s)" "snd (step f m s)"]
  obtain ph' where "in_phase key ph' (fst (step f m s))" "move key (ph, s) (ph', snd (step f m s))" by auto
  moreover have "in_world (plain w) t"
    unfolding st(2) using paying.step_confined [OF assms(3) plain_simps(7) in_phase_forgets [OF assms(1)]] by blast
  ultimately show ?thesis using assms(2) by (auto simp: st intro: hook_inside)
qed

interpretation hooks: phased key "hook_phase (plain w) key" "in_world (plain w)" for key w
proof
  fix ph :: phase and m m' :: "'a io" and s t f
  assume "hook_phase (plain w) key ph m" and st: "in_world (plain w) s" "unexpired key s" "sends_reported m f" "step f m s = (m', t)"
  then show "in_world (plain w) t \<and> (\<exists>ph'. hook_phase (plain w) key ph' m' \<and> move key (ph, s) (ph', t))"
  proof (cases rule: hook_phase.cases)
    case hook_outside
    from hook_outside(2) show ?thesis
    proof (cases rule: launches.cases)
      case launch_never
      show ?thesis
        unfolding hook_outside(1)
        by (rule away_step [OF launch_never st(1,4)]) (auto intro: hook_phase.hook_outside launches.launch_never)
    next
      case (launch_send ex k fp)
      then show ?thesis
        unfolding hook_outside(1) using inside_step [of key Outside _ w k s f m' t] st
        by (auto intro: in_phase.intros)
    next
      case launch_later
      then show ?thesis
        unfolding hook_outside(1) using st(1,4) hook_phase.hook_outside move_keep
        by (metis fst_conv snd_conv)
    qed
  next
    case (hook_inside m0 k)
    then show ?thesis using inside_step [of key ph m0 w k s f m' t] st by simp
  next
    case (hook_after r)
    show ?thesis
      unfolding hook_after(1)
      by (rule away_step [OF hook_after(2) st(1,4)]) (rule hook_phase.hook_after)
  qed
next
  show "in_world (plain w) (s\<lparr>clock := clock s + int n\<rparr>)" if "in_world (plain w) s" for s n
    using that by (simp add: in_world_def)
qed


lemma handler_launches:
  assumes "treasury (plain s) = Some w" "\<not> isl (checkedToWalletId (wa_id w))" "pp_transactionId p = Some tx"
  shows "launches (plain s) (send_key w tx) (paymentHandler hash config p)"
proof (cases "delivery_of config p")
  case (Some d)
  with assms(3) have "dv_transactionId d = tx" by (auto simp: delivery_of_def split: option.splits if_splits)
  with Some show ?thesis using delivery_launches [OF assms(1,2), of d hash] by (simp add: paymentHandler_def)
qed (simp add: paymentHandler_def)

text \<open>
  C8: A card payment is credited at most once. Any number of deliveries of one transaction, with the same or
  with different amounts, references and emails, run interleaved in any order, with time passing within
  the day the outcome of a send is kept and with any of their calls lost or only reported as failed, except
  that the cache of outcomes answers and that IBEX does not carry out a payment which it reports as
  failed. Then at most one payment is made.
\<close>

theorem credited_at_most_once:
  fixes hash :: "string \<Rightarrow> string" and config :: FygaroConfig and payloads :: "FygaroPaymentPayload list" and evs :: "event list"
  assumes tx: "list_all (\<lambda>p. pp_transactionId p = Some tx) payloads"
    and treasury: "treasury (plain s) = Some w" "\<not> isl (checkedToWalletId (wa_id w))"
    and fresh: "redis_keys s (cacheKeyFor (send_key w tx)) = None"
    and run: "allowed_run sends_reported evs (map (paymentHandler hash config) payloads, s)"
  defines "final \<equiv> run_events evs (map (paymentHandler hash config) payloads, s)"
  assumes day: "clock (snd final) < clock s + 24 * 60 * 60 * 1000"
  shows "length (payments (snd final)) \<le> Suc (length (payments s))"
proof -
  have "list_all (hook_phase (plain s) (send_key w tx) Outside) (map (paymentHandler hash config) payloads)"
    using tx handler_launches [OF treasury] by (auto simp: list_all_iff intro: hook_outside)
  moreover have "in_world (plain s) s" by (simp add: in_world_def settings_known_def discounts_known_def row_reply_def docs_reply_def)
  ultimately show ?thesis
    using hooks.at_most_one [where w = s, OF _ _ fresh run] day unfolding final_def IDEMPOTENCY_TTL_SECS_def by auto
qed


text \<open>Two deliveries of a payment in turns.\<close>

definition ex_twice :: "fy_response io list \<times> services" where
  "ex_twice = run_events (in_turns 39 2) (map (paymentHandler ex_sha256 ex_hook) [ex_payload, ex_payload], ex_shop)"

theorem credited_at_most_once_witness:
  "list_all is_done (fst ex_twice) \<and> length (payments (snd ex_twice)) \<le> 1"
proof -
  define w where "w = \<lparr>wa_id = ex_wallet_a, wa_accountId = ''bank'', wa_currency = Usd\<rparr>"
  have "treasury (plain ex_shop) = Some w"
    by (simp add: treasury_def plain_def ex_shop_def ex_bank_def ex_account_def matches_def TREASURY_ROLE_def keep_given_def w_def)
  moreover have "\<not> isl (checkedToWalletId (wa_id w))"
  proof -
    have "\<not> isl (checkedToWalletId ex_wallet_a)" by code_simp
    then show ?thesis by (simp add: w_def)
  qed
  moreover have "redis_keys ex_shop (cacheKeyFor (send_key w ''T1'')) = None" by (simp add: ex_shop_def ex_bank_def)
  moreover have "list_all (\<lambda>p. pp_transactionId p = Some ''T1'') [ex_payload, ex_payload]" by (simp add: ex_payload_def)
  moreover have "list_all is_done (fst ex_twice) \<and> clock (snd ex_twice) = 1800000000000" by code_simp
  moreover have "allowed_run sends_reported (in_turns 39 2) (map (paymentHandler ex_sha256 ex_hook) [ex_payload, ex_payload], ex_shop)"
    by (rule allowed_faultless [of sends_reported, OF sends_reported_Works in_turns_faultless])
  ultimately show ?thesis
    using credited_at_most_once [of "''T1''" "[ex_payload, ex_payload]" ex_shop w "in_turns 39 2" ex_sha256 ex_hook]
    unfolding ex_twice_def by (simp add: ex_shop_def ex_bank_def)
qed

end
