(* ===== verification/FygaroLiveness.thy ===== *)
theory FygaroLiveness
  imports FygaroAllowance FygaroOnce
begin

text \<open>
  Runs of the handler whose calls work, followed component by component. A payment that the credit gate
  accepts is credited: if the treasury can pay, the handler pays the net amount once, completes the audit
  row, stamps the intent as credited and answers with success. If the outcome of its send is stored already,
  the same run reports a failed credit. And a send whose stored outcome cannot be read is paid again.
\<close>

section \<open>The audit row\<close>

definition request_id :: "delivery \<Rightarrow> string" where
  "request_id d = ''fygaro:'' @ dv_transactionId d"

text \<open>The rows of other requests.\<close>

definition other_rows :: "string \<Rightarrow> transfer_row list \<Rightarrow> transfer_row list" where
  "other_rows rid rows = filter (\<lambda>r. row_request_id r \<noteq> rid) rows"

definition status_after :: "BridgeTransferRequestStatus \<Rightarrow> BridgeTransferRequestStatus option \<Rightarrow> BridgeTransferRequestStatus" where
  "status_after new old =
     (case old of
        None \<Rightarrow> new
      | Some st \<Rightarrow> if BRIDGE_TRANSFER_STATUS_RANK new < BRIDGE_TRANSFER_STATUS_RANK st then st else new)"

lemma find_row_map:
  assumes "List.find (\<lambda>r. row_request_id r = rid) rows = Some old" "row_request_id (f old) = rid"
  shows "List.find (\<lambda>r. row_request_id r = rid) (map (\<lambda>r. if row_request_id r = rid then f r else r) rows) = Some (f old)"
  using assms by (induction rows) (auto split: if_splits)

lemma find_row_new:
  "row_request_id p \<notin> row_request_id ` set rows \<Longrightarrow> List.find (\<lambda>r. row_request_id r = row_request_id p) (rows @ [p]) = Some p"
  by (induction rows) auto

lemma other_rows_map:
  "(\<And>r. row_request_id (f r) = row_request_id r) \<Longrightarrow>
     other_rows rid (map (\<lambda>r. if row_request_id r = rid then f r else r) rows) = other_rows rid rows"
  by (induction rows) (auto simp: other_rows_def)

lemma merge_row_fields [simp]:
  "row_request_id (merge_row old new) = row_request_id old" "row_status (merge_row old new) = row_status new"
  by (simp_all add: merge_row_def)

lemma guarded_status:
  "row_transaction_type p = ''Topup'' \<Longrightarrow> row_status (applyUpdateGuards p old) = status_after (row_status p) (Some (row_status old))"
  by (simp add: applyUpdateGuards_def status_after_def Let_def)

lemma run_upsert:
  assumes "row_transaction_type p = ''Topup''"
  defines "rid \<equiv> row_request_id p"
  obtains rows row where "run_io (upsertBridgeTransferRequest p) [] s = (Inr (), s\<lparr>erp_rows := rows\<rparr>)"
    "other_rows rid rows = other_rows rid (erp_rows s)" "List.find (\<lambda>r. row_request_id r = rid) rows = Some row"
    "row_status row = status_after (row_status p) (map_option row_status (find_row rid s))"
proof (cases "find_row rid s")
  case None
  then have new: "rid \<notin> row_request_id ` set (erp_rows s)" by (auto simp: find_row_def find_None_iff)
  then have "run_io (upsertBridgeTransferRequest p) [] s = (Inr (), s\<lparr>erp_rows := erp_rows s @ [p]\<rparr>)"
    using None unfolding rid_def by (simp add: upsertBridgeTransferRequest_def)
  moreover have "List.find (\<lambda>r. row_request_id r = rid) (erp_rows s @ [p]) = Some p"
    using new unfolding rid_def by (rule find_row_new)
  ultimately show thesis
    using that [of "erp_rows s @ [p]" p] None by (simp add: rid_def other_rows_def status_after_def)
next
  case (Some old)
  then have rid: "row_request_id old = rid" by (simp add: find_row_def find_Some_iff) blast
  let ?new = "merge_row old (applyUpdateGuards p old)"
  let ?rows = "map (\<lambda>r. if row_request_id r = rid then merge_row r (applyUpdateGuards p old) else r) (erp_rows s)"
  have "run_io (upsertBridgeTransferRequest p) [] s = (Inr (), s\<lparr>erp_rows := ?rows\<rparr>)"
    using Some rid unfolding rid_def by (simp add: upsertBridgeTransferRequest_def put_guarded_def)
  moreover have "List.find (\<lambda>r. row_request_id r = rid) ?rows = Some ?new"
    using Some rid by (intro find_row_map) (auto simp: find_row_def)
  ultimately show thesis
    using that [of ?rows ?new] Some by (simp add: other_rows_map guarded_status [OF assms(1)])
qed

section \<open>Outcomes\<close>

text \<open>The intent the reference of a delivery names, if it is stored.\<close>

definition intent_at :: "services \<Rightarrow> delivery \<Rightarrow> FygaroCheckoutIntent option" where
  "intent_at s d =
     Option.bind (dv_intentId d) (\<lambda>i. case redis_get s (cacheKey i) of Some (Stored_intent j) \<Rightarrow> Some j | _ \<Rightarrow> None)"

definition other_keys :: "services \<Rightarrow> services \<Rightarrow> bool" where
  "other_keys s t \<longleftrightarrow> (\<forall>k. (\<forall>i. k \<noteq> cacheKey i \<and> k \<noteq> claimKey i) \<longrightarrow> redis_keys t k = redis_keys s k)"

definition stamped :: "FygaroTopupOutcomeState \<Rightarrow> FygaroCheckoutIntent option \<Rightarrow> FygaroCheckoutIntent option \<Rightarrow> bool" where
  "stamped state i j \<longleftrightarrow>
     (case (i, j) of
        (None, None) \<Rightarrow> True
      | (Some x, Some y) \<Rightarrow> y\<lparr>in_outcome := None\<rparr> = x\<lparr>in_outcome := None\<rparr>
          \<and> (state = Credited \<longrightarrow> stateFor (in_outcome y) = Status_credited)
      | _ \<Rightarrow> False)"

lemma merge_credited:
  "oc_state oc = Credited \<Longrightarrow> \<exists>m. mergeIntentOutcome old oc = Some m \<and> oc_state m = Credited"
  by (auto simp: mergeIntentOutcome_def Let_def split: option.splits)

lemma run_outcome:
  assumes "0 \<le> dv_ttlSeconds d"
  obtains ks where "run_io (recordOutcome d state reason net detail) [] s = ((), s\<lparr>redis_keys := ks\<rparr>)"
    "other_keys s (s\<lparr>redis_keys := ks\<rparr>)" "stamped state (intent_at s d) (intent_at (s\<lparr>redis_keys := ks\<rparr>) d)"
proof -
  show thesis
  proof (cases "\<exists>i j. dv_intentId d = Some i \<and> redis_get s (cacheKey i) = Some (Stored_intent j)")
    case True
    then obtain i j where ij: "dv_intentId d = Some i" "redis_get s (cacheKey i) = Some (Stored_intent j)" by blast
    define oc where "oc = \<lparr>oc_state = state, oc_reason = reason, oc_netAmountCents = net, oc_detailCents = detail,
             oc_transactionId = Some (dv_transactionId d), oc_atMs = clock s\<rparr>"
    show thesis
    proof (cases "mergeIntentOutcome (in_outcome j) oc")
      case None
      with merge_credited [of oc "in_outcome j"] have "state \<noteq> Credited" by (auto simp: oc_def)
      moreover have "run_io (recordOutcome d state reason net detail) [] s = ((), s\<lparr>redis_keys := redis_keys s\<rparr>)"
        using None ij by (simp add: recordOutcome_def recordIntentOutcome_def RECORD_OUTCOME_ATTEMPTS_def numeral_3_eq_3 oc_def)
      ultimately show thesis using ij by (intro that [of "redis_keys s"]) (auto simp: other_keys_def stamped_def intent_at_def)
    next
      case (Some m)
      let ?new = "Stored_intent (j\<lparr>in_outcome := Some m\<rparr>)"
      let ?ks = "(redis_keys s)(cacheKey i \<mapsto> (?new, clock s + (dv_ttlSeconds d + 3600) * 1000))"
      have "run_io (recordOutcome d state reason net detail) [] s = ((), s\<lparr>redis_keys := ?ks\<rparr>)"
        using Some ij by (simp add: recordOutcome_def recordIntentOutcome_def RECORD_OUTCOME_ATTEMPTS_def numeral_3_eq_3 oc_def
            redis_set_def)
      moreover have "redis_get (s\<lparr>redis_keys := ?ks\<rparr>) (cacheKey i) = Some ?new" using assms by (simp add: redis_get_def)
      moreover have "state = Credited \<Longrightarrow> stateFor (Some m) = Status_credited"
        using merge_credited [of oc "in_outcome j"] Some by (auto simp: oc_def stateFor_def)
      ultimately show thesis
        using ij by (intro that [of ?ks]) (auto simp: other_keys_def stamped_def intent_at_def)
    qed
  next
    case False
    then have "intent_at s d = None" by (auto simp: intent_at_def split: bind_splits option.splits stored.splits)
    moreover have "run_io (recordOutcome d state reason net detail) [] s = ((), s\<lparr>redis_keys := redis_keys s\<rparr>)"
      using False by (auto simp: recordOutcome_def recordIntentOutcome_def RECORD_OUTCOME_ATTEMPTS_def numeral_3_eq_3
          split: option.splits stored.splits)
    ultimately show thesis by (intro that [of "redis_keys s"]) (auto simp: other_keys_def stamped_def)
  qed
qed

section \<open>The credit\<close>

definition usable_wallet :: "services \<Rightarrow> fy_wallet \<Rightarrow> bool" where
  "usable_wallet s w \<longleftrightarrow> checkedToWalletId (wa_id w) = Inr (wa_id w) \<and> find_wallet (wa_id w) s = Inr w
     \<and> (case read_account (By_id (wa_accountId w)) s of Inr a \<Rightarrow> ac_active a | Inl _ \<Rightarrow> False)"

text \<open>
  The treasury can pay a credit: it and the account have usable wallets of one currency, the payment has not
  been sent before and is not being sent, and IBEX will not answer that it failed.
\<close>

definition can_pay :: "services \<Rightarrow> fy_account \<Rightarrow> int \<Rightarrow> string \<Rightarrow> fy_wallet \<Rightarrow> fy_wallet \<Rightarrow> money_amount \<Rightarrow> bool" where
  "can_pay s a net tx fw rw amt \<longleftrightarrow>
     treasury (plain s) = Some fw \<and> List.find (\<lambda>w. wa_currency w = wa_currency fw) (wallets_of (ac_id a) s) = Some rw
     \<and> usable_wallet s fw \<and> usable_wallet s rw \<and> usdWalletAmountFromInput (show_int net) (wa_currency fw) = Inr amt
     \<and> length (js_trim (''fygaro:'' @ tx)) \<le> MAX_KEY_LENGTH
     \<and> redis_get s (cacheKeyFor (send_key fw tx)) = None
     \<and> \<not> mutexes s (getPaymentIdempotencyKeyLockResource (send_key fw tx))
     \<and> (case pay_replies s of [] \<Rightarrow> False | r # _ \<Rightarrow> paymentSendStatusOrPending r \<noteq> Send_failure)"

lemma read_account_cong: "accounts t = accounts s \<Longrightarrow> read_account q t = read_account q s"
  by (simp add: read_account_def)

lemma find_wallet_cong: "wallets t = wallets s \<Longrightarrow> find_wallet wid t = find_wallet wid s"
  by (simp add: find_wallet_def)

lemma status_or_pending: "paymentSendStatusOrPending r \<in> {Send_pending, Send_success, Send_failure}"
  by (auto simp: paymentSendStatusOrPending_def paymentSendStatusFromIbex_def statusFromField_def keep_given_def Let_def
      split: option.splits if_splits)

lemma run_active:
  "usable_wallet s w \<Longrightarrow> run_io (active_wallet (wa_id w) k) [] s = run_io (k (Inr w)) [] s"
  by (auto simp: usable_wallet_def active_wallet_def split: sum.splits)

lemma usable_cong: "accounts t = accounts s \<Longrightarrow> wallets t = wallets s \<Longrightarrow> usable_wallet t w = usable_wallet s w"
  by (simp add: usable_wallet_def read_account_cong [of t s] find_wallet_cong [of t s])

lemma treasury_currency: "treasury wd = Some w \<Longrightarrow> wa_currency w = Usd \<or> wa_currency w = Usdt"
  by (auto simp: treasury_def keep_given_def Let_def dest: find_SomeD split: bind_splits option.splits)

definition send_memo :: "IntraLedgerPaymentSendWalletIdArgs \<Rightarrow> string" where
  "send_memo args = (case pi_memo args of Some m \<Rightarrow> if m = '''' then ''flash-to-flash'' else m | None \<Rightarrow> ''flash-to-flash'')"

text \<open>The state after a send: an invoice on the recipient's wallet, paid from the sender's.\<close>

definition after_send :: "fy_wallet \<Rightarrow> fy_wallet \<Rightarrow> money_amount \<Rightarrow> string \<Rightarrow> services \<Rightarrow> services" where
  "after_send fw rw amt memo s =
     s\<lparr>invoices := invoices s @ [(wa_id rw, amt, memo)], payments := payments s @ [(wa_id fw, show_nat (length (invoices s)))],
       pay_replies := tl (pay_replies s),
       notices := notices s @ [notifyIntraledgerSendResult (Inr (paymentSendStatusOrPending (hd (pay_replies s))))]\<rparr>"

lemma run_send:
  assumes "usable_wallet s fw" "usable_wallet s rw" "wa_currency rw = wa_currency fw" "wa_currency fw = Usd \<or> wa_currency fw = Usdt"
    and "pi_senderWalletId args = wa_id fw" "pi_recipientWalletId args = wa_id rw"
    and "usdWalletAmountFromInput (show_int (pi_amount args)) (wa_currency fw) = Inr amt" "pay_replies s \<noteq> []"
  shows "run_io (send_and_notify args) [] s =
     (Inr (paymentSendStatusOrPending (hd (pay_replies s))), after_send fw rw amt (send_memo args) s)"
proof -
  have "find_wallet (wa_id fw) s = Inr fw" using assms(1) by (simp add: usable_wallet_def)
  moreover obtain r rs where "pay_replies s = r # rs" using assms(8) by (cases "pay_replies s") auto
  ultimately show ?thesis
    using assms(3-7)
    by (auto simp: run_active [OF assms(1)] run_active [OF assms(2)] send_and_notify_def validateIsUsdWallet_def intraledgerPaymentSendWalletId_def
        validateIntraledgerPaymentInputs_def run_bind ignoreI_def send_memo_def after_send_def add_invoice_def pay_invoice_def)
qed

lemma run_treasury: "treasury (plain s) = Some fw \<Longrightarrow> run_io resolveFygaroTreasuryFundingWallet [] s = (Inr fw, s)"
  by (auto simp: resolveFygaroTreasuryFundingWallet_def treasury_def plain_def read_account_def wallets_of_def Let_def
      split: option.splits bind_splits)

text \<open>
  A send under a key runs when no outcome is stored, and also when neither of the two reads of the cache
  can be answered.
\<close>

definition missed :: "services \<Rightarrow> string \<Rightarrow> call_fault list \<Rightarrow> bool" where
  "missed s key fs \<longleftrightarrow>
     (case fs of [] \<Rightarrow> redis_get s (cacheKeyFor key) = None | [Lost _, Works, Lost _] \<Rightarrow> True | _ \<Rightarrow> False)"

lemma run_guarded:
  assumes "missed s key fs" "\<not> mutexes s (getPaymentIdempotencyKeyLockResource key)"
    and "\<And>m. run_io execute [] (s\<lparr>mutexes := m\<rparr>) = (Inr st, t\<lparr>mutexes := m\<rparr>)" "mutexes t = mutexes s"
  shows "run_io (guarded_send key fp execute) fs s = (Inr st, t\<lparr>redis_keys := (redis_keys t)
      (cacheKeyFor key \<mapsto> (Stored_send fp (status_value st), clock t + IDEMPOTENCY_TTL_SECS * 1000))\<rparr>)"
proof -
  let ?lock = "getPaymentIdempotencyKeyLockResource key"
  have read: "redis_get (s\<lparr>mutexes := m\<rparr>) k = redis_get s k" for m k by (simp add: redis_get_def split: option.split)
  have same: "(mutexes s)(?lock := False) = mutexes s" using assms(2) by (auto intro: fun_upd_idem)
  have upd: "t\<lparr>redis_keys := ks, mutexes := mutexes s\<rparr> = t\<lparr>redis_keys := ks\<rparr>" for ks using assms(4) by (cases t) simp
  from assms(1) consider "fs = []" "redis_get s (cacheKeyFor key) = None" | e1 e2 where "fs = [Lost e1, Works, Lost e2]"
    by (auto simp: missed_def split: list.splits call_fault.splits)
  then show ?thesis
    using assms(2,3) read same upd
    by cases (simp_all add: guarded_send_def redlock_def in_lock_def store_outcome_def leave_def ignoreI_def run_bind of_option_def redis_set_def
        next_fault_def cache_reply_def cache_fault_def read_fault_def Let_def)
qed

lemma run_keyed_send:
  assumes "missed s (wa_id fw @ CHR '':'' # js_trim key) fs" "\<not> mutexes s (getPaymentIdempotencyKeyLockResource (wa_id fw @ CHR '':'' # js_trim key))"
    and args: "pi_idempotencyKey args = Some key" "js_trim key \<noteq> ''''" "length (js_trim key) \<le> MAX_KEY_LENGTH"
      "pi_senderWalletId args = wa_id fw" "pi_recipientWalletId args = wa_id rw"
    and wallets: "usable_wallet s fw" "usable_wallet s rw" "wa_currency rw = wa_currency fw" "wa_currency fw = Usd \<or> wa_currency fw = Usdt"
    and amt: "usdWalletAmountFromInput (show_int (pi_amount args)) (wa_currency fw) = Inr amt" "pay_replies s \<noteq> []"
  defines "st \<equiv> paymentSendStatusOrPending (hd (pay_replies s))"
  shows "run_io (intraledgerPaymentSendWalletIdForUsdWallet hash args) fs s =
     (Inr st, (after_send fw rw amt (send_memo args) s)\<lparr>redis_keys := (redis_keys s)(cacheKeyFor (wa_id fw @ CHR '':'' # js_trim key) \<mapsto>
        (Stored_send (hash (''intraledger|'' @ wa_id rw @ CHR ''|'' # show_int (pi_amount args))) (status_value st),
         clock s + IDEMPOTENCY_TTL_SECS * 1000))\<rparr>)"
proof -
  have "run_io (send_and_notify args) [] (s\<lparr>mutexes := m\<rparr>) = (Inr st, (after_send fw rw amt (send_memo args) s)\<lparr>mutexes := m\<rparr>)" for m
    using wallets amt usable_cong [of "s\<lparr>mutexes := m\<rparr>" s]
    by (subst run_send [OF _ _ _ _ args(4,5)]) (auto simp: st_def after_send_def)
  from run_guarded [OF assms(1,2) this] args show ?thesis
    by (simp add: intraledgerPaymentSendWalletIdForUsdWallet_def withPaymentIdempotency_def Let_def) (simp add: after_send_def)
qed

lemma run_credit:
  assumes "can_pay s a net tx fw rw amt" "0 < net"
  obtains pending ks ns where "run_io (creditFygaroTopup hash (ac_id a) net tx) [] s =
     (Sent_to (wa_id rw) pending,
      s\<lparr>invoices := invoices s @ [(wa_id rw, amt, credit_memo tx)], payments := payments s @ [(wa_id fw, show_nat (length (invoices s)))],
        pay_replies := tl (pay_replies s), notices := ns, redis_keys := ks\<rparr>)" "\<And>i. ks (cacheKey i) = redis_keys s (cacheKey i)"
proof -
  note cp = assms(1) [unfolded can_pay_def]
  from cp have rw: "wa_currency rw = wa_currency fw" by (auto dest: find_SomeD)
  from cp have cur: "wa_currency fw = Usd \<or> wa_currency fw = Usdt" using treasury_currency by blast
  from cp have reply: "pay_replies s \<noteq> []" "paymentSendStatusOrPending (hd (pay_replies s)) \<noteq> Send_failure"
    by (auto split: list.splits)
  define st where "st = paymentSendStatusOrPending (hd (pay_replies s))"
  let ?args = "credit_args fw rw net tx"
  have args: "pi_idempotencyKey ?args = Some (''fygaro:'' @ tx)" "pi_senderWalletId ?args = wa_id fw" "pi_recipientWalletId ?args = wa_id rw"
    "pi_amount ?args = net" "send_memo ?args = credit_memo tx"
    by (simp_all add: credit_args_def send_memo_def credit_memo_def)
  have key: "send_key fw tx = wa_id fw @ CHR '':'' # js_trim (''fygaro:'' @ tx)" by (simp add: send_key_def)
  have "missed s (wa_id fw @ CHR '':'' # js_trim (''fygaro:'' @ tx)) []" using cp by (simp add: missed_def key)
  from run_keyed_send [OF this _ args(1) _ _ args(2,3) _ _ rw cur _ reply(1), of amt hash]
  obtain e where sent: "run_io (intraledgerPaymentSendWalletIdForUsdWallet hash ?args) [] s =
     (Inr st, (after_send fw rw amt (credit_memo tx) s)\<lparr>redis_keys := (redis_keys s)(cacheKeyFor (send_key fw tx) \<mapsto> e)\<rparr>)"
    using cp trim_key [of tx] by (auto simp: key args(4,5) st_def)
  have "st = Send_pending \<or> st = Send_success" using status_or_pending [of "hd (pay_replies s)"] reply(2) by (auto simp: st_def)
  then have "\<exists>pending. run_io (creditFygaroTopup hash (ac_id a) net tx) [] s =
      (Sent_to (wa_id rw) pending, (after_send fw rw amt (credit_memo tx) s)\<lparr>redis_keys := (redis_keys s)(cacheKeyFor (send_key fw tx) \<mapsto> e)\<rparr>)"
    using cp assms(2) sent run_treasury [of s fw]
    by (auto simp: creditFygaroTopup_def run_bind walletsFor_def)
  then show thesis
    by (auto simp: after_send_def cacheKeyFor_def cacheKey_def intro: that)
qed

text \<open>
  C16: An unreadable cache pays twice. A keyed send between usable wallets of one currency, of which nothing is
  stored, is paid and its outcome is stored. When the same send is asked for again, under the same key and
  for the same payment, and the two reads of the cache fail, the failed reads are taken for misses, also
  inside the lock: so it is paid a second time although its outcome is there to be read.
\<close>

theorem unreadable_cache_pays_twice:
  fixes hash :: "string \<Rightarrow> string"
  assumes "k = wa_id fw @ CHR '':'' # js_trim key" "redis_get s (cacheKeyFor k) = None" "\<not> mutexes s (getPaymentIdempotencyKeyLockResource k)"
    and args: "pi_idempotencyKey args = Some key" "js_trim key \<noteq> ''''" "length (js_trim key) \<le> MAX_KEY_LENGTH"
      "pi_senderWalletId args = wa_id fw" "pi_recipientWalletId args = wa_id rw"
    and wallets: "usable_wallet s fw" "usable_wallet s rw" "wa_currency rw = wa_currency fw" "wa_currency fw = Usd \<or> wa_currency fw = Usdt"
    and amt: "usdWalletAmountFromInput (show_int (pi_amount args)) (wa_currency fw) = Inr amt" and replies: "pay_replies s = r1 # r2 # rest"
  shows "\<exists>t u. run_io (intraledgerPaymentSendWalletIdForUsdWallet hash args) [] s = (Inr (paymentSendStatusOrPending r1), t)
    \<and> payments t = payments s @ [(wa_id fw, show_nat (length (invoices s)))]
    \<and> redis_get t (cacheKeyFor k) = Some (Stored_send (hash (''intraledger|'' @ wa_id rw @ CHR ''|'' # show_int (pi_amount args)))
         (status_value (paymentSendStatusOrPending r1)))
    \<and> run_io (intraledgerPaymentSendWalletIdForUsdWallet hash args) [Lost e1, Works, Lost e2] t = (Inr (paymentSendStatusOrPending r2), u)
    \<and> payments u = payments t @ [(wa_id fw, show_nat (Suc (length (invoices s))))]"
proof -
  define t where "t = snd (run_io (intraledgerPaymentSendWalletIdForUsdWallet hash args) [] s)"
  have "missed s (wa_id fw @ CHR '':'' # js_trim key) []" using assms(1,2) by (simp add: missed_def)
  then have first: "run_io (intraledgerPaymentSendWalletIdForUsdWallet hash args) [] s = (Inr (paymentSendStatusOrPending r1), t)"
    "t = (after_send fw rw amt (send_memo args) s)\<lparr>redis_keys := (redis_keys s)(cacheKeyFor k \<mapsto>
        (Stored_send (hash (''intraledger|'' @ wa_id rw @ CHR ''|'' # show_int (pi_amount args))) (status_value (paymentSendStatusOrPending r1)),
         clock s + IDEMPOTENCY_TTL_SECS * 1000))\<rparr>"
    using run_keyed_send [OF _ _ args wallets amt, of "[]" hash] assms(1,3) replies by (simp_all add: t_def)
  have "usable_wallet t fw" "usable_wallet t rw" using wallets usable_cong [of t s] by (simp_all add: first(2) after_send_def)
  moreover have "missed t (wa_id fw @ CHR '':'' # js_trim key) [Lost e1, Works, Lost e2]" by (simp add: missed_def)
  ultimately have "\<exists>u. run_io (intraledgerPaymentSendWalletIdForUsdWallet hash args) [Lost e1, Works, Lost e2] t = (Inr (paymentSendStatusOrPending r2), u)
      \<and> payments u = payments t @ [(wa_id fw, show_nat (Suc (length (invoices s))))]"
    using run_keyed_send [OF _ _ args _ _ wallets(3,4) amt, of t "[Lost e1, Works, Lost e2]" hash] assms(1,3) replies
    by (simp add: first(2) after_send_def)
  moreover have "redis_get t (cacheKeyFor k) = Some (Stored_send (hash (''intraledger|'' @ wa_id rw @ CHR ''|'' # show_int (pi_amount args)))
         (status_value (paymentSendStatusOrPending r1)))"
    by (simp add: first(2) after_send_def redis_get_def IDEMPOTENCY_TTL_SECS_def)
  moreover have "payments t = payments s @ [(wa_id fw, show_nat (length (invoices s)))]" by (simp add: first(2) after_send_def)
  ultimately show ?thesis using first(1) by blast
qed

definition ex_usd_wallet :: "string \<Rightarrow> string \<Rightarrow> fy_wallet" where
  "ex_usd_wallet wid acct = \<lparr>wa_id = wid, wa_accountId = acct, wa_currency = Usd\<rparr>"

definition ex_usd :: "int \<Rightarrow> money_amount" where
  "ex_usd cents = \<lparr>currencyCode = Usd, ma_money = \<lparr>mcurrency = ''USD'', mvalue = cents * 10 ^ 20, mround = HALF_TO_EVEN\<rparr>\<rparr>"

theorem unreadable_cache_pays_twice_witness:
  "\<exists>t u. run_io (intraledgerPaymentSendWalletIdForUsdWallet ex_sha256 ex_send) [] ex_bank = (Inr Send_success, t)
    \<and> run_io (intraledgerPaymentSendWalletIdForUsdWallet ex_sha256 ex_send)
        [Lost UnknownCacheServiceError, Works, Lost UnknownCacheServiceError] t = (Inr Send_success, u)
    \<and> payments u = [(ex_wallet_a, ''0''), (ex_wallet_a, ''1'')]"
proof -
  let ?fw = "ex_usd_wallet ex_wallet_a ''bank''" and ?rw = "ex_usd_wallet ex_wallet_b ''acc1''"
  have "redis_get ex_bank (cacheKeyFor (wa_id ?fw @ CHR '':'' # js_trim ''fygaro:T1'')) = None"
    "\<not> mutexes ex_bank (getPaymentIdempotencyKeyLockResource (wa_id ?fw @ CHR '':'' # js_trim ''fygaro:T1''))"
    "js_trim ''fygaro:T1'' \<noteq> ''''" "length (js_trim ''fygaro:T1'') \<le> MAX_KEY_LENGTH" "usable_wallet ex_bank ?fw" "usable_wallet ex_bank ?rw"
    "usdWalletAmountFromInput (show_int (pi_amount ex_send)) (wa_currency ?fw) = Inr (ex_usd 5502)"
    "paymentSendStatusOrPending ex_paid = Send_success" "show_nat 0 = ''0''" "show_nat (Suc 0) = ''1''" by code_simp+
  moreover have "pi_idempotencyKey ex_send = Some ''fygaro:T1''" "pi_senderWalletId ex_send = wa_id ?fw" "pi_recipientWalletId ex_send = wa_id ?rw"
    "wa_id ?fw = ex_wallet_a" "wa_currency ?rw = wa_currency ?fw" "wa_currency ?fw = Usd"
    "pay_replies ex_bank = [ex_paid, ex_paid]" "payments ex_bank = []" "invoices ex_bank = []"
    by (simp_all add: ex_send_def ex_usd_wallet_def ex_bank_def)
  ultimately show ?thesis
    using unreadable_cache_pays_twice [of _ ?fw "''fygaro:T1''" ex_bank ex_send ?rw "ex_usd 5502" ex_paid ex_paid "[]" ex_sha256
        UnknownCacheServiceError UnknownCacheServiceError, OF refl] by auto
qed

section \<open>After the credit\<close>

text \<open>What is left of the run neither pays nor touches a lock of the credit.\<close>

definition settled_alike :: "services \<Rightarrow> services \<Rightarrow> bool" where
  "settled_alike s t \<longleftrightarrow> payments t = payments s \<and> invoices t = invoices s \<and> mutexes t = mutexes s"

lemma redis_get_cong: "clock t = clock s \<Longrightarrow> redis_keys t k = redis_keys s k \<Longrightarrow> redis_get t k = redis_get s k"
  by (simp add: redis_get_def split: option.split)

lemma intent_at_cong:
  "clock t = clock s \<Longrightarrow> (\<And>i. redis_keys t (cacheKey i) = redis_keys s (cacheKey i)) \<Longrightarrow> intent_at t d = intent_at s d"
  by (simp add: intent_at_def redis_get_cong [of t s])

lemma run_redeem:
  obtains t where "run_io (redeemIntent d) [] s = ((), t)" "settled_alike s t" "erp_rows t = erp_rows s" "intent_at t d = intent_at s d"
    "timelocks t = timelocks s"
proof -
  have keys: "claimKey i \<noteq> cacheKey j" for i j by (simp add: claimKey_def cacheKey_def)
  let ?t = "snd (run_io (redeemIntent d) [] s)"
  have "settled_alike s ?t" "erp_rows ?t = erp_rows s" "clock ?t = clock s" "timelocks ?t = timelocks s"
    "redis_keys ?t (cacheKey i) = redis_keys s (cacheKey i)" for i
    using keys [of _ i] keys [of _ i, symmetric]
    by (auto simp: settled_alike_def redeemIntent_def consumeIntent_def readIntent_def releaseIntentReservation_def ignoreI_def run_bind
        split: option.splits sum.splits stored.splits)
  then show thesis using that [of ?t] intent_at_cong [of ?t s d] by (metis prod.collapse unit.exhaust)
qed

lemma run_announce:
  "\<exists>t. run_io (announce_credit d a fees pending) [] s = (Inr (Response 200 Success_credited), t) \<and> settled_alike s t
     \<and> erp_rows t = erp_rows s \<and> intent_at t d = intent_at s d"
  by (auto simp: announce_credit_def lockIdempotencyKey_def ignoreI_def settled_alike_def Let_def intro!: intent_at_cong split: option.splits)

definition status_at :: "services \<Rightarrow> delivery \<Rightarrow> BridgeTransferRequestStatus option" where
  "status_at s d = map_option row_status (find_row (request_id d) s)"

definition open_row :: "services \<Rightarrow> delivery \<Rightarrow> bool" where
  "open_row s d \<longleftrightarrow> status_at s d \<noteq> Some Completed \<and> status_at s d \<noteq> Some Failed_status"

lemma find_row_cong: "erp_rows t = erp_rows s \<Longrightarrow> find_row rid t = find_row rid s"
  by (simp add: find_row_def)

lemma status_completed: "old \<noteq> Some Failed_status \<Longrightarrow> status_after Completed old = Completed"
  by (cases old; cases "the old") (auto simp: status_after_def)

lemma status_received: "old \<noteq> Some Completed \<Longrightarrow> old \<noteq> Some Failed_status \<Longrightarrow> status_after Fiat_received old \<notin> {Completed, Failed_status}"
  by (cases old; cases "the old") (auto simp: status_after_def)

lemma run_complete:
  assumes "open_row s d"
  obtains rows where "run_io (completeFygaroTopup (dv_transactionId d) acct wid amount currency i p f n) [] s = (Inr (), s\<lparr>erp_rows := rows\<rparr>)"
    "status_at (s\<lparr>erp_rows := rows\<rparr>) d = Some Completed"
proof -
  define row where "row = (fygaro_row (dv_transactionId d) Completed amount currency (Some acct) [''fygaro_webhook'', ''ibex_intraledger_credit''] (clock s))
        \<lparr>row_wallet_id := Some wid, row_initial_amount := Some (FText i), row_processor_fee := Some (FText p),
         row_flash_fee := Some (FText f), row_final_amount := Some (FText n)\<rparr>"
  have row: "row_transaction_type row = ''Topup''" "row_request_id row = request_id d" "row_status row = Completed"
    by (simp_all add: row_def fygaro_row_def request_id_def)
  from run_upsert [OF row(1), of s] row obtain rows r where
    "run_io (upsertBridgeTransferRequest row) [] s = (Inr (), s\<lparr>erp_rows := rows\<rparr>)"
    "List.find (\<lambda>r. row_request_id r = request_id d) rows = Some r"
    "row_status r = status_after Completed (map_option row_status (find_row (request_id d) s))" by metis
  with assms that [of rows] show thesis
    by (simp add: completeFygaroTopup_def row_def open_row_def status_at_def [symmetric] status_completed)
       (simp add: status_at_def find_row_def)
qed

lemma run_credit_done:
  assumes "open_row s d" "0 \<le> dv_ttlSeconds d"
  obtains t where "run_io (credit_done d a fees wid pending) [] s = (Inr (Response 200 Success_credited), t)" "settled_alike s t"
    "status_at t d = Some Completed" "stamped Credited (intent_at s d) (intent_at t d)"
proof -
  obtain rows where rows: "run_io (completeFygaroTopup (dv_transactionId d) (ac_id a) wid (dv_amount d) (dv_currency d)
              (centsToDollars (grossCents fees)) (centsToDollars (processorFeeCents fees))
              (centsToDollars (flashFeeCents fees)) (centsToDollars (netCents fees))) [] s = (Inr (), s\<lparr>erp_rows := rows\<rparr>)"
    "status_at (s\<lparr>erp_rows := rows\<rparr>) d = Some Completed" by (rule run_complete [OF assms(1)])
  define s1 where "s1 = s\<lparr>erp_rows := rows\<rparr>"
  obtain ks where ks: "run_io (recordOutcome d Credited None (Some (netCents fees)) None) [] s1 = ((), s1\<lparr>redis_keys := ks\<rparr>)"
    "stamped Credited (intent_at s1 d) (intent_at (s1\<lparr>redis_keys := ks\<rparr>) d)" by (rule run_outcome [OF assms(2)])
  define s2 where "s2 = s1\<lparr>redis_keys := ks, notices := notices s1 @ [Ops_event ''succeeded'']\<rparr>"
  obtain s3 where s3: "run_io (redeemIntent d) [] s2 = ((), s3)" "settled_alike s2 s3" "erp_rows s3 = erp_rows s2" "intent_at s3 d = intent_at s2 d"
    by (rule run_redeem)
  obtain t where t: "run_io (announce_credit d a fees pending) [] s3 = (Inr (Response 200 Success_credited), t)" "settled_alike s3 t"
    "erp_rows t = erp_rows s3" "intent_at t d = intent_at s3 d" using run_announce by blast
  have "run_io (credit_done d a fees wid pending) [] s = (Inr (Response 200 Success_credited), t)"
    using rows(1) ks(1) s3(1) t(1) by (simp add: credit_done_def run_bind ignoreI_def Let_def s1_def s2_def)
  moreover have "settled_alike s t" using s3(2) t(2) by (simp add: settled_alike_def s1_def s2_def)
  moreover have "status_at t d = Some Completed"
    using rows(2) t(3) s3(3) by (simp add: status_at_def find_row_def s1_def s2_def)
  moreover have "intent_at s1 d = intent_at s d" "intent_at s2 d = intent_at (s1\<lparr>redis_keys := ks\<rparr>) d"
    by (auto simp: s1_def s2_def intro!: intent_at_cong)
  ultimately show thesis using that ks(2) t(4) s3(4) by simp
qed

section \<open>The credit path\<close>

lemma can_pay_cong:
  assumes "can_pay s a net tx fw rw amt" "accounts t = accounts s" "wallets t = wallets s" "pay_replies t = pay_replies s" "clock s \<le> clock t"
    and "redis_keys t (cacheKeyFor (send_key fw tx)) = redis_keys s (cacheKeyFor (send_key fw tx))"
    and "mutexes t (getPaymentIdempotencyKeyLockResource (send_key fw tx)) = mutexes s (getPaymentIdempotencyKeyLockResource (send_key fw tx))"
  shows "can_pay t a net tx fw rw amt"
proof -
  have "redis_get t k = None" if "redis_get s k = None" "redis_keys t k = redis_keys s k" for k
    using that assms(5) by (auto simp: redis_get_def split: option.splits if_splits)
  then show ?thesis using assms usable_cong [of t s] by (simp add: can_pay_def plain_def wallets_of_def)
qed

text \<open>What the account has received and the treasury has paid.\<close>

definition credited :: "services \<Rightarrow> services \<Rightarrow> delivery \<Rightarrow> fy_wallet \<Rightarrow> fy_wallet \<Rightarrow> money_amount \<Rightarrow> bool" where
  "credited s t d fw rw amt \<longleftrightarrow>
     invoices t = invoices s @ [(wa_id rw, amt, credit_memo (dv_transactionId d))]
     \<and> payments t = payments s @ [(wa_id fw, show_nat (length (invoices s)))]
     \<and> status_at t d = Some Completed \<and> stamped Credited (intent_at s d) (intent_at t d)"

lemma run_completion:
  assumes "status_at s d \<noteq> Some Completed"
  shows "run_io (readFygaroTopupCompletion (dv_transactionId d)) [] s = (\<lparr>fc_completed = False, fc_netAmountCents = None\<rparr>, s)"
  using assms unfolding readFygaroTopupCompletion_def request_id_def [symmetric]
  by (cases "find_row (request_id d) s") (auto simp: status_at_def)

lemma run_credit_path:
  assumes pay: "can_pay s a (netCents fees) (dv_transactionId d) fw rw amt" and net: "0 < netCents fees"
    and row: "open_row s d" and ttl: "0 \<le> dv_ttlSeconds d" and free: "\<not> mutexes s (getPaymentIdempotencyKeyLockResource (payment_key d))"
  obtains t where "run_io (credit_path hash d a fees auth) [] s = (Response 200 Success_credited, t)" "credited s t d fw rw amt"
proof -
  let ?tx = "dv_transactionId d"
  define s1 where "s1 = s\<lparr>mutexes := (mutexes s)(getPaymentIdempotencyKeyLockResource (payment_key d) := True)\<rparr>"
  have "\<not> isl (checkedToWalletId (wa_id fw))" using pay by (simp add: can_pay_def usable_wallet_def)
  then have "getPaymentIdempotencyKeyLockResource (payment_key d) \<noteq> getPaymentIdempotencyKeyLockResource (send_key fw ?tx)"
    using lock_apart [of fw d ?tx] by (simp add: getPaymentIdempotencyKeyLockResource_def)
  then have "can_pay s1 a (netCents fees) ?tx fw rw amt" by (intro can_pay_cong [OF pay]) (simp_all add: s1_def)
  from run_credit [OF this net, of hash] obtain pending ks ns where sent: "run_io (creditFygaroTopup hash (ac_id a) (netCents fees) ?tx) [] s1 =
     (Sent_to (wa_id rw) pending,
      s1\<lparr>invoices := invoices s1 @ [(wa_id rw, amt, credit_memo ?tx)], payments := payments s1 @ [(wa_id fw, show_nat (length (invoices s1)))],
        pay_replies := tl (pay_replies s1), notices := ns, redis_keys := ks\<rparr>)" "\<And>i. ks (cacheKey i) = redis_keys s1 (cacheKey i)" by blast
  define s2 where "s2 = s1\<lparr>invoices := invoices s1 @ [(wa_id rw, amt, credit_memo ?tx)],
    payments := payments s1 @ [(wa_id fw, show_nat (length (invoices s1)))], pay_replies := tl (pay_replies s1), notices := ns, redis_keys := ks\<rparr>"
  have same: "intent_at s2 d = intent_at s d" "status_at s2 d = status_at s d" "status_at s1 d = status_at s d"
    using sent(2) by (auto simp: s1_def s2_def status_at_def find_row_def intro!: intent_at_cong)
  then have "open_row s2 d" using row by (simp add: open_row_def)
  from run_credit_done [OF this ttl] obtain t where t: "run_io (credit_done d a fees (wa_id rw) pending) [] s2 = (Inr (Response 200 Success_credited), t)"
    "settled_alike s2 t" "status_at t d = Some Completed" "stamped Credited (intent_at s2 d) (intent_at t d)" by blast
  define final where "final = t\<lparr>mutexes := (mutexes t)(getPaymentIdempotencyKeyLockResource (payment_key d) := False)\<rparr>"
  have "run_io (readFygaroTopupCompletion ?tx) [] s1 = (\<lparr>fc_completed = False, fc_netAmountCents = None\<rparr>, s1)"
    using row same(3) by (intro run_completion) (simp add: open_row_def)
  then have "run_io (credit_block hash d a fees auth) [] s1 = (Inr (Response 200 Success_credited), t)"
    using sent(1) t(1) by (simp add: credit_block_def run_bind s2_def)
  then have "run_io (credit_path hash d a fees auth) [] s = (Response 200 Success_credited, final)"
    using free by (simp add: credit_path_def redlock_def run_bind leave_def s1_def final_def)
  moreover have "status_at final d = status_at t d" "intent_at final d = intent_at t d"
    by (auto simp: final_def status_at_def find_row_def intro!: intent_at_cong)
  then have "credited s final d fw rw amt"
    using t(2-4) same(1) by (simp add: credited_def settled_alike_def s2_def s1_def final_def)
  ultimately show thesis by (rule that)
qed

section \<open>The handler\<close>

definition named_user :: "services \<Rightarrow> delivery \<Rightarrow> string option" where
  "named_user s d =
     (case Option.bind (dv_reference d) ref_username of Some u \<Rightarrow> Some u | None \<Rightarrow> map_option in_username (intent_at s d))"

definition prior_at :: "services \<Rightarrow> fy_account \<Rightarrow> delivery \<Rightarrow> int option" where
  "prior_at s a d =
     (case sum_rows (topup_rows (ac_id a) (clock s - DAY_MS) (Some (request_id d)) s) 0 None of
        Inl _ \<Rightarrow> None | Inr w \<Rightarrow> Some (tw_grossCents w))"

definition account_discount :: "services \<Rightarrow> fy_account \<Rightarrow> rat" where
  "account_discount s a = (case ac_username a of None \<Rightarrow> 0 | Some u \<Rightarrow> discount_at s u)"

lemma run_lookup: "\<exists>l. run_io (lookupIntent d None) [] s = (l, s) \<and> found_intent l = intent_at s d"
  by (auto simp: lookupIntent_def readIntent_def found_intent_def intent_at_def of_option_def run_bind
      split: option.splits sum.splits stored.splits if_splits)

lemma run_discount_account:
  obtains c where "run_io (getFlashFeeDiscountPercent (ac_username a) Topup_flow) [] s = (account_discount s a, s\<lparr>discounts_cache := c\<rparr>)"
proof (cases "ac_username a")
  case None
  then show thesis
    using that [of "discounts_cache s"] by (simp add: getFlashFeeDiscountPercent_def account_discount_def)
next
  case (Some u)
  then show thesis using run_discount [of u s] that by (metis account_discount_def option.simps(5))
qed

lemma run_prior:
  "\<exists>r. run_io (sumFygaroTopupGrossCentsLast24h (ac_id a) (Some (dv_transactionId d))) [] s = (r, s)
     \<and> (case r of Inl _ \<Rightarrow> None | Inr p \<Rightarrow> Some p) = prior_at s a d"
  by (auto simp: sumFygaroTopupGrossCentsLast24h_def readFygaroTopupWindowLast24h_def sumFygaroTopupGrossCentsSince_def run_bind
      prior_at_def request_id_def split: sum.splits)

lemma topup_rows_other:
  assumes "other_rows rid (erp_rows t) = other_rows rid (erp_rows s)"
  shows "topup_rows acct since (Some rid) t = topup_rows acct since (Some rid) s"
proof -
  have "topup_rows acct since (Some rid) u = filter (\<lambda>r. row_provider r = ''Fygaro'' \<and> row_transaction_type r = ''Topup'' \<and> row_account_id r = Some acct
               \<and> row_currency r = ''USD'' \<and> row_status r \<in> {Fiat_received, Completed}
               \<and> (case row_last_seen_at r of Some t \<Rightarrow> toFrappeDatetime since \<le> t | None \<Rightarrow> False)) (other_rows rid (erp_rows u))" for u
    by (auto simp: topup_rows_def other_rows_def intro: filter_cong)
  then show ?thesis using assms by simp
qed

lemma gate_stamped: "stamped st i j \<Longrightarrow> delivery_gate d a j settings prior discount = delivery_gate d a i settings prior discount"
  by (cases i; cases j; cases "the i"; cases "the j") (auto simp: stamped_def delivery_gate_def intent_mismatch_def)

text \<open>
  What the handler does before the credit: it may write the audit row, stamp the intent as received and
  fill the caches, but it moves nothing and tells nobody.
\<close>

definition prepared :: "delivery \<Rightarrow> services \<Rightarrow> services \<Rightarrow> bool" where
  "prepared d s t \<longleftrightarrow>
     accounts t = accounts s \<and> wallets t = wallets s \<and> pay_replies t = pay_replies s \<and> clock t = clock s
     \<and> settled_alike s t \<and> notices t = notices s \<and> other_keys s t \<and> (open_row s d \<longrightarrow> open_row t d)
     \<and> stamped Received (intent_at s d) (intent_at t d)"

lemma stamped_trans: "stamped Received i j \<Longrightarrow> stamped st j k \<Longrightarrow> stamped st i k"
  by (cases i; cases j; cases k) (auto simp: stamped_def)

lemma stamped_refl [simp]: "stamped Received i i"
  by (cases i) (simp_all add: stamped_def)

lemma other_keys_same: "redis_keys t = redis_keys s \<Longrightarrow> other_keys s t"
  by (simp add: other_keys_def)

lemma prepared_trans: "prepared d s t \<Longrightarrow> prepared d t u \<Longrightarrow> prepared d s u"
  using stamped_trans [of "intent_at s d" "intent_at t d" Received "intent_at u d"]
  by (auto simp: prepared_def settled_alike_def other_keys_def)

lemma prepared_send_key:
  "prepared d s t \<Longrightarrow> redis_keys t (cacheKeyFor k) = redis_keys s (cacheKeyFor k)"
  by (simp add: prepared_def other_keys_def cacheKeyFor_def cacheKey_def claimKey_def)

lemma prepared_can_pay:
  "prepared d s t \<Longrightarrow> can_pay s a net tx fw rw amt \<Longrightarrow> can_pay t a net tx fw rw amt"
  by (rule can_pay_cong [of s]) (auto simp: prepared_send_key, auto simp: prepared_def settled_alike_def)

text \<open>A delivery that the gate accepts comes to the credit, with the fees the gate has computed.\<close>

lemma reach_account:
  assumes gate: "delivery_gate d a auth (settings_at s) (prior_at s a d) (account_discount s a) = Credit fees"
  obtains t where "run_io (process_account hash d a auth) [] s = run_io (credit_path hash d a fees auth) [] t" "prepared d s t"
proof -
  obtain c where c: "run_io getFygaroSettings [] s = (settings_at s, s\<lparr>settings_cache := c\<rparr>)" by (rule run_settings)
  define s1 where "s1 = s\<lparr>settings_cache := c\<rparr>"
  obtain r where r: "run_io (sumFygaroTopupGrossCentsLast24h (ac_id a) (Some (dv_transactionId d))) [] s1 = (r, s1)"
    "(case r of Inl _ \<Rightarrow> None | Inr p \<Rightarrow> Some p) = prior_at s1 a d" using run_prior by blast
  obtain c2 where c2: "run_io (getFlashFeeDiscountPercent (ac_username a) Topup_flow) [] s1 = (account_discount s1 a, s1\<lparr>discounts_cache := c2\<rparr>)"
    by (rule run_discount_account)
  define s2 where "s2 = s1\<lparr>discounts_cache := c2\<rparr>"
  have same: "prior_at s1 a d = prior_at s a d" "account_discount s1 a = account_discount s a" "status_at s2 d = status_at s d"
    "intent_at s2 d = intent_at s d"
    by (auto simp: s1_def s2_def prior_at_def topup_rows_def account_discount_def discount_at_def discounts_at_def status_at_def find_row_def
        intro!: intent_at_cong split: option.splits)
  from gate have on: "dv_creditEnabled d" "dv_currency d = ''USD''" "\<exists>st. settings_at s = Some st \<and> autoCreditEnabled st"
    using gate_iff [of "dv_creditEnabled d" "dv_currency d" "settings_at s"]
    by (auto simp: delivery_gate_def split: if_splits)
  have "run_io (process_account hash d a auth) [] s = run_io (credit_path hash d a fees auth) [] s2"
    using on c r c2 gate same
    by (auto simp: process_account_def decide_delivery_def run_bind s1_def [symmetric] s2_def [symmetric])
  moreover have "prepared d s s2"
    using same by (simp add: prepared_def open_row_def settled_alike_def) (simp add: other_keys_same s1_def s2_def)
  ultimately show thesis by (rule that)
qed

lemma run_audit:
  assumes "open_row s d"
  obtains rows where "run_io (writeFygaroTopupRequest (dv_transactionId d) amount currency acct emailed) [] s = (Inr (), s\<lparr>erp_rows := rows\<rparr>)"
    "other_rows (request_id d) rows = other_rows (request_id d) (erp_rows s)" "open_row (s\<lparr>erp_rows := rows\<rparr>) d"
proof -
  define row where "row = fygaro_row (dv_transactionId d) Fiat_received amount currency acct
    (if emailed then [''fygaro_webhook'', EMAIL_ATTRIBUTION_SOURCE_SYSTEM] else [''fygaro_webhook'']) (clock s)"
  have row: "row_transaction_type row = ''Topup''" "row_request_id row = request_id d" "row_status row = Fiat_received"
    by (simp_all add: row_def fygaro_row_def request_id_def)
  from run_upsert [OF row(1), of s] row obtain rows r where
    "run_io (upsertBridgeTransferRequest row) [] s = (Inr (), s\<lparr>erp_rows := rows\<rparr>)"
    "other_rows (request_id d) rows = other_rows (request_id d) (erp_rows s)"
    "List.find (\<lambda>r. row_request_id r = request_id d) rows = Some r"
    "row_status r = status_after Fiat_received (status_at s d)" unfolding status_at_def by metis
  moreover from this(4) assms have "row_status r \<notin> {Completed, Failed_status}"
    using status_received [of "status_at s d"] by (simp add: open_row_def)
  ultimately show thesis
    using that [of rows] by (simp add: writeFygaroTopupRequest_def row_def open_row_def) (simp add: status_at_def find_row_def)
qed

text \<open>The account is found by the username in the reference, or by that of the stored intent.\<close>

lemma run_attribute:
  assumes "named_user s d = Some u" "u \<noteq> ''''" "read_account (By_username u) s = Inr a"
  obtains known where "run_io (handle_delivery hash d) [] s = run_io (record_first hash d (Some a) None known) [] s"
    "known = None \<or> (\<exists>j. known = Some (Found j) \<and> intent_at s d = Some j)"
proof (cases "Option.bind (dv_reference d) ref_username")
  case (Some v)
  then show thesis
    using assms that [of None] by (simp add: handle_delivery_def attribute_def named_user_def)
next
  case None
  then obtain j where j: "intent_at s d = Some j" "in_username j = u" using assms(1) by (auto simp: named_user_def)
  obtain l where l: "run_io (lookupIntent d None) [] s = (l, s)" "found_intent l = intent_at s d" using run_lookup by blast
  with j have "l = Some (Found j)" by (auto simp: found_intent_def split: option.splits IntentLookup.splits)
  with l j None assms(2,3) that [of "Some (Found j)"] show thesis
    by (auto simp: handle_delivery_def attribute_def run_bind found_intent_def)
qed

lemma run_known:
  assumes "known = None \<or> (\<exists>j. known = Some (Found j) \<and> intent_at s d = Some j)" "stamped Received (intent_at s d) (intent_at t d)"
  obtains l where "run_io (lookupIntent d known) [] t = (l, t)" "stamped Received (intent_at s d) (found_intent l)"
proof (cases known)
  case None
  then show thesis using run_lookup [of d t] assms(2) that by auto
next
  case (Some x)
  then obtain j where j: "known = Some (Found j)" "intent_at s d = Some j" using assms(1) by auto
  then have "dv_intentId d \<noteq> None" by (cases "dv_intentId d") (auto simp: intent_at_def)
  with j show thesis
    using that [of "Some (Found j)"] by (auto simp: lookupIntent_def found_intent_def stamped_def)
qed

lemma reach_recorded:
  assumes gate: "delivery_gate d a (intent_at s d) (settings_at s) (prior_at s a d) (account_discount s a) = Credit fees"
    and ttl: "0 \<le> dv_ttlSeconds d" and known: "known = None \<or> (\<exists>j. known = Some (Found j) \<and> intent_at s d = Some j)"
  obtains t auth where "run_io (process_recorded hash d (Some a) known) [] s = run_io (credit_path hash d a fees auth) [] t" "prepared d s t"
proof -
  obtain ks where ks: "run_io (recordOutcome d Received None None None) [] s = ((), s\<lparr>redis_keys := ks\<rparr>)"
    "other_keys s (s\<lparr>redis_keys := ks\<rparr>)" "stamped Received (intent_at s d) (intent_at (s\<lparr>redis_keys := ks\<rparr>) d)"
    by (rule run_outcome [OF ttl])
  define s1 where "s1 = s\<lparr>redis_keys := ks\<rparr>"
  obtain l where l: "run_io (lookupIntent d known) [] s1 = (l, s1)" "stamped Received (intent_at s d) (found_intent l)"
    using run_known [OF known] ks(3) unfolding s1_def by blast
  have same: "settings_at s1 = settings_at s" "prior_at s1 a d = prior_at s a d" "account_discount s1 a = account_discount s a"
    "status_at s1 d = status_at s d"
    by (auto simp: s1_def settings_at_def prior_at_def topup_rows_def account_discount_def discount_at_def discounts_at_def status_at_def
        find_row_def split: option.splits)
  have "delivery_gate d a (found_intent l) (settings_at s1) (prior_at s1 a d) (account_discount s1 a) = Credit fees"
    using gate gate_stamped [OF l(2)] same by simp
  then obtain t where t: "run_io (process_account hash d a (found_intent l)) [] s1 = run_io (credit_path hash d a fees (found_intent l)) [] t"
    "prepared d s1 t" by (rule reach_account)
  have "prepared d s s1"
    using ks(2,3) same(4) unfolding s1_def [symmetric] by (simp add: prepared_def open_row_def settled_alike_def) (simp add: s1_def)
  with t ks(1) l(1) show thesis
    by (intro that [of "found_intent l" t]) (auto simp: process_recorded_def run_bind s1_def intro: prepared_trans)
qed

lemma reach_credit:
  assumes named: "named_user s d = Some u" "u \<noteq> ''''" "read_account (By_username u) s = Inr a"
    and gate: "delivery_gate d a (intent_at s d) (settings_at s) (prior_at s a d) (account_discount s a) = Credit fees"
    and row: "open_row s d" "0 \<le> dv_ttlSeconds d"
  obtains t auth where "run_io (handle_delivery hash d) [] s = run_io (credit_path hash d a fees auth) [] t" "prepared d s t"
proof -
  obtain known where known: "run_io (handle_delivery hash d) [] s = run_io (record_first hash d (Some a) None known) [] s"
    "known = None \<or> (\<exists>j. known = Some (Found j) \<and> intent_at s d = Some j)" by (rule run_attribute [OF named])
  obtain rows where rows: "run_io (writeFygaroTopupRequest (dv_transactionId d) (dv_amount d) (dv_currency d) (Some (ac_id a)) False) [] s =
      (Inr (), s\<lparr>erp_rows := rows\<rparr>)"
    "other_rows (request_id d) rows = other_rows (request_id d) (erp_rows s)" "open_row (s\<lparr>erp_rows := rows\<rparr>) d"
    by (rule run_audit [OF row(1)])
  define s1 where "s1 = s\<lparr>erp_rows := rows\<rparr>"
  have "topup_rows (ac_id a) since (Some (request_id d)) s1 = topup_rows (ac_id a) since (Some (request_id d)) s" for since
    using rows(2) by (intro topup_rows_other) (simp add: s1_def)
  then have same: "settings_at s1 = settings_at s" "prior_at s1 a d = prior_at s a d" "account_discount s1 a = account_discount s a"
    "intent_at s1 d = intent_at s d"
    by (auto simp: s1_def settings_at_def prior_at_def account_discount_def discount_at_def discounts_at_def intro!: intent_at_cong
        split: option.splits)
  with gate have "delivery_gate d a (intent_at s1 d) (settings_at s1) (prior_at s1 a d) (account_discount s1 a) = Credit fees" by simp
  moreover from known(2) same(4) have "known = None \<or> (\<exists>j. known = Some (Found j) \<and> intent_at s1 d = Some j)" by simp
  ultimately obtain t auth where t: "run_io (process_recorded hash d (Some a) known) [] s1 = run_io (credit_path hash d a fees auth) [] t"
    "prepared d s1 t" by (rule reach_recorded [OF _ row(2)])
  have "prepared d s s1"
    using same(4) rows(3) unfolding s1_def [symmetric] by (simp add: prepared_def settled_alike_def) (simp add: other_keys_same s1_def)
  with t known(1) rows(1) show thesis
    by (intro that [of auth t]) (auto simp: record_first_def run_bind keep_given_def s1_def intro: prepared_trans)
qed

lemma accepted_positive:
  "delivery_gate d a i settings prior discount = Credit fees \<Longrightarrow> 0 < netCents fees"
  using gate_iff [of "dv_creditEnabled d" "dv_currency d" settings] by (auto simp: delivery_gate_def split: if_splits)

text \<open>
  A payment that the gate accepts is credited: the reference of the payload, or the intent it names,
  names an account; the gate accepts the payment with the settings, the account's day and its discount as
  they are stored; the treasury can pay the net amount; and the payment is neither completed nor being
  credited.
\<close>

lemma run_handled:
  assumes named: "named_user s d = Some u" "u \<noteq> ''''" "read_account (By_username u) s = Inr a"
    and gate: "delivery_gate d a (intent_at s d) (settings_at s) (prior_at s a d) (account_discount s a) = Credit fees"
    and pay: "can_pay s a (netCents fees) (dv_transactionId d) fw rw amt" and row: "open_row s d" "0 \<le> dv_ttlSeconds d"
    and free: "\<not> mutexes s (getPaymentIdempotencyKeyLockResource (payment_key d))"
  obtains t where "run_io (handle_delivery hash d) [] s = (Response 200 Success_credited, t)" "credited s t d fw rw amt"
proof -
  obtain u auth where u: "run_io (handle_delivery hash d) [] s = run_io (credit_path hash d a fees auth) [] u" "prepared d s u"
    by (rule reach_credit [OF named gate row])
  then have "open_row u d" "\<not> mutexes u (getPaymentIdempotencyKeyLockResource (payment_key d))"
    using row(1) free by (simp_all add: prepared_def settled_alike_def)
  then obtain t where t: "run_io (credit_path hash d a fees auth) [] u = (Response 200 Success_credited, t)" "credited u t d fw rw amt"
    using run_credit_path [OF prepared_can_pay [OF u(2) pay] accepted_positive [OF gate] _ row(2)] by metis
  have "stamped Credited (intent_at s d) (intent_at t d)"
    using u(2) t(2) stamped_trans by (auto simp: prepared_def credited_def)
  moreover have "invoices u = invoices s" "payments u = payments s" using u(2) by (simp_all add: prepared_def settled_alike_def)
  ultimately have "credited s t d fw rw amt" using t(2) by (simp add: credited_def)
  with u(1) t(1) show thesis by (intro that) simp_all
qed

section \<open>A replayed credit\<close>

text \<open>
  The outcome of an earlier send is never recognised: it is read back from its text, and the credit
  compares it with the constants.
\<close>

lemma run_replay:
  assumes "treasury (plain s) = Some fw" "List.find (\<lambda>w. wa_currency w = wa_currency fw) (wallets_of (ac_id a) s) = Some rw"
    and "redis_get s (cacheKeyFor (send_key fw tx)) = Some (Stored_send fp st)" "0 < n"
  shows "run_io (creditFygaroTopup hash (ac_id a) n tx) [] s = (FygaroCreditError ''intraledger-send'', s)"
proof -
  have "\<exists>r. run_io (intraledgerPaymentSendWalletIdForUsdWallet hash (credit_args fw rw n tx)) [] s = (r, s)
      \<and> r \<in> {Inl InvalidIdempotencyKeyError, Inl IdempotencyKeyReuseError, Inr (Read_back st)}"
    using trim_key [of tx] assms(3)
    by (auto simp: intraledgerPaymentSendWalletIdForUsdWallet_def withPaymentIdempotency_def credit_args_def send_key_def
        guarded_send_def resolveCached_def of_option_def Let_def)
  then show ?thesis
    using assms(1,2,4) run_treasury [OF assms(1)]
    by (auto simp: creditFygaroTopup_def run_bind walletsFor_def isInsufficientTreasuryBalance_def)
qed

lemma run_release:
  "\<exists>t. run_io (releaseAuthorizedHold i) [] s = ((), t) \<and> settled_alike s t \<and> notices t = notices s \<and> erp_rows t = erp_rows s"
  by (auto simp: releaseAuthorizedHold_def releaseIntentReservation_def settled_alike_def ignoreI_def run_bind split: option.splits)

lemma run_credit_failed:
  assumes "0 \<le> dv_ttlSeconds d" "step_name \<noteq> INSUFFICIENT_TREASURY_FLOAT_STEP"
  obtains t where "run_io (credit_failed d a fees auth step_name) [] s = (Inr (Response 200 Recorded_uncredited), t)"
    "settled_alike s t" "status_at t d = status_at s d"
    "notices t = notices s @ [Alert Critical (''fygaro:credit-failed:'' @ dv_transactionId d), Ops_event (''failed:credit:'' @ step_name),
       Push (ac_id a) ''heldForReview'' (grossCents fees) (dv_currency d)]"
proof -
  define s1 where "s1 = s\<lparr>notices := notices s @ [Alert Critical (''fygaro:credit-failed:'' @ dv_transactionId d), Ops_event (''failed:credit:'' @ step_name)]\<rparr>"
  obtain s2 where s2: "run_io (releaseAuthorizedHold auth) [] s1 = ((), s2)" "settled_alike s1 s2" "notices s2 = notices s1" "erp_rows s2 = erp_rows s1"
    using run_release by blast
  obtain ks where ks: "run_io (recordOutcome d Credit_failed (Some ''credit-failed'') None None) [] s2 = ((), s2\<lparr>redis_keys := ks\<rparr>)"
    by (rule run_outcome [OF assms(1)])
  define t where "t = s2\<lparr>redis_keys := ks, notices := notices s2 @ [Push (ac_id a) ''heldForReview'' (grossCents fees) (dv_currency d)]\<rparr>"
  have "run_io (credit_failed d a fees auth step_name) [] s = (Inr (Response 200 Recorded_uncredited), t)"
    using s2(1) ks assms(2) by (simp add: credit_failed_def ignoreI_def run_bind s1_def t_def)
  moreover have "settled_alike s t" "status_at t d = status_at s d"
    using s2(2,4) by (simp_all add: settled_alike_def status_at_def find_row_def s1_def t_def)
  ultimately show thesis using s2(3) by (intro that [of t]) (simp_all add: s1_def t_def)
qed

lemma run_replay_path:
  assumes sent: "treasury (plain s) = Some fw" "List.find (\<lambda>w. wa_currency w = wa_currency fw) (wallets_of (ac_id a) s) = Some rw"
      "redis_get s (cacheKeyFor (send_key fw (dv_transactionId d))) = Some (Stored_send fp st)" and net: "0 < netCents fees"
    and row: "open_row s d" and ttl: "0 \<le> dv_ttlSeconds d" and free: "\<not> mutexes s (getPaymentIdempotencyKeyLockResource (payment_key d))"
  obtains t where "run_io (credit_path hash d a fees auth) [] s = (Response 200 Recorded_uncredited, t)"
    "payments t = payments s" "invoices t = invoices s" "status_at t d = status_at s d"
    "notices t = notices s @ [Alert Critical (''fygaro:credit-failed:'' @ dv_transactionId d), Ops_event ''failed:credit:intraledger-send'',
       Push (ac_id a) ''heldForReview'' (grossCents fees) (dv_currency d)]"
proof -
  define s1 where "s1 = s\<lparr>mutexes := (mutexes s)(getPaymentIdempotencyKeyLockResource (payment_key d) := True)\<rparr>"
  have same: "status_at s1 d = status_at s d" "plain s1 = plain s" "wallets_of (ac_id a) s1 = wallets_of (ac_id a) s"
    by (simp_all add: s1_def status_at_def find_row_def plain_def wallets_of_def)
  have "redis_get s1 k = redis_get s k" for k by (intro redis_get_cong) (simp_all add: s1_def)
  with sent same have failed: "run_io (creditFygaroTopup hash (ac_id a) (netCents fees) (dv_transactionId d)) [] s1 = (FygaroCreditError ''intraledger-send'', s1)"
    by (intro run_replay [OF _ _ _ net]) auto
  have "''intraledger-send'' \<noteq> INSUFFICIENT_TREASURY_FLOAT_STEP" by (simp add: INSUFFICIENT_TREASURY_FLOAT_STEP_def)
  from run_credit_failed [OF ttl this, of a fees auth s1] obtain u where u:
    "run_io (credit_failed d a fees auth ''intraledger-send'') [] s1 = (Inr (Response 200 Recorded_uncredited), u)"
    "settled_alike s1 u" "status_at u d = status_at s1 d"
    "notices u = notices s1 @ [Alert Critical (''fygaro:credit-failed:'' @ dv_transactionId d), Ops_event (''failed:credit:'' @ ''intraledger-send''),
       Push (ac_id a) ''heldForReview'' (grossCents fees) (dv_currency d)]" by blast
  have "run_io (readFygaroTopupCompletion (dv_transactionId d)) [] s1 = (\<lparr>fc_completed = False, fc_netAmountCents = None\<rparr>, s1)"
    using row same by (intro run_completion) (simp add: open_row_def)
  then have "run_io (credit_block hash d a fees auth) [] s1 = (Inr (Response 200 Recorded_uncredited), u)"
    using failed u(1) by (simp add: credit_block_def run_bind)
  then have "run_io (credit_path hash d a fees auth) [] s = (Response 200 Recorded_uncredited,
      u\<lparr>mutexes := (mutexes u)(getPaymentIdempotencyKeyLockResource (payment_key d) := False)\<rparr>)"
    using free by (simp add: credit_path_def redlock_def run_bind leave_def s1_def)
  then show thesis
    using u same by (elim that) (simp_all add: settled_alike_def status_at_def find_row_def, simp_all add: s1_def)
qed

text \<open>
  C13: A credit that is replayed is reported as failed. The outcome of a payment's send is stored, whatever it
  was, and the payment is not completed: so it is when the send was made and the audit row could not be
  promoted. Then a later delivery of the payment that the gate accepts and whose calls all work does not
  pay again, but it takes the stored outcome for a failure, since an outcome that was read back from its
  text is none of the constants it is compared with. So it asks for a manual credit of a payment that may have
  been credited, tells the customer that it is held, and leaves the audit row unpromoted.
\<close>

theorem replayed_credit_reported_failed:
  fixes hash :: "string \<Rightarrow> string"
  assumes "delivery_of config payload = Some d"
    and "named_user s d = Some u" "u \<noteq> ''''" "read_account (By_username u) s = Inr a"
    and gate: "delivery_gate d a (intent_at s d) (settings_at s) (prior_at s a d) (account_discount s a) = Credit fees"
    and sent: "treasury (plain s) = Some fw" "List.find (\<lambda>w. wa_currency w = wa_currency fw) (wallets_of (ac_id a) s) = Some rw"
      "redis_get s (cacheKeyFor (send_key fw (dv_transactionId d))) = Some (Stored_send fp st)"
    and row: "open_row s d" "0 \<le> dv_ttlSeconds d" and free: "\<not> mutexes s (getPaymentIdempotencyKeyLockResource (payment_key d))"
  shows "\<exists>t. run_io (paymentHandler hash config payload) [] s = (Response 200 Recorded_uncredited, t)
    \<and> payments t = payments s \<and> invoices t = invoices s \<and> status_at t d \<noteq> Some Completed
    \<and> notices t = notices s @ [Alert Critical (''fygaro:credit-failed:'' @ dv_transactionId d), Ops_event ''failed:credit:intraledger-send'',
         Push (ac_id a) ''heldForReview'' (grossCents fees) (dv_currency d)]"
proof -
  obtain v auth where v: "run_io (handle_delivery hash d) [] s = run_io (credit_path hash d a fees auth) [] v" "prepared d s v"
    by (rule reach_credit [OF assms(2-4) gate row])
  then have same: "clock v = clock s" "open_row v d" "\<not> mutexes v (getPaymentIdempotencyKeyLockResource (payment_key d))"
    "plain v = plain s" "wallets_of (ac_id a) v = wallets_of (ac_id a) s" "payments v = payments s" "invoices v = invoices s" "notices v = notices s"
    using row(1) free by (simp_all add: prepared_def settled_alike_def plain_def wallets_of_def)
  have "redis_get v (cacheKeyFor k) = redis_get s (cacheKeyFor k)" for k
    using same(1) prepared_send_key [OF v(2)] by (rule redis_get_cong)
  then have stored: "redis_get v (cacheKeyFor (send_key fw (dv_transactionId d))) = Some (Stored_send fp st)" using sent(3) by simp
  have paths: "treasury (plain v) = Some fw" "List.find (\<lambda>w. wa_currency w = wa_currency fw) (wallets_of (ac_id a) v) = Some rw"
    using sent same by simp_all
  obtain t where "run_io (credit_path hash d a fees auth) [] v = (Response 200 Recorded_uncredited, t)"
    "payments t = payments v" "invoices t = invoices v" "status_at t d = status_at v d"
    "notices t = notices v @ [Alert Critical (''fygaro:credit-failed:'' @ dv_transactionId d), Ops_event ''failed:credit:intraledger-send'',
       Push (ac_id a) ''heldForReview'' (grossCents fees) (dv_currency d)]"
    by (rule run_replay_path [OF paths stored accepted_positive [OF gate] same(2) row(2) same(3)])
  with same v(1) assms(1) show ?thesis by (simp add: paymentHandler_def open_row_def)
qed

text \<open>The payment of \<^const>\<open>ex_payload\<close> after a delivery that could not promote its audit row.\<close>

definition ex_promotion_lost :: "event list" where
  "ex_promotion_lost = replicate 34 (Step 0 Works) @ [Step 0 (Lost (ServiceError ''timeout''))] @ replicate 5 (Step 0 Works)"

definition ex_unpromoted :: services where
  "ex_unpromoted = snd (run_events ex_promotion_lost ([paymentHandler ex_sha256 ex_hook ex_payload], ex_shop))"

definition ex_delivery :: delivery where
  "ex_delivery =
     \<lparr>dv_transactionId = ''T1'', dv_amount = ''60.00'', dv_grossCents = 6000, dv_currency = ''USD'',
      dv_reference = Some \<lparr>ref_username = Some ''Alice'', ref_intentId = None\<rparr>, dv_email = Some ''bob@example.com'',
      dv_creditEnabled = True, dv_ttlSeconds = 900\<rparr>"

definition ex_alice :: fy_account where "ex_alice = ex_account ''acc1'' (Some ''alice'') None"

definition ex_fees :: FygaroFees where
  "ex_fees = \<lparr>grossCents = 6000, processorFeeCents = 259, flashFeeCents = 120, netCents = 5621\<rparr>"

theorem replayed_credit_reported_failed_witness:
  "payments ex_unpromoted = [(ex_wallet_a, ''0'')]
   \<and> (\<exists>t. run_io (paymentHandler ex_sha256 ex_hook ex_payload) [] ex_unpromoted = (Response 200 Recorded_uncredited, t)
        \<and> payments t = [(ex_wallet_a, ''0'')] \<and> Alert Critical ''fygaro:credit-failed:T1'' \<in> set (notices t)
        \<and> Push ''acc1'' ''heldForReview'' 6000 ''USD'' \<in> set (notices t))"
proof -
  let ?fw = "ex_usd_wallet ex_wallet_a ''bank''" and ?rw = "ex_usd_wallet ex_wallet_b ''acc1''"
  have "case run_events ex_promotion_lost ([paymentHandler ex_sha256 ex_hook ex_payload], ex_shop) of (ms, s) \<Rightarrow>
      payments s = [(ex_wallet_a, ''0'')] \<and> named_user s ex_delivery = Some ''Alice'' \<and> read_account (By_username ''Alice'') s = Inr ex_alice
      \<and> delivery_gate ex_delivery ex_alice (intent_at s ex_delivery) (settings_at s) (prior_at s ex_alice ex_delivery)
           (account_discount s ex_alice) = Credit ex_fees
      \<and> treasury (plain s) = Some ?fw \<and> List.find (\<lambda>w. wa_currency w = wa_currency ?fw) (wallets_of (ac_id ex_alice) s) = Some ?rw
      \<and> redis_get s (cacheKeyFor (send_key ?fw (dv_transactionId ex_delivery)))
           = Some (Stored_send (''intraledger|'' @ ex_wallet_b @ ''|5621'') (status_value Send_success))
      \<and> open_row s ex_delivery \<and> \<not> mutexes s (getPaymentIdempotencyKeyLockResource (payment_key ex_delivery))" by code_simp
  then have hyps: "payments ex_unpromoted = [(ex_wallet_a, ''0'')]" "named_user ex_unpromoted ex_delivery = Some ''Alice''"
    "read_account (By_username ''Alice'') ex_unpromoted = Inr ex_alice"
    "delivery_gate ex_delivery ex_alice (intent_at ex_unpromoted ex_delivery) (settings_at ex_unpromoted)
       (prior_at ex_unpromoted ex_alice ex_delivery) (account_discount ex_unpromoted ex_alice) = Credit ex_fees"
    "treasury (plain ex_unpromoted) = Some ?fw"
    "List.find (\<lambda>w. wa_currency w = wa_currency ?fw) (wallets_of (ac_id ex_alice) ex_unpromoted) = Some ?rw"
    "redis_get ex_unpromoted (cacheKeyFor (send_key ?fw (dv_transactionId ex_delivery)))
       = Some (Stored_send (''intraledger|'' @ ex_wallet_b @ ''|5621'') (status_value Send_success))"
    "open_row ex_unpromoted ex_delivery" "\<not> mutexes ex_unpromoted (getPaymentIdempotencyKeyLockResource (payment_key ex_delivery))"
    unfolding ex_unpromoted_def case_prod_unfold by blast+
  have named: "delivery_of ex_hook ex_payload = Some ex_delivery" by code_simp
  have "0 \<le> dv_ttlSeconds ex_delivery" "dv_transactionId ex_delivery = ''T1''" "dv_currency ex_delivery = ''USD''" "ac_id ex_alice = ''acc1''"
    "grossCents ex_fees = 6000"
    by (simp_all add: ex_delivery_def ex_alice_def ex_account_def ex_fees_def)
  with hyps(1) show ?thesis
    using replayed_credit_reported_failed [OF named hyps(2) _ hyps(3-8) _ hyps(9), of ex_sha256] by auto
qed

end
