(* ===== verification/FygaroServer.thy ===== *)
theory FygaroServer
  imports FygaroWebhook
begin

text \<open>
  The front of the payment webhook: the guard that keeps a disabled deployment from acting
  (\<open>src/services/fygaro/webhook-server/middleware/enabled-guard.ts\<close>), the check of the signature on a
  request (\<open>src/services/fygaro/webhook-server/middleware/verify-signature.ts\<close>) and the route that puts
  them before the handler (\<open>src/services/fygaro/webhook-server/index.ts\<close>). HMAC-SHA-256, the JSON parser and
  the rate limiter are parameters. A request without a valid signature changes nothing; a request that
  is signed as the provider documents reaches the handler.
\<close>

section \<open>Requests\<close>

record webhook_request =
  rq_path :: string
  rq_signature :: "string option"
  rq_keyId :: "string option"
  rq_rawBody :: "string option"

section \<open>enabled-guard.ts\<close>

definition fygaroEnabledGuard :: "FygaroConfig option \<Rightarrow> webhook_request \<Rightarrow> fy_response io \<Rightarrow> fy_response io" where
  "fygaroEnabledGuard config req next =
     (if rq_path req = ''/health'' then next
      else if \<not> (case config of Some c \<Rightarrow> fc_enabled c | None \<Rightarrow> False)
      then Done (Response 503 (Body_error ''Fygaro is disabled''))
      else next)"

section \<open>verify-signature.ts\<close>

definition alertSignatureFailure :: "string \<Rightarrow> 'a io \<Rightarrow> 'a io" where
  "alertSignatureFailure dedupKey m = ignoreI (Notify (Alert Warning dedupKey)) m"

text \<open>The entries of the header; of several timestamps the last one counts.\<close>

definition signature_entry :: "string \<Rightarrow> string \<times> string" where
  "signature_entry part = (case js_split CHR ''='' (js_trim part) of [] \<Rightarrow> ([], []) | key # rest \<Rightarrow> (key, js_join CHR ''='' rest))"

definition parseSignatureHeader :: "string \<Rightarrow> string option \<times> string list" where
  "parseSignatureHeader header =
     foldl (\<lambda>(timestamp, hashes) part.
         let (key, value) = signature_entry part
         in (if key = ''t'' \<and> value \<noteq> [] then Some value else timestamp,
             if key = ''v1'' \<and> value \<noteq> [] then hashes @ [value] else hashes))
       (None, []) (js_split CHR '','' header)"

text \<open>
  \<open>Buffer.from(text, "hex")\<close>, which stops at the first pair that is not of two hexadecimal digits, and
  \<open>digest("hex")\<close>.
\<close>

fun hex_bytes :: "string \<Rightarrow> string" where
  "hex_bytes (a # b # s) =
     (case (radix_digit a, radix_digit b) of
        (Some x, Some y) \<Rightarrow> char_of (16 * x + y) # hex_bytes s
      | _ \<Rightarrow> [])"
| "hex_bytes _ = []"

definition hex_digest :: "string \<Rightarrow> string" where
  "hex_digest bytes = concat (map (\<lambda>c. let n = of_char c in [hex_char (n div 16), hex_char (n mod 16)]) bytes)"

definition timingSafeHexEqual :: "string \<Rightarrow> string \<Rightarrow> bool" where
  "timingSafeHexEqual expectedHex providedHex =
     (let expected = hex_bytes expectedHex; provided = hex_bytes providedHex
      in if length expected = 0 \<or> length expected \<noteq> length provided then False
         else expected = provided)"

text \<open>
  The secret of a key id is a property of a plain object: a name that \<open>Object.prototype\<close> has is found
  there, and its value is no text.
\<close>

datatype candidate_secret = Own_secret string | Inherited_property

definition OBJECT_PROTOTYPE :: "string list" where
  "OBJECT_PROTOTYPE =
     [''constructor'', ''__defineGetter__'', ''__defineSetter__'', ''hasOwnProperty'', ''__lookupGetter__'', ''__lookupSetter__'',
      ''isPrototypeOf'', ''propertyIsEnumerable'', ''toString'', ''valueOf'', ''__proto__'', ''toLocaleString'']"

definition candidateSecrets :: "(string \<times> string) list \<Rightarrow> string option \<Rightarrow> candidate_secret list" where
  "candidateSecrets secretsById keyId =
     (let every = map (\<lambda>(_, secret). Own_secret secret) secretsById
      in case keyId of
           None \<Rightarrow> every
         | Some k \<Rightarrow>
             if k = '''' then every
             else case map_of secretsById k of
               Some secret \<Rightarrow> if secret = '''' then every else [Own_secret secret]
             | None \<Rightarrow> if k \<in> set OBJECT_PROTOTYPE then [Inherited_property] else every)"

text \<open>The first candidate that signs the payload, or the exception of a key that is no text.\<close>

fun some_candidate :: "(string \<Rightarrow> string \<Rightarrow> string) \<Rightarrow> string \<Rightarrow> string list \<Rightarrow> candidate_secret list \<Rightarrow> bool result" where
  "some_candidate hmac signedPayload hashes [] = Inr False"
| "some_candidate hmac signedPayload hashes (Inherited_property # cs) = Inl (Thrown TypeError)"
| "some_candidate hmac signedPayload hashes (Own_secret secret # cs) =
     (if list_ex (timingSafeHexEqual (hex_digest (hmac secret signedPayload))) hashes then Inr True
      else some_candidate hmac signedPayload hashes cs)"

definition timestamp_ms :: "string \<Rightarrow> js_number \<Rightarrow> js_number" where
  "timestamp_ms timestamp n = (if length timestamp > 11 then n else num_mul n (Fin 1000))"

definition outside_skew :: "int \<Rightarrow> js_number \<Rightarrow> int \<Rightarrow> bool" where
  "outside_skew now timestampMs skew =
     (case timestampMs of
        Fin q \<Rightarrow> of_int skew < \<bar>fl (of_int now - q)\<bar>
      | NaN \<Rightarrow> False
      | _ \<Rightarrow> True)"

definition skewMs :: "FygaroConfig \<Rightarrow> int" where
  "skewMs config = (case fc_timestampSkewMs config of Some skew \<Rightarrow> skew | None \<Rightarrow> 300000)"

abbreviation unauthorized :: "string \<Rightarrow> fy_response io" where
  "unauthorized why \<equiv> Done (Response 401 (Body_error why))"

definition check_hashes ::
  "(string \<Rightarrow> string \<Rightarrow> string) \<Rightarrow> candidate_secret list \<Rightarrow> string \<Rightarrow> string list \<Rightarrow> string option \<Rightarrow> fy_response io \<Rightarrow> fy_response io" where
  "check_hashes hmac candidates timestamp hashes rawBody next =
     (case rawBody of
        None \<Rightarrow> Done (Response 400 (Body_error ''Missing request body''))
      | Some body \<Rightarrow>
          if body = '''' then Done (Response 400 (Body_error ''Missing request body''))
          else case some_candidate hmac (timestamp @ CHR ''.'' # body) hashes candidates of
            Inl e \<Rightarrow> Done (Response 500 (Body_error ''Signature verification failed''))
          | Inr isValid \<Rightarrow>
              if isValid then next
              else alertSignatureFailure ''fygaro:signature-failure'' (unauthorized ''Invalid signature''))"

definition verifyFygaroSignature ::
  "(string \<Rightarrow> string \<Rightarrow> string) \<Rightarrow> FygaroConfig \<Rightarrow> webhook_request \<Rightarrow> fy_response io \<Rightarrow> fy_response io" where
  "verifyFygaroSignature hmac config req next =
     (case rq_signature req of
        None \<Rightarrow> unauthorized ''Missing signature header''
      | Some header \<Rightarrow>
          if header = '''' then unauthorized ''Missing signature header''
          else
            let candidates = candidateSecrets (fc_webhook_secrets config) (rq_keyId req)
            in if candidates = []
               then alertSignatureFailure ''fygaro:signature-failure'' (unauthorized ''Webhook secret not configured'')
               else
                 (case parseSignatureHeader header of
                    (None, hashes) \<Rightarrow> unauthorized ''Invalid signature header''
                  | (Some timestamp, hashes) \<Rightarrow>
                      if hashes = [] then unauthorized ''Invalid signature header''
                      else case Number_string timestamp of
                        Fin q \<Rightarrow>
                          Await_now (\<lambda>now.
                          if outside_skew now (timestamp_ms timestamp (Fin q)) (skewMs config)
                          then alertSignatureFailure ''fygaro:clock-skew'' (unauthorized ''Signature timestamp outside tolerance'')
                          else check_hashes hmac candidates timestamp hashes (rq_rawBody req) next)
                      | _ \<Rightarrow> unauthorized ''Invalid signature timestamp''))"

section \<open>index.ts\<close>

text \<open>
  A POST to the payment route. The JSON parser has read the body, whose bytes are kept as the raw body;
  the rate limiter lets the request through or answers it.
\<close>

definition post_payment ::
  "(string \<Rightarrow> string) \<Rightarrow> (string \<Rightarrow> string \<Rightarrow> string) \<Rightarrow> (string option \<Rightarrow> FygaroPaymentPayload) \<Rightarrow> FygaroConfig \<Rightarrow> fy_response option
   \<Rightarrow> webhook_request \<Rightarrow> fy_response io" where
  "post_payment sha256 hmac parse config limiter req =
     fygaroEnabledGuard (Some config) req
       (case limiter of
          Some answer \<Rightarrow> Done answer
        | None \<Rightarrow> verifyFygaroSignature hmac config req (paymentHandler sha256 config (parse (rq_rawBody req))))"


section \<open>Lemmas\<close>

lemma radix_hex: "n < 16 \<Longrightarrow> radix_digit (hex_char n) = Some n"
proof -
  have "\<forall>n \<in> set [0..<16]. radix_digit (hex_char n) = Some n" by code_simp
  then show "n < 16 \<Longrightarrow> radix_digit (hex_char n) = Some n" by simp
qed

lemma hex_bytes_digest [simp]: "hex_bytes (hex_digest bytes) = bytes"
proof (induction bytes)
  case (Cons c bytes)
  have "(of_char c :: nat) < 256" using of_char_of by (metis char_of_mod_256 of_char_mod_256 mod_less_divisor zero_less_numeral)
  then have "(of_char c :: nat) div 16 < 16" by (simp add: less_mult_imp_div_less)
  with Cons show ?case by (simp add: hex_digest_def Let_def radix_hex)
qed (simp add: hex_digest_def)

lemma hex_equal_iff: "timingSafeHexEqual (hex_digest mac) h \<longleftrightarrow> mac \<noteq> [] \<and> hex_bytes h = mac"
  by (auto simp: timingSafeHexEqual_def Let_def)

lemma js_join_split [simp]: "js_join sep (js_split sep s) = s"
proof (induction s)
  case (Cons c s)
  obtain p ps where "js_split sep s = p # ps" by (cases "js_split sep s") (auto simp: js_split_not_Nil)
  with Cons show ?case by (cases ps) auto
qed simp

text \<open>The entries of a header, and what the parser takes from them.\<close>

definition header_entries :: "string \<Rightarrow> string list" where
  "header_entries header = map js_trim (js_split CHR '','' header)"

lemma signature_entry_text:
  assumes "signature_entry part = (key, value)" "value \<noteq> []"
  shows "js_trim part = key @ CHR ''='' # value"
proof -
  have "js_join CHR ''='' (js_split CHR ''='' (js_trim part)) = js_trim part" by simp
  moreover from assms obtain p ps where "js_split CHR ''='' (js_trim part) = key # p # ps" "value = js_join CHR ''='' (p # ps)"
    by (auto simp: signature_entry_def neq_Nil_conv split: list.splits elim: js_join.elims)
  ultimately show ?thesis by simp
qed

definition entry_fold :: "string option \<times> string list \<Rightarrow> string \<Rightarrow> string option \<times> string list" where
  "entry_fold = (\<lambda>(timestamp, hashes) part.
     let (key, value) = signature_entry part
     in (if key = ''t'' \<and> value \<noteq> [] then Some value else timestamp,
         if key = ''v1'' \<and> value \<noteq> [] then hashes @ [value] else hashes))"

lemma parse_fold: "parseSignatureHeader header = foldl entry_fold (None, []) (js_split CHR '','' header)"
  unfolding parseSignatureHeader_def entry_fold_def ..

lemma fold_entries:
  assumes "foldl entry_fold (ts, hs) parts = (ts', hs')"
  shows "(\<forall>t. ts' = Some t \<longrightarrow> ts = Some t \<or> ''t='' @ t \<in> js_trim ` set parts)
    \<and> (\<forall>h \<in> set hs'. h \<in> set hs \<or> ''v1='' @ h \<in> js_trim ` set parts)"
  using assms
proof (induction parts arbitrary: ts hs)
  case (Cons p parts)
  obtain key v where e: "signature_entry p = (key, v)" by (cases "signature_entry p")
  obtain ts1 hs1 where f: "entry_fold (ts, hs) p = (ts1, hs1)" by (cases "entry_fold (ts, hs) p")
  have first: "\<forall>t. ts1 = Some t \<longrightarrow> ts = Some t \<or> ''t='' @ t = js_trim p"
    "\<forall>h \<in> set hs1. h \<in> set hs \<or> ''v1='' @ h = js_trim p"
    using f signature_entry_text [OF e] by (auto simp: entry_fold_def e split: if_splits)
  from Cons.prems f have "foldl entry_fold (ts1, hs1) parts = (ts', hs')" by simp
  note rest = Cons.IH [OF this]
  show ?case using rest first unfolding list.set image_insert by (blast intro: sym)
qed auto

lemma parsed_entries:
  assumes "parseSignatureHeader header = (Some t, hs)"
  shows "''t='' @ t \<in> set (header_entries header)" "h \<in> set hs \<Longrightarrow> ''v1='' @ h \<in> set (header_entries header)"
  using fold_entries [of None "[]" "js_split CHR '','' header" "Some t" hs] assms
  by (auto simp: parse_fold header_entries_def)

text \<open>A header as the provider documents it reads back.\<close>

definition entry_value :: "string \<Rightarrow> bool" where
  "entry_value v \<longleftrightarrow> v \<noteq> [] \<and> CHR '','' \<notin> set v \<and> \<not> js_space (last v)"

definition signature_header :: "string \<Rightarrow> string list \<Rightarrow> string" where
  "signature_header timestamp hashes = js_join CHR '','' ((''t='' @ timestamp) # map (\<lambda>h. ''v1='' @ h) hashes)"

lemma js_split_join: "ps \<noteq> [] \<Longrightarrow> list_all (\<lambda>p. sep \<notin> set p) ps \<Longrightarrow> js_split sep (js_join sep ps) = ps"
  by (induction sep ps rule: js_join.induct) (auto simp: js_split_none js_split_append)

lemma entry_of_value:
  assumes "entry_value v"
  shows "signature_entry (''t='' @ v) = (''t'', v)" "signature_entry (''v1='' @ v) = (''v1'', v)"
proof -
  have "js_trim (''t='' @ v) = ''t='' @ v" "js_trim (''v1='' @ v) = ''v1='' @ v"
    using assms by (auto intro!: js_trim_ends simp: entry_value_def js_space_def)
  then show "signature_entry (''t='' @ v) = (''t'', v)" "signature_entry (''v1='' @ v) = (''v1'', v)"
    using js_split_append [of "CHR ''=''" "''t''" v] js_split_append [of "CHR ''=''" "''v1''" v]
    by (auto simp: signature_entry_def)
qed

lemma fold_hashes:
  "list_all entry_value hs \<Longrightarrow> foldl entry_fold (ts, hs0) (map (\<lambda>h. ''v1='' @ h) hs) = (ts, hs0 @ hs)"
proof (induction hs arbitrary: hs0)
  case (Cons h hs)
  moreover have "h \<noteq> []" using Cons.prems by (simp add: entry_value_def)
  ultimately show ?case
    using entry_of_value(2) [of h] by (simp add: entry_fold_def)
qed simp

lemma header_reads_back:
  assumes "entry_value timestamp" "list_all entry_value hashes"
  shows "parseSignatureHeader (signature_header timestamp hashes) = (Some timestamp, hashes)"
proof -
  have "js_split CHR '','' (signature_header timestamp hashes) = (''t='' @ timestamp) # map (\<lambda>h. ''v1='' @ h) hashes"
    using assms by (auto simp: signature_header_def entry_value_def list_all_iff intro!: js_split_join)
  moreover have "entry_fold (None, []) (''t='' @ timestamp) = (Some timestamp, [])"
    using entry_of_value(1) [OF assms(1)] assms(1) by (simp add: entry_fold_def entry_value_def)
  ultimately show ?thesis using fold_hashes [OF assms(2), of "Some timestamp" "[]"] by (simp add: parse_fold)
qed

lemma some_candidate_signs:
  "some_candidate hmac msg hashes cs = Inr True \<Longrightarrow>
     \<exists>secret h. Own_secret secret \<in> set cs \<and> h \<in> set hashes \<and> hmac secret msg \<noteq> [] \<and> hex_bytes h = hmac secret msg"
  by (induction hmac msg hashes cs rule: some_candidate.induct)
     (auto simp: list_ex_iff hex_equal_iff split: if_splits)

lemma candidates_configured: "Own_secret secret \<in> set (candidateSecrets secrets keyId) \<Longrightarrow> secret \<in> snd ` set secrets"
  by (force simp: candidateSecrets_def Let_def dest: map_of_SomeD split: option.splits if_splits)

lemma own_candidates: "Own_secret secret \<in> set (candidateSecrets secrets keyId) \<Longrightarrow> Inherited_property \<notin> set (candidateSecrets secrets keyId)"
  by (auto simp: candidateSecrets_def Let_def split: option.splits if_splits)

lemma some_candidate_found:
  "Own_secret secret \<in> set cs \<Longrightarrow> Inherited_property \<notin> set cs \<Longrightarrow> hmac secret msg \<noteq> [] \<Longrightarrow>
     hex_digest (hmac secret msg) \<in> set hashes \<Longrightarrow> some_candidate hmac msg hashes cs = Inr True"
  by (induction hmac msg hashes cs rule: some_candidate.induct)
     (auto simp: list_ex_iff hex_equal_iff)

section \<open>Only signed requests are handled\<close>

text \<open>
  An entry of the header is the code of the body and of a fresh timestamp in the header, under one of the
  configured secrets.
\<close>

definition authentic :: "(string \<Rightarrow> string \<Rightarrow> string) \<Rightarrow> FygaroConfig \<Rightarrow> int \<Rightarrow> webhook_request \<Rightarrow> bool" where
  "authentic hmac config now req \<longleftrightarrow>
     (\<exists>header body t h secret q.
        rq_signature req = Some header \<and> rq_rawBody req = Some body \<and> body \<noteq> ''''
        \<and> ''t='' @ t \<in> set (header_entries header) \<and> ''v1='' @ h \<in> set (header_entries header)
        \<and> secret \<in> snd ` set (fc_webhook_secrets config)
        \<and> hex_bytes h = hmac secret (t @ CHR ''.'' # body)
        \<and> Number_string t = Fin q \<and> \<not> outside_skew now (timestamp_ms t (Fin q)) (skewMs config))"

definition refused :: "fy_response \<times> services \<Rightarrow> services \<Rightarrow> bool" where
  "refused outcome s \<longleftrightarrow>
     (\<exists>status why alerts. outcome = (Response status (Body_error why), s\<lparr>notices := notices s @ alerts\<rparr>)
        \<and> status \<in> {400, 401, 500, 503} \<and> list_all (\<lambda>n. \<exists>key. n = Alert Warning key) alerts)"

lemma refused_done: "status \<in> {400, 401, 500, 503} \<Longrightarrow> refused (Response status (Body_error why), s) s"
  by (auto simp: refused_def intro!: exI [of _ "[]"])

lemma refused_alert: "refused (run_io (alertSignatureFailure key (unauthorized why)) fs s) s"
  by (auto simp: refused_def alertSignatureFailure_def ignoreI_def unit_reply_def with_fault_def
      intro!: exI [of _ "[Alert Warning key]"] split: call_fault.splits)

lemma check_hashes_refuses:
  assumes "\<not> authentic hmac config now req" "rq_signature req = Some header" "parseSignatureHeader header = (Some t, hs)"
    and "Number_string t = Fin q" "\<not> outside_skew now (timestamp_ms t (Fin q)) (skewMs config)"
  defines "cs \<equiv> candidateSecrets (fc_webhook_secrets config) (rq_keyId req)"
  shows "refused (run_io (check_hashes hmac cs t hs (rq_rawBody req) next) fs s) s"
proof -
  have "some_candidate hmac (t @ CHR ''.'' # body) hs cs \<noteq> Inr True" if body: "rq_rawBody req = Some body" "body \<noteq> ''''" for body
  proof
    assume "some_candidate hmac (t @ CHR ''.'' # body) hs cs = Inr True"
    from some_candidate_signs [OF this] obtain secret h where
      "Own_secret secret \<in> set cs" "h \<in> set hs" "hex_bytes h = hmac secret (t @ CHR ''.'' # body)" by blast
    then have "authentic hmac config now req"
      unfolding authentic_def using assms(2,4,5) body parsed_entries [OF assms(3)] candidates_configured [of secret] cs_def
      by (intro exI [of _ header] exI [of _ body] exI [of _ t] exI [of _ h] exI [of _ secret] exI [of _ q]) simp
    with assms(1) show False ..
  qed
  then show ?thesis
    by (auto simp: check_hashes_def refused_alert refused_done split: option.splits sum.splits)
qed

text \<open>
  C10: Only signed requests are handled. Unless one of the \<open>v1\<close> entries of the signature header is the code of
  the request's own body and of a timestamp in the header that is within the tolerance of the clock, under
  one of the configured secrets, the request is answered with an error and nothing changes except that
  a warning may be raised, whatever calls fail: no row is written, no intent touched and nothing paid.
  The same holds for every request while the feature is off.
\<close>

theorem only_signed_requests_handled:
  assumes "\<not> authentic hmac config (clock s) req \<or> \<not> fc_enabled config" "rq_path req = ''/payment''"
  shows "refused (run_io (post_payment sha256 hmac parse config None req) fs s) s"
proof (cases "fc_enabled config")
  case False
  then have "post_payment sha256 hmac parse config None req = Done (Response 503 (Body_error ''Fygaro is disabled''))"
    using assms(2) by (simp add: post_payment_def fygaroEnabledGuard_def)
  then show ?thesis by (simp add: refused_done)
next
  case enabled: True
  let ?cs = "candidateSecrets (fc_webhook_secrets config) (rq_keyId req)"
  let ?next = "paymentHandler sha256 config (parse (rq_rawBody req))"
  from enabled have post: "post_payment sha256 hmac parse config None req = verifyFygaroSignature hmac config req ?next"
    using assms(2) by (simp add: post_payment_def fygaroEnabledGuard_def)
  show ?thesis
  proof (cases "rq_signature req")
    case (Some header)
    obtain ts hs where parsed: "parseSignatureHeader header = (ts, hs)" by (cases "parseSignatureHeader header")
    show ?thesis
    proof (cases "header = [] \<or> ?cs = [] \<or> ts = None \<or> hs = []")
      case True
      then show ?thesis
        unfolding post verifyFygaroSignature_def Let_def Some
        by (cases ts) (auto simp: parsed refused_done refused_alert)
    next
      case False
      then obtain t where t: "header \<noteq> []" "?cs \<noteq> []" "hs \<noteq> []" "ts = Some t" by auto
      have hashes: "refused (run_io (check_hashes hmac ?cs t hs (rq_rawBody req) ?next) (tl fs) s) s"
        if "Number_string t = Fin q" "\<not> outside_skew (clock s) (timestamp_ms t (Fin q)) (skewMs config)" for q
        using check_hashes_refuses [OF _ Some _ that] parsed t assms(1) enabled by blast
      show ?thesis
        unfolding post verifyFygaroSignature_def Let_def Some
        using t hashes by (cases "Number_string t") (simp_all add: parsed refused_done refused_alert)
    qed
  qed (simp add: post verifyFygaroSignature_def refused_done)
qed

definition ex_front :: FygaroConfig where
  "ex_front =
     \<lparr>fc_enabled = True, fc_credit_enabled = True, fc_checkout = None, fc_webhook_secrets = [(''k1'', ''one''), (''k2'', ''two'')],
      fc_timestampSkewMs = None\<rparr>"

definition ex_mac :: "string \<Rightarrow> string \<Rightarrow> string" where "ex_mac key msg = take 2 key @ drop (length msg - 1) msg"

definition ex_parse :: "string option \<Rightarrow> FygaroPaymentPayload" where
  "ex_parse raw =
     \<lparr>pp_transactionId = raw, pp_customReference = Some ''Alice'', pp_amount = Some ''60.00'', pp_currency = None,
      pp_client_email = None\<rparr>"

definition ex_forged :: webhook_request where
  "ex_forged =
     \<lparr>rq_path = ''/payment'', rq_signature = Some ''t=1800000000,v1=0102'', rq_keyId = Some ''k1'', rq_rawBody = Some ''T1''\<rparr>"

theorem only_signed_requests_handled_witness:
  "refused (run_io (post_payment ex_sha256 ex_mac ex_parse ex_front None ex_forged) [] ex_bank) ex_bank"
proof (rule only_signed_requests_handled)
  have "header_entries ''t=1800000000,v1=0102'' = [''t=1800000000'', ''v1=0102'']" by code_simp
  moreover have "hex_bytes ''0102'' \<noteq> ex_mac ''one'' (''1800000000'' @ ''.T1'')" "hex_bytes ''0102'' \<noteq> ex_mac ''two'' (''1800000000'' @ ''.T1'')"
    by code_simp+
  ultimately show "\<not> authentic ex_mac ex_front (clock ex_bank) ex_forged \<or> \<not> fc_enabled ex_front"
    by (auto simp: authentic_def ex_forged_def ex_front_def)
qed (simp add: ex_forged_def)

section \<open>Signed requests are handled\<close>

lemma entry_value_digits:
  assumes "digits t" "t \<noteq> []"
  shows "entry_value t"
proof -
  have "\<not> is_digit CHR '',''" by (simp add: is_digit_def)
  then have "is_digit (last t)" "CHR '','' \<notin> set t" using assms by (auto simp: digits_def list_all_iff)
  then show ?thesis using assms(2) by (simp add: entry_value_def digit_not_space)
qed

lemma entry_value_show: "0 \<le> n \<Longrightarrow> entry_value (show_int n)"
  using entry_value_digits [of "show_nat (nat n)"] by (simp add: show_int_nonneg)

lemma fresh_timestamp:
  assumes "0 \<le> n" "n < 10 ^ 11" "0 \<le> now" "now < 2 ^ 52" "\<bar>now - n * 1000\<bar> \<le> skew"
  shows "\<not> outside_skew now (timestamp_ms (show_int n) (Fin (of_int n))) skew"
proof -
  have "length (show_int n) \<le> 11" using show_nat_length [of "nat n" 11] assms(1,2) by (simp add: show_int_nonneg)
  moreover have "double (of_int (n * 1000)) = Fin (of_int (n * 1000))" using assms by (intro double_int) simp
  moreover have "fl (of_int (now - n * 1000)) = of_int (now - n * 1000)" using assms(1-4) by (intro fl_int) (simp add: abs_le_iff)
  ultimately show ?thesis
    using assms(5) by (simp add: timestamp_ms_def outside_skew_def of_int_abs [symmetric] del: of_int_abs)
qed

text \<open>
  A request for a body as the provider documents it: the header is
  \<open>t=<seconds>,v1=<hash>[,v1=<hash>...]\<close> with the hexadecimal code, under a secret that the request's key id
  selects, among its hashes, and the time is within the tolerance of the clock.
\<close>

definition signed_by_provider :: "(string \<Rightarrow> string \<Rightarrow> string) \<Rightarrow> FygaroConfig \<Rightarrow> int \<Rightarrow> webhook_request \<Rightarrow> string \<Rightarrow> bool" where
  "signed_by_provider hmac config now req body \<longleftrightarrow>
     rq_path req = ''/payment'' \<and> rq_rawBody req = Some body \<and> body \<noteq> ''''
     \<and> (\<exists>secret n hashes.
          Own_secret secret \<in> set (candidateSecrets (fc_webhook_secrets config) (rq_keyId req))
          \<and> rq_signature req = Some (signature_header (show_int n) hashes) \<and> list_all entry_value hashes
          \<and> hex_digest (hmac secret (show_int n @ CHR ''.'' # body)) \<in> set hashes
          \<and> hmac secret (show_int n @ CHR ''.'' # body) \<noteq> []
          \<and> 0 \<le> n \<and> n < 10 ^ 11 \<and> \<bar>now - n * 1000\<bar> \<le> skewMs config)"

lemma signed_reaches_handler:
  assumes "fc_enabled config" "signed_by_provider hmac config (clock s) req body" "0 \<le> clock s" "clock s < 2 ^ 52"
  shows "run_io (post_payment sha256 hmac parse config None req) fs s = run_io (paymentHandler sha256 config (parse (Some body))) (tl fs) s"
proof -
  from assms(2) obtain secret n hashes where
    req: "rq_path req = ''/payment''" "rq_rawBody req = Some body" "body \<noteq> ''''"
      "rq_signature req = Some (signature_header (show_int n) hashes)"
    and own: "Own_secret secret \<in> set (candidateSecrets (fc_webhook_secrets config) (rq_keyId req))"
    and hs: "list_all entry_value hashes" "hex_digest (hmac secret (show_int n @ CHR ''.'' # body)) \<in> set hashes"
      "hmac secret (show_int n @ CHR ''.'' # body) \<noteq> []"
    and n: "0 \<le> n" "n < 10 ^ 11" "\<bar>clock s - n * 1000\<bar> \<le> skewMs config"
    unfolding signed_by_provider_def by blast
  have "parseSignatureHeader (signature_header (show_int n) hashes) = (Some (show_int n), hashes)"
    using hs(1) n(1) by (intro header_reads_back entry_value_show)
  moreover have "Number_string (show_int n) = Fin (of_int n)" using n by (intro Number_string_show) simp_all
  moreover note fresh_timestamp [OF n(1,2) assms(3,4) n(3)]
  moreover have "some_candidate hmac (show_int n @ CHR ''.'' # body) hashes (candidateSecrets (fc_webhook_secrets config) (rq_keyId req)) = Inr True"
    using hs by (intro some_candidate_found [OF own own_candidates [OF own]])
  moreover have "hashes \<noteq> []" "candidateSecrets (fc_webhook_secrets config) (rq_keyId req) \<noteq> []" using own hs by auto
  moreover have "signature_header (show_int n) hashes \<noteq> []" by (cases hashes) (simp_all add: signature_header_def)
  ultimately show ?thesis
    using assms(1) req by (simp add: post_payment_def fygaroEnabledGuard_def verifyFygaroSignature_def check_hashes_def Let_def)
qed

text \<open>
  C11: A request that is signed as the provider documents is handled, also with several hashes as while
  secrets are rotated. Whatever calls fail, it does exactly what the handler does on the parsed body.
\<close>

theorem signed_request_handled:
  assumes "fc_enabled config" "signed_by_provider hmac config (clock s) req body" "0 \<le> clock s" "clock s < 2 ^ 52"
  shows "run_io (post_payment sha256 hmac parse config None req) fs s = run_io (paymentHandler sha256 config (parse (Some body))) (tl fs) s"
  by (rule signed_reaches_handler [OF assms])

definition ex_signed :: webhook_request where
  "ex_signed =
     \<lparr>rq_path = ''/payment'', rq_signature = Some (signature_header (show_int 1800000000) [''0102'', ''747731'']), rq_keyId = Some ''k2'',
      rq_rawBody = Some ''T1''\<rparr>"

lemma ex_signed_ok: "signed_by_provider ex_mac ex_front 1800000000000 ex_signed ''T1''"
proof -
  have mac: "hex_digest (ex_mac ''two'' (show_int 1800000000 @ CHR ''.'' # ''T1'')) = ''747731''"
    "ex_mac ''two'' (show_int 1800000000 @ CHR ''.'' # ''T1'') \<noteq> []" by code_simp+
  have "Own_secret ''two'' \<in> set (candidateSecrets (fc_webhook_secrets ex_front) (Some ''k2''))" "list_all entry_value [''0102'', ''747731'']"
    by code_simp+
  with mac show ?thesis
    unfolding signed_by_provider_def
    by (intro conjI exI [of _ "''two''"] exI [of _ 1800000000] exI [of _ "[''0102'', ''747731'']"])
       (simp_all add: ex_signed_def skewMs_def ex_front_def)
qed

theorem signed_request_handled_witness:
  "run_io (post_payment ex_sha256 ex_mac ex_parse ex_front None ex_signed) [] ex_bank =
     run_io (paymentHandler ex_sha256 ex_front (ex_parse (Some ''T1''))) [] ex_bank"
  using signed_request_handled [of ex_front ex_mac ex_bank ex_signed "''T1''" ex_sha256 ex_parse "[]"] ex_signed_ok
  by (simp add: ex_bank_def ex_front_def)

end
