(* ===== verification/FygaroJourney.thy ===== *)
theory FygaroJourney
  imports FygaroLiveness FygaroServer
begin

text \<open>
  From the authorisation to the credit: what an authorisation leaves behind when its calls work, that the
  payment of its link is read back as what was authorised, and that the gate still accepts it while the
  operator changes nothing and the account makes no other payment.
\<close>

section \<open>What an authorisation leaves behind\<close>

definition untouched :: "services \<Rightarrow> services \<Rightarrow> bool" where
  "untouched s t \<longleftrightarrow> clock t = clock s \<and> accounts t = accounts s \<and> wallets t = wallets s \<and> erp_rows t = erp_rows s
     \<and> erp_settings t = erp_settings s \<and> erp_discounts t = erp_discounts s \<and> mutexes t = mutexes s
     \<and> pay_replies t = pay_replies s \<and> invoices t = invoices s \<and> payments t = payments s"

definition known_discounts :: "services \<Rightarrow> bool" where
  "known_discounts s \<longleftrightarrow> (case discounts_cache s of Some (v, _) \<Rightarrow> v = discounts_of (erp_discounts s) | None \<Rightarrow> True)"

lemma known_discounts_cong:
  "discounts_cache t = discounts_cache s \<Longrightarrow> erp_discounts t = erp_discounts s \<Longrightarrow> known_discounts t = known_discounts s"
  by (simp add: known_discounts_def split: option.split)

lemma settings_remembered:
  assumes "run_io getFygaroSettings [] s = (v, t)"
  obtains k where "settings_cache t = Some (settings_at s, k)"
  using assms that
  by (auto simp: getFygaroSettings_def settings_at_def remember_settings_def ignoreI_def Let_def split: option.splits prod.splits if_splits)

lemma discounts_remembered:
  assumes "run_io (getFlashFeeDiscountPercent u Topup_flow) [] s = (v, t)" "known_discounts s"
  shows "known_discounts t"
  using assms
  by (auto simp: getFlashFeeDiscountPercent_def loadDiscounts_def run_bind known_discounts_def remember_discounts_def ignoreI_def Let_def
      split: option.splits prod.splits if_splits)

lemma run_check_again:
  assumes "run_io (check_again req checkout limit prior allow) [] s = (Authorized c rem False, t)"
  shows "c = checkout \<and> t = pruned (tr_accountId req) (tr_nowMs req) s"
  using assms
  by (auto simp: check_again_def run_bind run_outstanding releaseIntentReservation_def ignoreI_def rolled_back_def Let_def
      split: option.splits if_splits)

lemma run_minted:
  assumes "run_io (mint hmac master settings req prior allow) [] s = (Authorized c rem False, t)"
  shows "c = buildFygaroCheckout hmac master (tr_username req) (tr_intentId req) (tr_amountCents req) ''USD'' (tr_nowMs req)
    \<and> untouched s t \<and> settings_cache t = settings_cache s \<and> discounts_cache t = discounts_cache s
    \<and> redis_keys t = (redis_keys s)
        (cacheKey (tr_intentId req) \<mapsto> (Stored_intent (new_intent req c), clock s + (ma_ttlSeconds master + 3600) * 1000),
         claimKey (tr_intentId req) \<mapsto> (Stored_text (tr_intentId req), clock s + (ma_ttlSeconds master + 3600) * 1000))"
proof -
  define checkout where "checkout = buildFygaroCheckout hmac master (tr_username req) (tr_intentId req)
    (tr_amountCents req) ''USD'' (tr_nowMs req)"
  obtain u where u: "run_io (saveIntent (new_intent req checkout) (ma_ttlSeconds master)) [] s = (Inr (), u)"
    "untouched s u" "settings_cache u = settings_cache s" "discounts_cache u = discounts_cache s" "redis_keys u = (redis_keys s)
        (cacheKey (tr_intentId req) \<mapsto> (Stored_intent (new_intent req checkout), clock s + (ma_ttlSeconds master + 3600) * 1000),
         claimKey (tr_intentId req) \<mapsto> (Stored_text (tr_intentId req), clock s + (ma_ttlSeconds master + 3600) * 1000))"
    by (simp add: saveIntent_def ignoreI_def Let_def redis_set_def untouched_def) (simp add: new_intent_def)
  from assms u(1) have "run_io (check_again req checkout (dailyLimitCents settings (tr_level req)) prior allow) [] u = (Authorized c rem False, t)"
    by (simp add: mint_def Let_def run_bind checkout_def [symmetric])
  from run_check_again [OF this] u(2-5) show ?thesis by (auto simp: checkout_def [symmetric] untouched_def pruned_def)
qed

lemma run_decided:
  assumes "run_io (decide hmac master settings req prior rs discount) [] s = (Authorized c rem False, t)"
  obtains fees allow where "evaluateCreditGate True ''USD'' settings (tr_amountCents req) (tr_level req) (Some (prior + outstanding rs)) discount = Credit fees"
    "run_io (mint hmac master settings req prior allow) [] s = (Authorized c rem False, t)"
  using assms that
  by (auto simp: decide_def Let_def refuseOpenCheckout_def open_checkout_refusal_def run_bind split: CreditGate.splits option.splits if_splits prod.splits)

text \<open>
  The gate has accepted the amount with what the account has spent and holds, the link is for it, and the
  intent is stored; nothing else has changed but the index of holds and what the process remembers.
\<close>

lemma run_authorised:
  assumes run: "run_io (authorizeFygaroTopup hmac config acct u lv cents iid) [] s = (Authorized c rem False, t)" and disc: "known_discounts s"
  obtains master st w held fees k where "fygaroCheckoutMasterGate config = Some master" "settings_at s = Some st"
    "sum_rows (topup_rows acct (clock s - DAY_MS) None s) 0 None = Inr w" "0 \<le> held"
    "evaluateCreditGate True ''USD'' (Some st) cents lv (Some (tw_grossCents w + held)) (discount_at s u) = Credit fees"
    "c = buildFygaroCheckout hmac master u iid cents ''USD'' (clock s)" "untouched s t" "known_discounts t"
    "settings_cache t = Some (Some st, k)"
    "redis_keys t = (redis_keys s)
        (cacheKey iid \<mapsto> (Stored_intent (new_intent \<lparr>tr_accountId = acct, tr_username = u, tr_level = lv, tr_amountCents = cents,
            tr_nowMs = clock s, tr_intentId = iid\<rparr> c), clock s + (ma_ttlSeconds master + 3600) * 1000),
         claimKey iid \<mapsto> (Stored_text iid, clock s + (ma_ttlSeconds master + 3600) * 1000))"
proof -
  define req where "req = \<lparr>tr_accountId = acct, tr_username = u, tr_level = lv, tr_amountCents = cents, tr_nowMs = clock s, tr_intentId = iid\<rparr>"
  obtain k where k: "run_io getFygaroSettings [] s = (settings_at s, s\<lparr>settings_cache := k\<rparr>)" by (rule run_settings)
  obtain ms where ms: "k = Some (settings_at s, ms)" using settings_remembered [OF k] by auto
  define s1 where "s1 = s\<lparr>settings_cache := k\<rparr>"
  define s2 where "s2 = pruned acct (clock s) s1"
  obtain cd where cd: "run_io (getFlashFeeDiscountPercent (Some u) Topup_flow) [] s2 = (discount_at s2 u, s2\<lparr>discounts_cache := cd\<rparr>)"
    by (rule run_discount)
  define s3 where "s3 = s2\<lparr>discounts_cache := cd\<rparr>"
  obtain master where master: "fygaroCheckoutMasterGate config = Some master"
    and w1: "run_io (with_settings hmac master req (settings_at s)) [] s1 = (Authorized c rem False, t)"
    using run by (auto simp: authorizeFygaroTopup_def run_bind k s1_def req_def split: option.splits)
  have w2: "run_io (read_and_decide hmac master (settings_at s) req) [] s1 = (Authorized c rem False, t)"
    using w1 by (auto simp: with_settings_def refuseTransient_def ignoreI_def split: CreditGate.splits if_splits)
  have same: "topup_rows acct since None s1 = topup_rows acct since None s" "discount_at s2 u = discount_at s u" "clock s1 = clock s" for since
    by (auto simp: s1_def s2_def topup_rows_def discount_at_def discounts_at_def pruned_def split: option.splits)
  obtain w where w: "sum_rows (topup_rows acct (clock s - DAY_MS) None s) 0 None = Inr w"
    and w3: "run_io (decide hmac master (settings_at s) req (tw_grossCents w) (reservations_of (holds acct s2)) (discount_at s u)) [] s3 =
      (Authorized c rem False, t)"
    using w2 cd same
    by (auto simp: read_and_decide_def sumFygaroTopupGrossCentsLast24h_def run_bind run_window run_outstanding refuseTransient_def ignoreI_def
        req_def s2_def [symmetric] s3_def [symmetric] split: sum.splits)
  obtain fees allow where gate: "evaluateCreditGate True ''USD'' (settings_at s) cents lv
      (Some (tw_grossCents w + outstanding (reservations_of (holds acct s2)))) (discount_at s u) = Credit fees"
    and m: "run_io (mint hmac master (settings_at s) req (tw_grossCents w) allow) [] s3 = (Authorized c rem False, t)"
    using run_decided [OF w3] by (auto simp: req_def)
  from gate obtain st where st: "settings_at s = Some st" using gate_iff [of True "''USD''" "settings_at s"] by blast
  have held: "0 \<le> outstanding (reservations_of (holds acct s2))"
    unfolding outstanding_held held_cents_def by (intro sum_list_nonneg) (auto simp: entry_cents_nonneg)
  have "known_discounts s2" using disc by (subst known_discounts_cong [of _ s]) (simp_all add: s2_def s1_def pruned_def)
  from discounts_remembered [OF cd this] have "known_discounts s3" by (simp add: s3_def)
  moreover note minted = run_minted [OF m]
  ultimately have "known_discounts t" by (subst known_discounts_cong [of _ s3]) (simp_all add: untouched_def)
  with minted show thesis
    using that [OF master st w held gate [unfolded st]] ms st by (auto simp: req_def untouched_def s3_def s2_def s1_def pruned_def)
qed

section \<open>The gate at the payment\<close>

lemma sum_rows_filter: "sum_rows rows acc oldest = Inr w \<Longrightarrow> \<exists>v. sum_rows (filter P rows) acc' oldest' = Inr v"
  by (induction rows acc oldest arbitrary: acc' oldest' rule: sum_rows.induct) (auto split: if_splits option.splits)

lemma topup_rows_later:
  assumes "erp_rows t = erp_rows s" "since \<le> since'"
  obtains P where "topup_rows acct since' (Some rid) t = filter P (topup_rows acct since None s)"
proof -
  have "toFrappeDatetime since \<le> toFrappeDatetime since'" using assms(2) by (simp add: toFrappeDatetime_def zdiv_mono1)
  then have "topup_rows acct since' (Some rid) t = filter (\<lambda>r. row_request_id r \<noteq> rid
      \<and> (case row_last_seen_at r of Some x \<Rightarrow> toFrappeDatetime since' \<le> x | None \<Rightarrow> False)) (topup_rows acct since None s)"
    using assms(1) unfolding topup_rows_def filter_filter by (auto intro!: filter_cong split: option.splits)
  then show thesis by (rule that)
qed

text \<open>What the account has spent besides a payment does not grow while no other payment is recorded.\<close>

lemma later_prior:
  assumes "sum_rows (topup_rows (ac_id a) (clock s - DAY_MS) None s) 0 None = Inr w" "amounts_nonneg s"
    and "erp_rows t = erp_rows s" "clock s \<le> clock t"
  obtains p where "prior_at t a d = Some p" "p \<le> tw_grossCents w"
proof -
  obtain P where P: "topup_rows (ac_id a) (clock t - DAY_MS) (Some (request_id d)) t = filter P (topup_rows (ac_id a) (clock s - DAY_MS) None s)"
    using topup_rows_later [OF assms(3), of "clock s - DAY_MS" "clock t - DAY_MS"] assms(4) by auto
  obtain v where v: "sum_rows (filter P (topup_rows (ac_id a) (clock s - DAY_MS) None s)) 0 None = Inr v"
    using sum_rows_filter [OF assms(1)] by blast
  have nonneg: "list_all (\<lambda>r. 0 \<le> cents_or_0 r) (topup_rows (ac_id a) (clock s - DAY_MS) None s)"
    using assms(2) by (auto simp: amounts_nonneg_def topup_rows_def list_all_iff)
  have "tw_grossCents v \<le> tw_grossCents w"
    using sum_rows_gross [OF v] sum_rows_gross [OF assms(1)] sum_filter_mono [OF nonneg, of "\<lambda>r. P r \<and> counts r" counts]
    by (simp add: filter_filter)
  moreover have "prior_at t a d = Some (tw_grossCents v)" by (simp add: prior_at_def P v)
  ultimately show thesis using that by blast
qed

lemma gate_prior_mono:
  assumes "evaluateCreditGate True ''USD'' (Some st) cents lv (Some (p + held)) disc = Credit fees" "0 \<le> held" "p' \<le> p"
  shows "evaluateCreditGate True ''USD'' (Some st) cents lv (Some p') disc = Credit fees"
  using assms by (auto simp: evaluateCreditGate_def Let_def split: option.splits if_splits)

lemma gate_fees: "evaluateCreditGate on currency (Some st) cents lv prior disc = Credit fees \<Longrightarrow> fees = computeFygaroFees cents st disc"
  by (auto simp: evaluateCreditGate_def Let_def split: option.splits if_splits)

lemma settings_known: "known_settings st s \<Longrightarrow> settings_at s = Some st' \<Longrightarrow> st' = st"
  by (auto simp: known_settings_def settings_at_def split: option.splits if_splits)

lemma discounts_known: "known_discounts s \<Longrightarrow> discounts_at s = discounts_of (erp_discounts s)"
  by (auto simp: known_discounts_def discounts_at_def split: option.splits)

lemma discount_known:
  "known_discounts s \<Longrightarrow> known_discounts t \<Longrightarrow> erp_discounts t = erp_discounts s \<Longrightarrow> discount_at t u = discount_at s u"
  by (simp add: discount_at_def discounts_known)

section \<open>The payment of a link\<close>

definition pays_link :: "FygaroPaymentPayload \<Rightarrow> FygaroCheckout \<Rightarrow> int \<Rightarrow> string \<Rightarrow> bool" where
  "pays_link p c cents tx \<longleftrightarrow>
     pp_transactionId p = Some tx \<and> tx \<noteq> '''' \<and> pp_customReference p = Some (fy_customReference c)
     \<and> pp_amount p = Some (formatFygaroAmount cents) \<and> pp_currency p = Some ''USD''"

definition dv_ttl :: "FygaroConfig \<Rightarrow> int" where
  "dv_ttl config = (case Option.bind (fc_checkout config) co_ttlSeconds of Some t \<Rightarrow> t | None \<Rightarrow> DEFAULT_TTL_SECONDS)"

lemma link_delivery:
  assumes "pays_link p (buildFygaroCheckout hmac master u iid cents ''USD'' now) cents tx"
    and "reference_part u" "reference_part iid" "0 < cents" "cents < 2 ^ 40"
  obtains d where "delivery_of config p = Some d" "dv_transactionId d = tx" "dv_grossCents d = cents" "dv_currency d = ''USD''"
    "dv_intentId d = Some iid" "Option.bind (dv_reference d) ref_username \<in> {Some u, None}" "dv_creditEnabled d = fc_credit_enabled config"
    "dv_ttlSeconds d = dv_ttl config"
proof -
  have paid: "paid_cents (formatFygaroAmount cents) = Some cents" using assms(4,5) by (intro paid_cents_format) simp_all
  then obtain q where q: "finite_number (Number_string (formatFygaroAmount cents)) = Some q" "usd_to_cents q = cents"
    by (auto simp: paid_cents_def)
  have "paid_cents [] = Some 0" by code_simp
  with paid assms(4) have "formatFygaroAmount cents \<noteq> []" by auto
  moreover have "toUpperCase ''USD'' = ''USD''" by code_simp
  moreover have "parseCustomReference (pp_customReference p) \<in>
      {Some \<lparr>ref_username = Some u, ref_intentId = Some iid\<rparr>, Some \<lparr>ref_username = None, ref_intentId = Some iid\<rparr>}"
    using assms(1-3) parse_with_username [OF assms(2,3)] parse_intent_only [OF assms(3)]
    by (auto simp: pays_link_def buildFygaroCheckout_def checkout_payload_def buildCustomReference_def reference_part_def Let_def)
  ultimately show thesis
    using assms(1) q that by (auto simp: delivery_of_def pays_link_def dv_intentId_def dv_ttl_def)
qed

text \<open>The state in which the payment of a link arrives, some time after the authorisation.\<close>

definition later :: "services \<Rightarrow> nat \<Rightarrow> services" where
  "later s n = s\<lparr>clock := clock s + int n\<rparr>"

text \<open>
  What the payment of a link meets: the operator's documents and what the process remembers of them agree,
  amounts are not negative, the account is found by its username, and the transaction is new.
\<close>

definition steady :: "FygaroSettings \<Rightarrow> services \<Rightarrow> fy_account \<Rightarrow> string \<Rightarrow> string \<Rightarrow> bool" where
  "steady st s a u tx \<longleftrightarrow> known_settings st s \<and> known_discounts s \<and> amounts_nonneg s
     \<and> read_account (By_username u) s = Inr a \<and> ac_username a = Some u
     \<and> find_row (''fygaro:'' @ tx) s = None
     \<and> \<not> mutexes s (getPaymentIdempotencyKeyLockResource (''fygaro-payment:'' @ tx))"

lemma later_fields [simp]:
  "clock (later s n) = clock s + int n" "accounts (later s n) = accounts s" "wallets (later s n) = wallets s" "erp_rows (later s n) = erp_rows s"
  "mutexes (later s n) = mutexes s" "pay_replies (later s n) = pay_replies s" "redis_keys (later s n) = redis_keys s"
  "erp_settings (later s n) = erp_settings s" "erp_discounts (later s n) = erp_discounts s" "settings_cache (later s n) = settings_cache s"
  "discounts_cache (later s n) = discounts_cache s" "invoices (later s n) = invoices s" "payments (later s n) = payments s"
  by (simp_all add: later_def)

lemma gate_later:
  assumes steady: "steady st s a u tx" and w: "sum_rows (topup_rows (ac_id a) (clock s - DAY_MS) None s) 0 None = Inr w"
    and gate: "evaluateCreditGate True ''USD'' (Some st) cents lv (Some (tw_grossCents w + held)) (discount_at s u) = Credit fees" "0 \<le> held"
    and after: "untouched s s1" "known_discounts s1" "settings_cache s1 = Some (Some st, k)"
  shows "evaluateCreditGate True ''USD'' (settings_at (later s1 n)) cents lv (prior_at (later s1 n) a d) (account_discount (later s1 n) a) = Credit fees"
proof -
  obtain p where p: "prior_at (later s1 n) a d = Some p" "p \<le> tw_grossCents w"
    using later_prior [of a s w "later s1 n" d, OF w] steady after(1) by (auto simp: steady_def untouched_def)
  have "settings_at (later s1 n) = Some st"
    using steady after(1,3) by (auto simp: steady_def settings_at_def known_settings_def untouched_def)
  moreover have "account_discount (later s1 n) a = discount_at s u"
    using steady discount_known [of s "later s1 n" u] known_discounts_cong [of "later s1 n" s1] after(1,2)
    by (simp add: steady_def account_discount_def untouched_def)
  ultimately show ?thesis using gate_prior_mono [OF gate p(2)] p(1) by simp
qed

lemma paid_link_is_credited:
  assumes link: "run_io (authorizeFygaroTopup hmac (Some config) (ac_id a) u (ac_level a) cents iid) [] s = (Authorized c rem False, s1)"
    and names: "reference_part u" "reference_part iid" "0 < cents" "cents < 2 ^ 40"
    and steady: "steady st s a u tx"
    and pay: "can_pay s a (netCents (computeFygaroFees cents st (discount_at s u))) tx fw rw amt"
    and paid: "pays_link p c cents tx" and time: "clock s + int n \<le> fy_expiresAt c" and ttl: "0 \<le> dv_ttl config"
  obtains t d i where "run_io (paymentHandler hash config p) [] (later s1 n) = (Response 200 Success_credited, t)"
    "credited (later s1 n) t d fw rw amt" "untouched s s1" "dv_intentId d = Some iid" "fc_enabled config" "dv_transactionId d = tx"
    "intent_at (later s1 n) d = Some i" "in_accountId i = ac_id a" "in_amountCents i = cents"
proof -
  from steady have kd: "known_discounts s" by (simp add: steady_def)
  obtain master st' w held fees k where auth: "fygaroCheckoutMasterGate (Some config) = Some master" "settings_at s = Some st'"
    "sum_rows (topup_rows (ac_id a) (clock s - DAY_MS) None s) 0 None = Inr w" "0 \<le> held"
    "evaluateCreditGate True ''USD'' (Some st') cents (ac_level a) (Some (tw_grossCents w + held)) (discount_at s u) = Credit fees"
    and c: "c = buildFygaroCheckout hmac master u iid cents ''USD'' (clock s)"
    and after: "untouched s s1" "known_discounts s1" "settings_cache s1 = Some (Some st', k)"
    and keys: "redis_keys s1 = (redis_keys s)
        (cacheKey iid \<mapsto> (Stored_intent (new_intent \<lparr>tr_accountId = ac_id a, tr_username = u, tr_level = ac_level a, tr_amountCents = cents,
            tr_nowMs = clock s, tr_intentId = iid\<rparr> c), clock s + (ma_ttlSeconds master + 3600) * 1000),
         claimKey iid \<mapsto> (Stored_text iid, clock s + (ma_ttlSeconds master + 3600) * 1000))"
    by (rule run_authorised [OF link kd])
  define i where "i = new_intent \<lparr>tr_accountId = ac_id a, tr_username = u, tr_level = ac_level a, tr_amountCents = cents,
            tr_nowMs = clock s, tr_intentId = iid\<rparr> c"
  have st': "st' = st" using steady settings_known [OF _ auth(2)] by (simp add: steady_def)
  obtain d where d: "delivery_of config p = Some d" "dv_transactionId d = tx" "dv_grossCents d = cents" "dv_currency d = ''USD''"
    "dv_intentId d = Some iid" "Option.bind (dv_reference d) ref_username \<in> {Some u, None}" "dv_creditEnabled d = fc_credit_enabled config"
    "dv_ttlSeconds d = dv_ttl config"
    by (rule link_delivery [OF paid [unfolded c] names])
  have "clock s + int n < clock s + (ma_ttlSeconds master + 3600) * 1000"
    using time checkout_expiry [of hmac master u iid cents "''USD''" "clock s"] unfolding c [symmetric] by (simp add: algebra_simps)
  then have intent: "intent_at (later s1 n) d = Some i"
    using after(1) by (simp add: intent_at_def d(5) redis_get_def keys i_def untouched_def cacheKey_def claimKey_def)
  have i: "in_username i = u" "in_accountId i = ac_id a" "in_amountCents i = cents" by (simp_all add: i_def new_intent_def)
  have on: "fc_enabled config" "fc_credit_enabled config" using auth(1) by (auto simp: fygaroCheckoutMasterGate_def split: if_splits)
  have "delivery_gate d a (intent_at (later s1 n) d) (settings_at (later s1 n)) (prior_at (later s1 n) a d) (account_discount (later s1 n) a) =
      Credit fees"
    using gate_later [OF steady auth(3) auth(5,4) [unfolded st'] after [unfolded st']] intent i(2,3) d(3,4,7) on(2)
    by (simp add: delivery_gate_def intent_mismatch_def)
  moreover have "can_pay (later s1 n) a (netCents fees) (dv_transactionId d) fw rw amt"
  proof -
    have "netCents fees = netCents (computeFygaroFees cents st (discount_at s u))" using gate_fees [OF auth(5)] st' by simp
    then show ?thesis
      using can_pay_cong [OF pay, of "later s1 n"] after(1) keys d(2) by (simp add: untouched_def cacheKeyFor_def cacheKey_def claimKey_def)
  qed
  moreover have "named_user (later s1 n) d = Some u" using d(6) intent i(1) by (auto simp: named_user_def)
  moreover have "u \<noteq> ''''" using names(1) by (simp add: reference_part_def)
  moreover have "read_account (By_username u) (later s1 n) = Inr a" "open_row (later s1 n) d"
    "\<not> mutexes (later s1 n) (getPaymentIdempotencyKeyLockResource (payment_key d))"
    using steady after(1) d(2) read_account_cong [of "later s1 n" s] find_row_cong [of "later s1 n" s]
    by (simp_all add: steady_def untouched_def open_row_def status_at_def request_id_def payment_key_def)
  ultimately obtain t where "run_io (handle_delivery hash d) [] (later s1 n) = (Response 200 Success_credited, t)" "credited (later s1 n) t d fw rw amt"
    using run_handled [of "later s1 n" d u a fees fw rw amt hash] ttl d(8) by auto
  then show thesis using that d intent i after(1) on(1) by (auto simp: paymentHandler_def)
qed

end
