(* ===== verification/Spec2Isabelle.thy ===== *)
theory Spec2Isabelle
  imports PaymentFlowBuilder CutoverLiveness CutoverLifecycle CutoverRouting CutoverRuntime
    FygaroJourney
begin

text \<open>
  A verification library for the Flash backend, a TypeScript service that keeps custodial wallets in
  bitcoin, US dollars and USDT. Paths below are those of the program, under \<open>src/\<close> of the repository.
  Three parts of it are modelled, with what they use: the \<^bold>\<open>money arithmetic\<close> and the lightning payment
  flows on it, the \<^bold>\<open>cash wallet cutover\<close>, which moves every account's dollars from a USD to a USDT
  wallet, and the \<^bold>\<open>card top-ups\<close> through the provider Fygaro.

  \<^bold>\<open>Conventions.\<close> A class or object type is a record, a tagged union a datatype, a BigInt an \<open>int\<close>, a
  number a rational rounded to doubles by \<open>fl\<close> where the code computes with fractions. An operation that
  returns an Error or throws has the type \<open>'a result = error + 'a\<close>, \<open>Inl\<close> being the error. A text is its
  list of bytes. The state-passing type \<open>('s, 'a) act\<close> models the asynchronous code of the cutover, whose
  steps run under a lock; the programs \<open>'a io\<close>, which stop at every awaited call, model the card top-ups,
  where requests interleave.

  \<^bold>\<open>Shared theories.\<close> \<open>Prelude\<close> (errors, results, BigInt division, combinators), \<open>Decimal\<close> (digit strings),
  \<open>Doubles\<close> (IEEE rounding, \<open>toFixed\<close>) and \<open>JsText\<close> (strings, \<open>Number(text)\<close>, \<open>BigInt(text)\<close>) hold what the code
  uses of the language.

  \<^bold>\<open>Money and payment flows.\<close>
  \<^item> \<open>BigintMoney\<close>: \<open>domain/shared/bigint-money/\<close>. Division is the nearest integer with ties to even;
    printing and parsing are inverse up to the rounding asked for; \<open>allocate\<close> conserves the amount within the
    bounds its property states, and can create money beyond them (\<open>allocate_can_create\<close>).
  \<^item> \<open>Amounts\<close>: \<open>domain/shared/{calculator,safe,amount,MoneyAmount}.ts\<close> and \<open>domain/shared/money/\<close>. Floor,
    ceiling and nearest quotients; conversions between cents and micro units.
  \<^item> \<open>PriceRatio\<close>: \<open>domain/payments/{price-ratio,ln-fees,route-validator}.ts\<close>. Conversions are exactly
    the floor, the ceiling and the nearest, ordered and a cent apart at most; the fee caps; the double
    arithmetic of display amounts and of the route check decides what exact arithmetic would.
  \<^item> \<open>PaymentFlow\<close>, \<open>PaymentFlowBuilder\<close>: \<open>domain/payments/payment-flow{,-builder}.ts\<close> and
    \<open>app/payments/helpers.ts\<close>. A built flow has the parties, amounts and fees that were entered.

  \<^bold>\<open>Cash wallet cutover\<close> (\<open>app/cash-wallet-cutover/\<close>).
  \<^item> \<open>CutoverTypes\<close>, \<open>CutoverAmounts\<close>: the records, the transition table and the amounts.
  \<^item> \<open>CutoverRepository\<close>: \<open>services/mongoose/cash-wallet-cutover.ts\<close> on the state \<open>mongo\<close>, two collections and the
    list \<open>upcoming\<close> of what the driver does at each call (answer, or raise before or after executing). The
    locale \<open>migration_store\<close> is the contract the other files rely on, interpreted on this repository.
  \<^item> \<open>CutoverWorker\<close> (\<open>worker.ts\<close>, \<open>handlers.ts\<close>, \<open>executor.ts\<close>, \<open>runner.ts\<close>, \<open>orchestrator.ts\<close>), \<open>CutoverRollback\<close>
    (\<open>rollback-worker.ts\<close>, \<open>rollback.ts\<close>, \<open>retry-failed.ts\<close>, \<open>lifecycle.ts\<close>), \<open>CutoverPrepare\<close> (discovery, preflight,
    plan, provisioning), \<open>CutoverRouting\<close> (guard, presentation, routing) and \<open>CutoverRuntime\<close>
    (\<open>runtime-services.ts\<close>): one definition per function.
  \<^item> \<open>CutoverMachine\<close>: the abstract machine of one migration and its invariant \<open>migration_wf\<close>. \<open>CutoverSafety\<close>
    proves over the locales \<open>migration_env\<close> and \<open>batch_store\<close> that every operation refines it; \<open>CutoverSystem\<close>
    interprets them for any services next to the repository and gives the properties of all reachable
    states: well-formed migrations, recorded payments kept, steps along the table. These are properties of
    what is recorded; a payment whose recording failed is outside of them.
  \<^item> \<open>CutoverPayments\<close>: which payments a step makes. The services log every payment with its answer, every
    invoice and every balance that was read; the log of a step determines how many payments it asks for, from
    which wallet, of which invoice and amount, and that success means recorded. \<open>CutoverLiveness\<close>: at most
    thirteen steps, the length of the table's forward path, complete a migration. \<open>CutoverLifecycle\<close>: locks and
    completion of a run. \<open>CutoverPrepare\<close> also has what a preparation plans and stores, and what a retry skips.

  \<^bold>\<open>Card top-ups.\<close>
  \<^item> \<open>FygaroFees\<close> (\<open>services/frappe/{coerce,fee-discounts}.ts\<close>, \<open>services/fygaro/webhook-server/{fygaro-settings,fees}.ts\<close>):
    validated settings, fees that add up, the credit gate. \<open>FygaroCheckout\<close> (\<open>services/fygaro/checkout.ts\<close>): the
    signed link and that the webhook reads back what was put into it.
  \<^item> \<open>FygaroIo\<close>: programs, the state \<open>services\<close> of Redis, ERPNext, repositories and IBEX, and \<open>perform\<close>, the
    documented effect of each call. A call works, is lost, or is carried out and reported as failed.
    \<open>FygaroConcurrency\<close>: interleaved runs of any number of programs; the locale \<open>concurrent\<close> is rely and guarantee.
    \<open>FygaroPrograms\<close>: which calls a program may make, given the documents and states of a \<open>world\<close> that its run
    comes through (\<open>visits\<close>); the locale \<open>discipline\<close> lifts that to interleaved runs.
  \<^item> \<open>FygaroIntents\<close> (\<open>checkout-intent-store.ts\<close>, \<open>app/fygaro/topup-status.ts\<close>), \<open>FygaroTopups\<close> (the audit rows in
    \<open>services/frappe/\<close>), \<open>FygaroAuthorize\<close> (\<open>app/fygaro/{authorize-topup,topup-allowance}.ts\<close>), \<open>PaymentIdempotency\<close>
    (\<open>app/payments/{send-intraledger,idempotency}.ts\<close>), \<open>FygaroWebhook\<close> (\<open>webhook-server/{credit-topup,routes/payment}.ts\<close>), \<open>FygaroServer\<close>
    (\<open>webhook-server/middleware/{enabled-guard,verify-signature}.ts\<close> and the payment route): the programs, each await of the
    code one call. \<open>FygaroServer\<close> also shows that only signed requests are handled, and that signed ones are.
  \<^item> \<open>FygaroReservations\<close>: concurrent authorisations do not issue more than the daily allowance.
    \<open>FygaroAllowance\<close>: the allowance shown is the allowance granted. \<open>PaymentIdempotency\<close>: sends under one key pay
    once (locale \<open>phased\<close>, the phases of a program around a guarded send). \<open>FygaroCredits\<close>: what deliveries pay
    passed the gate with the operator's settings, and stored outcomes only advance (locale \<open>webhook_calls\<close>). \<open>FygaroOnce\<close>: deliveries of one
    payment credit it once, by interpreting \<open>phased\<close> on the whole handler.
  \<^item> \<open>FygaroLiveness\<close>: runs of the handler whose calls work. What the gate accepts reaches the credit and is
    paid; a replayed credit is reported as failed; a send whose cache cannot be read is paid twice.
    \<open>FygaroJourney\<close>: what an authorisation leaves behind is what the gate at the payment asks for. This theory joins
    them: a top-up that is authorised, paid and signed is credited and reported as credited.

  \<^bold>\<open>Parameters.\<close> Code outside the repository is an argument: the custodian's client, the dealer's prices, the
  invoice decoder, the table of currency exponents, SHA-256 and HMAC, random identifiers, the clock. Theorems
  assume of them only what their statements name; each has a witness at a concrete instance.

  \<^bold>\<open>Bounds.\<close> No fuel is used where the code has none: loops are structural, or bounded by constants of the
  code (the attempts of a rate-limited call, three attempts to stamp an outcome). Interleaved runs are lists of
  events of any length. The properties on single payments hold within the 24 hours the code keeps an
  outcome, and for the faults their statements allow.

  \<^bold>\<open>Not modelled.\<close> The operator's dashboard, audit and scripts of the cutover print reports and call the modelled
  operations. Of the webhook server the Express wiring, the rate limiter, the creation time of a row and push
  delivery are left out. A lock is held until it is released: that it expires when its holder crashes is not
  modelled, nor is an operator's request in the middle of a step of the cutover, whose operations follow one
  another. GraphQL resolvers, servers, tracing, logging and configuration loading transport values;
  LND, Bria, Loop, the dealer, Bridge, Kratos and notification services are clients of external systems, whose
  behaviour is not in the repository; protobufs are generated.
\<close>

section \<open>From the authorisation to the credit\<close>

lemma run_status:
  assumes "intent_at t d = Some j" "dv_intentId d = Some iid" "in_accountId j = acct"
  shows "\<exists>report. fst (run_io (getFygaroTopupStatus iid acct) [] t) = Status report
    \<and> ts_state report = stateFor (in_outcome j) \<and> ts_authorizedAmountCents report = in_amountCents j"
proof -
  have "redis_get t (cacheKey iid) = Some (Stored_intent j)"
    using assms(1,2) by (auto simp: intent_at_def split: option.splits stored.splits)
  then show ?thesis
    using assms(3) by (simp add: getFygaroTopupStatus_def readIntent_def run_bind of_option_def Let_def)
qed

text \<open>
  C25: A top-up that is authorised and paid is credited. An authorisation whose calls work mints a link.
  Before the link expires the provider delivers its payment, a request signed as documented whose body
  has the link's reference and amount. Meanwhile the operator has changed neither the settings nor the
  discounts and the account has made no other payment; the treasury can pay. Then the request, if its calls
  work, is answered with success. The account gets exactly one invoice, of the net amount that was
  computed when the link was authorised, the treasury pays it once, and the status query answers the account that
  the amount it authorised is credited. No authorised payment is held back by a gate or a cross-check.
\<close>

theorem authorised_payment_is_credited:
  fixes hash :: "string \<Rightarrow> string" and hmac :: "string \<Rightarrow> string \<Rightarrow> string"
  assumes "run_io (authorizeFygaroTopup hmac (Some config) (ac_id a) u (ac_level a) cents iid) [] s = (Authorized c rem False, s1)"
    and "reference_part u" "reference_part iid" "0 < cents" "cents < 2 ^ 40" "steady st s a u tx"
    and "can_pay s a (netCents (computeFygaroFees cents st (discount_at s u))) tx fw rw amt"
    and "pays_link (parse (Some body)) c cents tx" "clock s + int n \<le> fy_expiresAt c" "0 \<le> dv_ttl config"
    and signed: "signed_by_provider hmac config (clock s + int n) req body" "0 \<le> clock s" "clock s + int n < 2 ^ 52"
  shows "\<exists>t. run_io (post_payment hash hmac parse config None req) [] (later s1 n) = (Response 200 Success_credited, t)
    \<and> invoices t = invoices s @ [(wa_id rw, amt, credit_memo tx)]
    \<and> payments t = payments s @ [(wa_id fw, show_nat (length (invoices s)))]
    \<and> (\<exists>report. fst (run_io (getFygaroTopupStatus iid (ac_id a)) [] t) = Status report
        \<and> ts_state report = Status_credited \<and> ts_authorizedAmountCents report = cents)"
proof -
  obtain t d i where run: "run_io (paymentHandler hash config (parse (Some body))) [] (later s1 n) = (Response 200 Success_credited, t)"
    and cr: "credited (later s1 n) t d fw rw amt" and same: "untouched s s1" and d: "dv_intentId d = Some iid" and on: "fc_enabled config"
    and tx: "dv_transactionId d = tx" and i: "intent_at (later s1 n) d = Some i" "in_accountId i = ac_id a" "in_amountCents i = cents"
    by (rule paid_link_is_credited [OF assms(1-10)])
  have "run_io (post_payment hash hmac parse config None req) [] (later s1 n) = (Response 200 Success_credited, t)"
    using signed_reaches_handler [OF on, of hmac "later s1 n" req body hash parse "[]"] signed same run by (simp add: untouched_def)
  moreover from cr i(1) obtain j where j: "intent_at t d = Some j" "j\<lparr>in_outcome := None\<rparr> = i\<lparr>in_outcome := None\<rparr>"
    "stateFor (in_outcome j) = Status_credited" by (auto simp: credited_def stamped_def split: option.splits)
  moreover from j(2) i(2,3) have "in_accountId j = ac_id a" "in_amountCents j = cents" by (cases i; cases j; simp)+
  ultimately show ?thesis
    using run_status [OF j(1) d] cr same tx by (auto simp: credited_def untouched_def)
qed

definition ex_link_config :: FygaroConfig where
  "ex_link_config = ex_front\<lparr>fc_checkout := Some \<lparr>co_enabled = True, co_buttonUrl = ''https://b'', co_keyId = ''k1'', co_ttlSeconds = None\<rparr>\<rparr>"

definition ex_link_payload :: FygaroPaymentPayload where
  "ex_link_payload =
     \<lparr>pp_transactionId = Some ''T1'', pp_customReference = Some ''alice|i1'', pp_amount = Some ''60.00'', pp_currency = Some ''USD'',
      pp_client_email = None\<rparr>"

definition ex_link_request :: webhook_request where
  "ex_link_request =
     \<lparr>rq_path = ''/payment'', rq_signature = Some (signature_header (show_int 1800000060) [''6f6e31'']), rq_keyId = Some ''k1'',
      rq_rawBody = Some ''T1''\<rparr>"

lemma ex_link_signed: "signed_by_provider ex_mac ex_link_config (1800000000000 + int 60000) ex_link_request ''T1''"
proof -
  have "Own_secret ''one'' \<in> set (candidateSecrets (fc_webhook_secrets ex_link_config) (rq_keyId ex_link_request))" "list_all entry_value [''6f6e31'']"
    "hex_digest (ex_mac ''one'' (show_int 1800000060 @ CHR ''.'' # ''T1'')) = ''6f6e31''"
    "ex_mac ''one'' (show_int 1800000060 @ CHR ''.'' # ''T1'') \<noteq> []" by code_simp+
  moreover have "0 \<le> skewMs ex_link_config" by code_simp
  ultimately show ?thesis
    unfolding signed_by_provider_def
    by (intro conjI exI [of _ "''one''"] exI [of _ "1800000060::int"] exI [of _ "[''6f6e31'']"]) (simp_all add: ex_link_request_def)
qed

definition ex_link :: "AuthorizeTopupResult \<times> services" where
  "ex_link = run_io (authorizeFygaroTopup ex_mac (Some ex_link_config) ''acc1'' ''alice'' (ac_level ex_alice) 6000 ''i1'') [] ex_shop"

theorem authorised_payment_is_credited_witness:
  "\<exists>t. run_io (post_payment ex_sha256 ex_mac (\<lambda>_. ex_link_payload) ex_link_config None ex_link_request) [] (later (snd ex_link) 60000) =
       (Response 200 Success_credited, t)
    \<and> payments t = [(ex_wallet_a, ''0'')]
    \<and> (\<exists>report. fst (run_io (getFygaroTopupStatus ''i1'' ''acc1'') [] t) = Status report
        \<and> ts_state report = Status_credited \<and> ts_authorizedAmountCents report = 6000)"
proof -
  let ?fw = "ex_usd_wallet ex_wallet_a ''bank''" and ?rw = "ex_usd_wallet ex_wallet_b ''acc1''"
  define st where "st = the (validateFygaroSettings (erp_settings ex_shop))"
  have "case ex_link of (Authorized c rem reused, s) \<Rightarrow> \<not> reused \<and> fy_customReference c = ''alice|i1'' \<and> fy_expiresAt c = 1800000900000
      | _ \<Rightarrow> False" by code_simp
  then obtain c rem s1 where link: "ex_link = (Authorized c rem False, s1)" and c: "fy_customReference c = ''alice|i1''" "fy_expiresAt c = 1800000900000"
    by (auto split: prod.splits AuthorizeTopupResult.splits)
  have names: "reference_part ''alice''" "reference_part ''i1''" by code_simp+
  have "validateFygaroSettings (erp_settings ex_shop) \<noteq> None" by code_simp
  then have "validateFygaroSettings (erp_settings ex_shop) = Some st" by (auto simp: st_def)
  moreover have "settings_cache ex_shop = None" "known_discounts ex_shop" by (simp_all add: known_discounts_def ex_shop_def ex_bank_def)
  moreover have "amounts_nonneg ex_shop" "read_account (By_username ''alice'') ex_shop = Inr ex_alice"
    "ac_username ex_alice = Some ''alice''" "find_row (''fygaro:'' @ ''T1'') ex_shop = None"
    "\<not> mutexes ex_shop (getPaymentIdempotencyKeyLockResource (''fygaro-payment:'' @ ''T1''))" by code_simp+
  ultimately have steady: "steady st ex_shop ex_alice ''alice'' ''T1''" by (simp add: steady_def known_settings_def)
  have "can_pay ex_shop ex_alice (netCents (computeFygaroFees 6000 (the (validateFygaroSettings (erp_settings ex_shop))) (discount_at ex_shop ''alice'')))
      ''T1'' ?fw ?rw (ex_usd 5621)" by code_simp
  then have pay: "can_pay ex_shop ex_alice (netCents (computeFygaroFees 6000 st (discount_at ex_shop ''alice''))) ''T1'' ?fw ?rw (ex_usd 5621)"
    by (simp add: st_def)
  have paid: "pays_link ex_link_payload c 6000 ''T1''"
  proof -
    have "formatFygaroAmount 6000 = ''60.00''" by code_simp
    then show ?thesis using c(1) by (simp add: pays_link_def ex_link_payload_def)
  qed
  have run: "run_io (authorizeFygaroTopup ex_mac (Some ex_link_config) (ac_id ex_alice) ''alice'' (ac_level ex_alice) 6000 ''i1'') [] ex_shop =
      (Authorized c rem False, s1)" using link by (simp add: ex_link_def ex_alice_def ex_account_def)
  have shop: "clock ex_shop = 1800000000000" "payments ex_shop = []" "invoices ex_shop = []" "ac_id ex_alice = ''acc1''"
    by (simp_all add: ex_shop_def ex_bank_def ex_alice_def ex_account_def)
  have zero: "show_nat 0 = ''0''" and "0 \<le> dv_ttl ex_link_config" by code_simp+
  then show ?thesis
    using authorised_payment_is_credited [where hash = ex_sha256 and parse = "\<lambda>_. ex_link_payload" and body = "''T1''", OF run names _ _ steady pay paid, of 60000 ex_link_request]
      ex_link_signed c(2) shop by (auto simp: ex_usd_wallet_def zero link)
qed

end
